(* ===== verification/Go_Prelude.thy ===== *)
theory Go_Prelude
  imports Main "HOL-Library.AList" "HOL-Library.Word" "HOL-Library.Multiset"
    "HOL-Library.List_Lexorder" "HOL-Library.Char_ord"
begin

text \<open>
  What the components share: the parts of the Go language and of its standard library that the
  source uses (byte strings, 64-bit integers, maps, contexts, \<open>strings.Split\<close>, the
  first-occurrence filter), with the generic lemmas about them and the development's
  theorem collections.

  A Go \<open>string\<close> is a byte string, as is HOL's \<open>string\<close> (a \<open>char\<close> is eight bits).
  A Go \<open>map\<close> is an association list with distinct keys; the order of the list is the order
  in which one \<open>range\<close> visits the map. The definitions work on any such list, so a
  theorem about all of them covers every iteration order, and a result that depends on the order is
  stated up to permutation.
\<close>

named_theorems gomap_simps \<open>lookup equations and well-formedness of Go maps\<close>
named_theorems inv_intros \<open>preservation of the components' invariants\<close>

subsection \<open>Bytes and integers\<close>

type_synonym byte = "8 word"

text \<open>
  A byte slice: \<open>None\<close> is Go's \<open>nil\<close> slice, which differs from an empty one where the code
  tests \<open>!= nil\<close>. \<open>append([]byte(nil), xs...)\<close> keeps \<open>nil\<close> when there is nothing to append.
\<close>

type_synonym bytes = "byte list option"

definition bytes_of :: "bytes \<Rightarrow> byte list" where
  "bytes_of b = (case b of None \<Rightarrow> [] | Some xs \<Rightarrow> xs)"

definition append_to_nil :: "byte list \<Rightarrow> bytes" where
  "append_to_nil xs = (if xs = [] then None else Some xs)"

lemma bytes_of_simps [simp]: "bytes_of None = []" "bytes_of (Some xs) = xs"
  by (simp_all add: bytes_of_def)

lemma bytes_of_append_to_nil [simp]: "bytes_of (append_to_nil xs) = xs"
  by (simp add: append_to_nil_def)

text \<open>
  \<open>int64\<close> and \<open>int\<close> (64 bits on the platforms the module targets) are integers in
  \<open>[-2^63, 2^63)\<close>; every addition the code makes on them is written with its wrap-around.
\<close>

definition max_int64 :: int where
  "max_int64 = 2 ^ 63 - 1"

definition wrap64 :: "int \<Rightarrow> int" where
  "wrap64 x = (x + 2 ^ 63) mod 2 ^ 64 - 2 ^ 63"

definition in_int64 :: "int \<Rightarrow> bool" where
  "in_int64 x \<longleftrightarrow> - (2 ^ 63) \<le> x \<and> x \<le> max_int64"

lemma wrap64_id: "in_int64 x \<Longrightarrow> wrap64 x = x"
  by (simp add: wrap64_def in_int64_def max_int64_def)

lemma wrap64_small: "0 \<le> x \<Longrightarrow> x < 2 ^ 63 \<Longrightarrow> wrap64 x = x"
  by (simp add: wrap64_def)

lemma wrap64_overflow: "2 ^ 63 \<le> x \<Longrightarrow> x < 2 ^ 64 + 2 ^ 63 \<Longrightarrow> wrap64 x = x - 2 ^ 64"
proof -
  assume "2 ^ 63 \<le> x" and "x < 2 ^ 64 + 2 ^ 63"
  then have "(x + 2 ^ 63) mod 2 ^ 64 = (x + 2 ^ 63) - 2 ^ 64"
    by (subst minus_mod_self2 [symmetric], intro mod_pos_pos_trivial) auto
  then show ?thesis
    by (simp add: wrap64_def)
qed

lemma wrap64_range: "in_int64 (wrap64 x)"
proof -
  have "0 \<le> (x + 2 ^ 63) mod 2 ^ 64" and "(x + 2 ^ 63) mod 2 ^ 64 < (2 ^ 64 :: int)"
    by simp_all
  then show ?thesis
    by (simp add: in_int64_def wrap64_def max_int64_def)
qed

subsection \<open>Contexts\<close>

text \<open>
  A \<open>context.Context\<close> is observed by polling \<open>ctx.Done()\<close>. It is modelled by the number of
  polls that still find it live: \<open>None\<close> is never cancelled, \<open>Some n\<close> is found cancelled
  by the poll after the next \<open>n\<close> ones, and from then on for ever. Operations that poll once take
  the answer as a \<open>bool\<close>.
\<close>

type_synonym ctx = "nat option"

fun poll :: "ctx \<Rightarrow> bool \<times> ctx" where
  "poll None = (False, None)"
| "poll (Some 0) = (True, Some 0)"
| "poll (Some (Suc n)) = (False, Some n)"

definition ctx_done :: "ctx \<Rightarrow> bool" where
  "ctx_done c = fst (poll c)"

lemma poll_done_stays: "poll c = (True, c') \<Longrightarrow> c' = Some 0"
  by (cases c rule: poll.cases) auto

lemma poll_never [simp]: "poll c = (False, None) \<longleftrightarrow> c = None"
  by (cases c rule: poll.cases) auto

subsection \<open>Maps\<close>

type_synonym ('k, 'v) gomap = "('k \<times> 'v) list"

definition gm_wf :: "('k, 'v) gomap \<Rightarrow> bool" where
  "gm_wf m \<longleftrightarrow> distinct (map fst m)"

lemma gm_wf_Nil [simp, gomap_simps]: "gm_wf []"
  by (simp add: gm_wf_def)

lemma gm_wf_Cons [simp]: "gm_wf ((k, v) # m) \<longleftrightarrow> map_of m k = None \<and> gm_wf m"
  by (auto simp: gm_wf_def map_of_eq_None_iff)

lemma gm_wf_update [simp, gomap_simps]: "gm_wf m \<Longrightarrow> gm_wf (AList.update k v m)"
  by (simp add: gm_wf_def distinct_update)

lemma gm_wf_delete [simp, gomap_simps]: "gm_wf m \<Longrightarrow> gm_wf (AList.delete k m)"
  by (simp add: gm_wf_def distinct_delete)

lemma gm_lookup_update [simp, gomap_simps]: "map_of (AList.update k v m) = (map_of m)(k \<mapsto> v)"
  by (rule update_conv')

lemma gm_lookup_delete [simp, gomap_simps]: "map_of (AList.delete k m) = (map_of m)(k := None)"
  by (rule delete_conv')

lemma gm_mem_iff: "gm_wf m \<Longrightarrow> (k, v) \<in> set m \<longleftrightarrow> map_of m k = Some v"
  by (auto simp: gm_wf_def)

lemma gm_keys_dom: "fst ` set m = dom (map_of m)"
  by (rule dom_map_of_conv_image_fst [symmetric])

lemma gm_set_update:
  "gm_wf m \<Longrightarrow> set (AList.update k v m) = insert (k, v) {p \<in> set m. fst p \<noteq> k}"
  by (auto simp: gm_mem_iff split: if_splits)

lemma gm_set_delete: "set (AList.delete k m) = {p \<in> set m. fst p \<noteq> k}"
  by (induction m) auto

lemma gm_delete_absent: "map_of m k = None \<Longrightarrow> AList.delete k m = m"
  by (simp add: map_of_eq_None_iff)

lemma gm_delete_Nil_iff: "gm_wf m \<Longrightarrow> AList.delete k m = [] \<longleftrightarrow> dom (map_of m) \<subseteq> {k}"
proof -
  assume "gm_wf m"
  have "AList.delete k m = [] \<longleftrightarrow> dom (map_of (AList.delete k m)) = {}"
    by (cases "AList.delete k m") auto
  also have "\<dots> \<longleftrightarrow> dom (map_of m) \<subseteq> {k}"
    by auto
  finally show ?thesis .
qed

text \<open>Reading a missing key gives the zero value.\<close>

definition gm_get :: "'v \<Rightarrow> ('k, 'v) gomap \<Rightarrow> 'k \<Rightarrow> 'v" where
  "gm_get z m k = (case map_of m k of None \<Rightarrow> z | Some v \<Rightarrow> v)"

lemma gm_get_update [simp]: "gm_get z (AList.update k v m) k' = (if k' = k then v else gm_get z m k')"
  by (simp add: gm_get_def)

lemma gm_get_delete [simp]: "gm_get z (AList.delete k m) k' = (if k' = k then z else gm_get z m k')"
  by (simp add: gm_get_def)

lemma gm_get_None: "map_of m k = None \<Longrightarrow> gm_get z m k = z"
  by (simp add: gm_get_def)

lemma gm_get_Some: "map_of m k = Some v \<Longrightarrow> gm_get z m k = v"
  by (simp add: gm_get_def)

text \<open>Copying a map entry by entry.\<close>

fun gm_copy_into :: "('k, 'v) gomap \<Rightarrow> ('k, 'v) gomap \<Rightarrow> ('k, 'v) gomap" where
  "gm_copy_into acc [] = acc"
| "gm_copy_into acc ((k, v) # m) = gm_copy_into (AList.update k v acc) m"

lemma update_fresh: "map_of m k = None \<Longrightarrow> AList.update k v m = m @ [(k, v)]"
  by (induction m) auto

lemma gm_update_twice: "AList.update k v (AList.update k w m) = AList.update k v m"
  by (induction m) auto

lemma gm_card_dom: "gm_wf m \<Longrightarrow> card (dom (map_of m)) = length m"
proof -
  assume "gm_wf m"
  then have "card (set (map fst m)) = length (map fst m)"
    unfolding gm_wf_def by (rule distinct_card)
  then show ?thesis by (simp add: dom_map_of_conv_image_fst)
qed

lemma gm_filter_key:
  "gm_wf m \<Longrightarrow> P k \<Longrightarrow>
   filter (\<lambda>p. fst p = k \<and> P (fst p)) m = (case map_of m k of None \<Rightarrow> [] | Some v \<Rightarrow> [(k, v)])"
proof (induction m)
  case (Cons p m)
  then show ?case
    by (cases p) (auto simp: filter_empty_conv split: option.splits dest: map_of_SomeD)
qed simp

lemma gm_copy_into_append:
  "gm_wf m \<Longrightarrow> (\<And>k. map_of m k \<noteq> None \<Longrightarrow> map_of acc k = None) \<Longrightarrow> gm_copy_into acc m = acc @ m"
proof (induction m arbitrary: acc)
  case Nil
  then show ?case by simp
next
  case (Cons p m)
  obtain k v where p: "p = (k, v)" by (cases p)
  have fresh: "map_of acc k = None"
    using Cons.prems(2) [of k] p by simp
  have "gm_copy_into (acc @ [(k, v)]) m = (acc @ [(k, v)]) @ m"
  proof (rule Cons.IH)
    show "gm_wf m" using Cons.prems(1) p by simp
    show "map_of (acc @ [(k, v)]) k' = None" if "map_of m k' \<noteq> None" for k'
      using that Cons.prems p by (cases "k' = k") (auto simp: map_add_def)
  qed
  with p fresh show ?case
    by (simp add: update_fresh)
qed

lemma gm_copy: "gm_wf m \<Longrightarrow> gm_copy_into [] m = m"
  by (simp add: gm_copy_into_append)

subsection \<open>Strings\<close>

text \<open>\<open>strings.Split(s, sep)\<close> for a separator of one byte: always at least one part.\<close>

fun split_on :: "char \<Rightarrow> string \<Rightarrow> string list" where
  "split_on c [] = [[]]"
| "split_on c (x # xs) =
     (if x = c then [] # split_on c xs
      else (case split_on c xs of [] \<Rightarrow> [[x]] | p # ps \<Rightarrow> (x # p) # ps))"

lemma split_on_nonempty [simp]: "split_on c s \<noteq> []"
  by (cases s) (auto split: list.splits)

fun join_with :: "char \<Rightarrow> string list \<Rightarrow> string" where
  "join_with c [] = []"
| "join_with c [p] = p"
| "join_with c (p # q # ps) = p @ c # join_with c (q # ps)"

lemma join_split: "join_with c (split_on c s) = s"
proof (induction s)
  case Nil
  then show ?case by simp
next
  case (Cons x s)
  obtain p ps where ps: "split_on c s = p # ps"
    by (cases "split_on c s") simp_all
  with Cons show ?case
    by (cases ps) auto
qed

lemma split_on_inject: "split_on c s = split_on c t \<longleftrightarrow> s = t"
  by (metis join_split)

lemma split_segment: "c \<notin> set s \<Longrightarrow> split_on c (s @ c # r) = s # split_on c r"
  by (induction s) auto

lemma split_single: "c \<notin> set s \<Longrightarrow> split_on c s = [s]"
  by (induction s) auto

lemma split_join:
  "ps \<noteq> [] \<Longrightarrow> list_all (\<lambda>p. c \<notin> set p) ps \<Longrightarrow> split_on c (join_with c ps) = ps"
  by (induction c ps rule: join_with.induct) (simp_all add: split_single split_segment)

subsection \<open>Strings as bytes\<close>

definition str_bytes :: "string \<Rightarrow> byte list" where
  "str_bytes s = map (\<lambda>c. of_nat (of_char c)) s"

definition bytes_str :: "byte list \<Rightarrow> string" where
  "bytes_str bs = map (\<lambda>b. char_of (unat b)) bs"

lemma bytes_str_inverse [simp]: "bytes_str (str_bytes s) = s"
proof -
  have "unat (of_nat (of_char c) :: byte) = of_char c" for c :: char
    using nat_of_char_less_256 [of c] by (simp add: unat_of_nat)
  then show ?thesis
    by (simp add: str_bytes_def bytes_str_def comp_def)
qed

lemma str_bytes_inject [simp]: "str_bytes s = str_bytes t \<longleftrightarrow> s = t"
  by (metis bytes_str_inverse)

lemma length_str_bytes [simp]: "length (str_bytes s) = length s"
  by (simp add: str_bytes_def)

subsection \<open>Decimal numbers\<close>

text \<open>The decimal digits of an integer, for \<open>%d\<close>.\<close>

fun nat_digits :: "nat \<Rightarrow> string" where
  "nat_digits n = (if n < 10 then [char_of (48 + n)] else nat_digits (n div 10) @ [char_of (48 + n mod 10)])"

declare nat_digits.simps [simp del]

definition show_int :: "int \<Rightarrow> string" where
  "show_int i = (if i < 0 then ''-'' @ nat_digits (nat (- i)) else nat_digits (nat i))"

definition digits_value :: "string \<Rightarrow> nat" where
  "digits_value s = foldl (\<lambda>a c. a * 10 + (of_char c - 48)) 0 s"

lemma of_char_digit: "d < 10 \<Longrightarrow> of_char (char_of (48 + d) :: char) - (48 :: nat) = d"
proof -
  assume "d < 10"
  have "of_char (char_of (48 + d) :: char) = (48 + d) mod 256"
    by (rule of_char_of)
  with \<open>d < 10\<close> show ?thesis by simp
qed

lemma digits_value_nat: "digits_value (nat_digits n) = n"
proof (induction n rule: less_induct)
  case (less n)
  show ?case
  proof (cases "n < 10")
    case True
    then show ?thesis
      by (simp add: digits_value_def nat_digits.simps [of n] of_char_digit)
  next
    case False
    then have "digits_value (nat_digits n) = digits_value (nat_digits (n div 10)) * 10 + n mod 10"
      by (simp add: digits_value_def nat_digits.simps [of n] of_char_digit)
    also have "\<dots> = n"
      using less.IH [of "n div 10"] False by simp
    finally show ?thesis .
  qed
qed

lemma nat_digits_inject: "nat_digits m = nat_digits n \<longleftrightarrow> m = n"
  by (metis digits_value_nat)

lemma nat_digits_head: "hd (nat_digits n) \<noteq> CHR ''-''" "nat_digits n \<noteq> []"
proof (induction n rule: less_induct)
  case (less n)
  have digit: "char_of (48 + d) \<noteq> CHR ''-''" if "d < 10" for d :: nat
  proof
    assume "char_of (48 + d) = CHR ''-''"
    then have "of_char (char_of (48 + d) :: char) = (of_char CHR ''-'' :: nat)" by simp
    with that show False by (simp add: of_char_of)
  qed
  {
    case 1
    show ?case
    proof (cases "n < 10")
      case True
      with digit [of n] show ?thesis by (simp add: nat_digits.simps [of n])
    next
      case False
      with less [of "n div 10"] show ?thesis by (simp add: nat_digits.simps [of n])
    qed
  next
    case 2
    show ?case by (simp add: nat_digits.simps [of n])
  }
qed

lemma show_int_inject: "show_int i = show_int j \<longleftrightarrow> i = j"
proof
  assume eq: "show_int i = show_int j"
  have sign: "hd (show_int k) = CHR ''-'' \<longleftrightarrow> k < 0" for k
    using nat_digits_head(1) [of "nat k"] by (simp add: show_int_def)
  have "i < 0 \<longleftrightarrow> j < 0"
    using sign [of i] sign [of j] eq by simp
  then show "i = j"
    using eq by (cases "i < 0") (simp_all add: show_int_def nat_digits_inject)
qed simp

subsection \<open>Keeping first occurrences\<close>

text \<open>
  The loop the code writes in several places: a \<open>seen\<close> set and a result slice, to which an
  element is appended when it has not been seen.
\<close>

fun uniq_loop :: "'a list \<Rightarrow> 'a list \<Rightarrow> 'a list \<Rightarrow> 'a list" where
  "uniq_loop seen acc [] = acc"
| "uniq_loop seen acc (x # xs) =
     (if x \<in> set seen then uniq_loop seen acc xs
      else uniq_loop (x # seen) (acc @ [x]) xs)"

lemma uniq_loop_set: "set (uniq_loop seen acc xs) = set acc \<union> (set xs - set seen)"
  by (induction seen acc xs rule: uniq_loop.induct) auto

lemma uniq_loop_distinct:
  "distinct acc \<Longrightarrow> set acc \<subseteq> set seen \<Longrightarrow> distinct (uniq_loop seen acc xs)"
proof (induction seen acc xs rule: uniq_loop.induct)
  case (1 seen acc)
  then show ?case by simp
next
  case (2 seen acc x xs)
  show ?case
  proof (cases "x \<in> set seen")
    case True
    with 2 show ?thesis by simp
  next
    case False
    have "distinct (uniq_loop (x # seen) (acc @ [x]) xs)"
      using 2 False by (intro "2.IH"(2)) auto
    with False show ?thesis by simp
  qed
qed

text \<open>Looking elements up one by one in several lists: the counting lemmas of the range loops.\<close>

lemma count_concat_map:
  "count (mset (concat (map f xs))) y = (\<Sum>x\<leftarrow>xs. count (mset (f x)) y)"
  by (induction xs) simp_all

lemma mset_concat_filter_first:
  "distinct (map fst m) \<Longrightarrow>
   mset (concat (map f (filter (\<lambda>p. fst p = k \<and> P p) m)))
     + mset (concat (map f (filter (\<lambda>p. fst p \<noteq> k \<and> P p) m)))
   = mset (concat (map f (filter P m)))"
  by (induction m) auto

end
