(* ===== verification/Topics.thy ===== *)
theory Topics
  imports Go_Prelude
begin

text \<open>
  Topic patterns. The source has the same matcher four times: in the routing table
  (\<open>internal/routingtable/inmemory.go\<close>), in the mesh node's peer-interest lookup
  (\<open>internal/meshnode/node_peer_events.go\<close>), in the HTTP server's resume replay
  (\<open>internal/httpapi/handlers.go\<close>) and in the HTTP client's stream filter
  (\<open>pkg/httpclient/streaming.go\<close>). Each copy is translated on its own; the lemmas show that they
  are one function, and what that function is.
\<close>

subsection \<open>The matchers\<close>

text \<open>
  The loop over the pattern's segments. The lengths are equal when it is entered, so
  \<open>topicParts[i]\<close> is in range; the last equation is the index out of range that never happens.
\<close>

fun match_parts :: "string list \<Rightarrow> string list \<Rightarrow> bool" where
  "match_parts [] ts = True"
| "match_parts (p # ps) (t # ts) =
     (if p \<noteq> ''*'' \<and> p \<noteq> t then False else match_parts ps ts)"
| "match_parts (p # ps) [] = False"

definition matchesPattern :: "string \<Rightarrow> string \<Rightarrow> bool" where
  "matchesPattern pattern topic =
     (if pattern = topic then True
      else let patternParts = split_on (CHR ''.'') pattern;
               topicParts = split_on (CHR ''.'') topic
           in if length patternParts \<noteq> length topicParts then False
              else match_parts patternParts topicParts)"

definition matchesPeerSubscriptionPattern :: "string \<Rightarrow> string \<Rightarrow> bool" where
  "matchesPeerSubscriptionPattern pattern topic =
     (if pattern = topic then True
      else let patternParts = split_on (CHR ''.'') pattern;
               topicParts = split_on (CHR ''.'') topic
           in if length patternParts \<noteq> length topicParts then False
              else match_parts patternParts topicParts)"

definition matchesTopicPattern :: "string \<Rightarrow> string \<Rightarrow> bool" where
  "matchesTopicPattern pattern topic =
     (if pattern = topic then True
      else let patternParts = split_on (CHR ''.'') pattern;
               topicParts = split_on (CHR ''.'') topic
           in if length patternParts \<noteq> length topicParts then False
              else match_parts patternParts topicParts)"

definition matchesStreamTopic :: "string \<Rightarrow> string \<Rightarrow> bool" where
  "matchesStreamTopic pattern topic =
     (if pattern = topic then True
      else let patternParts = split_on (CHR ''.'') pattern;
               topicParts = split_on (CHR ''.'') topic
           in if length patternParts \<noteq> length topicParts then False
              else match_parts patternParts topicParts)"

fun topicCoveredBySubscriptions :: "string \<Rightarrow> string list \<Rightarrow> bool" where
  "topicCoveredBySubscriptions topic [] = False"
| "topicCoveredBySubscriptions topic (s # ss) =
     (if matchesTopicPattern s topic then True else topicCoveredBySubscriptions topic ss)"

subsection \<open>What a pattern means\<close>

text \<open>
  The reference definition: the dot-separated segments agree one by one, and the segment \<open>*\<close> of a
  pattern agrees with any single segment. There is no fast path and no early exit in it.
\<close>

definition pattern_matches :: "string \<Rightarrow> string \<Rightarrow> bool" where
  "pattern_matches pattern topic \<longleftrightarrow>
     list_all2 (\<lambda>p t. p = ''*'' \<or> p = t) (split_on (CHR ''.'') pattern) (split_on (CHR ''.'') topic)"

lemma match_parts_iff:
  "length ps = length ts \<Longrightarrow> match_parts ps ts \<longleftrightarrow> list_all2 (\<lambda>p t. p = ''*'' \<or> p = t) ps ts"
  by (induction ps ts rule: match_parts.induct) auto

lemma pattern_matches_refl [simp]: "pattern_matches t t"
  by (simp add: pattern_matches_def list_all2_same)

lemma pattern_matches_length:
  "pattern_matches p t \<Longrightarrow> length (split_on (CHR ''.'') p) = length (split_on (CHR ''.'') t)"
  by (auto simp: pattern_matches_def dest: list_all2_lengthD)

lemma matcher_body:
  "(if p = t then True
    else if length (split_on (CHR ''.'') p) \<noteq> length (split_on (CHR ''.'') t) then False
    else match_parts (split_on (CHR ''.'') p) (split_on (CHR ''.'') t)) = pattern_matches p t"
proof (cases "length (split_on (CHR ''.'') p) = length (split_on (CHR ''.'') t)")
  case True
  then show ?thesis
    by (cases "p = t") (simp_all add: match_parts_iff pattern_matches_def [of p t])
next
  case False
  then have "p \<noteq> t" and "\<not> pattern_matches p t"
    by (auto dest: pattern_matches_length)
  with False show ?thesis by simp
qed

lemma matchesPattern_iff: "matchesPattern p t = pattern_matches p t"
  unfolding matchesPattern_def Let_def by (rule matcher_body)

lemma matchesPeerSubscriptionPattern_iff: "matchesPeerSubscriptionPattern p t = pattern_matches p t"
  unfolding matchesPeerSubscriptionPattern_def Let_def by (rule matcher_body)

lemma matchesTopicPattern_iff: "matchesTopicPattern p t = pattern_matches p t"
  unfolding matchesTopicPattern_def Let_def by (rule matcher_body)

lemma matchesStreamTopic_iff: "matchesStreamTopic p t = pattern_matches p t"
  unfolding matchesStreamTopic_def Let_def by (rule matcher_body)

lemmas matcher_iffs = matchesPattern_iff matchesPeerSubscriptionPattern_iff
  matchesTopicPattern_iff matchesStreamTopic_iff

lemma topicCovered_iff:
  "topicCoveredBySubscriptions t ss \<longleftrightarrow> (\<exists>s \<in> set ss. pattern_matches s t)"
  by (induction ss) (auto simp: matcher_iffs)

lemma no_star_pattern:
  assumes "''*'' \<notin> set (split_on (CHR ''.'') p)"
  shows "pattern_matches p t \<longleftrightarrow> p = t"
proof
  assume m: "pattern_matches p t"
  have "list_all2 (=) (split_on (CHR ''.'') p) (split_on (CHR ''.'') t)"
    using m assms unfolding pattern_matches_def list_all2_conv_all_nth
    by (metis nth_mem)
  then show "p = t"
    by (simp add: list_all2_eq [symmetric] split_on_inject)
qed simp

text \<open>
  C22. The four matchers decide the same relation, the segment-wise one of the reference
  definition, for all patterns and topics: a topic the routing table delivers is one the peer lookup
  forwards, the resume replay covers and the client's filter lets through. Without a \<open>*\<close> segment
  the relation is equality.
\<close>

theorem matchers_agree:
  "matchesPattern p t = pattern_matches p t
   \<and> matchesPeerSubscriptionPattern p t = pattern_matches p t
   \<and> matchesTopicPattern p t = pattern_matches p t
   \<and> matchesStreamTopic p t = pattern_matches p t
   \<and> (''*'' \<in> set (split_on (CHR ''.'') p) \<or> matchesPattern p t = (p = t))"
  using no_star_pattern [of p t] by (auto simp: matcher_iffs)

end
