(* ===== verification/Event_Log.thy ===== *)
theory Event_Log
  imports Go_Prelude "HOL-Library.Sublist"
begin

text \<open>
  The event log. \<open>pkg/eventlog\<close> gives the event type and the \<open>EventLog\<close> interface;
  \<open>internal/eventlog/inmemory.go\<close> is the default implementation. The interface is the record
  \<open>log_ops\<close> of its methods (what a Go interface value carries), its contract the locales
  \<open>event_log_safe\<close> and \<open>event_log\<close>: a log is, per topic, a list of events that only grows at
  its end and whose offsets are its indices. The in-memory log is the first interpretation; the
  Pebble log is treated in the theories that follow.
\<close>

subsection \<open>Events\<close>

record event =
  ev_offset :: int
  ev_topic :: string
  ev_payload :: bytes
  ev_timestamp :: int
  ev_headers :: "(string, string) gomap"

definition NewEvent :: "int \<Rightarrow> string \<Rightarrow> bytes \<Rightarrow> event" where
  "NewEvent now topic payload =
     \<lparr>ev_offset = 0, ev_topic = topic, ev_payload = Some (bytes_of payload),
      ev_timestamp = now, ev_headers = []\<rparr>"

definition NewEventWithHeaders :: "int \<Rightarrow> string \<Rightarrow> bytes \<Rightarrow> (string, string) gomap \<Rightarrow> event" where
  "NewEventWithHeaders now topic payload headers =
     \<lparr>ev_offset = 0, ev_topic = topic, ev_payload = Some (bytes_of payload),
      ev_timestamp = now, ev_headers = gm_copy_into [] headers\<rparr>"

definition WithOffset :: "event \<Rightarrow> int \<Rightarrow> event" where
  "WithOffset e offset =
     \<lparr>ev_offset = offset, ev_topic = ev_topic e, ev_payload = ev_payload e,
      ev_timestamp = ev_timestamp e, ev_headers = ev_headers e\<rparr>"

definition Copy :: "event \<Rightarrow> event" where
  "Copy e =
     \<lparr>ev_offset = ev_offset e, ev_topic = ev_topic e, ev_payload = Some (bytes_of (ev_payload e)),
      ev_timestamp = ev_timestamp e, ev_headers = gm_copy_into [] (ev_headers e)\<rparr>"

lemma WithOffset_fields [simp]:
  "ev_offset (WithOffset e n) = n" "ev_topic (WithOffset e n) = ev_topic e"
  "ev_payload (WithOffset e n) = ev_payload e" "ev_timestamp (WithOffset e n) = ev_timestamp e"
  "ev_headers (WithOffset e n) = ev_headers e"
  by (simp_all add: WithOffset_def)

lemma Copy_fields [simp]:
  "ev_offset (Copy e) = ev_offset e" "ev_topic (Copy e) = ev_topic e"
  "ev_payload (Copy e) = Some (bytes_of (ev_payload e))" "ev_timestamp (Copy e) = ev_timestamp e"
  "ev_headers (Copy e) = gm_copy_into [] (ev_headers e)"
  by (simp_all add: Copy_def)

lemma Copy_id: "gm_wf (ev_headers e) \<Longrightarrow> ev_payload e \<noteq> None \<Longrightarrow> Copy e = e"
  by (cases e) (auto simp: Copy_def gm_copy)

subsection \<open>The interface\<close>

text \<open>
  The errors a log returns. \<open>LogPanic\<close> is no error value of the source: it is the run-time panic
  of an operation (here \<open>make\<close> with a negative length).
\<close>

datatype log_error =
    CtxErr
  | ErrEmptyTopic
  | ErrNilEvent
  | ErrNegativeOffset
  | ErrNegativeMaxCount
  | ErrLogClosed
  | ErrOffsetOverflow
  | ErrStorage string
  | LogPanic

record log_stats =
  TotalEvents :: int
  TopicCounts :: "(string, int) gomap"
  TopicCount :: int

record 'l log_ops =
  op_AppendEvent :: "bool \<Rightarrow> string \<Rightarrow> event option \<Rightarrow> 'l \<Rightarrow> (log_error + event) \<times> 'l"
  op_ReadEvents :: "ctx \<Rightarrow> string \<Rightarrow> int \<Rightarrow> int \<Rightarrow> 'l \<Rightarrow> log_error + event list"
  op_GetTopicEndOffset :: "bool \<Rightarrow> string \<Rightarrow> 'l \<Rightarrow> log_error + int"
  op_ReplayEvents :: "ctx \<Rightarrow> string \<Rightarrow> int \<Rightarrow> 'l \<Rightarrow> event list \<times> log_error option"
  op_Compact :: "bool \<Rightarrow> 'l \<Rightarrow> log_error option"
  op_GetStatistics :: "ctx \<Rightarrow> 'l \<Rightarrow> log_error + log_stats"
  op_Close :: "'l \<Rightarrow> log_error option \<times> 'l"

subsection \<open>The in-memory log\<close>

record mem_log =
  eventsByTopic :: "(string, event list) gomap"
  nextOffsetByTopic :: "(string, int) gomap"
  ml_closed :: bool

definition NewInMemoryEventLog :: mem_log where
  "NewInMemoryEventLog = \<lparr>eventsByTopic = [], nextOffsetByTopic = [], ml_closed = False\<rparr>"

definition AppendEvent :: "bool \<Rightarrow> string \<Rightarrow> event option \<Rightarrow> mem_log \<Rightarrow> (log_error + event) \<times> mem_log" where
  "AppendEvent cancelled topic event log =
     (if cancelled then (Inl CtxErr, log)
      else if topic = [] then (Inl ErrEmptyTopic, log)
      else case event of
        None \<Rightarrow> (Inl ErrNilEvent, log)
      | Some e \<Rightarrow>
          if ml_closed log then (Inl ErrLogClosed, log)
          else
            let nextOffset = gm_get 0 (nextOffsetByTopic log) topic;
                log1 = log\<lparr>nextOffsetByTopic :=
                  AList.update topic (wrap64 (nextOffset + 1)) (nextOffsetByTopic log)\<rparr>;
                eventWithOffset = WithOffset e nextOffset;
                log2 = log1\<lparr>eventsByTopic :=
                  AList.update topic (gm_get [] (eventsByTopic log1) topic @ [eventWithOffset])
                    (eventsByTopic log1)\<rparr>
            in (Inr eventWithOffset, log2))"

definition ReadEvents :: "ctx \<Rightarrow> string \<Rightarrow> int \<Rightarrow> int \<Rightarrow> mem_log \<Rightarrow> log_error + event list" where
  "ReadEvents ctx topic startOffset maxCount log =
     (if ctx_done ctx then Inl CtxErr
      else if topic = [] then Inl ErrEmptyTopic
      else if startOffset < 0 then Inl ErrNegativeOffset
      else if maxCount < 0 then Inl ErrNegativeMaxCount
      else if ml_closed log then Inl ErrLogClosed
      else case map_of (eventsByTopic log) topic of
        None \<Rightarrow> Inr []
      | Some events \<Rightarrow>
          if events = [] then Inr []
          else let startIdx = startOffset in
            if startIdx \<ge> int (length events) then Inr []
            else let endIdx0 = wrap64 (startIdx + maxCount);
                     endIdx = (if endIdx0 > int (length events) then int (length events) else endIdx0)
                 in if endIdx - startIdx < 0 then Inl LogPanic
                    else Inr (take (nat (endIdx - startIdx)) (drop (nat startIdx) events)))"

definition GetTopicEndOffset :: "bool \<Rightarrow> string \<Rightarrow> mem_log \<Rightarrow> log_error + int" where
  "GetTopicEndOffset cancelled topic log =
     (if cancelled then Inl CtxErr
      else if topic = [] then Inl ErrEmptyTopic
      else if ml_closed log then Inl ErrLogClosed
      else Inr (gm_get 0 (nextOffsetByTopic log) topic))"

text \<open>
  \<open>ReplayEvents\<close> sends to a channel that its caller drains, so its result is what it sends and the
  error it reports, if any. Every send is a \<open>select\<close> between the context and the channel: the
  countdown of the context also stands for the choice \<open>select\<close> makes when both are ready.
\<close>

fun replay_send :: "ctx \<Rightarrow> event list \<Rightarrow> event list \<times> log_error option" where
  "replay_send ctx [] = ([], None)"
| "replay_send ctx (e # es) =
     (case poll ctx of
        (True, _) \<Rightarrow> ([], Some CtxErr)
      | (False, ctx') \<Rightarrow> (case replay_send ctx' es of (sent, err) \<Rightarrow> (e # sent, err)))"

definition ReplayEvents :: "ctx \<Rightarrow> string \<Rightarrow> int \<Rightarrow> mem_log \<Rightarrow> event list \<times> log_error option" where
  "ReplayEvents ctx topic startOffset log =
     (case poll ctx of
        (True, _) \<Rightarrow> ([], Some CtxErr)
      | (False, ctx') \<Rightarrow>
          if topic = [] then ([], Some ErrEmptyTopic)
          else if startOffset < 0 then ([], Some ErrNegativeOffset)
          else if ml_closed log then ([], Some ErrLogClosed)
          else case map_of (eventsByTopic log) topic of
            None \<Rightarrow> ([], None)
          | Some events \<Rightarrow>
              if events = [] then ([], None)
              else if startOffset \<ge> int (length events) then ([], None)
              else replay_send ctx' (drop (nat startOffset) events))"

definition Compact :: "bool \<Rightarrow> mem_log \<Rightarrow> log_error option" where
  "Compact cancelled log =
     (if cancelled then Some CtxErr else if ml_closed log then Some ErrLogClosed else None)"

fun stats_loop :: "log_stats \<Rightarrow> (string, event list) gomap \<Rightarrow> log_stats" where
  "stats_loop st [] = st"
| "stats_loop st ((topic, events) # m) =
     (let count = int (length events) in
      stats_loop (st\<lparr>TopicCounts := AList.update topic count (TopicCounts st),
                     TotalEvents := wrap64 (TotalEvents st + count)\<rparr>) m)"

definition GetStatistics :: "ctx \<Rightarrow> mem_log \<Rightarrow> log_error + log_stats" where
  "GetStatistics ctx log =
     (if ctx_done ctx then Inl CtxErr
      else if ml_closed log then Inl ErrLogClosed
      else let st = stats_loop \<lparr>TotalEvents = 0, TopicCounts = [], TopicCount = 0\<rparr> (eventsByTopic log)
           in Inr (st\<lparr>TopicCount := int (length (TopicCounts st))\<rparr>))"

definition Close :: "mem_log \<Rightarrow> log_error option \<times> mem_log" where
  "Close log = (None, log\<lparr>ml_closed := True\<rparr>)"

definition mem_ops :: "mem_log log_ops" where
  "mem_ops = \<lparr>op_AppendEvent = AppendEvent, op_ReadEvents = ReadEvents,
     op_GetTopicEndOffset = GetTopicEndOffset, op_ReplayEvents = ReplayEvents,
     op_Compact = Compact, op_GetStatistics = GetStatistics, op_Close = Close\<rparr>"

lemma mem_ops_simps [simp]:
  "op_AppendEvent mem_ops = AppendEvent" "op_ReadEvents mem_ops = ReadEvents"
  "op_GetTopicEndOffset mem_ops = GetTopicEndOffset" "op_ReplayEvents mem_ops = ReplayEvents"
  "op_Compact mem_ops = Compact" "op_GetStatistics mem_ops = GetStatistics" "op_Close mem_ops = Close"
  by (simp_all add: mem_ops_def)

subsection \<open>The contract\<close>

text \<open>
  What the interface promises, for an implementation whose state is abstracted to a list of events per
  topic. \<open>stored e\<close> is what reading gives back for an appended \<open>e\<close> (a log on disk normalises
  what it stores), \<open>topic_ok\<close> and \<open>storable\<close> say what an implementation can store. The laws
  of \<open>event_log_safe\<close> hold whatever errors the implementation returns: a result that is returned is
  right, and a failed append changes nothing. \<open>event_log\<close> adds that, without faults, operations
  succeed. \<open>max_page\<close> bounds the counts a caller asks for: Go cannot allocate a slice of \<open>2^45\<close>
  pointers.
\<close>

definition max_page :: int where
  "max_page = 2 ^ 45"

locale event_log_safe =
  fixes ops :: "'l log_ops"
    and topic_events :: "'l \<Rightarrow> string \<Rightarrow> event list"
    and stored :: "event \<Rightarrow> event"
    and topic_ok :: "string \<Rightarrow> bool"
    and log_ok :: "'l \<Rightarrow> bool"
  assumes append_ok:
      "log_ok l \<Longrightarrow> topic_ok t \<Longrightarrow> int (length (topic_events l t)) < max_int64 \<Longrightarrow>
       log_ok (snd (op_AppendEvent ops c t oe l))"
    and append_returns:
      "log_ok l \<Longrightarrow> topic_ok t \<Longrightarrow> int (length (topic_events l t)) < max_int64 \<Longrightarrow>
       op_AppendEvent ops c t (Some e) l = (Inr e', l') \<Longrightarrow>
       e' = WithOffset e (int (length (topic_events l t)))
       \<and> topic_events l' = (topic_events l)(t := topic_events l t @ [stored e'])"
    and append_fails:
      "log_ok l \<Longrightarrow> topic_ok t \<Longrightarrow> op_AppendEvent ops c t oe l = (Inl err', l') \<Longrightarrow>
       topic_events l' = topic_events l"
    and append_nil: "\<exists>err. op_AppendEvent ops c t None l = (Inl err, l)"
    and offsets_are_indices:
      "log_ok l \<Longrightarrow> topic_ok t \<Longrightarrow>
       map ev_offset (topic_events l t) = map int [0..<length (topic_events l t)]"
    and stored_fields:
      "ev_offset (stored e) = ev_offset e" "ev_topic (stored e) = ev_topic e"
      "bytes_of (ev_payload (stored e)) = bytes_of (ev_payload e)"
    and read_returns:
      "log_ok l \<Longrightarrow> topic_ok t \<Longrightarrow> m \<le> max_page \<Longrightarrow> s + m \<le> max_int64 \<Longrightarrow>
       op_ReadEvents ops ctx t s m l = Inr es \<Longrightarrow>
       0 \<le> s \<and> 0 \<le> m \<and> es = take (nat m) (drop (nat s) (topic_events l t))"
    and end_returns:
      "log_ok l \<Longrightarrow> topic_ok t \<Longrightarrow> op_GetTopicEndOffset ops c t l = Inr n \<Longrightarrow>
       n = int (length (topic_events l t))"
    and replay_returns:
      "log_ok l \<Longrightarrow> topic_ok t \<Longrightarrow> s \<le> max_int64 \<Longrightarrow> op_ReplayEvents ops ctx t s l = (es, err) \<Longrightarrow>
       prefix es (drop (nat s) (topic_events l t))
       \<and> (err = None \<longrightarrow> es = drop (nat s) (topic_events l t))"
begin

text \<open>The event an append returned is read back at its offset, and other topics are untouched.\<close>

lemma append_then_read:
  assumes "log_ok l" "topic_ok t" "int (length (topic_events l t)) < max_int64"
    and app: "op_AppendEvent ops c t (Some e) l = (Inr e', l')"
    and read: "op_ReadEvents ops ctx t (ev_offset e') 1 l' = Inr es"
  shows "es = [stored e']"
proof -
  have ev: "e' = WithOffset e (int (length (topic_events l t)))"
    and l': "topic_events l' = (topic_events l)(t := topic_events l t @ [stored e'])"
    using append_returns [OF assms(1-4)] by auto
  have "log_ok l'"
    using append_ok [OF assms(1-3), of c "Some e"] app by simp
  then have "es = take (nat 1) (drop (nat (ev_offset e')) (topic_events l' t))"
    using read_returns [OF _ \<open>topic_ok t\<close> _ _ read] ev assms(3)
    by (auto simp: max_page_def max_int64_def)
  with ev l' show ?thesis by simp
qed

lemma append_frame:
  assumes "log_ok l" "topic_ok t" "int (length (topic_events l t)) < max_int64" "t' \<noteq> t"
  shows "topic_events (snd (op_AppendEvent ops c t e l)) t' = topic_events l t'"
proof (cases "op_AppendEvent ops c t e l")
  case (Pair r l')
  show ?thesis
  proof (cases r)
    case (Inl err)
    with Pair append_fails [OF assms(1,2)] show ?thesis by simp
  next
    case (Inr e')
    with Pair append_nil [of c t l] obtain x where "e = Some x"
      by (cases e) auto
    with Pair Inr append_returns [OF assms(1-3), of c x e' l'] assms(4) show ?thesis by simp
  qed
qed

text \<open>A log only grows, and an event that is stored keeps its place.\<close>

lemma append_prefix:
  assumes "log_ok l" "topic_ok t" "int (length (topic_events l t)) < max_int64"
  shows "prefix (topic_events l t') (topic_events (snd (op_AppendEvent ops c t e l)) t')"
proof (cases "t' = t")
  case False
  with append_frame [OF assms] show ?thesis by simp
next
  case True
  show ?thesis
  proof (cases "op_AppendEvent ops c t e l")
    case (Pair r l')
    show ?thesis
    proof (cases r)
      case (Inl err)
      with Pair append_fails [OF assms(1,2)] show ?thesis by simp
    next
      case (Inr e')
      with Pair append_nil [of c t l] obtain x where "e = Some x"
        by (cases e) auto
      with Pair Inr append_returns [OF assms, of c x e' l'] True show ?thesis by simp
    qed
  qed
qed

lemma read_offset:
  assumes "log_ok l" "topic_ok t" "m \<le> max_page" "s + m \<le> max_int64"
    and read: "op_ReadEvents ops ctx t s m l = Inr es" and i: "i < length es"
  shows "ev_offset (es ! i) = s + int i"
proof -
  have es: "es = take (nat m) (drop (nat s) (topic_events l t))" and s: "0 \<le> s"
    using read_returns [OF assms(1-5)] by auto
  have lt: "nat s + i < length (topic_events l t)"
    using i es by auto
  have "ev_offset (topic_events l t ! (nat s + i))
      = map ev_offset (topic_events l t) ! (nat s + i)"
    using lt by simp
  also have "\<dots> = int (nat s + i)"
    using lt offsets_are_indices [OF assms(1,2)] by simp
  finally show ?thesis
    using es i lt s by simp
qed

end

locale event_log = event_log_safe +
  fixes log_open :: "'l \<Rightarrow> bool"
    and storable :: "event \<Rightarrow> bool"
  assumes append_succeeds:
      "log_ok l \<Longrightarrow> log_open l \<Longrightarrow> topic_ok t \<Longrightarrow> int (length (topic_events l t)) < max_int64 \<Longrightarrow>
       storable e \<Longrightarrow>
       \<exists>e' l'. op_AppendEvent ops False t (Some e) l = (Inr e', l') \<and> log_open l'"
    and read_succeeds:
      "log_ok l \<Longrightarrow> log_open l \<Longrightarrow> topic_ok t \<Longrightarrow> 0 \<le> s \<Longrightarrow> 0 \<le> m \<Longrightarrow> m \<le> max_page \<Longrightarrow>
       s + m \<le> max_int64 \<Longrightarrow> \<exists>es. op_ReadEvents ops None t s m l = Inr es"
    and end_succeeds:
      "log_ok l \<Longrightarrow> log_open l \<Longrightarrow> topic_ok t \<Longrightarrow> int (length (topic_events l t)) \<le> max_int64 \<Longrightarrow>
       \<exists>n. op_GetTopicEndOffset ops False t l = Inr n"
begin

lemma append_value:
  assumes "log_ok l" "log_open l" "topic_ok t" "int (length (topic_events l t)) < max_int64" "storable e"
  obtains l' where
    "op_AppendEvent ops False t (Some e) l
       = (Inr (WithOffset e (int (length (topic_events l t)))), l')"
    "topic_events l' =
       (topic_events l)(t := topic_events l t @ [stored (WithOffset e (int (length (topic_events l t))))])"
    "log_ok l'" "log_open l'"
proof -
  obtain e' l' where app: "op_AppendEvent ops False t (Some e) l = (Inr e', l')" and "log_open l'"
    using append_succeeds [OF assms] by auto
  moreover have "log_ok l'"
    using append_ok [OF assms(1,3,4), of False "Some e"] app by simp
  ultimately show ?thesis
    using that append_returns [OF assms(1,3,4) app] by auto
qed

lemma read_value:
  assumes "log_ok l" "log_open l" "topic_ok t" "0 \<le> s" "0 \<le> m" "m \<le> max_page" "s + m \<le> max_int64"
  shows "op_ReadEvents ops None t s m l = Inr (take (nat m) (drop (nat s) (topic_events l t)))"
  using read_succeeds [OF assms] read_returns [OF assms(1,3,6,7)] by fastforce

end

subsection \<open>The in-memory log implements the contract\<close>

text \<open>
  The invariant of the two maps: they have the same topics, a listed topic is not empty, and the counter
  of a topic is the length of its list, whose offsets are its indices.
\<close>

definition topic_entry_ok :: "mem_log \<Rightarrow> string \<times> event list \<Rightarrow> bool" where
  "topic_entry_ok log = (\<lambda>(t, es). es \<noteq> [] \<and> int (length es) \<le> max_int64
     \<and> map ev_offset es = map int [0..<length es]
     \<and> map_of (nextOffsetByTopic log) t = Some (int (length es)))"

definition mem_inv :: "mem_log \<Rightarrow> bool" where
  "mem_inv log \<longleftrightarrow> gm_wf (eventsByTopic log) \<and> gm_wf (nextOffsetByTopic log)
     \<and> list_all (topic_entry_ok log) (eventsByTopic log)
     \<and> list_all (\<lambda>(t, n). map_of (eventsByTopic log) t \<noteq> None) (nextOffsetByTopic log)"

definition mem_topic :: "mem_log \<Rightarrow> string \<Rightarrow> event list" where
  "mem_topic log t = gm_get [] (eventsByTopic log) t"

lemma mem_inv_topic:
  assumes "mem_inv log"
  shows "map_of (eventsByTopic log) t = (if mem_topic log t = [] then None else Some (mem_topic log t))"
    and "map_of (nextOffsetByTopic log) t
           = (if mem_topic log t = [] then None else Some (int (length (mem_topic log t))))"
    and "map ev_offset (mem_topic log t) = map int [0..<length (mem_topic log t)]"
    and "int (length (mem_topic log t)) \<le> max_int64"
proof -
  have entry: "topic_entry_ok log (t, es)" if "map_of (eventsByTopic log) t = Some es" for es
    using assms that by (auto simp: mem_inv_def list_all_iff dest: map_of_SomeD)
  have next_in: "map_of (nextOffsetByTopic log) t = None" if "map_of (eventsByTopic log) t = None"
  proof (rule ccontr)
    assume "map_of (nextOffsetByTopic log) t \<noteq> None"
    then obtain n where "(t, n) \<in> set (nextOffsetByTopic log)"
      by (auto dest: map_of_SomeD)
    with assms that show False
      by (auto simp: mem_inv_def list_all_iff)
  qed
  show "map_of (eventsByTopic log) t = (if mem_topic log t = [] then None else Some (mem_topic log t))"
    using entry by (auto simp: mem_topic_def gm_get_def topic_entry_ok_def split: option.splits)
  show "map_of (nextOffsetByTopic log) t
      = (if mem_topic log t = [] then None else Some (int (length (mem_topic log t))))"
    using entry next_in by (auto simp: mem_topic_def gm_get_def topic_entry_ok_def split: option.splits)
  show "map ev_offset (mem_topic log t) = map int [0..<length (mem_topic log t)]"
    using entry by (auto simp: mem_topic_def gm_get_def topic_entry_ok_def split: option.splits)
  show "int (length (mem_topic log t)) \<le> max_int64"
    using entry
    by (auto simp: mem_topic_def gm_get_def topic_entry_ok_def max_int64_def split: option.splits)
qed

lemma mem_next_offset: "mem_inv log \<Longrightarrow> gm_get 0 (nextOffsetByTopic log) t = int (length (mem_topic log t))"
  by (simp add: gm_get_def mem_inv_topic)

lemma AppendEvent_error:
  "AppendEvent c t e log = (Inl err, log') \<Longrightarrow> log' = log"
  by (auto simp: AppendEvent_def Let_def split: if_splits option.splits)

lemma AppendEvent_Inr:
  assumes "mem_inv log" "int (length (mem_topic log t)) < max_int64"
    and "AppendEvent c t e log = (Inr e', log')"
  obtains x where "e = Some x" "\<not> c" "t \<noteq> []" "\<not> ml_closed log"
    "e' = WithOffset x (int (length (mem_topic log t)))"
    "log' = log\<lparr>nextOffsetByTopic :=
                 AList.update t (int (length (mem_topic log t)) + 1) (nextOffsetByTopic log),
               eventsByTopic := AList.update t (mem_topic log t @ [e']) (eventsByTopic log)\<rparr>"
proof -
  have "wrap64 (int (length (mem_topic log t)) + 1) = int (length (mem_topic log t)) + 1"
    using assms(2) by (intro wrap64_small) (auto simp: max_int64_def)
  with assms(3) that show ?thesis
    by (auto simp: AppendEvent_def Let_def mem_next_offset [OF assms(1)] mem_topic_def
        split: if_splits option.splits)
qed

lemma AppendEvent_inv [inv_intros]:
  assumes "mem_inv log" "int (length (mem_topic log t)) < max_int64"
  shows "mem_inv (snd (AppendEvent c t e log))"
proof (cases "AppendEvent c t e log")
  case (Pair r log')
  show ?thesis
  proof (cases r)
    case (Inl err)
    with Pair assms show ?thesis by (auto dest: AppendEvent_error)
  next
    case (Inr e')
    let ?es = "mem_topic log t" and ?wf = "gm_wf (eventsByTopic log)"
    obtain x where x: "e' = WithOffset x (int (length ?es))"
      "log' = log\<lparr>nextOffsetByTopic := AList.update t (int (length ?es) + 1) (nextOffsetByTopic log),
               eventsByTopic := AList.update t (?es @ [e']) (eventsByTopic log)\<rparr>"
      using AppendEvent_Inr [OF assms] Pair Inr by metis
    have wf: "gm_wf (eventsByTopic log)" "gm_wf (nextOffsetByTopic log)"
      using assms(1) by (auto simp: mem_inv_def)
    have "topic_entry_ok log' (t', es)" if "(t', es) \<in> set (eventsByTopic log')" for t' es
    proof (cases "t' = t")
      case True
      then have "es = ?es @ [e']"
        using that wf x(2) by (auto simp: gm_set_update)
      then show ?thesis
        using True assms x mem_inv_topic(3) [OF assms(1), of t] by (simp add: topic_entry_ok_def)
    next
      case False
      then have "topic_entry_ok log (t', es)"
        using that wf x(2) assms(1) by (auto simp: gm_set_update mem_inv_def list_all_iff)
      with False x(2) show ?thesis by (simp add: topic_entry_ok_def)
    qed
    moreover have "map_of (eventsByTopic log') t' \<noteq> None" if "(t', n) \<in> set (nextOffsetByTopic log')" for t' n
      using that wf x(2) assms(1) by (auto simp: gm_set_update mem_inv_def list_all_iff)
    ultimately have "mem_inv log'"
      using wf x(2) by (auto simp: mem_inv_def list_all_iff)
    with Pair show ?thesis by simp
  qed
qed

lemma ReadEvents_value:
  assumes "mem_inv log" "s + m \<le> max_int64"
  shows "ReadEvents ctx t s m log =
     (if ctx_done ctx then Inl CtxErr else if t = [] then Inl ErrEmptyTopic
      else if s < 0 then Inl ErrNegativeOffset else if m < 0 then Inl ErrNegativeMaxCount
      else if ml_closed log then Inl ErrLogClosed
      else Inr (take (nat m) (drop (nat s) (mem_topic log t))))"
proof (cases "0 \<le> s \<and> 0 \<le> m \<and> s < int (length (mem_topic log t))")
  case False
  then show ?thesis
    by (auto simp: ReadEvents_def mem_inv_topic(1) [OF assms(1)])
next
  case True
  then have w: "wrap64 (s + m) = s + m"
    using assms(2) by (intro wrap64_small) (auto simp: max_int64_def)
  have ne: "mem_topic log t \<noteq> []"
    using True by auto
  let ?n = "length (mem_topic log t)"
  have "take (nat ((if s + m > int ?n then int ?n else s + m) - s)) (drop (nat s) (mem_topic log t))
      = take (nat m) (drop (nat s) (mem_topic log t))"
    using True by (auto intro!: take_all simp: nat_diff_distrib nat_add_distrib)
  with True w ne show ?thesis
    by (simp add: ReadEvents_def mem_inv_topic(1) [OF assms(1)] Let_def)
qed

lemma replay_send_prefix: "replay_send ctx es = (sent, err) \<Longrightarrow> prefix sent es \<and> (err = None \<longrightarrow> sent = es)"
proof (induction ctx es arbitrary: sent err rule: replay_send.induct)
  case (2 ctx e es)
  then show ?case
    by (auto split: prod.splits bool.splits)
qed simp

lemma replay_send_live: "replay_send None es = (es, None)"
  by (induction es) auto

lemma ReplayEvents_value:
  assumes "mem_inv log"
  shows "ReplayEvents ctx t s log =
    (if ctx_done ctx then ([], Some CtxErr) else if t = [] then ([], Some ErrEmptyTopic)
     else if s < 0 then ([], Some ErrNegativeOffset) else if ml_closed log then ([], Some ErrLogClosed)
     else replay_send (snd (poll ctx)) (drop (nat s) (mem_topic log t)))"
  by (auto simp: ReplayEvents_def ctx_done_def mem_inv_topic(1) [OF assms]
      split: prod.splits bool.splits)

interpretation mem: event_log mem_ops mem_topic "\<lambda>e. e" "\<lambda>t. t \<noteq> []" mem_inv
  "\<lambda>log. \<not> ml_closed log" "\<lambda>_. True"
proof (unfold_locales, unfold mem_ops_simps)
  fix l t c oe
  assume "mem_inv l" "int (length (mem_topic l t)) < max_int64"
  then show "mem_inv (snd (AppendEvent c t oe l))"
    by (rule AppendEvent_inv)
next
  fix l t c e e' l'
  assume a: "mem_inv l" "int (length (mem_topic l t)) < max_int64"
    and "AppendEvent c t (Some e) l = (Inr e', l')"
  then show "e' = WithOffset e (int (length (mem_topic l t)))
    \<and> mem_topic l' = (mem_topic l)(t := mem_topic l t @ [e'])"
    by (elim AppendEvent_Inr [OF a]) (auto simp: mem_topic_def fun_eq_iff)
next
  fix l t s m ctx es
  assume "mem_inv l" "s + m \<le> max_int64" "ReadEvents ctx t s m l = Inr es"
  then show "0 \<le> s \<and> 0 \<le> m \<and> es = take (nat m) (drop (nat s) (mem_topic l t))"
    by (auto simp: ReadEvents_value split: if_splits)
next
  fix l t s ctx es err
  assume "mem_inv l" "ReplayEvents ctx t s l = (es, err)"
  then show "prefix es (drop (nat s) (mem_topic l t)) \<and> (err = None \<longrightarrow> es = drop (nat s) (mem_topic l t))"
    by (auto simp: ReplayEvents_value dest: replay_send_prefix split: if_splits)
qed (auto simp: AppendEvent_def GetTopicEndOffset_def mem_next_offset mem_inv_topic ReadEvents_value
    ctx_done_def Let_def split: if_splits option.splits dest: AppendEvent_error)

subsection \<open>Statistics\<close>

lemma wrap64_add_wrap: "wrap64 (wrap64 x + y) = wrap64 (x + y)"
proof -
  have "((x + 2 ^ 63) mod 2 ^ 64 + y) mod 2 ^ 64 = (x + 2 ^ 63 + y) mod (2 ^ 64 :: int)"
    by (rule mod_add_left_eq)
  then show ?thesis
    by (simp add: wrap64_def algebra_simps)
qed

lemma stats_loop_value:
  "gm_wf m \<Longrightarrow> (\<And>k. map_of m k \<noteq> None \<Longrightarrow> map_of (TopicCounts st) k = None) \<Longrightarrow>
   wrap64 (TotalEvents st) = TotalEvents st \<Longrightarrow>
   stats_loop st m =
     st\<lparr>TopicCounts := TopicCounts st @ map (\<lambda>(t, es). (t, int (length es))) m,
        TotalEvents := wrap64 (TotalEvents st + (\<Sum>(t, es)\<leftarrow>m. int (length es)))\<rparr>"
proof (induction st m rule: stats_loop.induct)
  case (1 st)
  then show ?case by simp
next
  case (2 st topic events m)
  let ?st = "st\<lparr>TopicCounts := AList.update topic (int (length events)) (TopicCounts st),
                TotalEvents := wrap64 (TotalEvents st + int (length events))\<rparr>"
  have fresh: "map_of (TopicCounts st) topic = None"
    using "2.prems"(2) [of topic] by simp
  have "stats_loop ?st m = ?st\<lparr>TopicCounts := TopicCounts ?st @ map (\<lambda>(t, es). (t, int (length es))) m,
        TotalEvents := wrap64 (TotalEvents ?st + (\<Sum>(t, es)\<leftarrow>m. int (length es)))\<rparr>"
  proof (rule "2.IH" [OF refl])
    show "gm_wf m" using "2.prems"(1) by simp
    show "map_of (TopicCounts ?st) k = None" if "map_of m k \<noteq> None" for k
      using that "2.prems"(1) "2.prems"(2) [of k] by (auto split: if_splits)
  qed (simp add: wrap64_id [OF wrap64_range])
  then show ?case
    by (simp add: Let_def update_fresh [OF fresh] wrap64_add_wrap add.assoc)
qed

subsection \<open>Histories\<close>

text \<open>Appends one after the other, and what each topic should hold after them.\<close>

fun run_appends :: "(bool \<times> string \<times> event option) list \<Rightarrow> mem_log \<Rightarrow> mem_log" where
  "run_appends [] log = log"
| "run_appends ((c, t, e) # rs) log = run_appends rs (snd (AppendEvent c t e log))"

fun accepted :: "string \<Rightarrow> (bool \<times> string \<times> event option) list \<Rightarrow> event list" where
  "accepted t [] = []"
| "accepted t ((c, t', e) # rs) =
     (if t' = t \<and> \<not> c \<and> e \<noteq> None then the e # accepted t rs else accepted t rs)"

definition numbered :: "nat \<Rightarrow> event list \<Rightarrow> event list" where
  "numbered n es = map2 WithOffset es (map int [n..<n + length es])"

lemma numbered_Nil [simp]: "numbered n [] = []"
  by (simp add: numbered_def)

lemma numbered_Cons [simp]: "numbered n (e # es) = WithOffset e (int n) # numbered (Suc n) es"
  by (simp add: numbered_def upt_conv_Cons del: upt_Suc)

lemma accepted_length: "length (accepted t rs) \<le> length rs"
  by (induction t rs rule: accepted.induct) auto

lemma AppendEvent_topic:
  assumes "mem_inv log" "int (length (mem_topic log t)) < max_int64" "\<not> ml_closed log" "t \<noteq> []"
  shows "mem_topic (snd (AppendEvent c t e log)) =
      (mem_topic log)(t := mem_topic log t @ numbered (length (mem_topic log t)) (accepted t [(c, t, e)]))"
    and "\<not> ml_closed (snd (AppendEvent c t e log))"
  using assms
  by (auto simp: AppendEvent_def Let_def fun_eq_iff mem_topic_def mem_next_offset split: option.splits)

lemma AppendEvent_no_topic [simp]: "snd (AppendEvent c [] e log) = log"
  by (simp add: AppendEvent_def)

lemma AppendEvent_topic_other:
  "t' \<noteq> t \<Longrightarrow> mem_topic (snd (AppendEvent c t e log)) t' = mem_topic log t'"
  by (auto simp: AppendEvent_def Let_def mem_topic_def split: option.splits)

lemma run_appends_history:
  assumes "mem_inv log" "\<not> ml_closed log"
    and "\<And>t. int (length (mem_topic log t) + length rs) \<le> max_int64"
  shows "mem_inv (run_appends rs log) \<and> \<not> ml_closed (run_appends rs log)
    \<and> (t \<noteq> [] \<longrightarrow> mem_topic (run_appends rs log) t =
         mem_topic log t @ numbered (length (mem_topic log t)) (accepted t rs))"
  using assms
proof (induction rs log rule: run_appends.induct)
  case (1 log)
  then show ?case by simp
next
  case (2 c t' e rs log)
  let ?log = "snd (AppendEvent c t' e log)"
  have room: "int (length (mem_topic log t')) < max_int64"
    using "2.prems"(3) [of t'] by simp
  have inv: "mem_inv ?log"
    by (rule AppendEvent_inv [OF "2.prems"(1) room])
  have opn: "\<not> ml_closed ?log"
    using AppendEvent_topic(2) [OF "2.prems"(1) room "2.prems"(2)] "2.prems"(2) by (cases "t' = []") auto
  have top: "mem_topic ?log u = mem_topic log u @ numbered (length (mem_topic log u)) (accepted u [(c, t', e)])"
    if "u \<noteq> []" for u
    using that AppendEvent_topic(1) [OF "2.prems"(1) room "2.prems"(2)] AppendEvent_topic_other [of u t']
    by (cases "u = t'") auto
  have len: "int (length (mem_topic ?log u) + length rs) \<le> max_int64" for u
  proof (cases "u = []")
    case True
    then have "mem_topic ?log u = mem_topic log u"
      by (cases "t' = []") (auto simp: AppendEvent_topic_other)
    with "2.prems"(3) [of u] show ?thesis by simp
  next
    case False
    with top [OF False] "2.prems"(3) [of u] show ?thesis by (auto simp: numbered_def)
  qed
  from "2.IH" [OF inv opn len] top [of t] show ?case
    by auto
qed

subsection \<open>Properties\<close>

lemmas mem_eval = NewInMemoryEventLog_def mem_inv_def mem_topic_def gm_get_def max_int64_def AppendEvent_def
  NewEvent_def WithOffset_def wrap64_def topic_entry_ok_def Let_def

text \<open>
  C7. History. After any sequence of append requests to a new log (cancelled ones, empty topics and nil
  events included), a topic holds exactly the events accepted for it, in order, numbered from 0 without a
  gap; every read window is the corresponding slice of that list, and the end offset is its length.
\<close>

theorem append_history:
  assumes "int (length rs) \<le> max_int64" "t \<noteq> []" "0 \<le> s" "0 \<le> m" "s + m \<le> max_int64"
  shows "mem_topic (run_appends rs NewInMemoryEventLog) t = numbered 0 (accepted t rs)
    \<and> ReadEvents None t s m (run_appends rs NewInMemoryEventLog)
        = Inr (take (nat m) (drop (nat s) (numbered 0 (accepted t rs))))
    \<and> GetTopicEndOffset False t (run_appends rs NewInMemoryEventLog) = Inr (int (length (accepted t rs)))"
proof -
  let ?log = "run_appends rs NewInMemoryEventLog"
  have new: "mem_topic NewInMemoryEventLog u = []" for u
    by (simp add: mem_topic_def NewInMemoryEventLog_def gm_get_def)
  have "mem_inv NewInMemoryEventLog"
    by (simp add: mem_inv_def NewInMemoryEventLog_def)
  then have inv: "mem_inv ?log" and opn: "\<not> ml_closed ?log"
    and top: "mem_topic ?log t = numbered 0 (accepted t rs)"
    using run_appends_history [of NewInMemoryEventLog rs t] assms(1,2) new
    by (auto simp: NewInMemoryEventLog_def)
  with assms show ?thesis
    by (simp add: ReadEvents_value [OF inv] GetTopicEndOffset_def mem_next_offset [OF inv]
        ctx_done_def numbered_def)
qed

theorem append_history_witness:
  "let e = NewEvent 7 ''a'' (Some [1]); rs = [(False, ''a'', Some e), (True, ''a'', Some e),
      (False, ''b'', Some e), (False, ''a'', None), (False, ''a'', Some e)]
   in ReadEvents None ''a'' 1 5 (run_appends rs NewInMemoryEventLog) = Inr [WithOffset e 1]"
  using append_history [of "[(False, ''a'', Some (NewEvent 7 ''a'' (Some [1]))),
      (True, ''a'', Some (NewEvent 7 ''a'' (Some [1]))), (False, ''b'', Some (NewEvent 7 ''a'' (Some [1]))),
      (False, ''a'', None), (False, ''a'', Some (NewEvent 7 ''a'' (Some [1])))]" "''a''" 1 5]
  by (simp add: max_int64_def Let_def)

text \<open>
  C21. Append on every branch. A log in the invariant stays in it; a request that is cancelled, names no
  topic, carries no event or meets a closed log returns the corresponding error and changes nothing; any
  other returns the event with the topic's next offset, stored at the end of its topic, every other
  topic being as before.
\<close>

theorem append_total:
  assumes "mem_inv log" "int (length (mem_topic log t)) < max_int64"
  shows "mem_inv (snd (AppendEvent c t e log))
    \<and> (case AppendEvent c t e log of
        (Inl err, log') \<Rightarrow> log' = log
          \<and> err = (if c then CtxErr else if t = [] then ErrEmptyTopic else if e = None then ErrNilEvent
                   else ErrLogClosed)
          \<and> (c \<or> t = [] \<or> e = None \<or> ml_closed log)
      | (Inr e', log') \<Rightarrow> \<not> c \<and> t \<noteq> [] \<and> \<not> ml_closed log'
          \<and> Some e' = map_option (\<lambda>x. WithOffset x (int (length (mem_topic log t)))) e
          \<and> mem_topic log' = (mem_topic log)(t := mem_topic log t @ [e'])
          \<and> ReadEvents None t (ev_offset e') 1 log' = Inr [e'])"
proof (cases "AppendEvent c t e log")
  case (Pair r log')
  show ?thesis
  proof (cases r)
    case (Inl err)
    have "log' = log" and "err = (if c then CtxErr else if t = [] then ErrEmptyTopic
        else if e = None then ErrNilEvent else ErrLogClosed)"
      and "c \<or> t = [] \<or> e = None \<or> ml_closed log"
      using Pair Inl by (auto simp: AppendEvent_def Let_def split: if_splits option.splits)
    with Pair Inl AppendEvent_inv [OF assms, of c e] show ?thesis by simp
  next
    case (Inr e')
    obtain x where x: "e = Some x" "\<not> c" "t \<noteq> []" "\<not> ml_closed log"
      using AppendEvent_Inr [OF assms] Pair Inr by metis
    have app: "op_AppendEvent mem_ops c t (Some x) log = (Inr e', log')"
      using Pair Inr x by simp
    have e': "e' = WithOffset x (int (length (mem_topic log t)))"
      and log': "mem_topic log' = (mem_topic log)(t := mem_topic log t @ [e'])"
      using mem.append_returns [OF assms(1) x(3) assms(2) app] by auto
    have opn: "\<not> ml_closed log'"
      using AppendEvent_topic(2) [OF assms x(4,3), of c e] Pair by simp
    have inv: "mem_inv log'"
      using AppendEvent_inv [OF assms, of c e] Pair by simp
    have "ReadEvents None t (ev_offset e') 1 log' = Inr [e']"
      using mem.read_value [OF inv opn x(3), of "ev_offset e'" 1] assms(2) e' log'
      by (simp add: max_page_def max_int64_def)
    with Pair Inr x e' log' opn inv show ?thesis by simp
  qed
qed

theorem append_total_witness:
  "\<exists>log'. AppendEvent False ''a'' (Some (NewEvent 0 ''a'' None)) NewInMemoryEventLog
      = (Inr (NewEvent 0 ''a'' None), log') \<and> mem_inv log'
      \<and> ReadEvents None ''a'' 0 1 log' = Inr [NewEvent 0 ''a'' None]"
  using append_total [of NewInMemoryEventLog "''a''" False "Some (NewEvent 0 ''a'' None)"]
  by (simp add: mem_eval)

text \<open>
  C31. Replay sends, in order, every stored event from the start offset on, all of them when the context
  stays live; a context cancelled after \<open>n\<close> sends gives the first \<open>n\<close> of them and the context's
  error.
\<close>

theorem replay_exact:
  assumes "mem_inv log" "\<not> ml_closed log" "t \<noteq> []" "0 \<le> s"
  shows "ReplayEvents None t s log = (drop (nat s) (mem_topic log t), None)
    \<and> ReplayEvents (Some (Suc n)) t s log =
        (take n (drop (nat s) (mem_topic log t)),
         if n < length (mem_topic log t) - nat s then Some CtxErr else None)"
proof -
  have "replay_send (Some n) es = (take n es, if n < length es then Some CtxErr else None)" for es
  proof (induction es arbitrary: n)
    case (Cons e es)
    then show ?case by (cases n) auto
  qed simp
  with assms show ?thesis
    by (simp add: ReplayEvents_value ctx_done_def replay_send_live)
qed

theorem replay_exact_witness:
  "let e = NewEvent 0 ''a'' None; log = snd (AppendEvent False ''a'' (Some e) NewInMemoryEventLog)
   in ReplayEvents None ''a'' 0 log = ([e], None)
      \<and> ReplayEvents (Some 1) ''a'' 0 log = ([], Some CtxErr)"
  using replay_exact [of "snd (AppendEvent False ''a'' (Some (NewEvent 0 ''a'' None)) NewInMemoryEventLog)"
      "''a''" 0 0]
  by (simp add: mem_eval)

text \<open>
  The statistics of an open log count what it holds: the topics with their lengths, and the sum as
  the total.
\<close>

theorem statistics_exact:
  assumes "mem_inv log" "\<not> ml_closed log" "(\<Sum>(t, es)\<leftarrow>eventsByTopic log. int (length es)) \<le> max_int64"
  shows "GetStatistics None log = Inr \<lparr>TotalEvents = (\<Sum>(t, es)\<leftarrow>eventsByTopic log. int (length es)),
      TopicCounts = map (\<lambda>(t, es). (t, int (length es))) (eventsByTopic log),
      TopicCount = int (length (eventsByTopic log))\<rparr>"
proof -
  let ?sum = "\<Sum>(t, es)\<leftarrow>eventsByTopic log. int (length es)"
  have "0 \<le> ?sum"
    by (intro sum_list_nonneg) auto
  then have "wrap64 ?sum = ?sum"
    using assms(3) by (intro wrap64_small) (auto simp: max_int64_def)
  moreover have "gm_wf (eventsByTopic log)"
    using assms(1) by (simp add: mem_inv_def)
  ultimately show ?thesis
    using assms(2) by (simp add: GetStatistics_def ctx_done_def stats_loop_value wrap64_small Let_def)
qed

theorem statistics_exact_witness:
  "GetStatistics None (snd (AppendEvent False ''a'' (Some (NewEvent 0 ''a'' None)) NewInMemoryEventLog))
   = Inr \<lparr>TotalEvents = 1, TopicCounts = [(''a'', 1)], TopicCount = 1\<rparr>"
  using statistics_exact [of "snd (AppendEvent False ''a'' (Some (NewEvent 0 ''a'' None)) NewInMemoryEventLog)"]
  by (simp add: mem_eval)

text \<open>
  C32. A read needs a bound on its count: for a start inside the topic, a count so large that the end index exceeds
  the range of \<open>int\<close> makes the index negative, and the read panics instead of returning the rest of
  the topic.
\<close>

theorem read_overflow_panics:
  assumes "mem_inv log" "\<not> ml_closed log" "t \<noteq> []" "0 < s" "s < int (length (mem_topic log t))"
    and "m \<le> max_int64" "max_int64 < s + m"
  shows "ReadEvents None t s m log = Inl LogPanic"
proof -
  have w: "wrap64 (s + m) = s + m - 2 ^ 64"
    using assms mem_inv_topic(4) [OF assms(1), of t]
    by (intro wrap64_overflow) (auto simp: max_int64_def)
  have "mem_topic log t \<noteq> []" and "0 \<le> m"
    using assms mem_inv_topic(4) [OF assms(1), of t] by auto
  with assms w show ?thesis
    by (auto simp: ReadEvents_def ctx_done_def mem_inv_topic(1) [OF assms(1)] Let_def max_int64_def)
qed

theorem read_overflow_panics_witness:
  "ReadEvents None ''a'' 1 max_int64
     (run_appends [(False, ''a'', Some (NewEvent 0 ''a'' None)), (False, ''a'', Some (NewEvent 0 ''a'' None))]
       NewInMemoryEventLog) = Inl LogPanic"
  using read_overflow_panics [of "run_appends [(False, ''a'', Some (NewEvent 0 ''a'' None)),
      (False, ''a'', Some (NewEvent 0 ''a'' None))] NewInMemoryEventLog" "''a''" 1 max_int64]
  by (simp add: mem_eval)

text \<open>
  Closing is final: after \<open>Close\<close> every well-formed request is refused with the closed error,
  the state no longer changes, and the stored events stay as they were.
\<close>

theorem closed_log_refuses:
  assumes "Close log = (err, log')" "t \<noteq> []" "0 \<le> s" "0 \<le> m"
  shows "err = None \<and> mem_topic log' = mem_topic log
    \<and> AppendEvent False t (Some e) log' = (Inl ErrLogClosed, log')
    \<and> ReadEvents None t s m log' = Inl ErrLogClosed
    \<and> GetTopicEndOffset False t log' = Inl ErrLogClosed
    \<and> ReplayEvents None t s log' = ([], Some ErrLogClosed)
    \<and> GetStatistics None log' = Inl ErrLogClosed \<and> Compact False log' = Some ErrLogClosed
    \<and> Close log' = (None, log')"
  using assms
  by (auto simp: Close_def AppendEvent_def ReadEvents_def GetTopicEndOffset_def ReplayEvents_def
      GetStatistics_def Compact_def ctx_done_def mem_topic_def fun_eq_iff)

theorem closed_log_refuses_witness:
  "AppendEvent False ''a'' (Some (NewEvent 0 ''a'' None)) (snd (Close NewInMemoryEventLog))
     = (Inl ErrLogClosed, snd (Close NewInMemoryEventLog))"
  using closed_log_refuses [of NewInMemoryEventLog None "snd (Close NewInMemoryEventLog)" "''a''" 0 0]
  by (simp add: Close_def)

end
