(* ===== verification/Routing_Table.thy ===== *)
theory Routing_Table
  imports Topics
begin

text \<open>
  The routing table: \<open>pkg/routingtable\<close> (subscribers, subscriptions, the interface) and
  \<open>internal/routingtable/inmemory.go\<close>. A table is a map of maps, topic pattern to subscriber id to
  subscriber. Its contract is the locale \<open>routing\<close>: a partial function from pattern and id to
  subscriber, of which a lookup returns every entry whose pattern matches the topic, once per pattern.
\<close>

subsection \<open>Subscribers\<close>

text \<open>
  The implementations of the \<open>Subscriber\<close> interface. The two client types are pointers to objects with
  a channel; their object is named by an address of the node's client heap.
\<close>

datatype subscriber =
    LocalSubscriber string
  | PeerSubscriber string
  | TrustedClient string nat
  | HTTPClient string nat

datatype subscriber_type = LocalClient | PeerNode

fun ID :: "subscriber \<Rightarrow> string" where
  "ID (LocalSubscriber i) = i"
| "ID (PeerSubscriber i) = i"
| "ID (TrustedClient i a) = i"
| "ID (HTTPClient i a) = i"

fun Type :: "subscriber \<Rightarrow> subscriber_type" where
  "Type (LocalSubscriber i) = LocalClient"
| "Type (PeerSubscriber i) = PeerNode"
| "Type (TrustedClient i a) = LocalClient"
| "Type (HTTPClient i a) = LocalClient"

record subscription =
  sn_Topic :: string
  sn_Subscriber :: "subscriber option"

datatype rt_error = RtNilSubscriber | RtEmptyTopic | RtClosed | RtPanic

subsection \<open>The in-memory table\<close>

record rtable =
  subscriptions :: "(string, (string, subscriber) gomap) gomap"
  rt_closed :: bool

definition NewInMemoryRoutingTable :: rtable where
  "NewInMemoryRoutingTable = \<lparr>subscriptions = [], rt_closed = False\<rparr>"

text \<open>The two statements that \<open>Subscribe\<close> and \<open>RebuildFromGossip\<close> share.\<close>

definition put_subscriber :: "string \<Rightarrow> subscriber \<Rightarrow> rtable \<Rightarrow> rtable" where
  "put_subscriber topic s rt =
     (let m0 = subscriptions rt;
          m1 = (if map_of m0 topic = None then AList.update topic [] m0 else m0)
      in rt\<lparr>subscriptions := AList.update topic (AList.update (ID s) s (gm_get [] m1 topic)) m1\<rparr>)"

definition Subscribe :: "string \<Rightarrow> subscriber option \<Rightarrow> rtable \<Rightarrow> rt_error option \<times> rtable" where
  "Subscribe topic subscriber rt =
     (case subscriber of
        None \<Rightarrow> (Some RtNilSubscriber, rt)
      | Some s \<Rightarrow>
          if topic = [] then (Some RtEmptyTopic, rt)
          else if rt_closed rt then (Some RtClosed, rt)
          else (None, put_subscriber topic s rt))"

definition Unsubscribe :: "string \<Rightarrow> string \<Rightarrow> rtable \<Rightarrow> rt_error option \<times> rtable" where
  "Unsubscribe topic subscriberID rt =
     (if rt_closed rt then (Some RtClosed, rt)
      else case map_of (subscriptions rt) topic of
        None \<Rightarrow> (None, rt)
      | Some subscribers \<Rightarrow>
          let subscribers' = AList.delete subscriberID subscribers
          in if subscribers' = []
             then (None, rt\<lparr>subscriptions := AList.delete topic (subscriptions rt)\<rparr>)
             else (None, rt\<lparr>subscriptions := AList.update topic subscribers' (subscriptions rt)\<rparr>))"

fun pattern_loop :: "string \<Rightarrow> subscriber list \<Rightarrow> (string, (string, subscriber) gomap) gomap \<Rightarrow> subscriber list" where
  "pattern_loop topic result [] = result"
| "pattern_loop topic result ((pattern, subs) # m) =
     pattern_loop topic
       (if pattern \<noteq> topic \<and> matchesPattern pattern topic then result @ map snd subs else result) m"

definition GetSubscribers :: "string \<Rightarrow> rtable \<Rightarrow> rt_error + subscriber list" where
  "GetSubscribers topic rt =
     (if rt_closed rt then Inl RtClosed
      else Inr (pattern_loop topic (map snd (gm_get [] (subscriptions rt) topic)) (subscriptions rt)))"

fun all_loop :: "subscription list \<Rightarrow> (string, (string, subscriber) gomap) gomap \<Rightarrow> subscription list" where
  "all_loop acc [] = acc"
| "all_loop acc ((topic, subscriberMap) # m) =
     all_loop (acc @ map (\<lambda>(_, s). \<lparr>sn_Topic = topic, sn_Subscriber = Some s\<rparr>) subscriberMap) m"

definition GetAllSubscriptions :: "rtable \<Rightarrow> rt_error + subscription list" where
  "GetAllSubscriptions rt = (if rt_closed rt then Inl RtClosed else Inr (all_loop [] (subscriptions rt)))"

text \<open>Calling \<open>ID\<close> on a nil subscriber panics, with the entries before it in place.\<close>

fun rebuild_loop :: "subscription list \<Rightarrow> rtable \<Rightarrow> rt_error option \<times> rtable" where
  "rebuild_loop [] rt = (None, rt)"
| "rebuild_loop (sn # sns) rt =
     (case sn_Subscriber sn of
        None \<Rightarrow> (Some RtPanic,
          if map_of (subscriptions rt) (sn_Topic sn) = None
          then rt\<lparr>subscriptions := AList.update (sn_Topic sn) [] (subscriptions rt)\<rparr> else rt)
      | Some s \<Rightarrow> rebuild_loop sns (put_subscriber (sn_Topic sn) s rt))"

definition RebuildFromGossip :: "subscription list \<Rightarrow> rtable \<Rightarrow> rt_error option \<times> rtable" where
  "RebuildFromGossip sns rt =
     (if rt_closed rt then (Some RtClosed, rt) else rebuild_loop sns (rt\<lparr>subscriptions := []\<rparr>))"

definition GetTopicCount :: "rtable \<Rightarrow> rt_error + nat" where
  "GetTopicCount rt = (if rt_closed rt then Inl RtClosed else Inr (length (subscriptions rt)))"

fun count_loop :: "nat \<Rightarrow> (string, (string, subscriber) gomap) gomap \<Rightarrow> nat" where
  "count_loop n [] = n"
| "count_loop n ((_, subscriberMap) # m) = count_loop (n + length subscriberMap) m"

definition GetSubscriberCount :: "rtable \<Rightarrow> rt_error + nat" where
  "GetSubscriberCount rt = (if rt_closed rt then Inl RtClosed else Inr (count_loop 0 (subscriptions rt)))"

definition CloseTable :: "rtable \<Rightarrow> rt_error option \<times> rtable" where
  "CloseTable rt = (None, \<lparr>subscriptions = [], rt_closed = True\<rparr>)"

subsection \<open>The contract\<close>

locale routing =
  fixes sub :: "string \<Rightarrow> subscriber option \<Rightarrow> 'r \<Rightarrow> rt_error option \<times> 'r"
    and unsub :: "string \<Rightarrow> string \<Rightarrow> 'r \<Rightarrow> rt_error option \<times> 'r"
    and lookup :: "string \<Rightarrow> 'r \<Rightarrow> rt_error + subscriber list"
    and view :: "'r \<Rightarrow> string \<times> string \<rightharpoonup> subscriber"
    and table_ok :: "'r \<Rightarrow> bool"
    and table_open :: "'r \<Rightarrow> bool"
  assumes sub_value:
      "table_ok r \<Longrightarrow> table_open r \<Longrightarrow> t \<noteq> [] \<Longrightarrow>
       \<exists>r'. sub t (Some s) r = (None, r') \<and> view r' = (view r)((t, ID s) \<mapsto> s) \<and> table_ok r' \<and> table_open r'"
    and sub_error: "sub t os r = (Some err, r') \<Longrightarrow> r' = r"
    and unsub_value:
      "table_ok r \<Longrightarrow> table_open r \<Longrightarrow>
       \<exists>r'. unsub t i r = (None, r') \<and> view r' = (view r)((t, i) := None) \<and> table_ok r' \<and> table_open r'"
    and unsub_error: "unsub t i r = (Some err, r') \<Longrightarrow> r' = r"
    and lookup_value:
      "table_ok r \<Longrightarrow> table_open r \<Longrightarrow>
       \<exists>ss. lookup t r = Inr ss \<and>
         (\<forall>s. count (mset ss) s = card {p. pattern_matches p t \<and> view r (p, ID s) = Some s})"
    and view_finite: "table_ok r \<Longrightarrow> finite (dom (view r))"
    and view_id: "table_ok r \<Longrightarrow> view r (p, i) = Some s \<Longrightarrow> ID s = i"
begin

text \<open>A lookup returns exactly the subscribers with a matching pattern.\<close>

lemma lookup_mem:
  assumes ok: "table_ok r" and "table_open r" and ss: "lookup t r = Inr ss"
  shows "s \<in> set ss \<longleftrightarrow> (\<exists>p. pattern_matches p t \<and> view r (p, ID s) = Some s)"
proof -
  let ?P = "{p. pattern_matches p t \<and> view r (p, ID s) = Some s}"
  have "finite ?P"
  proof (rule finite_subset)
    show "?P \<subseteq> fst ` dom (view r)" by force
    show "finite (fst ` dom (view r))" using view_finite [OF ok] by simp
  qed
  moreover have "count (mset ss) s = card ?P"
    using lookup_value [OF assms(1,2), of t] ss by auto
  ultimately have "s \<in># mset ss \<longleftrightarrow> ?P \<noteq> {}"
    by (metis card_gt_0_iff count_greater_zero_iff)
  then show ?thesis by simp
qed

lemma sub_then_lookup:
  assumes "table_ok r" "table_open r" "p \<noteq> []" "pattern_matches p t"
    and "sub p (Some s) r = (err, r')" "lookup t r' = Inr ss"
  shows "s \<in> set ss"
proof -
  have "view r' = (view r)((p, ID s) \<mapsto> s)" "table_ok r'" "table_open r'"
    using sub_value [OF assms(1-3), of s] assms(5) by auto
  with lookup_mem [of r' t ss s] assms(4,6) show ?thesis by auto
qed

lemma unsub_then_lookup:
  assumes "table_ok r" "table_open r" "unsub p i r = (err, r')" "lookup t r' = Inr ss"
    and "s \<in> set ss" "ID s = i"
  shows "\<exists>q. q \<noteq> p \<and> pattern_matches q t \<and> view r (q, i) = Some s"
proof -
  have "view r' = (view r)((p, i) := None)" "table_ok r'" "table_open r'"
    using unsub_value [OF assms(1,2), of p i] assms(3) by auto
  with lookup_mem [of r' t ss s] assms(4-6) show ?thesis by (auto split: if_splits)
qed

end

subsection \<open>The table implements the contract\<close>

definition inner_ok :: "(string, subscriber) gomap \<Rightarrow> bool" where
  "inner_ok m \<longleftrightarrow> m \<noteq> [] \<and> gm_wf m \<and> list_all (\<lambda>(i, s). i = ID s) m"

definition rt_inv :: "rtable \<Rightarrow> bool" where
  "rt_inv rt \<longleftrightarrow> gm_wf (subscriptions rt) \<and> list_all (\<lambda>(t, m). inner_ok m) (subscriptions rt)"

definition rt_view :: "rtable \<Rightarrow> string \<times> string \<rightharpoonup> subscriber" where
  "rt_view rt = (\<lambda>(t, i). map_of (gm_get [] (subscriptions rt) t) i)"

lemma rt_inv_inner: "rt_inv rt \<Longrightarrow> map_of (subscriptions rt) t = Some m \<Longrightarrow> inner_ok m"
  by (auto simp: rt_inv_def list_all_iff dest: map_of_SomeD)

lemma rt_inv_update:
  "rt_inv rt \<Longrightarrow> inner_ok m \<Longrightarrow> rt_inv (rt\<lparr>subscriptions := AList.update t m (subscriptions rt)\<rparr>)"
  by (auto simp: rt_inv_def list_all_iff gm_set_update)

lemma put_subscriber_eq:
  "put_subscriber t s rt = rt\<lparr>subscriptions :=
     AList.update t (AList.update (ID s) s (gm_get [] (subscriptions rt) t)) (subscriptions rt)\<rparr>"
  by (auto simp: put_subscriber_def gm_get_def Let_def gm_update_twice split: option.splits)

lemma inner_ok_update: "inner_ok m \<or> m = [] \<Longrightarrow> inner_ok (AList.update (ID s) s m)"
  by (auto simp: inner_ok_def list_all_iff gm_set_update)

lemma put_subscriber_inv [inv_intros]: "rt_inv rt \<Longrightarrow> rt_inv (put_subscriber t s rt)"
  unfolding put_subscriber_eq
  by (intro rt_inv_update inner_ok_update)
    (auto simp: gm_get_def dest: rt_inv_inner split: option.splits)

lemma put_subscriber_view: "rt_view (put_subscriber t s rt) = (rt_view rt)((t, ID s) \<mapsto> s)"
  by (auto simp: put_subscriber_eq rt_view_def fun_eq_iff)

lemma inner_ok_delete: "inner_ok m \<Longrightarrow> AList.delete i m \<noteq> [] \<Longrightarrow> inner_ok (AList.delete i m)"
  by (auto simp: inner_ok_def list_all_iff gm_set_delete)

lemma Unsubscribe_inv [inv_intros]: "rt_inv rt \<Longrightarrow> rt_inv (snd (Unsubscribe t i rt))"
proof -
  assume inv: "rt_inv rt"
  have "rt_inv (rt\<lparr>subscriptions := AList.delete t (subscriptions rt)\<rparr>)"
    using inv by (auto simp: rt_inv_def list_all_iff gm_set_delete)
  with inv show ?thesis
    by (auto simp: Unsubscribe_def Let_def intro!: rt_inv_update inner_ok_delete
        dest: rt_inv_inner split: option.splits)
qed

lemma map_of_empty_delete: "AList.delete i m = [] \<Longrightarrow> (map_of m)(i := None) = Map.empty"
  by (metis gm_lookup_delete map_of.simps(1))

lemma Unsubscribe_view:
  assumes "\<not> rt_closed rt"
  shows "rt_view (snd (Unsubscribe t i rt)) = (rt_view rt)((t, i) := None)"
proof (cases "map_of (subscriptions rt) t")
  case None
  with assms show ?thesis
    by (auto simp: Unsubscribe_def rt_view_def gm_get_def fun_eq_iff)
next
  case (Some m)
  show ?thesis
  proof (cases "AList.delete i m = []")
    case True
    have "map_of m j = None" if "j \<noteq> i" for j
      using fun_cong [OF map_of_empty_delete [OF True], of j] that by simp
    with assms Some True show ?thesis
      by (auto simp: Unsubscribe_def rt_view_def gm_get_def fun_eq_iff)
  next
    case False
    with assms Some show ?thesis
      by (auto simp: Unsubscribe_def rt_view_def gm_get_def fun_eq_iff)
  qed
qed

text \<open>Counting what a lookup returns: the list holds a subscriber once per matching pattern.\<close>

lemma pattern_loop_eq:
  "pattern_loop topic acc m =
     acc @ concat (map (map snd \<circ> snd) (filter (\<lambda>p. fst p \<noteq> topic \<and> pattern_matches (fst p) topic) m))"
  by (induction topic acc m rule: pattern_loop.induct) (auto simp: matcher_iffs)

lemma count_inner:
  "inner_ok m \<Longrightarrow> count (mset (map snd m)) s = (if map_of m (ID s) = Some s then 1 else 0)"
proof -
  assume ok: "inner_ok m"
  have id: "fst p = ID (snd p)" if "p \<in> set m" for p
    using ok that by (auto simp: inner_ok_def list_all_iff)
  have "distinct (map snd m)"
    using ok id unfolding inner_ok_def gm_wf_def distinct_map inj_on_def by metis
  then have "count (mset (map snd m)) s = (if s \<in> set (map snd m) then 1 else 0)"
    by (rule distinct_count_atmost_1 [THEN iffD1, rule_format])
  also have "s \<in> set (map snd m) \<longleftrightarrow> map_of m (ID s) = Some s"
    using ok id by (force simp: inner_ok_def gm_mem_iff [symmetric])
  finally show ?thesis by simp
qed

lemma gm_sum_indicator:
  "gm_wf m \<Longrightarrow> (\<Sum>(k, v)\<leftarrow>m. if P k v then 1 else 0) = card {k. \<exists>v. map_of m k = Some v \<and> P k v}"
proof (induction m)
  case Nil
  then show ?case by simp
next
  case (Cons p m)
  obtain k v where p: "p = (k, v)" by (cases p)
  let ?S = "{k. \<exists>v. map_of m k = Some v \<and> P k v}"
  have "finite ?S"
    by (rule finite_subset [OF _ finite_dom_map_of [of m]]) auto
  moreover have "map_of m k = None"
    using Cons.prems p by simp
  moreover have "{k'. \<exists>v'. map_of ((k, v) # m) k' = Some v' \<and> P k' v'} = (if P k v then insert k ?S else ?S)"
    using calculation(2) by (auto split: if_splits)
  ultimately show ?case
    using Cons p by simp
qed

lemma count_filtered:
  "list_all (\<lambda>(t, m). inner_ok m) ms \<Longrightarrow>
   (\<Sum>x\<leftarrow>filter (\<lambda>p. Q (fst p)) ms. count (mset ((map snd \<circ> snd) x)) s)
     = (\<Sum>(p, m)\<leftarrow>ms. if Q p \<and> map_of m (ID s) = Some s then 1 else 0)"
  by (induction ms) (auto simp: count_inner [simplified])

lemma GetSubscribers_count:
  assumes inv: "rt_inv rt" and opn: "\<not> rt_closed rt" and ss: "GetSubscribers t rt = Inr ss"
  shows "count (mset ss) s = card {p. pattern_matches p t \<and> rt_view rt (p, ID s) = Some s}"
proof -
  let ?m = "subscriptions rt" and ?f = "map snd \<circ> snd"
  let ?P = "\<lambda>p :: string \<times> (string, subscriber) gomap. pattern_matches (fst p) t"
  have wf: "gm_wf ?m"
    using inv by (simp add: rt_inv_def)
  have exact: "filter (\<lambda>p. fst p = t \<and> ?P p) ?m = (case map_of ?m t of None \<Rightarrow> [] | Some x \<Rightarrow> [(t, x)])"
    by (rule gm_filter_key [OF wf]) simp
  have "mset ss = mset (concat (map ?f (filter (\<lambda>p. fst p = t \<and> ?P p) ?m)))
      + mset (concat (map ?f (filter (\<lambda>p. fst p \<noteq> t \<and> ?P p) ?m)))"
    using ss opn unfolding exact
    by (auto simp: GetSubscribers_def pattern_loop_eq gm_get_def case_prod_beta split: option.splits)
  also have "\<dots> = mset (concat (map ?f (filter ?P ?m)))"
    by (rule mset_concat_filter_first [OF wf [unfolded gm_wf_def]])
  finally have "count (mset ss) s = (\<Sum>x\<leftarrow>filter ?P ?m. count (mset (?f x)) s)"
    by (simp add: count_concat_map)
  also have "\<dots> = (\<Sum>(p, m)\<leftarrow>?m. if pattern_matches p t \<and> map_of m (ID s) = Some s then 1 else 0)"
    using inv by (intro count_filtered) (simp add: rt_inv_def)
  also have "\<dots> = card {p. \<exists>m. map_of ?m p = Some m \<and> pattern_matches p t \<and> map_of m (ID s) = Some s}"
    using inv by (intro gm_sum_indicator) (simp add: rt_inv_def)
  also have "{p. \<exists>m. map_of ?m p = Some m \<and> pattern_matches p t \<and> map_of m (ID s) = Some s}
      = {p. pattern_matches p t \<and> rt_view rt (p, ID s) = Some s}"
    by (auto simp: rt_view_def gm_get_def split: option.splits)
  finally show ?thesis .
qed

lemma inner_ok_id: "inner_ok m \<Longrightarrow> map_of m i = Some s \<Longrightarrow> i = ID s"
  by (auto simp: inner_ok_def list_all_iff dest: map_of_SomeD)

lemma put_subscriber_closed [simp]: "rt_closed (put_subscriber t s rt) = rt_closed rt"
  by (simp add: put_subscriber_eq)

lemma rt_view_finite: "finite (dom (rt_view rt))"
proof (rule finite_subset)
  show "dom (rt_view rt) \<subseteq>
      (SIGMA t : dom (map_of (subscriptions rt)). dom (map_of (gm_get [] (subscriptions rt) t)))"
    by (auto simp: rt_view_def gm_get_def split: option.splits)
qed (intro finite_SigmaI finite_dom_map_of)

lemma rt_view_id: "rt_inv rt \<Longrightarrow> rt_view rt (p, i) = Some s \<Longrightarrow> ID s = i"
  by (auto simp: rt_view_def gm_get_def split: option.splits dest: rt_inv_inner inner_ok_id)

interpretation rt: routing Subscribe Unsubscribe GetSubscribers rt_view rt_inv "\<lambda>rt. \<not> rt_closed rt"
proof unfold_locales
  fix r :: rtable and t :: string and s :: subscriber
  assume "rt_inv r" "\<not> rt_closed r" "t \<noteq> []"
  then show "\<exists>r'. Subscribe t (Some s) r = (None, r') \<and> rt_view r' = (rt_view r)((t, ID s) \<mapsto> s)
      \<and> rt_inv r' \<and> \<not> rt_closed r'"
    using put_subscriber_view [of t s r] put_subscriber_inv [of r t s]
    by (auto simp: Subscribe_def)
next
  fix r :: rtable and t i :: string
  assume r: "rt_inv r" "\<not> rt_closed r"
  have "fst (Unsubscribe t i r) = None" "\<not> rt_closed (snd (Unsubscribe t i r))"
    using r by (auto simp: Unsubscribe_def Let_def split: option.splits)
  then show "\<exists>r'. Unsubscribe t i r = (None, r') \<and> rt_view r' = (rt_view r)((t, i) := None)
      \<and> rt_inv r' \<and> \<not> rt_closed r'"
    using Unsubscribe_view [OF r(2), of t i] Unsubscribe_inv [OF r(1), of t i]
    by (cases "Unsubscribe t i r") auto
next
  fix r :: rtable and t :: string
  assume r: "rt_inv r" "\<not> rt_closed r"
  obtain ss where "GetSubscribers t r = Inr ss"
    using r by (simp add: GetSubscribers_def)
  with GetSubscribers_count [OF r] show "\<exists>ss. GetSubscribers t r = Inr ss \<and>
      (\<forall>s. count (mset ss) s = card {p. pattern_matches p t \<and> rt_view r (p, ID s) = Some s})"
    by blast
qed (auto simp: rt_view_finite rt_view_id Subscribe_def Unsubscribe_def Let_def
    split: option.splits if_splits)

subsection \<open>Rebuilding and counting\<close>

lemma all_loop_eq:
  "all_loop acc m =
     acc @ concat (map (\<lambda>(t, sm). map (\<lambda>(_, s). \<lparr>sn_Topic = t, sn_Subscriber = Some s\<rparr>) sm) m)"
  by (induction acc m rule: all_loop.induct) auto

lemma GetAllSubscriptions_set:
  assumes "rt_inv rt" "GetAllSubscriptions rt = Inr sns"
  shows "sn \<in> set sns \<longleftrightarrow>
    (\<exists>s. sn_Subscriber sn = Some s \<and> rt_view rt (sn_Topic sn, ID s) = Some s)"
proof -
  have wf: "gm_wf (subscriptions rt)"
    using assms(1) by (simp add: rt_inv_def)
  have inner: "(i, s) \<in> set m \<longleftrightarrow> i = ID s \<and> map_of m (ID s) = Some s"
    if "map_of (subscriptions rt) t = Some m" for t m i s
  proof -
    have ok: "inner_ok m" by (rule rt_inv_inner [OF assms(1) that])
    then have "gm_wf m" by (simp add: inner_ok_def)
    with inner_ok_id [OF ok] show ?thesis by (auto simp: gm_mem_iff)
  qed
  have "sn \<in> set sns \<longleftrightarrow> (\<exists>t m i s. (t, m) \<in> set (subscriptions rt) \<and> (i, s) \<in> set m
      \<and> sn = \<lparr>sn_Topic = t, sn_Subscriber = Some s\<rparr>)"
    using assms(2) by (force simp: GetAllSubscriptions_def all_loop_eq split: if_splits)
  also have "\<dots> \<longleftrightarrow> (\<exists>t m s. map_of (subscriptions rt) t = Some m \<and> map_of m (ID s) = Some s
      \<and> sn = \<lparr>sn_Topic = t, sn_Subscriber = Some s\<rparr>)"
    using inner by (auto simp: gm_mem_iff [OF wf])
  also have "\<dots> \<longleftrightarrow> (\<exists>s. sn_Subscriber sn = Some s \<and> rt_view rt (sn_Topic sn, ID s) = Some s)"
    by (cases sn) (auto simp: rt_view_def gm_get_def split: option.splits)
  finally show ?thesis .
qed

lemma rebuild_loop_view:
  assumes "\<forall>sn \<in> set sns. \<exists>s. sn_Subscriber sn = Some s \<and> V (sn_Topic sn, ID s) = Some s"
    and "rt_inv rt"
  shows "\<exists>rt'. rebuild_loop sns rt = (None, rt') \<and> rt_inv rt' \<and> rt_closed rt' = rt_closed rt
    \<and> rt_view rt' = (\<lambda>(t, i). if \<exists>s. \<lparr>sn_Topic = t, sn_Subscriber = Some s\<rparr> \<in> set sns \<and> ID s = i
          then V (t, i) else rt_view rt (t, i))"
  using assms
proof (induction sns rt rule: rebuild_loop.induct)
  case (1 rt)
  then show ?case by simp
next
  case (2 sn sns rt)
  obtain s where s: "sn_Subscriber sn = Some s" "V (sn_Topic sn, ID s) = Some s"
    using "2.prems"(1) by auto
  then obtain tp where sn: "sn = \<lparr>sn_Topic = tp, sn_Subscriber = Some s\<rparr>"
    by (cases sn) simp
  have "\<exists>rt'. rebuild_loop sns (put_subscriber (sn_Topic sn) s rt) = (None, rt') \<and> rt_inv rt'
    \<and> rt_closed rt' = rt_closed (put_subscriber (sn_Topic sn) s rt)
    \<and> rt_view rt' = (\<lambda>(t, i). if \<exists>s. \<lparr>sn_Topic = t, sn_Subscriber = Some s\<rparr> \<in> set sns \<and> ID s = i
          then V (t, i) else rt_view (put_subscriber (sn_Topic sn) s rt) (t, i))"
    using "2.prems" s(1) by (intro "2.IH") (auto intro: inv_intros)
  then obtain rt' where rt': "rebuild_loop sns (put_subscriber (sn_Topic sn) s rt) = (None, rt')"
    "rt_inv rt'" "rt_closed rt' = rt_closed rt"
    "rt_view rt' = (\<lambda>(t, i). if \<exists>s. \<lparr>sn_Topic = t, sn_Subscriber = Some s\<rparr> \<in> set sns \<and> ID s = i
          then V (t, i) else ((rt_view rt)((sn_Topic sn, ID s) \<mapsto> s)) (t, i))"
    unfolding put_subscriber_closed put_subscriber_view by blast
  have "rt_view rt' (t, i) = (if \<exists>s. \<lparr>sn_Topic = t, sn_Subscriber = Some s\<rparr> \<in> set (sn # sns) \<and> ID s = i
      then V (t, i) else rt_view rt (t, i))" for t i
    using s(2) unfolding rt'(4) sn by auto
  with rt' s(1) show ?case by (auto simp: fun_eq_iff)
qed

lemma count_loop_eq: "count_loop n m = n + (\<Sum>(t, sm)\<leftarrow>m. length sm)"
  by (induction n m rule: count_loop.induct) auto

lemma rt_view_topics:
  assumes "rt_inv rt"
  shows "length (subscriptions rt) = card (fst ` dom (rt_view rt))"
proof -
  have "fst ` dom (rt_view rt) = dom (map_of (subscriptions rt))"
  proof (intro set_eqI iffI)
    fix t assume "t \<in> dom (map_of (subscriptions rt))"
    then obtain m where m: "map_of (subscriptions rt) t = Some m" by auto
    then obtain i s m' where "m = (i, s) # m'"
      using rt_inv_inner [OF assms m] by (cases m) (auto simp: inner_ok_def)
    with m have "rt_view rt (t, i) = Some s"
      by (simp add: rt_view_def gm_get_def)
    then show "t \<in> fst ` dom (rt_view rt)" by force
  qed (auto simp: rt_view_def gm_get_def split: option.splits)
  moreover have "card (dom (map_of (subscriptions rt))) = length (subscriptions rt)"
    using assms by (simp add: rt_inv_def gm_card_dom)
  ultimately show ?thesis by simp
qed

lemma rt_view_card:
  assumes "rt_inv rt"
  shows "(\<Sum>(t, sm)\<leftarrow>subscriptions rt. length sm) = card (dom (rt_view rt))"
proof -
  let ?m = "subscriptions rt"
  have wf: "gm_wf ?m" using assms by (simp add: rt_inv_def)
  have "dom (rt_view rt) = (SIGMA t : dom (map_of ?m). dom (map_of (gm_get [] ?m t)))"
    by (auto simp: rt_view_def gm_get_def split: option.splits)
  then have "card (dom (rt_view rt)) = (\<Sum>t \<in> dom (map_of ?m). card (dom (map_of (gm_get [] ?m t))))"
    by (simp add: card_SigmaI finite_dom_map_of)
  also have "\<dots> = (\<Sum>t \<in> fst ` set ?m. length (gm_get [] ?m t))"
  proof (intro sum.cong)
    fix t assume "t \<in> fst ` set ?m"
    then obtain m where m: "map_of ?m t = Some m"
      by (auto simp: gm_keys_dom)
    then have "gm_wf m"
      using rt_inv_inner [OF assms m] by (simp add: inner_ok_def)
    then show "card (dom (map_of (gm_get [] ?m t))) = length (gm_get [] ?m t)"
      using m by (simp add: gm_get_def gm_card_dom)
  qed (simp add: gm_keys_dom)
  also have "\<dots> = (\<Sum>t\<leftarrow>map fst ?m. length (gm_get [] ?m t))"
    using wf by (simp add: gm_wf_def sum_list_distinct_conv_sum_set del: map_map)
  also have "\<dots> = (\<Sum>(t, sm)\<leftarrow>?m. length sm)"
    unfolding map_map
    by (intro arg_cong [where f = sum_list] map_cong)
      (auto simp: gm_get_def gm_mem_iff [OF wf] split: option.splits)
  finally show ?thesis by simp
qed

subsection \<open>Properties\<close>

text \<open>The operations that change a table, as requests, and what each does to the abstract view.\<close>

datatype rt_req =
    ReqSubscribe string "subscriber option"
  | ReqUnsubscribe string string
  | ReqRebuild "subscription list"

fun rt_step :: "rt_req \<Rightarrow> rtable \<Rightarrow> rtable" where
  "rt_step (ReqSubscribe t s) rt = snd (Subscribe t s rt)"
| "rt_step (ReqUnsubscribe t i) rt = snd (Unsubscribe t i rt)"
| "rt_step (ReqRebuild sns) rt = snd (RebuildFromGossip sns rt)"

fun spec_put :: "subscription list \<Rightarrow> (string \<times> string \<rightharpoonup> subscriber) \<Rightarrow> (string \<times> string \<rightharpoonup> subscriber)" where
  "spec_put [] V = V"
| "spec_put (sn # sns) V =
     (case sn_Subscriber sn of None \<Rightarrow> V | Some s \<Rightarrow> spec_put sns (V((sn_Topic sn, ID s) \<mapsto> s)))"

fun spec_step :: "rt_req \<Rightarrow> (string \<times> string \<rightharpoonup> subscriber) \<Rightarrow> (string \<times> string \<rightharpoonup> subscriber)" where
  "spec_step (ReqSubscribe t s) V =
     (case s of None \<Rightarrow> V | Some s \<Rightarrow> if t = [] then V else V((t, ID s) \<mapsto> s))"
| "spec_step (ReqUnsubscribe t i) V = V((t, i) := None)"
| "spec_step (ReqRebuild sns) V = spec_put sns Map.empty"

fun req_ok :: "rt_req \<Rightarrow> bool" where
  "req_ok (ReqRebuild sns) = list_all (\<lambda>sn. sn_Subscriber sn \<noteq> None) sns"
| "req_ok _ = True"

lemma rebuild_loop_spec:
  "list_all (\<lambda>sn. sn_Subscriber sn \<noteq> None) sns \<Longrightarrow> rt_inv rt \<Longrightarrow>
   rt_inv (snd (rebuild_loop sns rt)) \<and> rt_closed (snd (rebuild_loop sns rt)) = rt_closed rt
   \<and> rt_view (snd (rebuild_loop sns rt)) = spec_put sns (rt_view rt)"
  by (induction sns rt rule: rebuild_loop.induct)
    (auto simp: put_subscriber_view put_subscriber_inv split: option.splits)

lemma rt_step_spec:
  assumes inv: "rt_inv rt" and opn: "\<not> rt_closed rt" and ok: "req_ok q"
  shows "rt_inv (rt_step q rt) \<and> \<not> rt_closed (rt_step q rt) \<and> rt_view (rt_step q rt) = spec_step q (rt_view rt)"
proof (cases q)
  case (ReqSubscribe t s)
  with inv opn show ?thesis
    by (auto simp: Subscribe_def put_subscriber_view put_subscriber_inv split: option.splits)
next
  case (ReqUnsubscribe t i)
  with inv opn rt.unsub_value [of rt t i] show ?thesis by auto
next
  case (ReqRebuild sns)
  have "rt_inv (rt\<lparr>subscriptions := []\<rparr>)" "rt_view (rt\<lparr>subscriptions := []\<rparr>) = Map.empty"
    by (auto simp: rt_inv_def rt_view_def gm_get_def fun_eq_iff)
  with ReqRebuild ok opn rebuild_loop_spec [of sns "rt\<lparr>subscriptions := []\<rparr>"] show ?thesis
    by (simp add: RebuildFromGossip_def)
qed

lemma rt_history:
  assumes "list_all req_ok qs"
  shows "rt_inv (fold rt_step qs NewInMemoryRoutingTable)
    \<and> \<not> rt_closed (fold rt_step qs NewInMemoryRoutingTable)
    \<and> rt_view (fold rt_step qs NewInMemoryRoutingTable) = fold spec_step qs Map.empty"
proof -
  have gen: "rt_inv rt \<Longrightarrow> \<not> rt_closed rt \<Longrightarrow> list_all req_ok qs \<Longrightarrow>
      rt_inv (fold rt_step qs rt) \<and> \<not> rt_closed (fold rt_step qs rt)
      \<and> rt_view (fold rt_step qs rt) = fold spec_step qs (rt_view rt)" for rt
  proof (induction qs arbitrary: rt)
    case (Cons q qs)
    then show ?case using rt_step_spec [of rt q] by simp
  qed simp
  have "rt_view NewInMemoryRoutingTable = Map.empty"
    by (auto simp: NewInMemoryRoutingTable_def rt_view_def gm_get_def fun_eq_iff)
  moreover have "rt_inv NewInMemoryRoutingTable" "\<not> rt_closed NewInMemoryRoutingTable"
    by (simp_all add: NewInMemoryRoutingTable_def rt_inv_def)
  ultimately show ?thesis
    using gen [of NewInMemoryRoutingTable] assms by simp
qed

text \<open>
  C8. Refinement. After any sequence of subscribe, unsubscribe and rebuild requests (a rebuild without nil
  subscribers), the map of maps is the partial function from (pattern, id) to subscriber that the same
  requests build abstractly; a lookup returns a subscriber once per pattern it holds that matches the
  topic; the topic count is the number of patterns with a subscriber and the subscriber count the number
  of entries.
\<close>

theorem routing_refines:
  assumes "list_all req_ok qs"
  shows "let rt = fold rt_step qs NewInMemoryRoutingTable; V = fold spec_step qs Map.empty in
    rt_view rt = V
    \<and> (\<exists>ss. GetSubscribers t rt = Inr ss
        \<and> (\<forall>s. count (mset ss) s = card {p. pattern_matches p t \<and> V (p, ID s) = Some s}))
    \<and> GetTopicCount rt = Inr (card (fst ` dom V)) \<and> GetSubscriberCount rt = Inr (card (dom V))"
proof -
  let ?rt = "fold rt_step qs NewInMemoryRoutingTable" and ?V = "fold spec_step qs Map.empty"
  have inv: "rt_inv ?rt" and opn: "\<not> rt_closed ?rt" and view: "rt_view ?rt = ?V"
    using rt_history [OF assms] by auto
  show ?thesis
    using rt.lookup_value [OF inv opn, of t] opn rt_view_topics [OF inv] rt_view_card [OF inv]
    by (simp add: view GetTopicCount_def GetSubscriberCount_def count_loop_eq)
qed

theorem routing_refines_witness:
  "let a = LocalSubscriber ''a''; b = LocalSubscriber ''b'';
       qs = [ReqSubscribe ''o.*'' (Some a), ReqSubscribe ''o.x'' (Some a), ReqSubscribe ''o.x'' (Some b),
             ReqUnsubscribe ''o.x'' ''b'', ReqSubscribe [] (Some b)];
       rt = fold rt_step qs NewInMemoryRoutingTable
   in GetSubscribers ''o.x'' rt = Inr [a, a] \<and> rt_view rt = fold spec_step qs Map.empty"
  using routing_refines [of "[ReqSubscribe ''o.*'' (Some (LocalSubscriber ''a'')),
      ReqSubscribe ''o.x'' (Some (LocalSubscriber ''a'')), ReqSubscribe ''o.x'' (Some (LocalSubscriber ''b'')),
      ReqUnsubscribe ''o.x'' ''b'', ReqSubscribe [] (Some (LocalSubscriber ''b''))]" "''o.x''"]
  by (simp add: NewInMemoryRoutingTable_def Subscribe_def Unsubscribe_def put_subscriber_def Let_def
      gm_get_def GetSubscribers_def matchesPattern_def)

text \<open>
  C24. Rebuild round trip. Rebuilding any open table from what another table lists as its subscriptions,
  in any order and with repetitions, succeeds and gives a table that holds the same subscribers under the
  same patterns.
\<close>

theorem rebuild_roundtrip:
  assumes "rt_inv rt" "GetAllSubscriptions rt = Inr sns" "set sns' = set sns" "\<not> rt_closed rt2"
  shows "\<exists>rt'. RebuildFromGossip sns' rt2 = (None, rt') \<and> rt_view rt' = rt_view rt \<and> rt_inv rt'"
proof -
  have mem: "sn \<in> set sns' \<longleftrightarrow> (\<exists>s. sn_Subscriber sn = Some s \<and> rt_view rt (sn_Topic sn, ID s) = Some s)" for sn
    using GetAllSubscriptions_set [OF assms(1,2)] assms(3) by auto
  let ?rt0 = "rt2\<lparr>subscriptions := []\<rparr>"
  have "rt_inv ?rt0" and empty: "rt_view ?rt0 k = None" for k
    by (auto simp: rt_inv_def rt_view_def gm_get_def split: prod.splits)
  then obtain rt' where rt': "rebuild_loop sns' ?rt0 = (None, rt')" "rt_inv rt'"
    "rt_view rt' = (\<lambda>(t, i). if \<exists>s. \<lparr>sn_Topic = t, sn_Subscriber = Some s\<rparr> \<in> set sns' \<and> ID s = i
        then rt_view rt (t, i) else rt_view ?rt0 (t, i))"
    using rebuild_loop_view [of sns' "rt_view rt" ?rt0] mem by blast
  have "rt_view rt' (t, i) = rt_view rt (t, i)" for t i
    using rt_view_id [OF assms(1), of t i] empty unfolding rt'(3)
    by (cases "rt_view rt (t, i)") (auto simp: mem)
  with rt' assms(4) show ?thesis
    by (auto simp: RebuildFromGossip_def fun_eq_iff)
qed

theorem rebuild_roundtrip_witness:
  "\<exists>rt'. RebuildFromGossip [\<lparr>sn_Topic = ''t'', sn_Subscriber = Some (PeerSubscriber ''p'')\<rparr>]
        NewInMemoryRoutingTable = (None, rt')
      \<and> rt_view rt' = rt_view (put_subscriber ''t'' (PeerSubscriber ''p'') NewInMemoryRoutingTable)
      \<and> rt_inv rt'"
  using rebuild_roundtrip [of "put_subscriber ''t'' (PeerSubscriber ''p'') NewInMemoryRoutingTable"
      "[\<lparr>sn_Topic = ''t'', sn_Subscriber = Some (PeerSubscriber ''p'')\<rparr>]"
      "[\<lparr>sn_Topic = ''t'', sn_Subscriber = Some (PeerSubscriber ''p'')\<rparr>]" NewInMemoryRoutingTable]
  by (simp add: NewInMemoryRoutingTable_def put_subscriber_eq rt_inv_def inner_ok_def gm_get_def
      GetAllSubscriptions_def)

end
