(* ===== verification/Peer_Wire.thy ===== *)
theory Peer_Wire
  imports Event_Log
begin

text \<open>
  The messages of the peer link: the interest types of \<open>pkg/peerlink/interfaces.go\<close>, the queued
  messages and the conversions of \<open>internal/peerlink/grpc.go\<close>, and the wire messages of
  \<open>proto/peerlink/v1/peerlink.proto\<close> (the structs the generated code gives for them; a \<open>oneof\<close>
  that is not set is \<open>None\<close>). A pointer that may be nil is an \<open>option\<close>.
\<close>

subsection \<open>Interest messages and queued messages\<close>

record interest_update =
  iu_NodeId :: string
  iu_Action :: string
  iu_Topic :: string

record interest_snapshot =
  is_NodeId :: string
  is_Topics :: "string list"

record interest_message =
  im_Update :: "interest_update option"
  im_Snapshot :: "interest_snapshot option"

datatype peer_message =
    DataPlaneMessage string "event option" int nat
  | ControlPlaneMsg string "interest_message option" int nat
  | HeartbeatMsg string int nat

datatype plane = dataPlaneMessage | controlPlaneMessage

fun PeerID :: "peer_message \<Rightarrow> string" where
  "PeerID (DataPlaneMessage p e t n) = p"
| "PeerID (ControlPlaneMsg p m t n) = p"
| "PeerID (HeartbeatMsg p t n) = p"

fun SentAt :: "peer_message \<Rightarrow> int" where
  "SentAt (DataPlaneMessage p e t n) = t"
| "SentAt (ControlPlaneMsg p m t n) = t"
| "SentAt (HeartbeatMsg p t n) = t"

fun SetSentAt :: "int \<Rightarrow> peer_message \<Rightarrow> peer_message" where
  "SetSentAt t' (DataPlaneMessage p e t n) = DataPlaneMessage p e t' n"
| "SetSentAt t' (ControlPlaneMsg p m t n) = ControlPlaneMsg p m t' n"
| "SetSentAt t' (HeartbeatMsg p t n) = HeartbeatMsg p t' n"

fun SendAttempts :: "peer_message \<Rightarrow> nat" where
  "SendAttempts (DataPlaneMessage p e t n) = n"
| "SendAttempts (ControlPlaneMsg p m t n) = n"
| "SendAttempts (HeartbeatMsg p t n) = n"

fun IncrementSendAttempts :: "peer_message \<Rightarrow> peer_message" where
  "IncrementSendAttempts (DataPlaneMessage p e t n) = DataPlaneMessage p e t (n + 1)"
| "IncrementSendAttempts (ControlPlaneMsg p m t n) = ControlPlaneMsg p m t (n + 1)"
| "IncrementSendAttempts (HeartbeatMsg p t n) = HeartbeatMsg p t (n + 1)"

fun planeForMessage :: "peer_message \<Rightarrow> plane" where
  "planeForMessage (DataPlaneMessage p e t n) = dataPlaneMessage"
| "planeForMessage (ControlPlaneMsg p m t n) = controlPlaneMessage"
| "planeForMessage (HeartbeatMsg p t n) = controlPlaneMessage"

definition interestTopic :: "interest_message option \<Rightarrow> string" where
  "interestTopic om =
     (case om of
        None \<Rightarrow> ''unknown''
      | Some message \<Rightarrow>
         (case im_Update message of
            Some u \<Rightarrow> iu_Topic u
          | None \<Rightarrow> (case im_Snapshot message of Some s \<Rightarrow> ''interest-snapshot'' | None \<Rightarrow> ''unknown'')))"

fun messageTopic :: "peer_message \<Rightarrow> string" where
  "messageTopic (DataPlaneMessage p e t n) = (case e of None \<Rightarrow> ''unknown'' | Some ev \<Rightarrow> ev_topic ev)"
| "messageTopic (ControlPlaneMsg p m t n) = interestTopic m"
| "messageTopic (HeartbeatMsg p t n) = ''heartbeat''"

lemma IncrementSendAttempts_simps [simp]:
  "PeerID (IncrementSendAttempts m) = PeerID m"
  "SendAttempts (IncrementSendAttempts m) = Suc (SendAttempts m)"
  "planeForMessage (IncrementSendAttempts m) = planeForMessage m"
  "messageTopic (IncrementSendAttempts m) = messageTopic m"
  "SentAt (IncrementSendAttempts m) = SentAt m"
  by (cases m; simp)+

subsection \<open>The wire\<close>

record wire_event =
  we_Topic :: string
  we_Offset :: int
  we_Payload :: bytes
  we_Headers :: "(string, string) gomap"

datatype wire_control = WInterestUpdate interest_update | WInterestSnapshot interest_snapshot

datatype wire_kind =
    WHandshake string int
  | WEvent wire_event
  | WAck string int
  | WHeartbeat int
  | WControlPlane "wire_control option"

type_synonym wire_message = "wire_kind option"

definition ProtocolVersion :: int where
  "ProtocolVersion = 100"

datatype wire_error = InterestNil | InterestEmpty | WirePanic

definition controlMessageToProto :: "interest_message option \<Rightarrow> wire_error + wire_control" where
  "controlMessageToProto om =
     (case om of
        None \<Rightarrow> Inl InterestNil
      | Some message \<Rightarrow>
         (case im_Update message of
            Some u \<Rightarrow> Inr (WInterestUpdate
              \<lparr>iu_NodeId = iu_NodeId u, iu_Action = iu_Action u, iu_Topic = iu_Topic u\<rparr>)
          | None \<Rightarrow>
             (case im_Snapshot message of
                Some s \<Rightarrow> Inr (WInterestSnapshot \<lparr>is_NodeId = is_NodeId s, is_Topics = is_Topics s\<rparr>)
              | None \<Rightarrow> Inl InterestEmpty)))"

definition interestMessageFromProto :: "wire_control option \<Rightarrow> interest_message option" where
  "interestMessageFromProto controlMsg =
     (case controlMsg of
        Some (WInterestUpdate u) \<Rightarrow>
          Some \<lparr>im_Update = Some \<lparr>iu_NodeId = iu_NodeId u, iu_Action = iu_Action u, iu_Topic = iu_Topic u\<rparr>,
                im_Snapshot = None\<rparr>
      | Some (WInterestSnapshot s) \<Rightarrow>
          Some \<lparr>im_Update = None, im_Snapshot = Some \<lparr>is_NodeId = is_NodeId s, is_Topics = is_Topics s\<rparr>\<rparr>
      | None \<Rightarrow> None)"

definition eventFromProto :: "int \<Rightarrow> wire_event \<Rightarrow> event" where
  "eventFromProto now eventMsg =
     \<lparr>ev_offset = we_Offset eventMsg, ev_topic = we_Topic eventMsg,
      ev_payload = append_to_nil (bytes_of (we_Payload eventMsg)),
      ev_timestamp = now, ev_headers = gm_copy_into [] (we_Headers eventMsg)\<rparr>"

text \<open>\<open>UnixMilli\<close> floors the nanoseconds to milliseconds. Serialising a nil event dereferences nil.\<close>

definition UnixMilli :: "int \<Rightarrow> int" where
  "UnixMilli t = t div 1000000"

fun serializeMessage :: "peer_message \<Rightarrow> wire_error + wire_message" where
  "serializeMessage (DataPlaneMessage p e t n) =
     (case e of
        None \<Rightarrow> Inl WirePanic
      | Some ev \<Rightarrow> Inr (Some (WEvent
          \<lparr>we_Topic = ev_topic ev, we_Offset = ev_offset ev, we_Payload = ev_payload ev,
           we_Headers = ev_headers ev\<rparr>)))"
| "serializeMessage (ControlPlaneMsg p m t n) =
     (case controlMessageToProto m of
        Inl err \<Rightarrow> Inl err
      | Inr controlMsg \<Rightarrow> Inr (Some (WControlPlane (Some controlMsg))))"
| "serializeMessage (HeartbeatMsg p t n) = Inr (Some (WHeartbeat (UnixMilli t)))"

subsection \<open>The trip over the wire\<close>

text \<open>
  gRPC carries a message as protobuf bytes. What arrives has the same fields; a map may be listed in
  another order, and an empty payload may arrive as nil.
\<close>

fun wire_equiv :: "wire_message \<Rightarrow> wire_message \<Rightarrow> bool" where
  "wire_equiv (Some (WEvent a)) (Some (WEvent b)) \<longleftrightarrow>
     we_Topic a = we_Topic b \<and> we_Offset a = we_Offset b
     \<and> bytes_of (we_Payload a) = bytes_of (we_Payload b)
     \<and> gm_wf (we_Headers b) \<and> mset (we_Headers a) = mset (we_Headers b)"
| "wire_equiv a b \<longleftrightarrow> a = b"

text \<open>What a receiver reads out of a message, the timestamp being its own clock.\<close>

definition received_event :: "int \<Rightarrow> wire_message \<Rightarrow> event option" where
  "received_event now w = (case w of Some (WEvent e) \<Rightarrow> Some (eventFromProto now e) | _ \<Rightarrow> None)"

definition received_interest :: "wire_message \<Rightarrow> interest_message option" where
  "received_interest w = (case w of Some (WControlPlane c) \<Rightarrow> interestMessageFromProto c | _ \<Rightarrow> None)"

lemma mset_map_of: "gm_wf m' \<Longrightarrow> mset m = mset m' \<Longrightarrow> map_of m = map_of m'"
proof (rule ext)
  fix k assume wf: "gm_wf m'" and eq: "mset m = mset m'"
  have "mset (map fst m) = mset (map fst m')"
    using arg_cong [OF eq, of "image_mset fst"] by simp
  then have "gm_wf m"
    using wf mset_eq_imp_distinct_iff unfolding gm_wf_def by blast
  moreover have "set m = set m'"
    using eq by (rule mset_eq_setD)
  ultimately show "map_of m k = map_of m' k"
    using wf by (cases "map_of m' k") (metis gm_mem_iff option.exhaust)+
qed

lemma serialize_event_Inr:
  "serializeMessage (DataPlaneMessage p (Some e) t n) =
     Inr (Some (WEvent \<lparr>we_Topic = ev_topic e, we_Offset = ev_offset e, we_Payload = ev_payload e,
       we_Headers = ev_headers e\<rparr>))"
  by simp

lemma event_wire:
  assumes "wire_equiv w w'" "serializeMessage (DataPlaneMessage p (Some e) t n) = Inr w"
  obtains m where "w' = Some (WEvent m)" "ev_topic (eventFromProto now m) = ev_topic e"
    "ev_offset (eventFromProto now m) = ev_offset e" "ev_timestamp (eventFromProto now m) = now"
    "bytes_of (ev_payload (eventFromProto now m)) = bytes_of (ev_payload e)"
    "map_of (ev_headers (eventFromProto now m)) = map_of (ev_headers e)"
proof -
  obtain b where w': "w' = Some (WEvent b)"
    and b: "we_Topic b = ev_topic e" "we_Offset b = ev_offset e"
      "bytes_of (we_Payload b) = bytes_of (ev_payload e)"
      "gm_wf (we_Headers b)" "mset (ev_headers e) = mset (we_Headers b)"
    using assms by (cases "(w, w')" rule: wire_equiv.cases) auto
  have "map_of (we_Headers b) = map_of (ev_headers e)"
    by (rule mset_map_of [OF b(4,5), symmetric])
  with b show ?thesis
    by (intro that [OF w']) (simp_all add: eventFromProto_def gm_copy)
qed



text \<open>
  Gossip arrives as it was sent: an interest message that carries exactly an update or exactly a
  snapshot is rebuilt unchanged by the receiver; one that carries neither, or a nil one, is refused when
  it is serialised and never reaches the wire; of one that carries both, only the update is sent.
\<close>

lemma interest_wire_roundtrip:
  "case serializeMessage (ControlPlaneMsg p m t n) of
     Inr w \<Rightarrow> received_event now w = None
        \<and> received_interest w = map_option (\<lambda>im. if im_Update im = None then im else im\<lparr>im_Snapshot := None\<rparr>) m
   | Inl err \<Rightarrow> (m = None \<and> err = InterestNil)
        \<or> (m = Some \<lparr>im_Update = None, im_Snapshot = None\<rparr> \<and> err = InterestEmpty)"
proof (cases m)
  case None
  then show ?thesis by (simp add: controlMessageToProto_def)
next
  case (Some im)
  then show ?thesis
    by (cases im; cases "im_Update im"; cases "im_Snapshot im")
      (auto simp: controlMessageToProto_def received_event_def received_interest_def
        interestMessageFromProto_def)
qed

end
