(* ===== verification/Go_Chan.thy ===== *)
theory Go_Chan
  imports Go_Prelude
begin

text \<open>
  Go channels. A buffered channel is a bounded queue with a closed flag; a reference to it is an index
  into a heap of channels, so that a goroutine may hold a reference to a channel that another one has
  closed or dropped from its map. A \<open>select\<close> among several ready cases takes any of them: the
  definitions take the choice as a number.
\<close>

record 'm chan =
  ch_items :: "'m list"
  ch_cap :: nat
  ch_closed :: bool

type_synonym 'm heap = "'m chan list"

definition make_chan :: "nat \<Rightarrow> 'm chan" where
  "make_chan cap = \<lparr>ch_items = [], ch_cap = cap, ch_closed = False\<rparr>"

lemma make_chan_simps [simp]:
  "ch_items (make_chan n) = []" "ch_cap (make_chan n) = n" "\<not> ch_closed (make_chan n)"
  by (simp_all add: make_chan_def)

text \<open>A send case: ready when there is room, a panic on a closed channel, never ready on \<open>nil\<close>.\<close>

datatype send_result = Sent | Full | SendPanic

definition chan_at :: "'m heap \<Rightarrow> nat \<Rightarrow> 'm chan" where
  "chan_at h r = (if r < length h then h ! r else make_chan 0)"

definition try_send :: "nat \<Rightarrow> 'm \<Rightarrow> 'm heap \<Rightarrow> send_result \<times> 'm heap" where
  "try_send r x h =
     (let c = chan_at h r in
      if ch_closed c then (SendPanic, h)
      else if length (ch_items c) < ch_cap c then (Sent, h[r := c\<lparr>ch_items := ch_items c @ [x]\<rparr>])
      else (Full, h))"

text \<open>A receive case: the next item, the zero value of a closed and drained channel, or not ready.\<close>

datatype 'm recv_result = Item 'm | Drained | Empty

definition try_recv :: "nat \<Rightarrow> 'm heap \<Rightarrow> 'm recv_result \<times> 'm heap" where
  "try_recv r h =
     (let c = chan_at h r in
      case ch_items c of
        x # xs \<Rightarrow> (Item x, h[r := c\<lparr>ch_items := xs\<rparr>])
      | [] \<Rightarrow> (if ch_closed c then Drained else Empty, h))"

definition close_chan :: "nat \<Rightarrow> 'm heap \<Rightarrow> 'm heap" where
  "close_chan r h = (if r < length h then h[r := (chan_at h r)\<lparr>ch_closed := True\<rparr>] else h)"

definition select_of :: "nat \<Rightarrow> 'a list \<Rightarrow> 'a option" where
  "select_of pick cases = (if cases = [] then None else Some (cases ! (pick mod length cases)))"

lemma select_of_mem: "select_of pick cases = Some x \<Longrightarrow> x \<in> set cases"
  by (auto simp: select_of_def split: if_splits)

lemma select_of_single [simp]: "select_of pick [x] = Some x"
  by (simp add: select_of_def)

lemma select_of_any: "x \<in> set cases \<Longrightarrow> \<exists>pick. select_of pick cases = Some x"
  by (auto simp: select_of_def in_set_conv_nth) (metis mod_less)

subsection \<open>Bounded queues\<close>

definition chan_ok :: "'m chan \<Rightarrow> bool" where
  "chan_ok c \<longleftrightarrow> length (ch_items c) \<le> ch_cap c"

definition heap_ok :: "'m heap \<Rightarrow> bool" where
  "heap_ok h \<longleftrightarrow> list_all chan_ok h"

lemma chan_at_in: "r < length h \<Longrightarrow> chan_at h r = h ! r"
  by (simp add: chan_at_def)

lemma chan_at_update:
  "chan_at (h[r := c]) r' = (if r' = r \<and> r < length h then c else chan_at h r')"
  by (auto simp: chan_at_def)

lemma heap_ok_make [inv_intros]: "heap_ok h \<Longrightarrow> heap_ok (h @ [make_chan n])"
  by (simp add: heap_ok_def chan_ok_def make_chan_def)

lemma heap_ok_update: "heap_ok h \<Longrightarrow> chan_ok c \<Longrightarrow> heap_ok (h[r := c])"
  by (auto simp: heap_ok_def list_all_iff dest: set_update_subset_insert [THEN subsetD])

lemma heap_ok_at: "heap_ok h \<Longrightarrow> chan_ok (chan_at h r)"
  by (auto simp: heap_ok_def list_all_length chan_at_def chan_ok_def make_chan_def)

lemma try_send_ok [inv_intros]: "heap_ok h \<Longrightarrow> heap_ok (snd (try_send r x h))"
  by (auto simp: try_send_def Let_def chan_ok_def intro!: heap_ok_update)

lemma try_recv_ok [inv_intros]: "heap_ok h \<Longrightarrow> heap_ok (snd (try_recv r h))"
  using heap_ok_at [of h r]
  by (auto simp: try_recv_def Let_def chan_ok_def intro!: heap_ok_update split: list.splits)

lemma close_chan_ok [inv_intros]: "heap_ok h \<Longrightarrow> heap_ok (close_chan r h)"
  using heap_ok_at [of h r] by (auto simp: close_chan_def chan_ok_def intro!: heap_ok_update)

lemma heap_length [simp]:
  "length (snd (try_send r x h)) = length h" "length (snd (try_recv r h)) = length h"
  "length (close_chan r h) = length h"
  by (simp_all add: try_send_def try_recv_def close_chan_def Let_def split: list.splits)

lemma try_send_items:
  "ch_items (chan_at (snd (try_send r x h)) r') =
     (if r' = r \<and> fst (try_send r x h) = Sent then ch_items (chan_at h r) @ [x] else ch_items (chan_at h r'))"
  by (auto simp: try_send_def Let_def chan_at_update chan_at_def make_chan_def)

lemma try_send_frame [simp]:
  "ch_cap (chan_at (snd (try_send r x h)) r') = ch_cap (chan_at h r')"
  "ch_closed (chan_at (snd (try_send r x h)) r') = ch_closed (chan_at h r')"
  by (auto simp: try_send_def Let_def chan_at_update)

lemma try_recv_frame [simp]:
  "ch_cap (chan_at (snd (try_recv r h)) r') = ch_cap (chan_at h r')"
  "ch_closed (chan_at (snd (try_recv r h)) r') = ch_closed (chan_at h r')"
  by (auto simp: try_recv_def Let_def chan_at_update split: list.splits)

lemma try_recv_items:
  "ch_items (chan_at (snd (try_recv r h)) r') =
     (if r' = r then tl (ch_items (chan_at h r)) else ch_items (chan_at h r'))"
  by (auto simp: try_recv_def Let_def chan_at_update chan_at_def make_chan_def split: list.splits)

lemma close_chan_frame [simp]:
  "ch_cap (chan_at (close_chan r h) r') = ch_cap (chan_at h r')"
  "ch_items (chan_at (close_chan r h) r') = ch_items (chan_at h r')"
  "ch_closed (chan_at (close_chan r h) r') \<longleftrightarrow> (r' = r \<and> r < length h) \<or> ch_closed (chan_at h r')"
  by (auto simp: close_chan_def chan_at_update)

lemma chan_at_append:
  "chan_at (h @ [c]) r = (if r = length h then c else chan_at h r)"
  by (auto simp: chan_at_def nth_append)

lemma try_send_Sent_iff:
  "fst (try_send r x h) = Sent \<longleftrightarrow>
     \<not> ch_closed (chan_at h r) \<and> length (ch_items (chan_at h r)) < ch_cap (chan_at h r)"
  "fst (try_send r x h) = SendPanic \<longleftrightarrow> ch_closed (chan_at h r)"
  "fst (try_send r x h) \<noteq> Sent \<Longrightarrow> snd (try_send r x h) = h"
  by (auto simp: try_send_def Let_def)

lemma try_recv_iff:
  "fst (try_recv r h) = Item x \<longleftrightarrow> (\<exists>xs. ch_items (chan_at h r) = x # xs)"
  "fst (try_recv r h) = Drained \<longleftrightarrow> ch_items (chan_at h r) = [] \<and> ch_closed (chan_at h r)"
  by (auto simp: try_recv_def Let_def split: list.splits)

end
