(* ===== verification/Peer_Link.thy ===== *)
theory Peer_Link
  imports Peer_Wire Go_Chan "HOL-Library.Signed_Division"
begin

text \<open>
  The gRPC peer link, \<open>internal/peerlink\<close>: configuration, peers, queues, metrics, heartbeats and
  lifecycle. One call of a method that holds the link's lock is one function on the state. The two
  methods that take a queue under the lock and use it afterwards are also given in two halves, so that
  what happens in between can be stated. The transport (listening, dialling, the gRPC server) is outside
  the model: its answers are arguments.
\<close>

subsection \<open>Configuration\<close>

record pl_config =
  cfg_NodeID :: string
  cfg_ListenAddress :: string
  cfg_SendQueueSize :: int
  cfg_SendTimeout :: int
  cfg_MaxSendAttempts :: int
  cfg_HeartbeatInterval :: int
  cfg_MissedHeartbeatLimit :: int
  cfg_MaxMessageSize :: int

datatype pl_error =
    PlEmptyNodeID
  | PlEmptyListenAddress
  | PlClosed
  | PlNotConnected
  | PlQueueFull
  | PlPeerNotFound
  | PlNilContext
  | PlTransport string
  | PlExpectedHandshake
  | PlEmptyPeerID
  | PlStreamNil
  | PlSerialize wire_error
  | PlCtxErr
  | PlPanic

definition Validate :: "pl_config \<Rightarrow> pl_error option" where
  "Validate c =
     (if cfg_NodeID c = [] then Some PlEmptyNodeID
      else if cfg_ListenAddress c = [] then Some PlEmptyListenAddress
      else None)"

definition SetDefaults :: "pl_config \<Rightarrow> pl_config" where
  "SetDefaults c =
     (let c = (if cfg_SendQueueSize c \<le> 0 then c\<lparr>cfg_SendQueueSize := 100\<rparr> else c);
          c = (if cfg_SendTimeout c \<le> 0 then c\<lparr>cfg_SendTimeout := 1000000000\<rparr> else c);
          c = (if cfg_MaxSendAttempts c \<le> 0 then c\<lparr>cfg_MaxSendAttempts := 3\<rparr> else c);
          c = (if cfg_HeartbeatInterval c \<le> 0 then c\<lparr>cfg_HeartbeatInterval := 5000000000\<rparr> else c);
          c = (if cfg_MissedHeartbeatLimit c \<le> 0 then c\<lparr>cfg_MissedHeartbeatLimit := 3\<rparr> else c)
      in if cfg_MaxMessageSize c \<le> 0 then c\<lparr>cfg_MaxMessageSize := 1048576\<rparr> else c)"

subsection \<open>State\<close>

datatype health = PeerHealthy | PeerUnhealthy | PeerDisconnected

fun health_String :: "health \<Rightarrow> string" where
  "health_String PeerHealthy = ''Healthy''"
| "health_String PeerUnhealthy = ''Unhealthy''"
| "health_String PeerDisconnected = ''Disconnected''"

text \<open>A peer node is what its interface shows: id, address and a health flag.\<close>

record peer_node =
  pn_ID :: string
  pn_Address :: string
  pn_IsHealthy :: bool

definition inboundPeer :: "string \<Rightarrow> string \<Rightarrow> peer_node" where
  "inboundPeer i address = \<lparr>pn_ID = i, pn_Address = address, pn_IsHealthy = True\<rparr>"

record peer_metrics =
  dropsCount :: nat
  dataPlaneDropsCount :: nat
  controlPlaneDropsCount :: nat
  dataPlaneQueuedCount :: nat
  controlPlaneQueuedCount :: nat
  dataPlaneFailureCount :: nat
  controlPlaneFailureCount :: nat
  healthState :: health
  failureCount :: nat
  missedHeartbeatCount :: int
  lastSeenAt :: int

text \<open>
  \<open>ci_stream\<close> names the inbound stream, \<open>None\<close> for an outbound connection. Contexts with a cancel
  function, outbound connections and heartbeat tokens are named by numbers taken from one counter;
  \<open>pl_cancelled\<close> lists the contexts whose cancel function has been called.
\<close>

record connection_info =
  ci_node :: peer_node
  ci_stream :: "nat option"

record peer_link =
  pl_config :: pl_config
  pl_closed :: bool
  pl_started :: bool
  pl_grpcServer :: bool
  pl_listener :: "string option"
  connections :: "(string, connection_info) gomap"
  sendQueues :: "(string, nat) gomap"
  controlQueues :: "(string, nat) gomap"
  pl_metrics :: "(string, peer_metrics) gomap"
  pl_subscribers :: "(nat, bool) gomap"
  interestSubscribers :: "(nat, bool) gomap"
  outboundConns :: "(string, nat) gomap"
  outboundCancel :: "(string, nat) gomap"
  heartbeatCancel :: "nat option"
  heartbeatToken :: "nat option"
  heartbeatsRunning :: bool
  pl_queues :: "peer_message heap"
  pl_eventChans :: "event heap"
  pl_interestChans :: "interest_message heap"
  pl_next :: nat
  pl_cancelled :: "nat list"

definition NewGRPCPeerLink :: "pl_config \<Rightarrow> pl_error + peer_link" where
  "NewGRPCPeerLink config =
     (case Validate config of
        Some err \<Rightarrow> Inl err
      | None \<Rightarrow> Inr
         \<lparr>pl_config = SetDefaults config, pl_closed = False, pl_started = False, pl_grpcServer = False,
          pl_listener = None, connections = [], sendQueues = [], controlQueues = [], pl_metrics = [],
          pl_subscribers = [], interestSubscribers = [], outboundConns = [], outboundCancel = [],
          heartbeatCancel = None, heartbeatToken = None, heartbeatsRunning = False,
          pl_queues = [], pl_eventChans = [], pl_interestChans = [], pl_next = 0, pl_cancelled = []\<rparr>)"

subsection \<open>Metrics\<close>

definition on_metrics :: "string \<Rightarrow> (peer_metrics \<Rightarrow> peer_metrics) \<Rightarrow> peer_link \<Rightarrow> peer_link" where
  "on_metrics peerID f g =
     (case map_of (pl_metrics g) peerID of
        None \<Rightarrow> g
      | Some m \<Rightarrow> g\<lparr>pl_metrics := AList.update peerID (f m) (pl_metrics g)\<rparr>)"

definition SetPeerHealth :: "string \<Rightarrow> health \<Rightarrow> peer_link \<Rightarrow> peer_link" where
  "SetPeerHealth peerID newState g =
     on_metrics peerID
       (\<lambda>m. if healthState m \<noteq> newState then m\<lparr>healthState := newState\<rparr> else m) g"

definition markPeerSeen :: "int \<Rightarrow> string \<Rightarrow> peer_link \<Rightarrow> peer_link" where
  "markPeerSeen now peerID g =
     on_metrics peerID
       (\<lambda>m. m\<lparr>healthState := PeerHealthy, failureCount := 0, missedHeartbeatCount := 0, lastSeenAt := now\<rparr>) g"

definition recordPlaneQueued :: "string \<Rightarrow> plane \<Rightarrow> peer_link \<Rightarrow> peer_link" where
  "recordPlaneQueued peerID pl g =
     on_metrics peerID
       (\<lambda>m. case pl of
              dataPlaneMessage \<Rightarrow> m\<lparr>dataPlaneQueuedCount := dataPlaneQueuedCount m + 1\<rparr>
            | controlPlaneMessage \<Rightarrow> m\<lparr>controlPlaneQueuedCount := controlPlaneQueuedCount m + 1\<rparr>) g"

definition recordPlaneDrop :: "string \<Rightarrow> plane \<Rightarrow> peer_link \<Rightarrow> peer_link" where
  "recordPlaneDrop peerID pl g =
     on_metrics peerID
       (\<lambda>m. let m1 = m\<lparr>dropsCount := dropsCount m + 1\<rparr> in
            case pl of
              dataPlaneMessage \<Rightarrow> m1\<lparr>dataPlaneDropsCount := dataPlaneDropsCount m1 + 1\<rparr>
            | controlPlaneMessage \<Rightarrow> m1\<lparr>controlPlaneDropsCount := controlPlaneDropsCount m1 + 1\<rparr>) g"

definition recordPlaneSendFailure :: "string \<Rightarrow> plane \<Rightarrow> peer_link \<Rightarrow> peer_link" where
  "recordPlaneSendFailure peerID pl g =
     on_metrics peerID
       (\<lambda>m. case pl of
              dataPlaneMessage \<Rightarrow> m\<lparr>dataPlaneFailureCount := dataPlaneFailureCount m + 1\<rparr>
            | controlPlaneMessage \<Rightarrow> m\<lparr>controlPlaneFailureCount := controlPlaneFailureCount m + 1\<rparr>) g"

definition recordPeerSendFailure :: "string \<Rightarrow> peer_link \<Rightarrow> peer_link" where
  "recordPeerSendFailure peerID g =
     on_metrics peerID (\<lambda>m. m\<lparr>failureCount := failureCount m + 1, healthState := PeerUnhealthy\<rparr>) g"

definition queue_len :: "(string, nat) gomap \<Rightarrow> string \<Rightarrow> peer_link \<Rightarrow> nat" where
  "queue_len qs peerID g =
     (case map_of qs peerID of None \<Rightarrow> 0 | Some r \<Rightarrow> length (ch_items (chan_at (pl_queues g) r)))"

definition GetQueueDepth :: "string \<Rightarrow> peer_link \<Rightarrow> nat" where
  "GetQueueDepth peerID g =
     (case map_of (sendQueues g) peerID of
        None \<Rightarrow> 0
      | Some r \<Rightarrow> length (ch_items (chan_at (pl_queues g) r)) + queue_len (controlQueues g) peerID g)"

definition GetDropsCount :: "string \<Rightarrow> peer_link \<Rightarrow> nat" where
  "GetDropsCount peerID g =
     (case map_of (pl_metrics g) peerID of None \<Rightarrow> 0 | Some m \<Rightarrow> dropsCount m)"

record peer_metrics_view =
  PM_PeerID :: string
  PM_QueueDepth :: nat
  PM_DataPlaneQueueDepth :: nat
  PM_ControlPlaneQueueDepth :: nat
  PM_DropsCount :: nat
  PM_DataPlaneDropsCount :: nat
  PM_ControlPlaneDropsCount :: nat
  PM_DataPlaneQueuedCount :: nat
  PM_ControlPlaneQueuedCount :: nat
  PM_DataPlaneFailureCount :: nat
  PM_ControlPlaneFailureCount :: nat
  PM_HealthState :: health
  PM_FailureCount :: nat
  PM_MissedHeartbeatCount :: int
  PM_LastSeenAt :: int

fun metrics_loop :: "peer_link \<Rightarrow> peer_metrics_view list \<Rightarrow> (string, peer_metrics) gomap \<Rightarrow> peer_metrics_view list" where
  "metrics_loop g acc [] = acc"
| "metrics_loop g acc ((peerID, m) # ms) =
     (let d = queue_len (sendQueues g) peerID g; c = queue_len (controlQueues g) peerID g in
      metrics_loop g (acc @
        [\<lparr>PM_PeerID = peerID, PM_QueueDepth = d + c, PM_DataPlaneQueueDepth = d,
          PM_ControlPlaneQueueDepth = c, PM_DropsCount = dropsCount m,
          PM_DataPlaneDropsCount = dataPlaneDropsCount m,
          PM_ControlPlaneDropsCount = controlPlaneDropsCount m,
          PM_DataPlaneQueuedCount = dataPlaneQueuedCount m,
          PM_ControlPlaneQueuedCount = controlPlaneQueuedCount m,
          PM_DataPlaneFailureCount = dataPlaneFailureCount m,
          PM_ControlPlaneFailureCount = controlPlaneFailureCount m,
          PM_HealthState = healthState m, PM_FailureCount = failureCount m,
          PM_MissedHeartbeatCount = missedHeartbeatCount m, PM_LastSeenAt = lastSeenAt m\<rparr>]) ms)"

definition GetAllPeerMetrics :: "peer_link \<Rightarrow> peer_metrics_view list" where
  "GetAllPeerMetrics g = metrics_loop g [] (pl_metrics g)"

definition GetPeerHealth :: "string \<Rightarrow> peer_link \<Rightarrow> health \<times> pl_error option" where
  "GetPeerHealth peerID g =
     (case map_of (pl_metrics g) peerID of
        Some m \<Rightarrow> (healthState m, None)
      | None \<Rightarrow> (PeerDisconnected, Some PlPeerNotFound))"

definition GetConnectedPeers :: "peer_link \<Rightarrow> pl_error + peer_node list" where
  "GetConnectedPeers g =
     (if pl_closed g then Inl PlClosed else Inr (map (\<lambda>(_, conn). ci_node conn) (connections g)))"

definition GetConnectedPeerSummary :: "peer_link \<Rightarrow> pl_error + string list" where
  "GetConnectedPeerSummary g =
     (case GetConnectedPeers g of
        Inl err \<Rightarrow> Inl err
      | Inr peers \<Rightarrow> Inr (map (\<lambda>peer. pn_ID peer @ ''@'' @ pn_Address peer) peers))"

subsection \<open>Registration and connections\<close>

definition new_queue :: "peer_link \<Rightarrow> nat \<times> peer_link" where
  "new_queue g =
     (length (pl_queues g),
      g\<lparr>pl_queues := pl_queues g @ [make_chan (nat (cfg_SendQueueSize (pl_config g)))]\<rparr>)"

text \<open>The three conditional statements of \<open>registerPeer\<close>.\<close>

definition ensure_send_queue :: "string \<Rightarrow> peer_link \<Rightarrow> peer_link" where
  "ensure_send_queue peerID g =
     (if map_of (sendQueues g) peerID = None
      then (case new_queue g of (r, g) \<Rightarrow> g\<lparr>sendQueues := AList.update peerID r (sendQueues g)\<rparr>)
      else g)"

definition ensure_control_queue :: "string \<Rightarrow> peer_link \<Rightarrow> peer_link" where
  "ensure_control_queue peerID g =
     (if map_of (controlQueues g) peerID = None
      then (case new_queue g of (r, g) \<Rightarrow> g\<lparr>controlQueues := AList.update peerID r (controlQueues g)\<rparr>)
      else g)"

definition fresh_metrics :: "int \<Rightarrow> peer_metrics" where
  "fresh_metrics now = \<lparr>dropsCount = 0, dataPlaneDropsCount = 0, controlPlaneDropsCount = 0,
     dataPlaneQueuedCount = 0, controlPlaneQueuedCount = 0, dataPlaneFailureCount = 0,
     controlPlaneFailureCount = 0, healthState = PeerHealthy, failureCount = 0,
     missedHeartbeatCount = 0, lastSeenAt = now\<rparr>"

definition ensure_metrics :: "int \<Rightarrow> string \<Rightarrow> peer_link \<Rightarrow> peer_link" where
  "ensure_metrics now peerID g =
     (if map_of (pl_metrics g) peerID = None
      then g\<lparr>pl_metrics := AList.update peerID (fresh_metrics now) (pl_metrics g)\<rparr> else g)"

definition registerPeer :: "int \<Rightarrow> string \<Rightarrow> peer_link \<Rightarrow> peer_link" where
  "registerPeer now peerID g =
     ensure_metrics now peerID (ensure_control_queue peerID (ensure_send_queue peerID g))"

text \<open>
  \<open>dial\<close> is the answer of \<open>grpc.NewClient\<close>: \<open>None\<close> for a connection, which gets the next number.
\<close>

definition Connect :: "int \<Rightarrow> string option \<Rightarrow> peer_node \<Rightarrow> peer_link \<Rightarrow> pl_error option \<times> peer_link" where
  "Connect now dial peer g =
     (if pl_closed g then (Some PlClosed, g)
      else let peerID = pn_ID peer in
        if map_of (connections g) peerID \<noteq> None then (None, g)
        else
          let g = g\<lparr>connections := AList.update peerID \<lparr>ci_node = peer, ci_stream = None\<rparr> (connections g)\<rparr>;
              g = registerPeer now peerID g
          in case dial of
               Some err \<Rightarrow> (Some (PlTransport err), g)
             | None \<Rightarrow>
                 let conn = pl_next g; cancel = pl_next g + 1
                 in (None, g\<lparr>outboundConns := AList.update peerID conn (outboundConns g),
                             outboundCancel := AList.update peerID cancel (outboundCancel g),
                             pl_next := pl_next g + 2\<rparr>))"

text \<open>The conditional statements of \<open>Disconnect\<close>.\<close>

definition cancel_outbound :: "string \<Rightarrow> peer_link \<Rightarrow> peer_link" where
  "cancel_outbound peerID g =
     (case map_of (outboundCancel g) peerID of
        None \<Rightarrow> g
      | Some cancel \<Rightarrow> g\<lparr>pl_cancelled := cancel # pl_cancelled g,
          outboundCancel := AList.delete peerID (outboundCancel g)\<rparr>)"

definition drop_send_queue :: "string \<Rightarrow> peer_link \<Rightarrow> peer_link" where
  "drop_send_queue peerID g =
     (case map_of (sendQueues g) peerID of
        None \<Rightarrow> g
      | Some r \<Rightarrow> g\<lparr>pl_queues := close_chan r (pl_queues g),
          sendQueues := AList.delete peerID (sendQueues g)\<rparr>)"

definition drop_control_queue :: "string \<Rightarrow> peer_link \<Rightarrow> peer_link" where
  "drop_control_queue peerID g =
     (case map_of (controlQueues g) peerID of
        None \<Rightarrow> g
      | Some r \<Rightarrow> g\<lparr>pl_queues := close_chan r (pl_queues g),
          controlQueues := AList.delete peerID (controlQueues g)\<rparr>)"

definition Disconnect :: "string \<Rightarrow> peer_link \<Rightarrow> pl_error option \<times> peer_link" where
  "Disconnect peerID g =
     (if pl_closed g then (Some PlClosed, g)
      else
        let g = g\<lparr>connections := AList.delete peerID (connections g)\<rparr>;
            g = cancel_outbound peerID g;
            g = g\<lparr>outboundConns := AList.delete peerID (outboundConns g)\<rparr>;
            g = drop_send_queue peerID g;
            g = drop_control_queue peerID g
        in (None, SetPeerHealth peerID PeerDisconnected g))"

subsection \<open>Sending\<close>

text \<open>
  A sender looks the queue up under the lock (\<open>lookup_queue\<close>) and then waits, without the lock, for room or for
  its context (\<open>enqueue\<close>). \<open>gave_up\<close> says that the context is done and that the \<open>select\<close> takes that case. A
  full queue that nobody drains ends in the timeout; a queue drained while the sender waits is the same
  call at a later moment. The three senders below are the two halves with nothing in between; the steps of
  the whole program (\<open>pl_step\<close>) have the halves apart, as the lock leaves them.
\<close>

definition lookup_queue :: "(peer_link \<Rightarrow> (string, nat) gomap) \<Rightarrow> string \<Rightarrow> peer_link \<Rightarrow> pl_error + nat" where
  "lookup_queue queues peerID g =
     (if pl_closed g then Inl PlClosed
      else case map_of (queues g) peerID of None \<Rightarrow> Inl PlNotConnected | Some r \<Rightarrow> Inr r)"

definition enqueue :: "bool \<Rightarrow> string \<Rightarrow> plane \<Rightarrow> nat \<Rightarrow> peer_message \<Rightarrow> peer_link \<Rightarrow> pl_error option \<times> peer_link" where
  "enqueue gave_up peerID pl r msg g =
     (if gave_up then (Some PlQueueFull, recordPlaneDrop peerID pl g)
      else case try_send r msg (pl_queues g) of
        (Sent, h) \<Rightarrow> (None, recordPlaneQueued peerID pl (g\<lparr>pl_queues := h\<rparr>))
      | (Full, h) \<Rightarrow> (Some PlQueueFull, recordPlaneDrop peerID pl g)
      | (SendPanic, h) \<Rightarrow> (Some PlPanic, g))"

definition SendEvent :: "int \<Rightarrow> bool \<Rightarrow> string \<Rightarrow> event option \<Rightarrow> peer_link \<Rightarrow> pl_error option \<times> peer_link" where
  "SendEvent now gave_up peerID event g =
     (case lookup_queue sendQueues peerID g of
        Inl err \<Rightarrow> (Some err, g)
      | Inr r \<Rightarrow> enqueue gave_up peerID dataPlaneMessage r (DataPlaneMessage peerID event now 0) g)"

definition sendInterestMessage :: "int \<Rightarrow> bool \<Rightarrow> string \<Rightarrow> interest_message option \<Rightarrow> peer_link \<Rightarrow> pl_error option \<times> peer_link" where
  "sendInterestMessage now gave_up peerID message g =
     (case lookup_queue controlQueues peerID g of
        Inl err \<Rightarrow> (Some err, g)
      | Inr r \<Rightarrow> enqueue gave_up peerID controlPlaneMessage r (ControlPlaneMsg peerID message now 0) g)"

definition SendInterestUpdate :: "int \<Rightarrow> bool \<Rightarrow> string \<Rightarrow> interest_update option \<Rightarrow> peer_link \<Rightarrow> pl_error option \<times> peer_link" where
  "SendInterestUpdate now gave_up peerID update g =
     sendInterestMessage now gave_up peerID (Some \<lparr>im_Update = update, im_Snapshot = None\<rparr>) g"

definition SendInterestSnapshot :: "int \<Rightarrow> bool \<Rightarrow> string \<Rightarrow> interest_snapshot option \<Rightarrow> peer_link \<Rightarrow> pl_error option \<times> peer_link" where
  "SendInterestSnapshot now gave_up peerID snapshot g =
     sendInterestMessage now gave_up peerID (Some \<lparr>im_Update = None, im_Snapshot = snapshot\<rparr>) g"

definition SendHeartbeat :: "int \<Rightarrow> bool \<Rightarrow> string \<Rightarrow> peer_link \<Rightarrow> pl_error option \<times> peer_link" where
  "SendHeartbeat now gave_up peerID g =
     (case lookup_queue controlQueues peerID g of
        Inl err \<Rightarrow> (Some err, g)
      | Inr r \<Rightarrow> enqueue gave_up peerID controlPlaneMessage r (HeartbeatMsg peerID now 0) g)"

subsection \<open>Receiving\<close>

definition registerSubscriber :: "nat \<Rightarrow> peer_link \<Rightarrow> peer_link" where
  "registerSubscriber ch g = g\<lparr>pl_subscribers := AList.update ch True (pl_subscribers g)\<rparr>"

definition unregisterSubscriber :: "nat \<Rightarrow> peer_link \<Rightarrow> peer_link" where
  "unregisterSubscriber ch g = g\<lparr>pl_subscribers := AList.delete ch (pl_subscribers g)\<rparr>"

definition registerInterestSubscriber :: "nat \<Rightarrow> peer_link \<Rightarrow> peer_link" where
  "registerInterestSubscriber ch g = g\<lparr>interestSubscribers := AList.update ch True (interestSubscribers g)\<rparr>"

definition unregisterInterestSubscriber :: "nat \<Rightarrow> peer_link \<Rightarrow> peer_link" where
  "unregisterInterestSubscriber ch g = g\<lparr>interestSubscribers := AList.delete ch (interestSubscribers g)\<rparr>"

definition ReceiveEvents :: "peer_link \<Rightarrow> (pl_error + nat) \<times> peer_link" where
  "ReceiveEvents g =
     (if pl_closed g then (Inl PlClosed, g)
      else let ch = length (pl_eventChans g)
           in (Inr ch, registerSubscriber ch (g\<lparr>pl_eventChans := pl_eventChans g @ [make_chan 10]\<rparr>)))"

text \<open>The goroutine of \<open>ReceiveEvents\<close>, when the context is done.\<close>

definition ReceiveEvents_done :: "nat \<Rightarrow> peer_link \<Rightarrow> peer_link" where
  "ReceiveEvents_done ch g =
     (let g = unregisterSubscriber ch g in g\<lparr>pl_eventChans := close_chan ch (pl_eventChans g)\<rparr>)"

definition ReceiveInterestMessages :: "peer_link \<Rightarrow> (pl_error + nat) \<times> peer_link" where
  "ReceiveInterestMessages g =
     (if pl_closed g then (Inl PlClosed, g)
      else let ch = length (pl_interestChans g)
           in (Inr ch, registerInterestSubscriber ch
                 (g\<lparr>pl_interestChans := pl_interestChans g @ [make_chan 10]\<rparr>)))"

definition ReceiveInterestMessages_done :: "nat \<Rightarrow> peer_link \<Rightarrow> peer_link" where
  "ReceiveInterestMessages_done ch g =
     (let g = unregisterInterestSubscriber ch g
      in g\<lparr>pl_interestChans := close_chan ch (pl_interestChans g)\<rparr>)"

text \<open>
  Distribution is non-blocking: a full subscriber is skipped. A channel leaves the map before it is
  closed, under the lock, so a send on a closed channel cannot happen; the fold keeps the heap then.
\<close>

definition distribute :: "'m \<Rightarrow> (nat, bool) gomap \<Rightarrow> 'm heap \<Rightarrow> 'm heap" where
  "distribute x subs h = fold (\<lambda>(ch, _) h. snd (try_send ch x h)) subs h"

definition distributeEvent :: "event \<Rightarrow> peer_link \<Rightarrow> peer_link" where
  "distributeEvent event g =
     g\<lparr>pl_eventChans := distribute event (pl_subscribers g) (pl_eventChans g)\<rparr>"

definition distributeInterestMessage :: "interest_message \<Rightarrow> peer_link \<Rightarrow> peer_link" where
  "distributeInterestMessage message g =
     g\<lparr>pl_interestChans := distribute message (interestSubscribers g) (pl_interestChans g)\<rparr>"

subsection \<open>Heartbeats and lifecycle\<close>

text \<open>\<open>time.Time\<close>'s zero value, and \<open>Sub\<close>, which saturates.\<close>

definition zero_time :: int where
  "zero_time = -62135596800000000000"

definition time_Sub :: "int \<Rightarrow> int \<Rightarrow> int" where
  "time_Sub a b = max (- (2 ^ 63)) (min max_int64 (a - b))"

definition StartHeartbeats :: "bool \<Rightarrow> peer_link \<Rightarrow> pl_error option \<times> peer_link" where
  "StartHeartbeats nil_ctx g =
     (if nil_ctx then (Some PlNilContext, g)
      else if pl_closed g then (Some PlClosed, g)
      else if heartbeatsRunning g then (None, g)
      else let cancel = pl_next g; token = pl_next g + 1
           in (None, g\<lparr>heartbeatCancel := Some cancel, heartbeatToken := Some token,
                       heartbeatsRunning := True, pl_next := pl_next g + 2\<rparr>))"

definition StopHeartbeats :: "peer_link \<Rightarrow> pl_error option \<times> peer_link" where
  "StopHeartbeats g =
     (let cancel = heartbeatCancel g;
          g = g\<lparr>heartbeatCancel := None, heartbeatToken := None, heartbeatsRunning := False\<rparr>
      in (None, case cancel of None \<Rightarrow> g | Some c \<Rightarrow> g\<lparr>pl_cancelled := c # pl_cancelled g\<rparr>))"

definition clearHeartbeatLifecycle :: "nat \<Rightarrow> peer_link \<Rightarrow> peer_link" where
  "clearHeartbeatLifecycle token g =
     (if heartbeatToken g = Some token
      then g\<lparr>heartbeatCancel := None, heartbeatToken := None, heartbeatsRunning := False\<rparr> else g)"

definition heartbeatTimeout :: "peer_link \<Rightarrow> int" where
  "heartbeatTimeout g =
     wrap64 (cfg_HeartbeatInterval (pl_config g) * cfg_MissedHeartbeatLimit (pl_config g))"

definition silent_step :: "int \<Rightarrow> int \<Rightarrow> int \<Rightarrow> peer_metrics \<Rightarrow> peer_metrics" where
  "silent_step now timeout interval m =
     (if healthState m = PeerDisconnected \<or> lastSeenAt m = zero_time then m
      else if time_Sub now (lastSeenAt m) \<ge> timeout
      then m\<lparr>healthState := PeerUnhealthy,
             missedHeartbeatCount := time_Sub now (lastSeenAt m) sdiv interval\<rparr>
      else m)"

definition markSilentPeersUnhealthy :: "int \<Rightarrow> peer_link \<Rightarrow> peer_link" where
  "markSilentPeersUnhealthy now g =
     g\<lparr>pl_metrics := map (\<lambda>(peerID, m).
         (peerID, silent_step now (heartbeatTimeout g) (cfg_HeartbeatInterval (pl_config g)) m)) (pl_metrics g)\<rparr>"

definition connectedPeerIDs :: "peer_link \<Rightarrow> string list" where
  "connectedPeerIDs g = map fst (connections g)"

text \<open>
  Sending the heartbeats of a tick. An error of a send is counted; a panic ends the program, here with \<open>Some PlPanic\<close>.
\<close>

fun heartbeat_loop :: "int \<Rightarrow> (string \<Rightarrow> bool) \<Rightarrow> string list \<Rightarrow> peer_link \<Rightarrow> pl_error option \<times> peer_link" where
  "heartbeat_loop now gave_up [] g = (None, g)"
| "heartbeat_loop now gave_up (peerID # ps) g =
     (case SendHeartbeat now (gave_up peerID) peerID g of
        (None, g) \<Rightarrow> heartbeat_loop now gave_up ps g
      | (Some err, g) \<Rightarrow>
          if err = PlPanic then (Some PlPanic, g)
          else heartbeat_loop now gave_up ps
            (recordPeerSendFailure peerID (recordPlaneSendFailure peerID controlPlaneMessage g)))"

definition sendHeartbeatToConnectedPeers :: "int \<Rightarrow> (string \<Rightarrow> bool) \<Rightarrow> peer_link \<Rightarrow> pl_error option \<times> peer_link" where
  "sendHeartbeatToConnectedPeers now gave_up g =
     (let g = markSilentPeersUnhealthy now g
      in heartbeat_loop now gave_up (connectedPeerIDs g) g)"

text \<open>
  The heartbeat loop: one tick at once, then one per entry of \<open>ticks\<close> (clock readings and contexts), then its
  context is done. The lifecycle fields are cleared on the way out, by a panic too.
\<close>

fun heartbeat_ticks :: "(int \<times> (string \<Rightarrow> bool)) list \<Rightarrow> peer_link \<Rightarrow> pl_error option \<times> peer_link" where
  "heartbeat_ticks [] g = (None, g)"
| "heartbeat_ticks ((now, gave_up) # ticks) g =
     (case sendHeartbeatToConnectedPeers now gave_up g of
        (Some err, g) \<Rightarrow> (Some err, g)
      | (None, g) \<Rightarrow> heartbeat_ticks ticks g)"

definition runHeartbeatLoop ::
  "int \<times> (string \<Rightarrow> bool) \<Rightarrow> (int \<times> (string \<Rightarrow> bool)) list \<Rightarrow> nat \<Rightarrow> peer_link \<Rightarrow> pl_error option \<times> peer_link" where
  "runHeartbeatLoop first ticks token g =
     (case heartbeat_ticks (first # ticks) g of (res, g) \<Rightarrow> (res, clearHeartbeatLifecycle token g))"

text \<open>\<open>listen\<close> is the answer of \<open>net.Listen\<close>: an error or the address bound.\<close>

definition Start :: "string + string \<Rightarrow> peer_link \<Rightarrow> pl_error option \<times> peer_link" where
  "Start listen g =
     (if pl_closed g then (Some PlClosed, g)
      else if pl_started g then (None, g)
      else case listen of
        Inl err \<Rightarrow> (Some (PlTransport err), g)
      | Inr addr \<Rightarrow> (None, g\<lparr>pl_listener := Some addr, pl_grpcServer := True, pl_started := True\<rparr>))"

definition Stop :: "peer_link \<Rightarrow> pl_error option \<times> peer_link" where
  "Stop g =
     (if \<not> pl_started g \<or> \<not> pl_grpcServer g then (None, g)
      else (None, g\<lparr>pl_grpcServer := False, pl_listener := None, pl_started := False\<rparr>))"

definition ClosePeerLink :: "peer_link \<Rightarrow> pl_error option \<times> peer_link" where
  "ClosePeerLink g =
     (if pl_closed g then (None, g)
      else
        let g = (case heartbeatCancel g of
                   None \<Rightarrow> g
                 | Some c \<Rightarrow> g\<lparr>pl_cancelled := c # pl_cancelled g, heartbeatCancel := None,
                     heartbeatToken := None, heartbeatsRunning := False\<rparr>);
            g = (if pl_started g \<and> pl_grpcServer g
                 then g\<lparr>pl_grpcServer := False, pl_listener := None, pl_started := False\<rparr> else g);
            g = g\<lparr>pl_cancelled := map snd (outboundCancel g) @ pl_cancelled g,
                  outboundCancel := [], outboundConns := []\<rparr>
        in (None, g\<lparr>pl_closed := True\<rparr>))"

definition GetListeningAddress :: "peer_link \<Rightarrow> string" where
  "GetListeningAddress g = (case pl_listener g of Some a \<Rightarrow> a | None \<Rightarrow> [])"

definition formatAddress :: "string \<Rightarrow> string" where
  "formatAddress addr =
     (if addr = [] then []
      else if prefix ''[::]:'' addr then ''localhost:'' @ drop 5 addr
      else addr)"

end
