(* ===== verification/Peer_Inv.thy ===== *)
theory Peer_Inv
  imports Peer_Link
begin

text \<open>
  The invariant of the peer link and its preservation by every operation of \<open>Peer_Link\<close>: the queues of
  a registered peer are open, bounded, not shared, and hold messages of their plane for that peer that
  have not used up their send attempts; every connected peer has its queues and metrics; the drop counters
  add up; a channel in the subscriber maps is open.
\<close>

definition drops_add_up :: "peer_metrics \<Rightarrow> bool" where
  "drops_add_up m \<longleftrightarrow> dropsCount m = dataPlaneDropsCount m + controlPlaneDropsCount m"

definition msg_ok :: "pl_config \<Rightarrow> plane \<Rightarrow> string \<Rightarrow> peer_message \<Rightarrow> bool" where
  "msg_ok c pl p m \<longleftrightarrow> planeForMessage m = pl \<and> PeerID m = p \<and> int (SendAttempts m) \<le> cfg_MaxSendAttempts c"

definition queue_ok :: "peer_link \<Rightarrow> plane \<Rightarrow> string \<times> nat \<Rightarrow> bool" where
  "queue_ok g pl = (\<lambda>(p, r). r < length (pl_queues g) \<and> \<not> ch_closed (chan_at (pl_queues g) r)
     \<and> int (ch_cap (chan_at (pl_queues g) r)) = cfg_SendQueueSize (pl_config g)
     \<and> list_all (msg_ok (pl_config g) pl p) (ch_items (chan_at (pl_queues g) r))
     \<and> map_of (pl_metrics g) p \<noteq> None)"

definition config_ok :: "pl_config \<Rightarrow> bool" where
  "config_ok c \<longleftrightarrow> cfg_NodeID c \<noteq> [] \<and> cfg_ListenAddress c \<noteq> [] \<and> 0 < cfg_SendQueueSize c
     \<and> 0 < cfg_SendTimeout c \<and> 0 < cfg_MaxSendAttempts c \<and> 0 < cfg_HeartbeatInterval c
     \<and> 0 < cfg_MissedHeartbeatLimit c \<and> 0 < cfg_MaxMessageSize c"

definition subs_ok :: "(nat, bool) gomap \<Rightarrow> 'm heap \<Rightarrow> bool" where
  "subs_ok subs h \<longleftrightarrow> gm_wf subs \<and> heap_ok h
     \<and> list_all (\<lambda>(ch, _). ch < length h \<and> \<not> ch_closed (chan_at h ch)) subs"

definition keys_ok ::
  "(string, connection_info) gomap \<Rightarrow> (string, nat) gomap \<Rightarrow> (string, nat) gomap \<Rightarrow> bool" where
  "keys_ok conns sends controls \<longleftrightarrow> gm_wf conns \<and> gm_wf sends \<and> gm_wf controls
     \<and> fst ` set conns \<subseteq> fst ` set sends \<and> fst ` set sends = fst ` set controls
     \<and> distinct (map snd sends @ map snd controls)
     \<and> list_all (\<lambda>(p, ci). pn_ID (ci_node ci) = p) conns"

definition pl_inv :: "peer_link \<Rightarrow> bool" where
  "pl_inv g \<longleftrightarrow> config_ok (pl_config g) \<and> gm_wf (pl_metrics g)
     \<and> keys_ok (connections g) (sendQueues g) (controlQueues g)
     \<and> list_all (queue_ok g dataPlaneMessage) (sendQueues g)
     \<and> list_all (queue_ok g controlPlaneMessage) (controlQueues g)
     \<and> list_all (\<lambda>(p, m). drops_add_up m) (pl_metrics g)
     \<and> heap_ok (pl_queues g)
     \<and> subs_ok (pl_subscribers g) (pl_eventChans g)
     \<and> subs_ok (interestSubscribers g) (pl_interestChans g)"

lemma SetDefaults_ok: "Validate c = None \<Longrightarrow> config_ok (SetDefaults c)"
  by (auto simp: Validate_def SetDefaults_def config_ok_def Let_def split: if_splits)

lemma NewGRPCPeerLink_inv: "NewGRPCPeerLink c = Inr g \<Longrightarrow> pl_inv g"
  by (auto simp: NewGRPCPeerLink_def pl_inv_def keys_ok_def SetDefaults_ok heap_ok_def subs_ok_def
      split: option.splits)

subsection \<open>Metrics\<close>

lemma on_metrics_frame [simp]:
  "pl_config (on_metrics p f g) = pl_config g" "pl_closed (on_metrics p f g) = pl_closed g"
  "connections (on_metrics p f g) = connections g" "sendQueues (on_metrics p f g) = sendQueues g"
  "controlQueues (on_metrics p f g) = controlQueues g" "pl_queues (on_metrics p f g) = pl_queues g"
  "pl_subscribers (on_metrics p f g) = pl_subscribers g"
  "interestSubscribers (on_metrics p f g) = interestSubscribers g"
  "pl_eventChans (on_metrics p f g) = pl_eventChans g"
  "pl_interestChans (on_metrics p f g) = pl_interestChans g"
  "outboundCancel (on_metrics p f g) = outboundCancel g" "outboundConns (on_metrics p f g) = outboundConns g"
  "heartbeatToken (on_metrics p f g) = heartbeatToken g"
  "heartbeatCancel (on_metrics p f g) = heartbeatCancel g"
  "heartbeatsRunning (on_metrics p f g) = heartbeatsRunning g" "pl_cancelled (on_metrics p f g) = pl_cancelled g"
  by (simp_all add: on_metrics_def split: option.splits)

lemma on_metrics_lookup:
  "map_of (pl_metrics (on_metrics p f g)) q =
     (if q = p then map_option f (map_of (pl_metrics g) p) else map_of (pl_metrics g) q)"
  by (auto simp: on_metrics_def split: option.splits)

lemma on_metrics_None [simp]:
  "map_of (pl_metrics (on_metrics p f g)) q = None \<longleftrightarrow> map_of (pl_metrics g) q = None"
  by (simp add: on_metrics_lookup)

lemma queue_ok_cong:
  "pl_config g' = pl_config g \<Longrightarrow> pl_queues g' = pl_queues g \<Longrightarrow>
   (\<And>p. map_of (pl_metrics g) p \<noteq> None \<Longrightarrow> map_of (pl_metrics g') p \<noteq> None) \<Longrightarrow>
   queue_ok g pl x \<Longrightarrow> queue_ok g' pl x"
  by (auto simp: queue_ok_def split: prod.splits)

lemma on_metrics_inv [inv_intros]:
  assumes inv: "pl_inv g" and f: "\<And>m. drops_add_up m \<Longrightarrow> drops_add_up (f m)"
  shows "pl_inv (on_metrics p f g)"
proof -
  have "queue_ok (on_metrics p f g) pl x" if "queue_ok g pl x" for pl x
    by (rule queue_ok_cong [OF _ _ _ that]) (auto simp: on_metrics_lookup)
  moreover have "list_all (\<lambda>(p, m). drops_add_up m) (pl_metrics (on_metrics p f g))"
  proof (cases "map_of (pl_metrics g) p")
    case (Some m)
    then have "drops_add_up m"
      using inv by (auto simp: pl_inv_def list_all_iff dest: map_of_SomeD)
    with Some inv f show ?thesis
      by (auto simp: pl_inv_def on_metrics_def list_all_iff gm_set_update)
  qed (use inv in \<open>simp add: pl_inv_def on_metrics_def\<close>)
  moreover have "gm_wf (pl_metrics (on_metrics p f g))"
    using inv by (simp add: pl_inv_def on_metrics_def split: option.splits)
  ultimately show ?thesis
    using inv by (auto simp: pl_inv_def list_all_iff)
qed

lemmas metric_ops = SetPeerHealth_def markPeerSeen_def recordPlaneQueued_def recordPlaneDrop_def
  recordPlaneSendFailure_def recordPeerSendFailure_def

lemma metric_ops_inv [inv_intros]:
  "pl_inv g \<Longrightarrow> pl_inv (SetPeerHealth p s g)" "pl_inv g \<Longrightarrow> pl_inv (markPeerSeen now p g)"
  "pl_inv g \<Longrightarrow> pl_inv (recordPlaneQueued p pl g)" "pl_inv g \<Longrightarrow> pl_inv (recordPlaneDrop p pl g)"
  "pl_inv g \<Longrightarrow> pl_inv (recordPlaneSendFailure p pl g)" "pl_inv g \<Longrightarrow> pl_inv (recordPeerSendFailure p g)"
  unfolding metric_ops
  by (rule on_metrics_inv; simp add: drops_add_up_def Let_def split: plane.splits)+

subsection \<open>Queues\<close>

definition queue_of :: "plane \<Rightarrow> peer_link \<Rightarrow> (string, nat) gomap" where
  "queue_of pl g = (case pl of dataPlaneMessage \<Rightarrow> sendQueues g | controlPlaneMessage \<Rightarrow> controlQueues g)"

lemma queue_of_simps [simp]:
  "queue_of dataPlaneMessage g = sendQueues g" "queue_of controlPlaneMessage g = controlQueues g"
  by (simp_all add: queue_of_def)

lemma pl_inv_queues:
  "pl_inv g \<longleftrightarrow> config_ok (pl_config g) \<and> gm_wf (pl_metrics g)
     \<and> keys_ok (connections g) (sendQueues g) (controlQueues g)
     \<and> (\<forall>pl. list_all (queue_ok g pl) (queue_of pl g))
     \<and> list_all (\<lambda>(p, m). drops_add_up m) (pl_metrics g) \<and> heap_ok (pl_queues g)
     \<and> subs_ok (pl_subscribers g) (pl_eventChans g) \<and> subs_ok (interestSubscribers g) (pl_interestChans g)"
  by (auto simp: pl_inv_def queue_of_def all_conj_distrib split: plane.splits)

lemma queue_mem_ok: "pl_inv g \<Longrightarrow> (p, r) \<in> set (queue_of pl g) \<Longrightarrow> queue_ok g pl (p, r)"
  by (auto simp: pl_inv_queues list_all_iff)

lemma queue_of_ok: "pl_inv g \<Longrightarrow> map_of (queue_of pl g) p = Some r \<Longrightarrow> queue_ok g pl (p, r)"
  by (blast intro: queue_mem_ok map_of_SomeD)

lemma keys_ok_unique:
  assumes "keys_ok cs ss cts"
  shows "(p, r) \<in> set ss \<Longrightarrow> (q, r) \<in> set ss \<Longrightarrow> p = q" "(p, r) \<in> set cts \<Longrightarrow> (q, r) \<in> set cts \<Longrightarrow> p = q"
    "(p, r) \<in> set ss \<Longrightarrow> (q, r) \<notin> set cts"
proof -
  have d: "inj_on snd (set ss)" "inj_on snd (set cts)" "snd ` set ss \<inter> snd ` set cts = {}"
    using assms by (auto simp: keys_ok_def distinct_map)
  show "(p, r) \<in> set ss \<Longrightarrow> (q, r) \<in> set ss \<Longrightarrow> p = q"
    using inj_onD [OF d(1), of "(p, r)" "(q, r)"] by simp
  show "(p, r) \<in> set cts \<Longrightarrow> (q, r) \<in> set cts \<Longrightarrow> p = q"
    using inj_onD [OF d(2), of "(p, r)" "(q, r)"] by simp
  show "(p, r) \<in> set ss \<Longrightarrow> (q, r) \<notin> set cts"
    using d(3) by force
qed

lemma ref_not_shared:
  "pl_inv g \<Longrightarrow> (p, r) \<in> set (queue_of pl g) \<Longrightarrow> (q, r) \<in> set (queue_of pl' g) \<Longrightarrow> pl' = pl \<and> q = p"
  by (cases pl; cases pl') (auto simp: pl_inv_def dest: keys_ok_unique)

text \<open>Changing one queue: the other queues are not affected, since no reference is shared.\<close>

lemma pl_inv_set_queue:
  assumes inv: "pl_inv g" and heap: "heap_ok h" and len: "length h = length (pl_queues g)"
    and other: "\<And>r'. r' \<noteq> r \<Longrightarrow> chan_at h r' = chan_at (pl_queues g) r'"
    and flags: "ch_closed (chan_at h r) = ch_closed (chan_at (pl_queues g) r)"
      "ch_cap (chan_at h r) = ch_cap (chan_at (pl_queues g) r)"
    and items: "\<And>pl p. (p, r) \<in> set (queue_of pl g) \<Longrightarrow>
      list_all (msg_ok (pl_config g) pl p) (ch_items (chan_at h r))"
  shows "pl_inv (g\<lparr>pl_queues := h\<rparr>)"
proof -
  have "queue_ok (g\<lparr>pl_queues := h\<rparr>) pl (p, r')" if "(p, r') \<in> set (queue_of pl g)" for pl p r'
    using queue_mem_ok [OF inv that] that other [of r'] flags items [of p pl] len
    by (cases "r' = r") (auto simp: queue_ok_def)
  moreover have "queue_of pl (g\<lparr>pl_queues := h\<rparr>) = queue_of pl g" for pl
    by (cases pl) simp_all
  ultimately show ?thesis
    using inv heap by (auto simp: pl_inv_queues list_all_iff)
qed

text \<open>A queued message that fits its peer and plane keeps the invariant.\<close>

lemma try_send_inv:
  assumes inv: "pl_inv g" and r: "map_of (queue_of pl g) p = Some r" and m: "msg_ok (pl_config g) pl p m"
  shows "pl_inv (g\<lparr>pl_queues := snd (try_send r m (pl_queues g))\<rparr>)"
proof (rule pl_inv_set_queue [OF inv])
  show "heap_ok (snd (try_send r m (pl_queues g)))"
    using inv by (auto simp: pl_inv_def intro: inv_intros)
  show "chan_at (snd (try_send r m (pl_queues g))) r' = chan_at (pl_queues g) r'" if "r' \<noteq> r" for r'
    using that by (simp add: try_send_def Let_def chan_at_update)
  show "list_all (msg_ok (pl_config g) pl' q) (ch_items (chan_at (snd (try_send r m (pl_queues g))) r))"
    if "(q, r) \<in> set (queue_of pl' g)" for pl' q
  proof -
    have "pl' = pl \<and> q = p"
      by (rule ref_not_shared [OF inv map_of_SomeD [OF r] that])
    with queue_of_ok [OF inv r] m show ?thesis
      by (auto simp: queue_ok_def try_send_items)
  qed
qed simp_all

lemma try_recv_inv [inv_intros]:
  assumes inv: "pl_inv g"
  shows "pl_inv (g\<lparr>pl_queues := snd (try_recv r (pl_queues g))\<rparr>)"
proof (rule pl_inv_set_queue [OF inv])
  have tl: "list_all P (tl xs)" if "list_all P xs" for P and xs :: "peer_message list"
    using that by (cases xs) auto
  show "heap_ok (snd (try_recv r (pl_queues g)))"
    using inv by (auto simp: pl_inv_def intro: inv_intros)
  show "chan_at (snd (try_recv r (pl_queues g))) r' = chan_at (pl_queues g) r'" if "r' \<noteq> r" for r'
    using that by (simp add: try_recv_def Let_def chan_at_update split: list.splits)
  show "list_all (msg_ok (pl_config g) pl p) (ch_items (chan_at (snd (try_recv r (pl_queues g))) r))"
    if "(p, r) \<in> set (queue_of pl g)" for pl p
    using queue_mem_ok [OF inv that] tl by (simp add: queue_ok_def try_recv_items)
qed simp_all

lemma enqueue_inv:
  assumes "pl_inv g" "map_of (queue_of pl g) p = Some r" "msg_ok (pl_config g) pl p m"
  shows "pl_inv (snd (enqueue gave_up p pl r m g))"
  using try_send_inv [OF assms] assms(1)
  by (cases "try_send r m (pl_queues g)") (auto simp: enqueue_def intro: inv_intros split: send_result.splits)

lemma enqueue_no_panic:
  assumes "pl_inv g" "map_of (queue_of pl g) p = Some r"
  shows "fst (enqueue gave_up p pl r m g) \<noteq> Some PlPanic"
proof -
  have "\<not> ch_closed (chan_at (pl_queues g) r)"
    using queue_of_ok [OF assms] by (simp add: queue_ok_def)
  then show ?thesis
    by (auto simp: enqueue_def try_send_def Let_def split: if_splits)
qed

lemma lookup_queue_Inr:
  "lookup_queue sendQueues p g = Inr r \<Longrightarrow> map_of (queue_of dataPlaneMessage g) p = Some r"
  "lookup_queue controlQueues p g = Inr r \<Longrightarrow> map_of (queue_of controlPlaneMessage g) p = Some r"
  by (auto simp: lookup_queue_def queue_of_def split: if_splits option.splits)

lemma new_msg_ok:
  "pl_inv g \<Longrightarrow> msg_ok (pl_config g) dataPlaneMessage p (DataPlaneMessage p e now 0)"
  "pl_inv g \<Longrightarrow> msg_ok (pl_config g) controlPlaneMessage p (ControlPlaneMsg p im now 0)"
  "pl_inv g \<Longrightarrow> msg_ok (pl_config g) controlPlaneMessage p (HeartbeatMsg p now 0)"
  by (simp_all add: msg_ok_def pl_inv_def config_ok_def)

lemma send_ops_inv [inv_intros]:
  "pl_inv g \<Longrightarrow> pl_inv (snd (SendEvent now c p e g))"
  "pl_inv g \<Longrightarrow> pl_inv (snd (sendInterestMessage now c p im g))"
  "pl_inv g \<Longrightarrow> pl_inv (snd (SendHeartbeat now c p g))"
  by (auto simp: SendEvent_def sendInterestMessage_def SendHeartbeat_def new_msg_ok
      intro!: enqueue_inv split: sum.splits dest: lookup_queue_Inr)

lemma interest_ops_inv [inv_intros]:
  "pl_inv g \<Longrightarrow> pl_inv (snd (SendInterestUpdate now c p u g))"
  "pl_inv g \<Longrightarrow> pl_inv (snd (SendInterestSnapshot now c p s g))"
  by (simp_all add: SendInterestUpdate_def SendInterestSnapshot_def inv_intros)

subsection \<open>Registration\<close>

lemma keys_same:
  "pl_inv g \<Longrightarrow> map_of (sendQueues g) p = None \<longleftrightarrow> map_of (controlQueues g) p = None"
  by (simp add: pl_inv_def keys_ok_def map_of_eq_None_iff)

lemma keys_metrics: "pl_inv g \<Longrightarrow> map_of (sendQueues g) p \<noteq> None \<Longrightarrow> map_of (pl_metrics g) p \<noteq> None"
  using queue_of_ok [of g dataPlaneMessage p] by (auto simp: queue_ok_def)

lemma refs_bounded: "pl_inv g \<Longrightarrow> r \<in> snd ` set (queue_of pl g) \<Longrightarrow> r < length (pl_queues g)"
  by (auto dest!: queue_mem_ok simp: queue_ok_def)

text \<open>Registering an unknown peer takes two new queues; registering a known one does nothing.\<close>

lemma registerPeer_known:
  "pl_inv g \<Longrightarrow> map_of (sendQueues g) p \<noteq> None \<Longrightarrow> registerPeer now p g = g"
  using keys_same [of g p] keys_metrics [of g p] by (auto simp: registerPeer_def ensure_send_queue_def ensure_control_queue_def ensure_metrics_def)

lemma registerPeer_new:
  assumes "pl_inv g" "map_of (sendQueues g) p = None"
  shows "registerPeer now p g =
    (let n = length (pl_queues g); c = make_chan (nat (cfg_SendQueueSize (pl_config g))) in
     g\<lparr>sendQueues := sendQueues g @ [(p, n)], controlQueues := controlQueues g @ [(p, Suc n)],
       pl_queues := pl_queues g @ [c, c],
       pl_metrics := if map_of (pl_metrics g) p = None then AList.update p (fresh_metrics now) (pl_metrics g)
                     else pl_metrics g\<rparr>)"
  using assms keys_same [of g p]
  by (cases "map_of (pl_metrics g) p = None")
    (simp_all add: registerPeer_def ensure_send_queue_def ensure_control_queue_def ensure_metrics_def
      new_queue_def Let_def update_fresh)

lemma chan_at_append2:
  "chan_at (h @ [c, d]) r = (if r = length h then c else if r = Suc (length h) then d else chan_at h r)"
  by (auto simp: chan_at_def nth_append less_Suc_eq)

lemma keys_okD:
  "keys_ok cs ss cts \<Longrightarrow> fst ` set cs \<subseteq> fst ` set ss" "keys_ok cs ss cts \<Longrightarrow> fst ` set ss = fst ` set cts"
  unfolding keys_ok_def by (elim conjE, assumption)+

lemma keys_ok_add:
  assumes "keys_ok cs ss cts" "p \<notin> fst ` set ss"
    and "\<And>r. r \<in> snd ` set ss \<union> snd ` set cts \<Longrightarrow> r < n"
  shows "keys_ok cs (ss @ [(p, n)]) (cts @ [(p, Suc n)])"
proof -
  have "n \<notin> snd ` set ss \<union> snd ` set cts" "Suc n \<notin> snd ` set ss \<union> snd ` set cts"
    using assms(3) [of n] assms(3) [of "Suc n"] by auto
  moreover have "p \<notin> fst ` set cts" "fst ` set cs \<subseteq> insert p (fst ` set cts)"
    using keys_okD [OF assms(1)] assms(2) by blast+
  ultimately show ?thesis
    using assms(1,2) by (simp add: keys_ok_def gm_wf_def)
qed

lemma registerPeer_inv [inv_intros]:
  assumes inv: "pl_inv g"
  shows "pl_inv (registerPeer now p g)"
proof (cases "map_of (sendQueues g) p = None")
  case False
  with registerPeer_known [OF inv] inv show ?thesis by simp
next
  case True
  let ?n = "length (pl_queues g)" and ?g = "registerPeer now p g"
  note g' = registerPeer_new [OF inv True, of now, unfolded Let_def]
  have old: "r \<noteq> ?n \<and> r \<noteq> Suc ?n" if "(q, r) \<in> set (queue_of pl g)" for q r pl
    using refs_bounded [OF inv, of r pl] that by force
  have metrics: "map_of (pl_metrics ?g) q \<noteq> None" if "q = p \<or> map_of (pl_metrics g) q \<noteq> None" for q
    using that by (auto simp: g')
  have "queue_ok ?g pl (q, r)" if "(q, r) \<in> set (queue_of pl ?g)" for pl q r
  proof (cases "(q, r) \<in> set (queue_of pl g)")
    case True
    with queue_mem_ok [OF inv True] old [OF True] metrics [of q] show ?thesis
      by (auto simp: queue_ok_def g' chan_at_append2)
  next
    case False
    then have "q = p \<and> (r = ?n \<or> r = Suc ?n)"
      using that by (cases pl) (auto simp: g')
    with inv metrics [of q] show ?thesis
      by (auto simp: queue_ok_def g' chan_at_append2 make_chan_def pl_inv_def config_ok_def)
  qed
  moreover have "keys_ok (connections ?g) (sendQueues ?g) (controlQueues ?g)"
  proof -
    have "keys_ok (connections g) (sendQueues g @ [(p, ?n)]) (controlQueues g @ [(p, Suc ?n)])"
    proof (rule keys_ok_add)
      show "r < ?n" if "r \<in> snd ` set (sendQueues g) \<union> snd ` set (controlQueues g)" for r
        using that refs_bounded [OF inv, of r dataPlaneMessage] refs_bounded [OF inv, of r controlPlaneMessage]
        by auto
    qed (use inv True in \<open>simp_all add: pl_inv_def map_of_eq_None_iff\<close>)
    then show ?thesis by (simp add: g')
  qed
  moreover have "heap_ok (pl_queues ?g)"
    using inv by (simp add: g' pl_inv_def heap_ok_def chan_ok_def make_chan_def)
  moreover have "list_all (\<lambda>(p, m). drops_add_up m) (pl_metrics ?g) \<and> gm_wf (pl_metrics ?g)"
    using inv by (auto simp: g' pl_inv_def list_all_iff gm_set_update drops_add_up_def fresh_metrics_def)
  ultimately show ?thesis
    using inv by (auto simp: pl_inv_queues list_all_iff g')
qed

lemma registerPeer_keys: "pl_inv g \<Longrightarrow> p \<in> fst ` set (sendQueues (registerPeer now p g))"
  by (cases "map_of (sendQueues g) p = None")
    (auto simp: registerPeer_new registerPeer_known Let_def gm_keys_dom)

lemma ensure_connections:
  "ensure_send_queue p (g\<lparr>connections := c\<rparr>) = (ensure_send_queue p g)\<lparr>connections := c\<rparr>"
  "ensure_control_queue p (g\<lparr>connections := c\<rparr>) = (ensure_control_queue p g)\<lparr>connections := c\<rparr>"
  "ensure_metrics now p (g\<lparr>connections := c\<rparr>) = (ensure_metrics now p g)\<lparr>connections := c\<rparr>"
  "connections (ensure_send_queue p g) = connections g" "connections (ensure_control_queue p g) = connections g"
  "connections (ensure_metrics now p g) = connections g"
  by (simp_all add: ensure_send_queue_def ensure_control_queue_def ensure_metrics_def new_queue_def)

lemma registerPeer_connections:
  "registerPeer now p (g\<lparr>connections := c\<rparr>) = (registerPeer now p g)\<lparr>connections := c\<rparr>"
  "connections (registerPeer now p g) = connections g"
  by (simp_all only: registerPeer_def ensure_connections)

lemma queue_ok_frame:
  "pl_queues g' = pl_queues g \<Longrightarrow> pl_config g' = pl_config g \<Longrightarrow> pl_metrics g' = pl_metrics g \<Longrightarrow>
   queue_ok g' pl x = queue_ok g pl x"
  by (simp add: queue_ok_def)

lemma keys_ok_connection:
  "keys_ok cs ss cts \<Longrightarrow> p \<in> fst ` set ss \<Longrightarrow> pn_ID (ci_node ci) = p \<Longrightarrow>
     keys_ok (AList.update p ci cs) ss cts"
  "keys_ok cs ss cts \<Longrightarrow> keys_ok (AList.delete p cs) ss cts"
  by (auto simp: keys_ok_def gm_set_update gm_set_delete list_all_iff)

text \<open>Fields outside the invariant.\<close>

lemma pl_inv_other [simp]:
  "pl_inv (g\<lparr>pl_closed := a\<rparr>) = pl_inv g" "pl_inv (g\<lparr>pl_started := a\<rparr>) = pl_inv g"
  "pl_inv (g\<lparr>pl_grpcServer := a\<rparr>) = pl_inv g" "pl_inv (g\<lparr>pl_listener := b\<rparr>) = pl_inv g"
  "pl_inv (g\<lparr>outboundConns := c\<rparr>) = pl_inv g" "pl_inv (g\<lparr>outboundCancel := c\<rparr>) = pl_inv g"
  "pl_inv (g\<lparr>heartbeatCancel := d\<rparr>) = pl_inv g" "pl_inv (g\<lparr>heartbeatToken := d\<rparr>) = pl_inv g"
  "pl_inv (g\<lparr>heartbeatsRunning := a\<rparr>) = pl_inv g" "pl_inv (g\<lparr>pl_next := n\<rparr>) = pl_inv g"
  "pl_inv (g\<lparr>pl_cancelled := ns\<rparr>) = pl_inv g"
  by (simp_all add: pl_inv_def queue_ok_def)

lemma connection_inv:
  "pl_inv g \<Longrightarrow> p \<in> fst ` set (sendQueues g) \<Longrightarrow> pn_ID (ci_node ci) = p \<Longrightarrow>
     pl_inv (g\<lparr>connections := AList.update p ci (connections g)\<rparr>)"
  "pl_inv g \<Longrightarrow> pl_inv (g\<lparr>connections := AList.delete p (connections g)\<rparr>)"
  by (auto simp: pl_inv_def keys_ok_connection queue_ok_def)

lemma register_connection_inv:
  "pl_inv g \<Longrightarrow> pn_ID (ci_node ci) = p \<Longrightarrow>
   pl_inv ((registerPeer now p g)\<lparr>connections := AList.update p ci (connections g)\<rparr>)"
  using connection_inv(1) [OF registerPeer_inv registerPeer_keys]
  by (metis registerPeer_connections(2))

lemma Connect_inv [inv_intros]: "pl_inv g \<Longrightarrow> pl_inv (snd (Connect now dial peer g))"
  by (auto simp: Connect_def Let_def registerPeer_connections register_connection_inv split: option.splits)

text \<open>Disconnecting: both queues of the peer are closed and leave the maps together.\<close>

lemma delete_refs:
  "keys_ok cs ss cts \<Longrightarrow> (q, r) \<in> set (AList.delete p ss) \<Longrightarrow> q \<noteq> p \<and> (q, r) \<in> set ss"
  "keys_ok cs ss cts \<Longrightarrow> (q, r) \<in> set (AList.delete p cts) \<Longrightarrow> q \<noteq> p \<and> (q, r) \<in> set cts"
  by (auto simp: gm_set_delete)

lemma delete_keys: "fst ` set (AList.delete p m) = fst ` set m - {p}"
  by (force simp: gm_set_delete)

lemma delete_refs_distinct: "distinct (map snd m) \<Longrightarrow> distinct (map snd (AList.delete p m))"
  by (simp add: AList.delete_eq distinct_map_filter)

lemma keys_ok_delete:
  assumes "keys_ok cs ss cts"
  shows "keys_ok (AList.delete p cs) (AList.delete p ss) (AList.delete p cts)"
proof -
  have sub: "snd ` set (AList.delete p ss) \<subseteq> snd ` set ss" "snd ` set (AList.delete p cts) \<subseteq> snd ` set cts"
    by (auto simp: gm_set_delete)
  have "snd ` set ss \<inter> snd ` set cts = {}" "distinct (map snd ss)" "distinct (map snd cts)"
    using assms by (simp_all add: keys_ok_def)
  with sub have "distinct (map snd (AList.delete p ss) @ map snd (AList.delete p cts))"
    by (auto simp: delete_refs_distinct)
  moreover have "fst ` set cs - {p} \<subseteq> fst ` set ss - {p}" "fst ` set ss - {p} = fst ` set cts - {p}"
    using keys_okD [OF assms] by blast+
  ultimately show ?thesis
    using assms unfolding keys_ok_def delete_keys by (intro conjI) (simp_all add: list_all_iff gm_set_delete)
qed

definition close_opt :: "nat option \<Rightarrow> 'm heap \<Rightarrow> 'm heap" where
  "close_opt r h = (case r of None \<Rightarrow> h | Some r \<Rightarrow> close_chan r h)"

lemma drop_queue_eq:
  "drop_send_queue p g = g\<lparr>pl_queues := close_opt (map_of (sendQueues g) p) (pl_queues g),
     sendQueues := AList.delete p (sendQueues g)\<rparr>"
  "drop_control_queue p g = g\<lparr>pl_queues := close_opt (map_of (controlQueues g) p) (pl_queues g),
     controlQueues := AList.delete p (controlQueues g)\<rparr>"
  "cancel_outbound p g = g\<lparr>pl_cancelled :=
       (case map_of (outboundCancel g) p of None \<Rightarrow> [] | Some c \<Rightarrow> [c]) @ pl_cancelled g,
     outboundCancel := AList.delete p (outboundCancel g)\<rparr>"
  by (auto simp: drop_send_queue_def drop_control_queue_def cancel_outbound_def close_opt_def
      gm_delete_absent split: option.splits)

lemma close_opt_frame:
  "length (close_opt r h) = length h" "ch_items (chan_at (close_opt r h) r') = ch_items (chan_at h r')"
  "ch_cap (chan_at (close_opt r h) r') = ch_cap (chan_at h r')"
  "r \<noteq> Some r' \<Longrightarrow> ch_closed (chan_at (close_opt r h) r') = ch_closed (chan_at h r')"
  "heap_ok h \<Longrightarrow> heap_ok (close_opt r h)"
  by (auto simp: close_opt_def intro: inv_intros split: option.splits)

lemma Disconnect_inv [inv_intros]:
  assumes inv: "pl_inv g"
  shows "pl_inv (snd (Disconnect p g))"
proof (cases "pl_closed g")
  case True
  with inv show ?thesis by (simp add: Disconnect_def)
next
  case False
  let ?h = "close_opt (map_of (controlQueues g) p) (close_opt (map_of (sendQueues g) p) (pl_queues g))"
  let ?g = "drop_control_queue p (drop_send_queue p
      ((cancel_outbound p (g\<lparr>connections := AList.delete p (connections g)\<rparr>))
        \<lparr>outboundConns := AList.delete p (outboundConns g)\<rparr>))"
  have q: "pl_queues ?g = ?h" "pl_config ?g = pl_config g" "pl_metrics ?g = pl_metrics g"
    "connections ?g = AList.delete p (connections g)" "sendQueues ?g = AList.delete p (sendQueues g)"
    "controlQueues ?g = AList.delete p (controlQueues g)" "pl_subscribers ?g = pl_subscribers g"
    "interestSubscribers ?g = interestSubscribers g" "pl_eventChans ?g = pl_eventChans g"
    "pl_interestChans ?g = pl_interestChans g"
    by (simp_all add: drop_queue_eq)
  have "queue_ok ?g pl (q, r)" if "(q, r) \<in> set (queue_of pl ?g)" for pl q r
  proof -
    have mem: "(q, r) \<in> set (queue_of pl g)" "q \<noteq> p"
      using that q by (cases pl; simp add: gm_set_delete)+
    have "map_of (sendQueues g) p \<noteq> Some r" "map_of (controlQueues g) p \<noteq> Some r"
      using ref_not_shared [OF inv mem(1), of p dataPlaneMessage]
        ref_not_shared [OF inv mem(1), of p controlPlaneMessage] mem(2)
      by (auto dest: map_of_SomeD)
    with queue_mem_ok [OF inv mem(1)] show ?thesis
      by (simp add: queue_ok_def q close_opt_frame)
  qed
  then have "pl_inv ?g"
    using inv by (auto simp: pl_inv_queues list_all_iff keys_ok_delete q close_opt_frame)
  moreover have "snd (Disconnect p g) = SetPeerHealth p PeerDisconnected ?g"
    using False by (simp add: Disconnect_def Let_def drop_queue_eq)
  ultimately show ?thesis
    by (auto intro: inv_intros)
qed

subsection \<open>Receiving\<close>

lemma distribute_frame:
  "length (distribute x subs h) = length h"
  "ch_closed (chan_at (distribute x subs h) r) = ch_closed (chan_at h r)"
  "ch_cap (chan_at (distribute x subs h) r) = ch_cap (chan_at h r)"
  "heap_ok h \<Longrightarrow> heap_ok (distribute x subs h)"
  by (induction subs arbitrary: h) (auto simp: distribute_def try_send_ok)

text \<open>Every registered channel with room gets the message once, at its end; the others keep theirs.\<close>

lemma distribute_items:
  "gm_wf subs \<Longrightarrow> ch_items (chan_at (distribute x subs h) r) = ch_items (chan_at h r) @
     (if map_of subs r \<noteq> None \<and> \<not> ch_closed (chan_at h r)
         \<and> length (ch_items (chan_at h r)) < ch_cap (chan_at h r) then [x] else [])"
proof (induction subs arbitrary: h)
  case Nil
  then show ?case by (simp add: distribute_def)
next
  case (Cons s subs)
  obtain ch b where s: "s = (ch, b)" by (cases s)
  let ?h = "snd (try_send ch x h)"
  have "ch_items (chan_at (distribute x (s # subs) h) r) = ch_items (chan_at (distribute x subs ?h) r)"
    by (simp add: distribute_def s)
  also have "\<dots> = ch_items (chan_at ?h r) @ (if map_of subs r \<noteq> None \<and> \<not> ch_closed (chan_at ?h r)
         \<and> length (ch_items (chan_at ?h r)) < ch_cap (chan_at ?h r) then [x] else [])"
    using Cons.prems by (intro Cons.IH) (simp add: s)
  finally show ?case
    using Cons.prems by (auto simp: s try_send_items try_send_Sent_iff)
qed

lemma subs_ok_distribute: "subs_ok subs h \<Longrightarrow> subs_ok subs (distribute x subs h)"
  by (auto simp: subs_ok_def list_all_iff distribute_frame)

lemma subs_ok_new:
  "subs_ok subs h \<Longrightarrow> subs_ok (AList.update (length h) True subs) (h @ [make_chan n])"
  by (fastforce simp: subs_ok_def list_all_iff gm_set_update chan_at_append heap_ok_make)

lemma subs_ok_close: "subs_ok subs h \<Longrightarrow> subs_ok (AList.delete ch subs) (close_chan ch h)"
  by (fastforce simp: subs_ok_def list_all_iff gm_set_delete close_chan_ok)

lemma receive_ops_inv [inv_intros]:
  "pl_inv g \<Longrightarrow> pl_inv (distributeEvent e g)" "pl_inv g \<Longrightarrow> pl_inv (distributeInterestMessage im g)"
  "pl_inv g \<Longrightarrow> pl_inv (snd (ReceiveEvents g))" "pl_inv g \<Longrightarrow> pl_inv (snd (ReceiveInterestMessages g))"
  "pl_inv g \<Longrightarrow> pl_inv (ReceiveEvents_done ch g)" "pl_inv g \<Longrightarrow> pl_inv (ReceiveInterestMessages_done ch g)"
  by (simp_all add: pl_inv_def queue_ok_def subs_ok_distribute subs_ok_new subs_ok_close
      distributeEvent_def distributeInterestMessage_def ReceiveEvents_def ReceiveInterestMessages_def
      ReceiveEvents_done_def ReceiveInterestMessages_done_def registerSubscriber_def
      registerInterestSubscriber_def unregisterSubscriber_def unregisterInterestSubscriber_def
      Let_def)

subsection \<open>Heartbeats and lifecycle\<close>

lemma map_of_metrics_map:
  "map_of (map (\<lambda>(p, m). (p, f m)) ms) q = map_option f (map_of ms q)"
  by (induction ms) auto

lemma markSilent_inv [inv_intros]:
  assumes "pl_inv g"
  shows "pl_inv (markSilentPeersUnhealthy now g)"
proof -
  let ?f = "silent_step now (heartbeatTimeout g) (cfg_HeartbeatInterval (pl_config g))"
  have acct: "drops_add_up (?f m) = drops_add_up m" for m
    by (simp add: silent_step_def drops_add_up_def)
  have "gm_wf (map (\<lambda>(p, m). (p, ?f m)) ms) = gm_wf ms" for ms :: "(string, peer_metrics) gomap"
    by (simp add: gm_wf_def comp_def case_prod_beta)
  moreover have "list_all (\<lambda>(p, m). drops_add_up m) (map (\<lambda>(p, m). (p, ?f m)) (pl_metrics g))"
    using assms acct by (auto simp: pl_inv_def list_all_iff)
  ultimately show ?thesis
    using assms unfolding pl_inv_def markSilentPeersUnhealthy_def queue_ok_def
    by (simp add: map_of_metrics_map)
qed

lemma heartbeat_loop_inv [inv_intros]: "pl_inv g \<Longrightarrow> pl_inv (snd (heartbeat_loop now c ps g))"
proof (induction ps arbitrary: g)
  case (Cons p ps)
  have "pl_inv (snd (SendHeartbeat now (c p) p g))"
    by (rule inv_intros, rule Cons.prems)
  then show ?case
    by (cases "SendHeartbeat now (c p) p g")
      (auto split: option.splits intro!: Cons.IH metric_ops_inv)
qed simp

lemma heartbeat_ops_inv [inv_intros]:
  "pl_inv g \<Longrightarrow> pl_inv (snd (sendHeartbeatToConnectedPeers now c g))"
  "pl_inv g \<Longrightarrow> pl_inv (snd (StartHeartbeats b g))" "pl_inv g \<Longrightarrow> pl_inv (snd (StopHeartbeats g))"
  "pl_inv g \<Longrightarrow> pl_inv (clearHeartbeatLifecycle token g)"
  by (simp_all add: sendHeartbeatToConnectedPeers_def inv_intros StartHeartbeats_def StopHeartbeats_def
      clearHeartbeatLifecycle_def Let_def split: option.splits)

lemma lifecycle_ops_inv [inv_intros]:
  "pl_inv g \<Longrightarrow> pl_inv (snd (Start l g))" "pl_inv g \<Longrightarrow> pl_inv (snd (Stop g))"
  "pl_inv g \<Longrightarrow> pl_inv (snd (ClosePeerLink g))"
  by (auto simp: Start_def Stop_def ClosePeerLink_def Let_def split: sum.splits option.splits)

end
