(* ===== verification/Peer_Stream.thy ===== *)
theory Peer_Stream
  imports Peer_Inv
begin

text \<open>
  The streams of the peer link: the server side (\<open>EventStream\<close>), the client side (the retry loop, the
  handshake, the bidirectional loop), and what both do with queued and received messages. A loop runs over
  a script of what its environment does, one entry per iteration: the answers of gRPC, whether the context
  is done, which ready case a \<open>select\<close> takes, and what the rest of the program does to the link in the
  meantime. Every finite run of a loop is the run over some script.
\<close>

subsection \<open>Received messages\<close>

definition receive_message :: "int \<Rightarrow> string \<Rightarrow> wire_message \<Rightarrow> peer_link \<Rightarrow> peer_link" where
  "receive_message now peerID msg g =
     (case msg of
        Some (WEvent eventMsg) \<Rightarrow>
          let g = markPeerSeen now peerID g
          in if \<not> pl_closed g then distributeEvent (eventFromProto now eventMsg) g else g
      | Some (WControlPlane controlMsg) \<Rightarrow>
          let g = markPeerSeen now peerID g
          in (case interestMessageFromProto controlMsg of
                None \<Rightarrow> g
              | Some interestMessage \<Rightarrow>
                  if \<not> pl_closed g then distributeInterestMessage interestMessage g else g)
      | Some (WHeartbeat _) \<Rightarrow> markPeerSeen now peerID g
      | _ \<Rightarrow> g)"

text \<open>The receive goroutine, until \<open>Recv\<close> fails.\<close>

fun receive_loop :: "(int \<times> (pl_error + wire_message)) list \<Rightarrow> string \<Rightarrow> peer_link \<Rightarrow> pl_error option \<times> peer_link" where
  "receive_loop [] peerID g = (None, g)"
| "receive_loop ((now, Inl err) # rs) peerID g = (Some err, g)"
| "receive_loop ((now, Inr msg) # rs) peerID g = receive_loop rs peerID (receive_message now peerID msg g)"

subsection \<open>The server side\<close>

definition EventStream_open ::
  "int \<Rightarrow> nat \<Rightarrow> pl_error + wire_message \<Rightarrow> peer_link \<Rightarrow> (pl_error + string \<times> nat \<times> nat) \<times> peer_link" where
  "EventStream_open now stream first g =
     (case first of
        Inl err \<Rightarrow> (Inl err, g)
      | Inr (Some (WHandshake peerID version)) \<Rightarrow>
          if peerID = [] then (Inl PlEmptyPeerID, g)
          else
            let g = registerPeer now peerID g;
                peerNode = inboundPeer peerID ''inbound-connection'';
                g = g\<lparr>connections := AList.update peerID \<lparr>ci_node = peerNode, ci_stream = Some stream\<rparr>
                        (connections g)\<rparr>
            in (Inr (peerID, gm_get 0 (sendQueues g) peerID, gm_get 0 (controlQueues g) peerID), g)
      | Inr _ \<Rightarrow> (Inl PlExpectedHandshake, g))"

definition EventStream_cleanup :: "string \<Rightarrow> nat \<Rightarrow> peer_link \<Rightarrow> peer_link" where
  "EventStream_cleanup peerID stream g =
     (let g = (case map_of (connections g) peerID of
                 Some conn \<Rightarrow> if ci_stream conn = Some stream
                   then g\<lparr>connections := AList.delete peerID (connections g)\<rparr> else g
               | None \<Rightarrow> g)
      in on_metrics peerID (\<lambda>m. m\<lparr>healthState := PeerDisconnected\<rparr>) g)"

text \<open>The handshake response; when it cannot be sent, the handler returns before its cleanup is set up.\<close>

definition EventStream_respond :: "pl_error option \<Rightarrow> peer_link \<Rightarrow> pl_error option \<times> wire_message list" where
  "EventStream_respond send g =
     (case send of
        Some err \<Rightarrow> (Some err, [])
      | None \<Rightarrow> (None, [Some (WHandshake (cfg_NodeID (pl_config g)) ProtocolVersion)]))"

definition sendServerStreamMessage :: "pl_error option \<Rightarrow> peer_message \<Rightarrow> pl_error option \<times> wire_message list" where
  "sendServerStreamMessage send queuedMsg =
     (case serializeMessage queuedMsg of
        Inl WirePanic \<Rightarrow> (Some PlPanic, [])
      | Inl err \<Rightarrow> (None, [])
      | Inr peerMsg \<Rightarrow> (case send of Some err \<Rightarrow> (Some err, []) | None \<Rightarrow> (None, [peerMsg])))"

datatype out_case = OcCtx | OcRecv pl_error | OcControl | OcData

record stream_env =
  se_other :: "peer_link \<Rightarrow> peer_link"
  se_wait :: "peer_link \<Rightarrow> peer_link"
  se_pick :: nat
  se_ctx :: bool
  se_recv :: "pl_error option"
  se_send :: "pl_error option"

definition done_cases :: "stream_env \<Rightarrow> out_case list" where
  "done_cases e = (if se_ctx e then [OcCtx] else [])
     @ (case se_recv e of Some err \<Rightarrow> [OcRecv err] | None \<Rightarrow> [])"

definition queue_case :: "out_case \<Rightarrow> nat \<Rightarrow> peer_link \<Rightarrow> out_case list" where
  "queue_case c r g = (if fst (try_recv r (pl_queues g)) = Empty then [] else [c])"

text \<open>
  The outgoing loop of the handler. Its \<open>select\<close> has a default branch with a second \<open>select\<close>, which
  alone offers the data queue; \<open>se_wait\<close> is what happens between the two.
\<close>

datatype server_result = ServerReturn "pl_error option" | ServerRunning

definition server_case :: "stream_env \<Rightarrow> nat \<Rightarrow> nat \<Rightarrow> peer_link \<Rightarrow> out_case option \<times> peer_link" where
  "server_case e dataQueue controlQueue g =
     (case select_of (se_pick e) (done_cases e @ queue_case OcControl controlQueue g) of
        Some c \<Rightarrow> (Some c, g)
      | None \<Rightarrow>
          let g = se_wait e g
          in (select_of (se_pick e) (done_cases e @ queue_case OcControl controlQueue g
                @ queue_case OcData dataQueue g), g))"

definition server_take :: "stream_env \<Rightarrow> nat \<Rightarrow> peer_link \<Rightarrow> (pl_error option + wire_message list) \<times> peer_link" where
  "server_take e r g =
     (case try_recv r (pl_queues g) of
        (Item m, h) \<Rightarrow>
          (case sendServerStreamMessage (se_send e) m of
             (Some err, _) \<Rightarrow> (Inl (Some err), g\<lparr>pl_queues := h\<rparr>)
           | (None, sent) \<Rightarrow> (Inr sent, g\<lparr>pl_queues := h\<rparr>))
      | (_, h) \<Rightarrow> (Inl None, g))"

fun server_loop :: "stream_env list \<Rightarrow> nat \<Rightarrow> nat \<Rightarrow> peer_link \<Rightarrow> server_result \<times> wire_message list \<times> peer_link" where
  "server_loop [] dataQueue controlQueue g = (ServerRunning, [], g)"
| "server_loop (e # es) dataQueue controlQueue g =
     (case server_case e dataQueue controlQueue (se_other e g) of
        (None, g) \<Rightarrow> server_loop es dataQueue controlQueue g
      | (Some OcCtx, g) \<Rightarrow> (ServerReturn (Some PlCtxErr), [], g)
      | (Some (OcRecv err), g) \<Rightarrow> (ServerReturn (Some err), [], g)
      | (Some c, g) \<Rightarrow>
          (case server_take e (if c = OcControl then controlQueue else dataQueue) g of
             (Inl r, g) \<Rightarrow> (ServerReturn r, [], g)
           | (Inr sent, g) \<Rightarrow>
               (case server_loop es dataQueue controlQueue g of
                  (r, sent', g') \<Rightarrow> (r, sent @ sent', g'))))"

definition EventStream ::
  "int \<Rightarrow> nat \<Rightarrow> pl_error + wire_message \<Rightarrow> pl_error option \<Rightarrow> stream_env list \<Rightarrow> peer_link \<Rightarrow>
   server_result \<times> wire_message list \<times> peer_link" where
  "EventStream now stream first send es g =
     (case EventStream_open now stream first g of
        (Inl err, g) \<Rightarrow> (ServerReturn (Some err), [], g)
      | (Inr (peerID, dataQueue, controlQueue), g) \<Rightarrow>
          (case EventStream_respond send g of
             (Some err, _) \<Rightarrow> (ServerReturn (Some err), [], g)
           | (None, hello) \<Rightarrow>
               (case server_loop es dataQueue controlQueue g of
                  (ServerRunning, sent, g) \<Rightarrow> (ServerRunning, hello @ sent, g)
                | (ServerReturn r, sent, g) \<Rightarrow>
                    (ServerReturn r, hello @ sent, EventStream_cleanup peerID stream g))))"

subsection \<open>The client side\<close>

definition getSendQueue :: "string \<Rightarrow> peer_link \<Rightarrow> nat option" where
  "getSendQueue peerID g = map_of (sendQueues g) peerID"

definition getControlQueue :: "string \<Rightarrow> peer_link \<Rightarrow> nat option" where
  "getControlQueue peerID g = map_of (controlQueues g) peerID"

datatype next_result = NextMsg peer_message nat | NextClosed | NextErr pl_error | NextBlocked

text \<open>Receiving from a queue that may be nil: a nil channel is never ready.\<close>

definition opt_case :: "out_case \<Rightarrow> nat option \<Rightarrow> peer_link \<Rightarrow> out_case list" where
  "opt_case c r g = (case r of None \<Rightarrow> [] | Some r \<Rightarrow> queue_case c r g)"

definition take_from :: "nat option \<Rightarrow> peer_link \<Rightarrow> next_result \<times> peer_link" where
  "take_from r g =
     (case r of
        None \<Rightarrow> (NextBlocked, g)
      | Some r \<Rightarrow>
         (case try_recv r (pl_queues g) of
            (Item m, h) \<Rightarrow> (NextMsg m r, g\<lparr>pl_queues := h\<rparr>)
          | (Drained, h) \<Rightarrow> (NextClosed, g)
          | (Empty, h) \<Rightarrow> (NextBlocked, g)))"

definition nextOutboundMessageOrDone :: "stream_env \<Rightarrow> string \<Rightarrow> peer_link \<Rightarrow> next_result \<times> peer_link" where
  "nextOutboundMessageOrDone e peerID g =
     (let dataQueue = getSendQueue peerID g; controlQueue = getControlQueue peerID g in
      if opt_case OcControl controlQueue g \<noteq> [] then take_from controlQueue g
      else
        let g = se_wait e g
        in (case select_of (se_pick e) (done_cases e @ opt_case OcControl controlQueue g
                @ opt_case OcData dataQueue g) of
              None \<Rightarrow> (NextBlocked, g)
            | Some OcCtx \<Rightarrow> (NextErr PlCtxErr, g)
            | Some (OcRecv err) \<Rightarrow> (NextErr err, g)
            | Some OcControl \<Rightarrow> take_from controlQueue g
            | Some OcData \<Rightarrow> take_from dataQueue g))"

definition nextOutboundMessage :: "stream_env \<Rightarrow> string \<Rightarrow> peer_link \<Rightarrow> peer_message option \<times> peer_link" where
  "nextOutboundMessage e peerID g =
     (case nextOutboundMessageOrDone (e\<lparr>se_recv := None\<rparr>) peerID g of
        (NextMsg m _, g) \<Rightarrow> (Some m, g)
      | (_, g) \<Rightarrow> (None, g))"

definition processOutboundMessage :: "bool \<Rightarrow> pl_error option \<Rightarrow> peer_message \<Rightarrow> pl_error option \<times> wire_message list" where
  "processOutboundMessage stream_nil send msg =
     (if stream_nil then (Some PlStreamNil, [])
      else case serializeMessage msg of
        Inl WirePanic \<Rightarrow> (Some PlPanic, [])
      | Inl err \<Rightarrow> (Some (PlSerialize err), [])
      | Inr peerMsg \<Rightarrow> (case send of Some err \<Rightarrow> (Some err, []) | None \<Rightarrow> (None, [peerMsg])))"

definition dropFailedMessage :: "string \<Rightarrow> peer_message \<Rightarrow> peer_link \<Rightarrow> peer_link" where
  "dropFailedMessage peerID msg g = recordPlaneDrop peerID (planeForMessage msg) g"

definition handleSendFailure :: "string \<Rightarrow> peer_message \<Rightarrow> nat \<Rightarrow> peer_link \<Rightarrow> pl_error option \<times> peer_link" where
  "handleSendFailure peerID msg sendQueue g =
     (let g = recordPlaneSendFailure peerID (planeForMessage msg) g;
          msg = IncrementSendAttempts msg
      in if int (SendAttempts msg) > cfg_MaxSendAttempts (pl_config g)
         then (None, recordPeerSendFailure peerID (dropFailedMessage peerID msg g))
         else (case try_send sendQueue msg (pl_queues g) of
                 (Sent, h) \<Rightarrow> (None, recordPeerSendFailure peerID (g\<lparr>pl_queues := h\<rparr>))
               | (Full, h) \<Rightarrow> (None, recordPeerSendFailure peerID (dropFailedMessage peerID msg g))
               | (SendPanic, h) \<Rightarrow> (Some PlPanic, g)))"

text \<open>\<open>LoopRunning\<close> is the end of the script; the others are the loop's answers.\<close>

datatype loop_result = LoopRetry | LoopStop | LoopRunning | LoopPanic

fun runBidirectionalStreamLoop ::
  "stream_env list \<Rightarrow> string \<Rightarrow> peer_link \<Rightarrow> loop_result \<times> wire_message list \<times> peer_link" where
  "runBidirectionalStreamLoop [] peerID g = (LoopRunning, [], g)"
| "runBidirectionalStreamLoop (e # es) peerID g =
     (case nextOutboundMessageOrDone e peerID (se_other e g) of
        (NextErr err, g) \<Rightarrow> (if se_ctx e then LoopStop else LoopRetry, [], g)
      | (NextClosed, g) \<Rightarrow> (LoopStop, [], g)
      | (NextBlocked, g) \<Rightarrow> runBidirectionalStreamLoop es peerID g
      | (NextMsg m r, g) \<Rightarrow>
          (case processOutboundMessage False (se_send e) m of
             (Some PlPanic, _) \<Rightarrow> (LoopPanic, [], g)
           | (Some err, _) \<Rightarrow>
               (case handleSendFailure peerID m r g of
                  (None, g) \<Rightarrow> (LoopRetry, [], g)
                | (Some _, g) \<Rightarrow> (LoopPanic, [], g))
           | (None, sent) \<Rightarrow>
               (case runBidirectionalStreamLoop es peerID g of
                  (r, sent', g') \<Rightarrow> (r, sent @ sent', g'))))"

text \<open>
  The handshake of the client: opening the stream, sending, receiving, any of which may fail. The
  response is not inspected.
\<close>

definition establishStreamWithHandshake ::
  "int \<Rightarrow> pl_error option \<Rightarrow> pl_error option \<Rightarrow> pl_error option \<Rightarrow> string \<Rightarrow> peer_link \<Rightarrow>
   pl_error option \<times> wire_message list \<times> peer_link" where
  "establishStreamWithHandshake now opening send recv peerID g =
     (case opening of
        Some err \<Rightarrow> (Some err, [], g)
      | None \<Rightarrow>
         (case send of
            Some err \<Rightarrow> (Some err, [], g)
          | None \<Rightarrow>
              let hello = [Some (WHandshake (cfg_NodeID (pl_config g)) ProtocolVersion)]
              in (case recv of
                    Some err \<Rightarrow> (Some err, hello, g)
                  | None \<Rightarrow> (None, hello, markPeerSeen now peerID g))))"

record attempt_env =
  ae_other :: "peer_link \<Rightarrow> peer_link"
  ae_ctx :: bool
  ae_now :: int
  ae_open :: "pl_error option"
  ae_send :: "pl_error option"
  ae_recv :: "pl_error option"
  ae_stream :: "stream_env list"
  ae_ctx_wait :: bool

text \<open>A context that is done stays done: the flag of one iteration holds for all later ones.\<close>

fun sticky_ctx :: "bool \<Rightarrow> stream_env list \<Rightarrow> stream_env list" where
  "sticky_ctx finished [] = []"
| "sticky_ctx finished (e # es) =
     e\<lparr>se_ctx := finished \<or> se_ctx e\<rparr> # sticky_ctx (finished \<or> se_ctx e) es"

definition attemptStreamConnection ::
  "attempt_env \<Rightarrow> string \<Rightarrow> peer_link \<Rightarrow> loop_result \<times> wire_message list \<times> peer_link" where
  "attemptStreamConnection a peerID g =
     (case establishStreamWithHandshake (ae_now a) (ae_open a) (ae_send a) (ae_recv a) peerID g of
        (Some err, sent, g) \<Rightarrow> (LoopRetry, sent, g)
      | (None, sent, g) \<Rightarrow>
         (case runBidirectionalStreamLoop (sticky_ctx False (ae_stream a)) peerID g of
            (r, sent', g') \<Rightarrow> (r, sent @ sent', g')))"

text \<open>
  The retry loop. \<open>attemptStreamConnection\<close> answers true (here \<open>LoopRetry\<close>) for "retry" and false
  (\<open>LoopStop\<close>) for "terminate"; the loop takes true for success. The first argument says whether the context is
  done; it stays so, from the stream into the wait and into the next round. The result lists the delays begun.
\<close>

datatype out_result = OutStopped | OutRunning | OutPanic

definition maxRetries :: nat where
  "maxRetries = 5"

definition baseDelay :: int where
  "baseDelay = 1000000000"

definition ctx_after :: "attempt_env \<Rightarrow> bool" where
  "ctx_after a = list_ex se_ctx (ae_stream a)"

fun runOutboundConnection ::
  "bool \<Rightarrow> attempt_env list \<Rightarrow> nat \<Rightarrow> string \<Rightarrow> peer_link \<Rightarrow> out_result \<times> int list \<times> peer_link" where
  "runOutboundConnection finished [] retryCount peerID g = (OutRunning, [], g)"
| "runOutboundConnection finished (a # as) retryCount peerID g =
     (let g = ae_other a g in
      if finished \<or> ae_ctx a then (OutStopped, [], g)
      else if pl_closed g then (OutStopped, [], g)
      else case attemptStreamConnection a peerID g of
        (LoopRetry, _, g) \<Rightarrow> runOutboundConnection (ctx_after a) as 0 peerID g
      | (LoopRunning, _, g) \<Rightarrow> (OutRunning, [], g)
      | (LoopPanic, _, g) \<Rightarrow> (OutPanic, [], g)
      | (LoopStop, _, g) \<Rightarrow>
          let retryCount = retryCount + 1 in
          if retryCount > maxRetries then (OutStopped, [], SetPeerHealth peerID PeerUnhealthy g)
          else
            let delay = int retryCount * baseDelay in
            if ctx_after a \<or> ae_ctx_wait a then (OutStopped, [delay], g)
            else (case runOutboundConnection False as retryCount peerID g of
                    (r, delays, g') \<Rightarrow> (r, delay # delays, g')))"

end
