(* ===== verification/Peer_Props.thy ===== *)
theory Peer_Props
  imports Peer_Stream
begin

text \<open>
  What the peer link guarantees: its invariant over every sequence of steps of the program, the
  order and the accounting of the messages it queues, the treatment of failed sends, the retry loop, the
  health states and the heartbeats.
\<close>

subsection \<open>Streams keep the invariant\<close>

lemma receive_message_inv [inv_intros]: "pl_inv g \<Longrightarrow> pl_inv (receive_message now p msg g)"
  unfolding receive_message_def Let_def
  by (auto intro: inv_intros split: option.splits wire_kind.splits)

lemma EventStream_open_inv [inv_intros]:
  "pl_inv g \<Longrightarrow> pl_inv (snd (EventStream_open now stream first g))"
  using register_connection_inv [of g]
  by (auto simp: EventStream_open_def Let_def registerPeer_connections inboundPeer_def
      split: sum.splits option.splits wire_kind.splits)

lemma EventStream_cleanup_inv [inv_intros]: "pl_inv g \<Longrightarrow> pl_inv (EventStream_cleanup p stream g)"
  unfolding EventStream_cleanup_def Let_def
  by (rule on_metrics_inv) (auto simp: connection_inv drops_add_up_def split: option.splits)

lemma take_from_inv [inv_intros]: "pl_inv g \<Longrightarrow> pl_inv (snd (take_from r g))"
proof -
  assume inv: "pl_inv g"
  show ?thesis
  proof (cases r)
    case (Some q)
    with try_recv_inv [OF inv, of q] inv show ?thesis
      by (cases "try_recv q (pl_queues g)") (auto simp: take_from_def split: recv_result.splits)
  qed (simp add: take_from_def inv)
qed

lemma server_take_inv [inv_intros]: "pl_inv g \<Longrightarrow> pl_inv (snd (server_take e r g))"
proof -
  assume inv: "pl_inv g"
  with try_recv_inv [OF inv, of r] show ?thesis
    by (cases "try_recv r (pl_queues g)") (auto simp: server_take_def split: recv_result.splits prod.splits option.splits)
qed

lemma metric_ops_frame [simp]:
  "pl_config (recordPlaneSendFailure p pl g) = pl_config g" "pl_queues (recordPlaneSendFailure p pl g) = pl_queues g"
  "queue_of pl' (recordPlaneSendFailure p pl g) = queue_of pl' g"
  by (cases pl'; simp add: recordPlaneSendFailure_def)+

subsection \<open>Queue references\<close>

text \<open>
  A goroutine that looked a peer's queue up holds a reference to it after it has released the lock. The
  queue stays the peer's until somebody disconnects the peer, which closes it; no step of the program takes it
  from the one state to any other, nor opens it again. So what a goroutine holds is stable under interference.
\<close>

definition holds_queue :: "plane \<Rightarrow> string \<Rightarrow> nat \<Rightarrow> peer_link \<Rightarrow> bool" where
  "holds_queue pl p r g \<longleftrightarrow> r < length (pl_queues g)
     \<and> (map_of (queue_of pl g) p = Some r \<or> ch_closed (chan_at (pl_queues g) r))"

definition queues_stable :: "peer_link \<Rightarrow> peer_link \<Rightarrow> bool" where
  "queues_stable g g' \<longleftrightarrow> (\<forall>pl p r. holds_queue pl p r g \<longrightarrow> holds_queue pl p r g')"

named_theorems stable_intros "operations keep the queue references that goroutines hold"

lemma stable_refl [stable_intros]: "queues_stable g g"
  by (simp add: queues_stable_def)

lemma stable_trans: "queues_stable g g1 \<Longrightarrow> queues_stable g1 g2 \<Longrightarrow> queues_stable g g2"
  by (simp add: queues_stable_def)

lemma looked_up_held: "pl_inv g \<Longrightarrow> map_of (queue_of pl g) p = Some r \<Longrightarrow> holds_queue pl p r g"
  using queue_of_ok [of g pl p r] by (simp add: holds_queue_def queue_ok_def)

lemma stable_frame:
  "(\<And>pl. queue_of pl g' = queue_of pl g) \<Longrightarrow> length (pl_queues g') = length (pl_queues g) \<Longrightarrow>
   (\<And>r. ch_closed (chan_at (pl_queues g) r) \<Longrightarrow> ch_closed (chan_at (pl_queues g') r)) \<Longrightarrow> queues_stable g g'"
  by (auto simp: queues_stable_def holds_queue_def)

lemma on_metrics_queues [simp]: "queue_of pl (on_metrics p f g) = queue_of pl g"
  by (cases pl) simp_all

lemma metric_ops_stable [stable_intros]:
  "queues_stable g (on_metrics p f g)" "queues_stable g (SetPeerHealth p s g)" "queues_stable g (markPeerSeen now p g)"
  "queues_stable g (recordPlaneQueued p pl g)" "queues_stable g (recordPlaneDrop p pl g)"
  "queues_stable g (recordPlaneSendFailure p pl g)" "queues_stable g (recordPeerSendFailure p g)"
  unfolding metric_ops by (rule stable_frame; simp)+

lemma queue_of_update [simp]:
  "queue_of pl (g\<lparr>pl_queues := h\<rparr>) = queue_of pl g" "queue_of pl (g\<lparr>pl_metrics := ms\<rparr>) = queue_of pl g"
  "queue_of pl (g\<lparr>connections := cs\<rparr>) = queue_of pl g" "queue_of pl (g\<lparr>pl_eventChans := ec\<rparr>) = queue_of pl g"
  "queue_of pl (g\<lparr>pl_interestChans := ic\<rparr>) = queue_of pl g" "queue_of pl (g\<lparr>pl_subscribers := es\<rparr>) = queue_of pl g"
  "queue_of pl (g\<lparr>interestSubscribers := ins\<rparr>) = queue_of pl g" "queue_of pl (g\<lparr>pl_closed := c\<rparr>) = queue_of pl g"
  by (cases pl; simp)+

lemma chan_ops_stable [stable_intros]:
  "queues_stable g (g\<lparr>pl_queues := snd (try_send r m (pl_queues g))\<rparr>)"
  "queues_stable g (g\<lparr>pl_queues := snd (try_recv r (pl_queues g))\<rparr>)"
  by (rule stable_frame; simp)+

lemma enqueue_stable [stable_intros]: "queues_stable g (snd (enqueue c p pl r m g))"
  using chan_ops_stable(1) [of g r m]
  by (cases "try_send r m (pl_queues g)")
    (auto simp: enqueue_def split: send_result.splits intro: stable_trans metric_ops_stable stable_refl)

lemma send_ops_stable [stable_intros]:
  "queues_stable g (snd (SendEvent now c p e g))" "queues_stable g (snd (SendInterestUpdate now c p u g))"
  "queues_stable g (snd (SendInterestSnapshot now c p s g))" "queues_stable g (snd (SendHeartbeat now c p g))"
  by (auto simp: SendEvent_def SendInterestUpdate_def SendInterestSnapshot_def sendInterestMessage_def SendHeartbeat_def
      intro: stable_intros split: sum.splits)

lemma ensure_queue_stable:
  "queues_stable g (ensure_send_queue p g)" "queues_stable g (ensure_control_queue p g)" "queues_stable g (ensure_metrics now p g)"
  by (auto simp: queues_stable_def holds_queue_def queue_of_def ensure_send_queue_def ensure_control_queue_def
      ensure_metrics_def new_queue_def chan_at_append split: plane.splits)

lemma registerPeer_stable [stable_intros]: "queues_stable g (registerPeer now p g)"
  unfolding registerPeer_def by (blast intro: stable_trans ensure_queue_stable)

lemma Connect_stable [stable_intros]: "queues_stable g (snd (Connect now dial peer g))"
proof -
  have other: "queues_stable g1 (g1\<lparr>outboundConns := oc, outboundCancel := ca, pl_next := k\<rparr>)" for g1 oc ca k
    by (auto intro!: stable_frame simp: queue_of_def split: plane.splits)
  have "queues_stable g (registerPeer now (pn_ID peer) (g\<lparr>connections := cs\<rparr>))" for cs
    by (rule stable_trans [OF _ registerPeer_stable]) (rule stable_frame; simp)
  then show ?thesis
    by (auto simp: Connect_def Let_def intro: stable_refl stable_trans other split: option.splits)
qed

lemma Disconnect_stable [stable_intros]: "queues_stable g (snd (Disconnect p g))"
proof (cases "pl_closed g")
  case False
  let ?d = "g\<lparr>connections := AList.delete p (connections g)\<rparr>"
  have "holds_queue pl q r (snd (Disconnect p g))" if "holds_queue pl q r g" for pl q r
    using that False
    by (cases pl; cases "map_of (sendQueues g) p"; cases "map_of (controlQueues g) p")
      (auto simp: holds_queue_def Disconnect_def SetPeerHealth_def Let_def drop_queue_eq close_opt_def delete_conv')
  then show ?thesis by (simp add: queues_stable_def)
qed (simp add: Disconnect_def stable_refl)

lemma receive_stable [stable_intros]: "queues_stable g (receive_message now p msg g)"
proof -
  have d: "queues_stable g1 (distributeEvent e g1)" "queues_stable g1 (distributeInterestMessage i g1)" for e i g1
    by (auto simp: distributeEvent_def distributeInterestMessage_def intro!: stable_frame)
  show ?thesis
    by (auto simp: receive_message_def Let_def intro: stable_intros stable_trans [OF metric_ops_stable(3)] d
        split: option.splits wire_kind.splits)
qed

lemma stream_ops_stable [stable_intros]:
  "queues_stable g (snd (EventStream_open now stream first g))" "queues_stable g (EventStream_cleanup p stream g)"
  "queues_stable g (snd (take_from q g))" "queues_stable g (snd (server_take e r g))"
proof -
  have conn: "queues_stable g (g\<lparr>connections := cs\<rparr>)" for g cs
    by (rule stable_frame) simp_all
  have opened: "queues_stable g ((registerPeer now q g)\<lparr>connections := cs\<rparr>)" for q cs
    by (rule stable_trans [OF registerPeer_stable conn])
  show "queues_stable g (snd (EventStream_open now stream first g))"
    by (auto simp: EventStream_open_def Let_def intro: stable_refl opened
        split: sum.splits option.splits wire_kind.splits)
  show "queues_stable g (EventStream_cleanup p stream g)"
    unfolding EventStream_cleanup_def Let_def
    by (rule stable_trans [OF _ metric_ops_stable(1)]) (auto intro: stable_refl conn split: option.splits)
  have recv: "queues_stable g (g\<lparr>pl_queues := h\<rparr>)" if "try_recv r (pl_queues g) = (x, h)" for r x h
    using chan_ops_stable(2) [of g r] that by simp
  show "queues_stable g (snd (take_from q g))" "queues_stable g (snd (server_take e r g))"
    by (auto simp: take_from_def server_take_def intro: stable_intros recv
        split: option.splits prod.splits recv_result.splits)
qed

lemma handleSendFailure_stable [stable_intros]: "queues_stable g (snd (handleSendFailure p m r g))"
proof -
  let ?g = "recordPlaneSendFailure p (planeForMessage m) g" and ?m = "IncrementSendAttempts m"
  have 1: "queues_stable g ?g" by (rule stable_intros)
  have 2: "queues_stable g (?g\<lparr>pl_queues := snd (try_send r ?m (pl_queues ?g))\<rparr>)"
    by (rule stable_trans [OF 1]) (rule stable_intros)
  show ?thesis
    using 1 2
    by (cases "try_send r ?m (pl_queues ?g)")
      (auto simp: handleSendFailure_def Let_def dropFailedMessage_def split: send_result.splits
        intro!: stable_trans [OF _ metric_ops_stable(7)] stable_trans [OF _ metric_ops_stable(5)])
qed

lemma heartbeat_loop_stable: "queues_stable g (snd (heartbeat_loop now c ps g))"
proof (induction ps arbitrary: g)
  case (Cons p ps)
  obtain err g1 where s: "SendHeartbeat now (c p) p g = (err, g1)" by (cases "SendHeartbeat now (c p) p g")
  have 1: "queues_stable g g1"
    using send_ops_stable(4) [of g now "c p" p] s by simp
  then have "queues_stable g (recordPeerSendFailure p (recordPlaneSendFailure p pl g1))" for pl
    by (blast intro: stable_trans metric_ops_stable)
  with 1 s Cons.IH show ?case
    by (cases err) (auto intro: stable_trans)
qed (simp add: stable_refl)

lemma lifecycle_stable [stable_intros]:
  "queues_stable g (markSilentPeersUnhealthy now g)" "queues_stable g (snd (sendHeartbeatToConnectedPeers now cs g))"
  "queues_stable g (snd (StartHeartbeats b g))" "queues_stable g (snd (StopHeartbeats g))"
  "queues_stable g (clearHeartbeatLifecycle token g)" "queues_stable g (snd (Start l g))" "queues_stable g (snd (Stop g))"
  "queues_stable g (snd (ClosePeerLink g))" "queues_stable g (snd (ReceiveEvents g))" "queues_stable g (ReceiveEvents_done ch g)"
  "queues_stable g (snd (ReceiveInterestMessages g))" "queues_stable g (ReceiveInterestMessages_done ch g)"
  "queues_stable g (distributeEvent ev g)" "queues_stable g (distributeInterestMessage im g)"
proof -
  show silent: "queues_stable g (markSilentPeersUnhealthy now g)" for g
    by (rule stable_frame) (simp_all add: markSilentPeersUnhealthy_def)
  show "queues_stable g (snd (sendHeartbeatToConnectedPeers now cs g))"
    unfolding sendHeartbeatToConnectedPeers_def Let_def by (rule stable_trans [OF silent heartbeat_loop_stable])
qed (auto intro!: stable_frame simp: queue_of_def StartHeartbeats_def StopHeartbeats_def clearHeartbeatLifecycle_def Start_def
    Stop_def ClosePeerLink_def ReceiveEvents_def ReceiveEvents_done_def registerSubscriber_def unregisterSubscriber_def
    ReceiveInterestMessages_def ReceiveInterestMessages_done_def registerInterestSubscriber_def
    unregisterInterestSubscriber_def distributeEvent_def distributeInterestMessage_def Let_def
    split: plane.splits option.splits sum.splits)

subsection \<open>Sending on a reference\<close>

lemma put_inv [inv_intros]:
  assumes inv: "pl_inv g" and m: "msg_ok (pl_config g) pl p m" and r: "holds_queue pl p r g"
  shows "pl_inv (g\<lparr>pl_queues := snd (try_send r m (pl_queues g))\<rparr>)"
proof (cases "ch_closed (chan_at (pl_queues g) r)")
  case True
  then have "snd (try_send r m (pl_queues g)) = pl_queues g"
    by (simp add: try_send_Sent_iff)
  with inv show ?thesis by simp
next
  case False
  then show ?thesis
    using r by (intro try_send_inv [OF inv _ m]) (simp add: holds_queue_def)
qed

lemma handleSendFailure_inv [inv_intros]:
  assumes inv: "pl_inv g" and m: "ch_closed (chan_at (pl_queues g) r) \<or> msg_ok (pl_config g) pl p m"
    and r: "holds_queue pl p r g"
  shows "pl_inv (snd (handleSendFailure p m r g))"
proof -
  let ?g = "recordPlaneSendFailure p (planeForMessage m) g" and ?m = "IncrementSendAttempts m"
  have inv1: "pl_inv ?g"
    by (rule inv_intros, rule inv)
  have sent: "pl_inv (?g\<lparr>pl_queues := snd (try_send r ?m (pl_queues ?g))\<rparr>)"
    if "int (SendAttempts ?m) \<le> cfg_MaxSendAttempts (pl_config ?g)" "fst (try_send r ?m (pl_queues ?g)) = Sent"
  proof (rule put_inv [OF inv1])
    show "msg_ok (pl_config ?g) pl p ?m"
      using m that by (auto simp: msg_ok_def try_send_Sent_iff)
    show "holds_queue pl p r ?g"
      using r metric_ops_stable(6) [of g p "planeForMessage m"] by (simp add: queues_stable_def)
  qed
  show ?thesis
    using inv1 sent
    by (cases "try_send r ?m (pl_queues ?g)")
      (auto simp: handleSendFailure_def Let_def dropFailedMessage_def intro!: metric_ops_inv split: send_result.splits)
qed

text \<open>The outcome of the second half of a send: it panics exactly when the queue is no longer the peer's.\<close>

lemma enqueue_held:
  assumes inv: "pl_inv g" and r: "holds_queue pl p r g"
  shows "fst (enqueue gave_up p pl r m g) \<in> {None, Some PlQueueFull, Some PlPanic}"
    and "fst (enqueue gave_up p pl r m g) = Some PlPanic \<longleftrightarrow> \<not> gave_up \<and> map_of (queue_of pl g) p \<noteq> Some r"
proof -
  have "\<not> ch_closed (chan_at (pl_queues g) r)" if "map_of (queue_of pl g) p = Some r"
    using queue_of_ok [OF inv that] by (simp add: queue_ok_def)
  with r have "ch_closed (chan_at (pl_queues g) r) \<longleftrightarrow> map_of (queue_of pl g) p \<noteq> Some r"
    by (auto simp: holds_queue_def)
  then show "fst (enqueue gave_up p pl r m g) \<in> {None, Some PlQueueFull, Some PlPanic}"
    "fst (enqueue gave_up p pl r m g) = Some PlPanic \<longleftrightarrow> \<not> gave_up \<and> map_of (queue_of pl g) p \<noteq> Some r"
    by (auto simp: enqueue_def try_send_def Let_def)
qed

subsection \<open>The program's steps\<close>

text \<open>
  One step of a goroutine on the link, as fine as the lock makes them: a critical section, an operation on a
  channel, or an update of the metrics, which has a critical section of its own. A send is a lookup, which
  changes nothing, then \<open>step_put\<close> and \<open>step_queued\<close>, or \<open>step_drop\<close>; a failed send of a stream is
  \<open>step_plane_failure\<close>, \<open>step_put\<close> or \<open>step_drop\<close>, and \<open>step_peer_failure\<close>; a received message is \<open>step_seen\<close>
  and a distribution; a tick is \<open>step_silent\<close> and sends. The last group are the calls made of several such steps
  when nothing comes in between. A goroutine that puts a message holds a reference to a queue of
  its plane, which is the peer's or has been closed by a disconnect.
\<close>

inductive pl_step :: "peer_link \<Rightarrow> peer_link \<Rightarrow> bool" where
  step_Connect: "pl_step g (snd (Connect now dial peer g))"
| step_Disconnect: "pl_step g (snd (Disconnect p g))"
| step_put: "msg_ok (pl_config g) pl p m \<Longrightarrow> holds_queue pl p q g \<Longrightarrow>
    pl_step g (g\<lparr>pl_queues := snd (try_send q m (pl_queues g))\<rparr>)"
| step_queued: "pl_step g (recordPlaneQueued p pl g)"
| step_drop: "pl_step g (recordPlaneDrop p pl g)"
| step_plane_failure: "pl_step g (recordPlaneSendFailure p pl g)"
| step_peer_failure: "pl_step g (recordPeerSendFailure p g)"
| step_seen: "pl_step g (markPeerSeen now p g)"
| step_health: "pl_step g (SetPeerHealth p st g)"
| step_silent: "pl_step g (markSilentPeersUnhealthy now g)"
| step_distribute_event: "\<not> pl_closed g \<Longrightarrow> pl_step g (distributeEvent e g)"
| step_distribute_interest: "\<not> pl_closed g \<Longrightarrow> pl_step g (distributeInterestMessage im g)"
| step_ReceiveEvents: "pl_step g (snd (ReceiveEvents g))"
| step_ReceiveEvents_done: "pl_step g (ReceiveEvents_done ch g)"
| step_ReceiveInterest: "pl_step g (snd (ReceiveInterestMessages g))"
| step_ReceiveInterest_done: "pl_step g (ReceiveInterestMessages_done ch g)"
| step_open: "pl_step g (snd (EventStream_open now stream first g))"
| step_cleanup: "pl_step g (EventStream_cleanup p stream g)"
| step_take: "pl_step g (snd (take_from r g))"
| step_server_take: "pl_step g (snd (server_take e q g))"
| step_StartHeartbeats: "pl_step g (snd (StartHeartbeats b g))"
| step_StopHeartbeats: "pl_step g (snd (StopHeartbeats g))"
| step_clear: "pl_step g (clearHeartbeatLifecycle token g)"
| step_Start: "pl_step g (snd (Start l g))"
| step_Stop: "pl_step g (snd (Stop g))"
| step_Close: "pl_step g (snd (ClosePeerLink g))"
| step_SendEvent: "pl_step g (snd (SendEvent now c p e g))"
| step_SendUpdate: "pl_step g (snd (SendInterestUpdate now c p u g))"
| step_SendSnapshot: "pl_step g (snd (SendInterestSnapshot now c p s g))"
| step_SendHeartbeat: "pl_step g (snd (SendHeartbeat now c p g))"
| step_receive: "pl_step g (receive_message now p msg g)"
| step_failure: "msg_ok (pl_config g) pl p m \<Longrightarrow> holds_queue pl p q g \<Longrightarrow> pl_step g (snd (handleSendFailure p m q g))"
| step_heartbeats: "pl_step g (snd (sendHeartbeatToConnectedPeers now cs g))"

lemma pl_step_inv: "pl_step g g' \<Longrightarrow> pl_inv g \<Longrightarrow> pl_inv g'"
  by (induction rule: pl_step.induct) (auto intro: inv_intros)

lemma pl_reach_inv: "pl_step\<^sup>*\<^sup>* g g' \<Longrightarrow> pl_inv g \<Longrightarrow> pl_inv g'"
  by (induction rule: rtranclp_induct) (auto intro: pl_step_inv)

lemma pl_step_stable: "pl_step g g' \<Longrightarrow> queues_stable g g'"
  by (induction rule: pl_step.induct) (auto intro: stable_intros)

lemma pl_reach_stable: "pl_step\<^sup>*\<^sup>* g g' \<Longrightarrow> queues_stable g g'"
  by (induction rule: rtranclp_induct) (auto intro: stable_intros stable_trans pl_step_stable)

lemma depth_bounded:
  assumes "pl_inv g"
  shows "int (queue_len (queue_of pl g) p g) \<le> cfg_SendQueueSize (pl_config g)"
proof (cases "map_of (queue_of pl g) p")
  case None
  with assms show ?thesis by (simp add: queue_len_def pl_inv_def config_ok_def)
next
  case (Some r)
  have "chan_ok (chan_at (pl_queues g) r)"
    using assms by (auto simp: pl_inv_def intro: heap_ok_at)
  with Some queue_of_ok [OF assms Some] show ?thesis
    by (simp add: queue_len_def queue_ok_def chan_ok_def)
qed

lemma connected_lookup:
  assumes inv: "pl_inv g" and opn: "\<not> pl_closed g" and p: "p \<in> fst ` set (connections g)"
  obtains r where "lookup_queue (queue_of pl) p g = Inr r" "holds_queue pl p r g"
proof -
  have "p \<in> fst ` set (queue_of pl g)"
    using inv p by (cases pl) (auto simp: pl_inv_def keys_ok_def)
  then obtain r where r: "map_of (queue_of pl g) p = Some r"
    by (auto simp: gm_keys_dom)
  with that [of r] opn looked_up_held [OF inv r] show ?thesis
    by (simp add: lookup_queue_def)
qed

text \<open>
  C6. In every state \<open>g\<close> the program can bring a new link to, whatever the interleaving of the critical
  sections and channel operations of its goroutines: a queue never holds more than the configured size, the drop counters of
  every peer add up, and a connected peer has both queues and metrics, so that a sender's lookup succeeds while the link is open.
  When the sender goes on, in any state \<open>g'\<close> the others have made of \<open>g\<close> by then, the send queues the message
  or reports a full queue, unless the peer was disconnected in between (its queue at \<open>g'\<close> is no longer the one looked up): then,
  and only then, it panics, provided that it does not give up first.
\<close>

theorem link_safety:
  assumes new: "NewGRPCPeerLink c = Inr g0" and reach: "pl_step\<^sup>*\<^sup>* g0 g" and later: "pl_step\<^sup>*\<^sup>* g g'"
  shows "int (queue_len (sendQueues g) p g) \<le> cfg_SendQueueSize (pl_config g)
    \<and> int (queue_len (controlQueues g) p g) \<le> cfg_SendQueueSize (pl_config g)
    \<and> (case map_of (pl_metrics g) p of None \<Rightarrow> map_of (connections g) p = None
        | Some m \<Rightarrow> dropsCount m = dataPlaneDropsCount m + controlPlaneDropsCount m)
    \<and> (case map_of (connections g) p of None \<Rightarrow> True
        | Some conn \<Rightarrow> pl_closed g \<or>
            (\<forall>pl. \<exists>r. lookup_queue (queue_of pl) p g = Inr r
              \<and> (\<forall>gave_up m. fst (enqueue gave_up p pl r m g') \<in> {None, Some PlQueueFull, Some PlPanic}
                  \<and> (fst (enqueue gave_up p pl r m g') = Some PlPanic \<longleftrightarrow> \<not> gave_up \<and> map_of (queue_of pl g') p \<noteq> Some r))))"
proof -
  have inv: "pl_inv g"
    using pl_reach_inv [OF reach] NewGRPCPeerLink_inv [OF new] by simp
  have send: "\<exists>r. lookup_queue (queue_of pl) p g = Inr r
      \<and> (\<forall>gave_up m. fst (enqueue gave_up p pl r m g') \<in> {None, Some PlQueueFull, Some PlPanic}
          \<and> (fst (enqueue gave_up p pl r m g') = Some PlPanic \<longleftrightarrow> \<not> gave_up \<and> map_of (queue_of pl g') p \<noteq> Some r))"
    if conn: "map_of (connections g) p = Some x" and opn: "\<not> pl_closed g" for x pl
  proof -
    have "p \<in> fst ` set (connections g)"
      using conn by (auto simp: gm_keys_dom)
    then obtain r where r: "lookup_queue (queue_of pl) p g = Inr r" "holds_queue pl p r g"
      using connected_lookup [OF inv opn] by blast
    have "holds_queue pl p r g'"
      using pl_reach_stable [OF later] r(2) by (simp add: queues_stable_def)
    with r(1) enqueue_held [OF pl_reach_inv [OF later inv]] show ?thesis by blast
  qed
  have "map_of (connections g) p = None" if "map_of (pl_metrics g) p = None"
  proof (rule ccontr)
    assume "map_of (connections g) p \<noteq> None"
    then have "p \<in> fst ` set (connections g)"
      by (auto simp: gm_keys_dom)
    then have "p \<in> fst ` set (sendQueues g)"
      using inv by (auto simp: pl_inv_def keys_ok_def)
    with keys_metrics [OF inv, of p] that show False by (auto simp: gm_keys_dom)
  qed
  moreover have "drops_add_up m" if "map_of (pl_metrics g) p = Some m" for m
    using inv map_of_SomeD [OF that] by (auto simp: pl_inv_def list_all_iff)
  ultimately show ?thesis
    using depth_bounded [OF inv, of dataPlaneMessage p] depth_bounded [OF inv, of controlPlaneMessage p] send
    by (auto simp: drops_add_up_def split: option.splits)
qed

definition demo_config :: pl_config where
  "demo_config = \<lparr>cfg_NodeID = ''n'', cfg_ListenAddress = '':0'', cfg_SendQueueSize = 1, cfg_SendTimeout = 0,
     cfg_MaxSendAttempts = 0, cfg_HeartbeatInterval = 0, cfg_MissedHeartbeatLimit = 0, cfg_MaxMessageSize = 0\<rparr>"

definition demo_link :: peer_link where
  "demo_link = (case NewGRPCPeerLink demo_config of Inr g \<Rightarrow> g)"

definition demo_peer :: peer_node where
  "demo_peer = \<lparr>pn_ID = ''q'', pn_Address = ''a:1'', pn_IsHealthy = True\<rparr>"

lemma demo_new: "NewGRPCPeerLink demo_config = Inr demo_link"
  by (simp add: demo_link_def demo_config_def NewGRPCPeerLink_def Validate_def)

theorem link_safety_witness:
  "\<exists>r. lookup_queue sendQueues ''q'' (snd (Connect 5 None demo_peer demo_link)) = Inr r
     \<and> fst (enqueue False ''q'' dataPlaneMessage r (DataPlaneMessage ''q'' None 0 0)
         (snd (Disconnect ''q'' (snd (Connect 5 None demo_peer demo_link))))) = Some PlPanic"
proof -
  let ?g = "snd (Connect 5 None demo_peer demo_link)"
  have 1: "pl_step\<^sup>*\<^sup>* demo_link ?g"
    by (rule r_into_rtranclp, rule step_Connect)
  have 2: "pl_step\<^sup>*\<^sup>* ?g (snd (Disconnect ''q'' ?g))"
    by (rule r_into_rtranclp, rule step_Disconnect)
  have g: "map_of (connections ?g) ''q'' \<noteq> None" "\<not> pl_closed ?g"
    by (simp_all add: demo_link_def demo_config_def NewGRPCPeerLink_def Validate_def demo_peer_def
        Connect_def registerPeer_def ensure_send_queue_def ensure_control_queue_def ensure_metrics_def
        new_queue_def Let_def)
  then have "map_of (sendQueues (snd (Disconnect ''q'' ?g))) ''q'' = None"
    by (simp add: Disconnect_def SetPeerHealth_def drop_queue_eq)
  with g link_safety [OF demo_new 1 2, of "''q''"] show ?thesis
    by (fastforce simp: lookup_queue_def split: option.splits dest: spec [of _ dataPlaneMessage])
qed

subsection \<open>Order\<close>

lemma take_from_Some:
  "take_from (Some r) g =
     (case ch_items (chan_at (pl_queues g) r) of
        m # ms \<Rightarrow> (NextMsg m r, g\<lparr>pl_queues := snd (try_recv r (pl_queues g))\<rparr>)
      | [] \<Rightarrow> (if ch_closed (chan_at (pl_queues g) r) then NextClosed else NextBlocked, g))"
  by (auto simp: take_from_def try_recv_def Let_def split: list.splits)

lemma take_from_None: "take_from None g = (NextBlocked, g)"
  by (simp add: take_from_def)

lemma queue_case_eq:
  "queue_case c r g =
     (if ch_items (chan_at (pl_queues g) r) = [] \<and> \<not> ch_closed (chan_at (pl_queues g) r) then [] else [c])"
  by (auto simp: queue_case_def try_recv_def Let_def split: list.splits)

text \<open>An iteration in which nothing but the queues is ready.\<close>

definition quiet :: "stream_env \<Rightarrow> bool" where
  "quiet e \<longleftrightarrow> se_other e = (\<lambda>g. g) \<and> se_wait e = (\<lambda>g. g) \<and> \<not> se_ctx e \<and> se_recv e = None \<and> se_send e = None"

lemma next_control_first:
  assumes "map_of (controlQueues g) p = Some c" "ch_items (chan_at (pl_queues g) c) = m # ms"
  shows "nextOutboundMessageOrDone e p g = (NextMsg m c, g\<lparr>pl_queues := snd (try_recv c (pl_queues g))\<rparr>)"
  using assms
  by (simp add: nextOutboundMessageOrDone_def getControlQueue_def getSendQueue_def opt_case_def
      queue_case_eq take_from_Some)

lemma next_data_quiet:
  assumes "pl_inv g" "map_of (controlQueues g) p = Some c" "map_of (sendQueues g) p = Some d"
    and "ch_items (chan_at (pl_queues g) c) = []" "quiet e"
  shows "nextOutboundMessageOrDone e p g =
    (case ch_items (chan_at (pl_queues g) d) of
       [] \<Rightarrow> (NextBlocked, g)
     | m # ms \<Rightarrow> (NextMsg m d, g\<lparr>pl_queues := snd (try_recv d (pl_queues g))\<rparr>))"
proof -
  have "\<not> ch_closed (chan_at (pl_queues g) c)" "\<not> ch_closed (chan_at (pl_queues g) d)"
    using queue_of_ok [OF assms(1), of controlPlaneMessage p c]
      queue_of_ok [OF assms(1), of dataPlaneMessage p d] assms(2,3)
    by (simp_all add: queue_ok_def)
  with assms show ?thesis
    by (simp add: nextOutboundMessageOrDone_def getControlQueue_def getSendQueue_def opt_case_def
        queue_case_eq take_from_Some quiet_def done_cases_def select_of_def split: list.splits)
qed

lemma drain_general:
  assumes "pl_inv g" "map_of (controlQueues g) p = Some c" "map_of (sendQueues g) p = Some d"
    and "list_all quiet es"
    and "length (ch_items (chan_at (pl_queues g) c) @ ch_items (chan_at (pl_queues g) d)) \<le> length es"
    and "map serializeMessage (ch_items (chan_at (pl_queues g) c) @ ch_items (chan_at (pl_queues g) d)) = map Inr ws"
  shows "\<exists>g'. runBidirectionalStreamLoop es p g = (LoopRunning, ws, g')
    \<and> ch_items (chan_at (pl_queues g') c) = [] \<and> ch_items (chan_at (pl_queues g') d) = []"
  using assms
proof (induction es arbitrary: g ws)
  case Nil
  then show ?case by auto
next
  case (Cons e es)
  let ?C = "ch_items (chan_at (pl_queues g) c)" and ?D = "ch_items (chan_at (pl_queues g) d)"
  have q: "quiet e" "se_other e g = g" "se_send e = None"
    using Cons.prems(4) by (auto simp: quiet_def)
  have "c \<noteq> d"
    using ref_not_shared [OF Cons.prems(1), of p c controlPlaneMessage p dataPlaneMessage]
      Cons.prems(2,3) by (auto dest: map_of_SomeD)
  have step: ?case
    if "nextOutboundMessageOrDone e p g = (NextMsg m r, g\<lparr>pl_queues := snd (try_recv r (pl_queues g))\<rparr>)"
      and r: "?C = m # ms \<and> r = c \<or> ?C = [] \<and> ?D = m # ms \<and> r = d" for m ms r
  proof -
    let ?g = "g\<lparr>pl_queues := snd (try_recv r (pl_queues g))\<rparr>"
    have items: "ch_items (chan_at (pl_queues ?g) c) @ ch_items (chan_at (pl_queues ?g) d) = tl (?C @ ?D)"
      using r \<open>c \<noteq> d\<close> by (auto simp: try_recv_items)
    have hd: "?C @ ?D = m # tl (?C @ ?D)"
      using r by auto
    then obtain w ws' where w: "ws = w # ws'" "serializeMessage m = Inr w"
      "map serializeMessage (tl (?C @ ?D)) = map Inr ws'"
      using Cons.prems(6) by (cases ws) (auto simp del: map_append)
    have "\<exists>g'. runBidirectionalStreamLoop es p ?g = (LoopRunning, ws', g')
      \<and> ch_items (chan_at (pl_queues g') c) = [] \<and> ch_items (chan_at (pl_queues g') d) = []"
    proof (rule Cons.IH)
      show "pl_inv ?g" using Cons.prems(1) by (rule inv_intros)
      show "length (ch_items (chan_at (pl_queues ?g) c) @ ch_items (chan_at (pl_queues ?g) d)) \<le> length es"
        unfolding items using Cons.prems(5) hd by (metis Suc_le_mono length_Cons)
      show "map serializeMessage (ch_items (chan_at (pl_queues ?g) c) @ ch_items (chan_at (pl_queues ?g) d)) = map Inr ws'"
        unfolding items by (rule w(3))
    qed (use Cons.prems in simp_all)
    with that(1) q w show ?thesis
      by (auto simp: processOutboundMessage_def)
  qed
  show ?case
  proof (cases ?C)
    case (Cons m ms)
    with step next_control_first [OF Cons.prems(2)] show ?thesis by metis
  next
    case Nil
    note nxt = next_data_quiet [OF Cons.prems(1-3) Nil q(1)]
    show ?thesis
    proof (cases ?D)
      case (Cons m ms)
      with step Nil nxt show ?thesis by (metis (no_types, lifting) list.simps(5))
    next
      case D: Nil
      then have "nextOutboundMessageOrDone e p g = (NextBlocked, g)" "ws = []"
        using nxt Nil Cons.prems(6) by simp_all
      moreover have "\<exists>g'. runBidirectionalStreamLoop es p g = (LoopRunning, ws, g')
        \<and> ch_items (chan_at (pl_queues g') c) = [] \<and> ch_items (chan_at (pl_queues g') d) = []"
        using Cons.prems Nil D by (intro Cons.IH) auto
      ultimately show ?thesis using q by simp
    qed
  qed
qed

subsection \<open>Accounting\<close>

text \<open>The messages a link still owes a peer, plus those it has given up.\<close>

definition owed :: "string \<Rightarrow> peer_link \<Rightarrow> nat" where
  "owed p g = queue_len (sendQueues g) p g + queue_len (controlQueues g) p g + GetDropsCount p g"

lemma owed_on_metrics:
  "(\<And>m. dropsCount (f m) = dropsCount m) \<Longrightarrow> owed p (on_metrics p f g) = owed p g"
  by (simp add: owed_def queue_len_def GetDropsCount_def on_metrics_lookup split: option.splits)

lemma owed_failure_metrics [simp]:
  "owed p (recordPeerSendFailure p g) = owed p g" "owed p (recordPlaneSendFailure p pl g) = owed p g"
  by (simp_all add: recordPeerSendFailure_def recordPlaneSendFailure_def owed_on_metrics split: plane.splits)

lemma owed_drop: "map_of (pl_metrics g) p \<noteq> None \<Longrightarrow> owed p (recordPlaneDrop p pl g) = Suc (owed p g)"
  by (auto simp: owed_def recordPlaneDrop_def queue_len_def GetDropsCount_def on_metrics_lookup Let_def
      split: option.splits plane.splits)

lemma owed_set_queue:
  assumes inv: "pl_inv g" and r: "map_of (queue_of pl g) p = Some r"
    and other: "\<And>r'. r' \<noteq> r \<Longrightarrow> ch_items (chan_at h r') = ch_items (chan_at (pl_queues g) r')"
  shows "owed p (g\<lparr>pl_queues := h\<rparr>) + length (ch_items (chan_at (pl_queues g) r))
    = owed p g + length (ch_items (chan_at h r))"
proof -
  obtain c d where cd: "map_of (sendQueues g) p = Some d" "map_of (controlQueues g) p = Some c"
    using r keys_same [OF inv, of p] by (cases pl) auto
  have "c \<noteq> d"
    using ref_not_shared [OF inv, of p c controlPlaneMessage p dataPlaneMessage] cd
    by (auto dest: map_of_SomeD)
  with r cd other [of c] other [of d] show ?thesis
    by (cases pl) (auto simp: owed_def queue_len_def GetDropsCount_def)
qed

lemma handleSendFailure_owed:
  assumes inv: "pl_inv g" and r: "map_of (queue_of pl g) p = Some r"
  shows "\<exists>g'. handleSendFailure p m r g = (None, g') \<and> owed p g' = Suc (owed p g)"
proof -
  let ?g = "recordPlaneSendFailure p (planeForMessage m) g" and ?m = "IncrementSendAttempts m"
  have metrics: "map_of (pl_metrics ?g) p \<noteq> None"
    using queue_of_ok [OF inv r] by (auto simp: queue_ok_def recordPlaneSendFailure_def)
  have "fst (try_send r ?m (pl_queues ?g)) \<noteq> SendPanic"
    using queue_of_ok [OF inv r] by (simp add: try_send_Sent_iff queue_ok_def)
  moreover have "owed p (?g\<lparr>pl_queues := snd (try_send r ?m (pl_queues ?g))\<rparr>) = Suc (owed p g)"
    if "fst (try_send r ?m (pl_queues ?g)) = Sent"
    using owed_set_queue [of ?g pl p r "snd (try_send r ?m (pl_queues ?g))"] inv r that
    by (simp add: try_send_items inv_intros)
  ultimately show ?thesis
    using owed_drop [OF metrics, of "planeForMessage m"]
    by (cases "try_send r ?m (pl_queues ?g)")
      (auto simp: handleSendFailure_def Let_def dropFailedMessage_def split: send_result.splits)
qed

lemma take_from_cases:
  "take_from r g = (res, g') \<Longrightarrow>
   (\<exists>m q. r = Some q \<and> res = NextMsg m q \<and> (\<exists>ms. ch_items (chan_at (pl_queues g) q) = m # ms)
      \<and> g' = g\<lparr>pl_queues := snd (try_recv q (pl_queues g))\<rparr>)
   \<or> ((\<forall>m q. res \<noteq> NextMsg m q) \<and> g' = g)"
  by (cases r) (auto simp: take_from_Some take_from_None split: list.splits if_splits)

lemma next_cases:
  assumes "se_wait e = (\<lambda>g. g)" "nextOutboundMessageOrDone e p g = (res, g')"
  obtains (msg) m q pl ms where "res = NextMsg m q" "map_of (queue_of pl g) p = Some q"
      "ch_items (chan_at (pl_queues g) q) = m # ms" "g' = g\<lparr>pl_queues := snd (try_recv q (pl_queues g))\<rparr>"
    | (other) "\<forall>m q. res \<noteq> NextMsg m q" "g' = g"
proof -
  have "take_from (getControlQueue p g) g = (res, g') \<or> take_from (getSendQueue p g) g = (res, g')
      \<or> ((\<forall>m q. res \<noteq> NextMsg m q) \<and> g' = g)"
    using assms by (auto simp: nextOutboundMessageOrDone_def Let_def split: if_splits option.splits out_case.splits)
  then show ?thesis
  proof (elim disjE)
    assume "take_from (getControlQueue p g) g = (res, g')"
    with that show ?thesis
      by (metis take_from_cases getControlQueue_def queue_of_simps(2))
  next
    assume "take_from (getSendQueue p g) g = (res, g')"
    with that show ?thesis
      by (metis take_from_cases getSendQueue_def queue_of_simps(1))
  qed (use that in auto)
qed

definition undisturbed :: "stream_env \<Rightarrow> bool" where
  "undisturbed e \<longleftrightarrow> se_other e = (\<lambda>g. g) \<and> se_wait e = (\<lambda>g. g)"

lemma process_result:
  "processOutboundMessage False send m = (None, sent) \<Longrightarrow> length sent = 1"
  by (auto simp: processOutboundMessage_def split: sum.splits wire_error.splits option.splits)

lemma loop_owed:
  assumes "pl_inv g" "list_all undisturbed es"
    and "runBidirectionalStreamLoop es p g = (res, sent, g')" "res \<noteq> LoopPanic"
  shows "owed p g' + length sent = owed p g"
  using assms
proof (induction es arbitrary: g res sent g')
  case Nil
  then show ?case by simp
next
  case (Cons e es)
  have u: "se_other e g = g" "se_wait e = (\<lambda>g. g)"
    using Cons.prems(2) by (auto simp: undisturbed_def)
  obtain nr g1 where nxt: "nextOutboundMessageOrDone e p g = (nr, g1)"
    by (cases "nextOutboundMessageOrDone e p g")
  show ?case
  proof (cases rule: next_cases [OF u(2) nxt, case_names msg other])
    case other
    show ?thesis
    proof (cases nr)
      case NextBlocked
      with Cons.prems other nxt u have "runBidirectionalStreamLoop es p g = (res, sent, g')" by simp
      with Cons.IH [OF Cons.prems(1) _ this] Cons.prems show ?thesis by simp
    qed (use Cons.prems other nxt u in auto)
  next
    case (msg m q pl ms)
    have inv1: "pl_inv g1"
      unfolding msg(4) by (rule inv_intros) (rule Cons.prems(1))
    have r1: "map_of (queue_of pl g1) p = Some q"
      using msg(2,4) by (cases pl) simp_all
    have "owed p g1 + length (m # ms) = owed p g + length ms"
      using owed_set_queue [OF Cons.prems(1) msg(2), of "snd (try_recv q (pl_queues g))"] msg(3,4)
      by (simp add: try_recv_items)
    then have o1: "Suc (owed p g1) = owed p g" by simp
    show ?thesis
    proof (cases "processOutboundMessage False (se_send e) m")
      case (Pair err w)
      show ?thesis
      proof (cases err)
        case None
        obtain res' sent' g2 where rest: "runBidirectionalStreamLoop es p g1 = (res', sent', g2)"
          by (cases "runBidirectionalStreamLoop es p g1")
        then have eqs: "res' = res" "sent = w @ sent'" "g2 = g'"
          using Cons.prems(3) nxt u msg Pair None by simp_all
        then have "owed p g' + length sent' = owed p g1"
          using Cons.IH [OF inv1 _ rest] Cons.prems by simp
        with o1 eqs process_result [of "se_send e" m w] Pair None show ?thesis by simp
      next
        case (Some x)
        obtain g2 where "handleSendFailure p m q g1 = (None, g2)" "owed p g2 = Suc (owed p g1)"
          using handleSendFailure_owed [OF inv1 r1] by auto
        with Cons.prems(3,4) nxt u msg Pair Some o1 show ?thesis
          by (auto split: pl_error.splits)
      qed
    qed
  qed
qed

subsection \<open>Properties\<close>

text \<open>
  C19. A stream that is not disturbed sends what is queued in order, control plane first: all control
  messages in queue order, then all events in queue order, after which both queues are empty.
\<close>

theorem drain_in_order:
  assumes "pl_inv g" "map_of (controlQueues g) p = Some c" "map_of (sendQueues g) p = Some d"
    and "list_all quiet es"
    and "length (ch_items (chan_at (pl_queues g) c)) + length (ch_items (chan_at (pl_queues g) d)) \<le> length es"
    and "map serializeMessage (ch_items (chan_at (pl_queues g) c)) = map Inr controls"
    and "map serializeMessage (ch_items (chan_at (pl_queues g) d)) = map Inr events"
  shows "\<exists>g'. runBidirectionalStreamLoop es p g = (LoopRunning, controls @ events, g')
    \<and> ch_items (chan_at (pl_queues g') c) = [] \<and> ch_items (chan_at (pl_queues g') d) = []"
  using assms by (intro drain_general) simp_all

definition quiet_env :: stream_env where
  "quiet_env = \<lparr>se_other = \<lambda>g. g, se_wait = \<lambda>g. g, se_pick = 0, se_ctx = False, se_recv = None, se_send = None\<rparr>"

lemmas link_eval = demo_link_def demo_config_def NewGRPCPeerLink_def Validate_def SetDefaults_def demo_peer_def
  Connect_def registerPeer_def ensure_send_queue_def ensure_control_queue_def ensure_metrics_def new_queue_def
  fresh_metrics_def SendEvent_def SendHeartbeat_def lookup_queue_def enqueue_def try_send_def recordPlaneQueued_def
  recordPlaneDrop_def on_metrics_def queue_len_def chan_at_def make_chan_def Let_def

definition demo_queued :: peer_link where
  "demo_queued = snd (SendHeartbeat 2000000 False ''q''
     (snd (SendEvent 1 False ''q'' (Some (NewEvent 0 ''t'' None)) (snd (Connect 5 None demo_peer demo_link)))))"

lemma demo_queued_inv: "pl_inv demo_queued"
  unfolding demo_queued_def by (intro inv_intros) (rule NewGRPCPeerLink_inv [OF demo_new])

lemma demo_queued_queues:
  "map_of (controlQueues demo_queued) ''q'' = Some 1" "map_of (sendQueues demo_queued) ''q'' = Some 0"
  "ch_items (chan_at (pl_queues demo_queued) 1) = [HeartbeatMsg ''q'' 2000000 0]"
  "ch_items (chan_at (pl_queues demo_queued) 0) = [DataPlaneMessage ''q'' (Some (NewEvent 0 ''t'' None)) 1 0]"
  by (simp_all add: demo_queued_def link_eval)

theorem drain_in_order_witness:
  "\<exists>g'. runBidirectionalStreamLoop [quiet_env, quiet_env] ''q'' demo_queued =
     (LoopRunning, [Some (WHeartbeat 2), Some (WEvent \<lparr>we_Topic = ''t'', we_Offset = 0,
        we_Payload = Some [], we_Headers = []\<rparr>)], g')"
proof -
  have "list_all quiet [quiet_env, quiet_env]"
    by (simp add: quiet_def quiet_env_def)
  from drain_in_order [OF demo_queued_inv demo_queued_queues(1,2) this, of "[Some (WHeartbeat 2)]"
      "[Some (WEvent \<lparr>we_Topic = ''t'', we_Offset = 0, we_Payload = Some [], we_Headers = []\<rparr>)]"]
  show ?thesis
    unfolding demo_queued_queues(3,4)
    by (auto simp: UnixMilli_def NewEvent_def simp del: runBidirectionalStreamLoop.simps)
qed

text \<open>
  C20. Conservation. Over a run of the stream loop during which nobody else touches the link and that does not end
  in a panic, whatever gRPC answers and whichever cases the loop takes, no message disappears unaccounted: what is
  sent plus what is still queued plus what is counted as dropped stays what it was. (Concurrent sends and
  disconnects are excluded: they change the queues on their own account.)
\<close>

theorem stream_conservation:
  assumes "pl_inv g" "list_all undisturbed es"
    and "runBidirectionalStreamLoop es p g = (res, sent, g')" "res \<noteq> LoopPanic"
  shows "length sent + queue_len (sendQueues g') p g' + queue_len (controlQueues g') p g' + GetDropsCount p g'
    = queue_len (sendQueues g) p g + queue_len (controlQueues g) p g + GetDropsCount p g"
  using loop_owed [OF assms] by (simp add: owed_def)

theorem stream_conservation_witness:
  "\<exists>res sent g'. runBidirectionalStreamLoop [quiet_env, quiet_env\<lparr>se_send := Some (PlTransport ''eof'')\<rparr>] ''q''
      demo_queued = (res, sent, g') \<and> res = LoopRetry
    \<and> length sent + queue_len (sendQueues g') ''q'' g' + queue_len (controlQueues g') ''q'' g'
        + GetDropsCount ''q'' g' = 2"
proof -
  let ?es = "[quiet_env, quiet_env\<lparr>se_send := Some (PlTransport ''eof'')\<rparr>]"
  obtain res sent g' where run: "runBidirectionalStreamLoop ?es ''q'' demo_queued = (res, sent, g')"
    by (cases "runBidirectionalStreamLoop ?es ''q'' demo_queued")
  have res: "res = LoopRetry"
    using run by (simp add: demo_queued_def link_eval quiet_env_def NewEvent_def UnixMilli_def
        nextOutboundMessageOrDone_def getSendQueue_def getControlQueue_def opt_case_def queue_case_def try_recv_def
        take_from_def processOutboundMessage_def handleSendFailure_def recordPlaneSendFailure_def
        recordPeerSendFailure_def done_cases_def select_of_def split: if_splits)
  have "queue_len (sendQueues demo_queued) ''q'' demo_queued = 1"
    "queue_len (controlQueues demo_queued) ''q'' demo_queued = 1" "GetDropsCount ''q'' demo_queued = 0"
    by (simp_all add: demo_queued_def link_eval GetDropsCount_def)
  with stream_conservation [OF demo_queued_inv _ run] run res show ?thesis
    by (auto simp: undisturbed_def quiet_env_def)
qed

text \<open>
  C26. What a failed send does: the peer becomes unhealthy and its failure count grows; the message goes
  back to the end of its queue with one more attempt on record as long as its attempts stay within
  the limit and the queue has room, and is otherwise counted as dropped, the queue being as before.
\<close>

theorem send_failure_outcome:
  assumes inv: "pl_inv g" and r: "map_of (queue_of pl g) p = Some r" and m: "planeForMessage m = pl"
  shows "\<exists>g' mt mt'. handleSendFailure p m r g = (None, g')
    \<and> map_of (pl_metrics g) p = Some mt \<and> map_of (pl_metrics g') p = Some mt'
    \<and> healthState mt' = PeerUnhealthy \<and> failureCount mt' = failureCount mt + 1
    \<and> (if int (SendAttempts m) < cfg_MaxSendAttempts (pl_config g)
          \<and> int (queue_len (queue_of pl g) p g) < cfg_SendQueueSize (pl_config g)
       then dropsCount mt' = dropsCount mt
         \<and> ch_items (chan_at (pl_queues g') r) = ch_items (chan_at (pl_queues g) r) @ [IncrementSendAttempts m]
       else dropsCount mt' = dropsCount mt + 1 \<and> pl_queues g' = pl_queues g)"
proof -
  let ?g = "recordPlaneSendFailure p pl g" and ?m = "IncrementSendAttempts m"
  note q = queue_of_ok [OF inv r]
  obtain mt where mt: "map_of (pl_metrics g) p = Some mt"
    using q by (auto simp: queue_ok_def)
  have room: "length (ch_items (chan_at (pl_queues g) r)) < ch_cap (chan_at (pl_queues g) r)
      \<longleftrightarrow> int (queue_len (queue_of pl g) p g) < cfg_SendQueueSize (pl_config g)"
    using q r by (auto simp: queue_ok_def queue_len_def)
  have "fst (try_send r ?m (pl_queues ?g)) = (if int (queue_len (queue_of pl g) p g) < cfg_SendQueueSize (pl_config g)
      then Sent else Full)"
    using q room by (auto simp: try_send_def Let_def queue_ok_def)
  moreover have "ch_items (chan_at (snd (try_send r ?m (pl_queues ?g))) r) =
      (if int (queue_len (queue_of pl g) p g) < cfg_SendQueueSize (pl_config g)
       then ch_items (chan_at (pl_queues g) r) @ [?m] else ch_items (chan_at (pl_queues g) r))"
    using calculation by (simp add: try_send_items)
  ultimately show ?thesis
    using mt m
    by (cases "try_send r ?m (pl_queues ?g)"; cases pl)
      (auto simp: handleSendFailure_def Let_def dropFailedMessage_def metric_ops on_metrics_def)
qed

theorem send_failure_outcome_witness:
  "\<exists>g'. handleSendFailure ''q'' (HeartbeatMsg ''q'' 0 3) 1 demo_queued = (None, g')
     \<and> pl_queues g' = pl_queues demo_queued"
proof -
  have "map_of (queue_of controlPlaneMessage demo_queued) ''q'' = Some 1"
    using demo_queued_queues(1) by simp
  from send_failure_outcome [OF demo_queued_inv this, of "HeartbeatMsg ''q'' 0 3"]
  show ?thesis
    by (auto simp: demo_queued_def link_eval)
qed

text \<open>
  C29. A race. A sender that has looked a peer's queue up, and is overtaken by a disconnect of that peer
  before it sends, sends on a closed channel: the program panics. (The first property of this theory says that there is no other cause.)
\<close>

theorem send_disconnect_race:
  assumes inv: "pl_inv g" and look: "lookup_queue sendQueues p g = Inr r"
  shows "fst (enqueue False p dataPlaneMessage r m (snd (Disconnect p g))) = Some PlPanic"
proof -
  have opn: "\<not> pl_closed g" and r: "map_of (sendQueues g) p = Some r"
    using look by (auto simp: lookup_queue_def split: if_splits option.splits)
  have "r < length (pl_queues g)"
    using queue_of_ok [OF inv, of dataPlaneMessage p r] r by (simp add: queue_ok_def)
  then have "ch_closed (chan_at (pl_queues (snd (Disconnect p g))) r)"
    using opn r by (auto simp: Disconnect_def Let_def SetPeerHealth_def drop_queue_eq close_opt_def
        split: option.splits)
  then show ?thesis
    by (simp add: enqueue_def try_send_def Let_def)
qed

theorem send_disconnect_race_witness:
  "fst (enqueue False ''q'' dataPlaneMessage 0 (DataPlaneMessage ''q'' None 0 0)
     (snd (Disconnect ''q'' demo_queued))) = Some PlPanic"
proof -
  have "lookup_queue sendQueues ''q'' demo_queued = Inr 0"
    by (simp add: demo_queued_def link_eval)
  from send_disconnect_race [OF demo_queued_inv this] show ?thesis .
qed

subsection \<open>The retry loop\<close>

text \<open>
  What the rest of the program does to the link while a stream runs is any sequence of its steps, except that the
  peer's queues change between the two \<open>select\<close>s of an iteration only with the context cancelled: \<open>Disconnect\<close>
  cancels it before it closes them.
\<close>

definition stream_env_ok :: "string \<Rightarrow> stream_env \<Rightarrow> bool" where
  "stream_env_ok p e \<longleftrightarrow> (\<forall>g. pl_step\<^sup>*\<^sup>* g (se_other e g) \<and> pl_step\<^sup>*\<^sup>* g (se_wait e g)
     \<and> (se_ctx e \<or> (\<forall>pl. map_of (queue_of pl (se_wait e g)) p = map_of (queue_of pl g) p)))"

definition attempt_env_ok :: "string \<Rightarrow> attempt_env \<Rightarrow> bool" where
  "attempt_env_ok p a \<longleftrightarrow> (\<forall>g. pl_step\<^sup>*\<^sup>* g (ae_other a g)) \<and> list_all (stream_env_ok p) (ae_stream a)"

lemma sticky_ctx_simps:
  "list_ex se_ctx (sticky_ctx d es) \<longleftrightarrow> es \<noteq> [] \<and> d \<or> list_ex se_ctx es"
  "list_all (stream_env_ok p) es \<Longrightarrow> list_all (stream_env_ok p) (sticky_ctx d es)"
  by (induction es arbitrary: d) (auto simp: stream_env_ok_def)

text \<open>The queue an iteration takes from is held all the time, and with a live context it is the peer's.\<close>

lemma take_from_held:
  assumes inv: "pl_inv g" and r: "\<And>q. r = Some q \<Longrightarrow> holds_queue pl p q g" and res: "take_from r g = (NextMsg m q, g')"
  shows "holds_queue pl p q g'" "ch_closed (chan_at (pl_queues g') q) \<or> msg_ok (pl_config g') pl p m"
proof -
  have q: "r = Some q" "m \<in> set (ch_items (chan_at (pl_queues g) q))"
    "g' = g\<lparr>pl_queues := snd (try_recv q (pl_queues g))\<rparr>"
    using take_from_cases [OF res] by auto
  show "holds_queue pl p q g'"
    using r [OF q(1)] chan_ops_stable(2) [of g q] q(3) by (simp add: queues_stable_def)
  have "msg_ok (pl_config g) pl p m" if "\<not> ch_closed (chan_at (pl_queues g) q)"
    using queue_of_ok [OF inv, of pl p q] r [OF q(1)] that q(2) by (auto simp: holds_queue_def queue_ok_def list_all_iff)
  then show "ch_closed (chan_at (pl_queues g') q) \<or> msg_ok (pl_config g') pl p m"
    by (auto simp: q(3))
qed

lemma take_from_open:
  assumes "pl_inv g" "map_of (queue_of pl g) p = r"
  shows "fst (take_from r g) \<noteq> NextClosed"
  using assms queue_of_ok [of g pl p]
  by (cases r) (auto simp: take_from_Some take_from_None queue_ok_def split: list.splits)

lemma next_held:
  assumes inv: "pl_inv g" and e: "stream_env_ok p e" and nxt: "nextOutboundMessageOrDone e p g = (res, g')"
  shows "pl_inv g'" "res = NextClosed \<Longrightarrow> se_ctx e"
    "res = NextMsg m q \<Longrightarrow> \<exists>pl. holds_queue pl p q g' \<and> (ch_closed (chan_at (pl_queues g') q) \<or> msg_ok (pl_config g') pl p m)"
proof -
  let ?w = "se_wait e g"
  have w: "pl_inv ?w" "queues_stable g ?w" "se_ctx e \<or> (\<forall>pl. map_of (queue_of pl ?w) p = map_of (queue_of pl g) p)"
    using e pl_reach_inv [OF _ inv] pl_reach_stable by (auto simp: stream_env_ok_def)
  have held: "holds_queue pl p q g" "holds_queue pl p q ?w" if "map_of (queue_of pl g) p = Some q" for pl q
    using looked_up_held [OF inv that] w(2) by (auto simp: queues_stable_def)
  let ?taken = "\<lambda>pl h. take_from (map_of (queue_of pl g) p) h = (res, g')"
  consider (first) "?taken controlPlaneMessage g" | (second) pl where "?taken pl ?w"
    | (other) "g' = ?w" "\<forall>m q. res \<noteq> NextMsg m q" "res \<noteq> NextClosed"
    using nxt
    by (auto simp: nextOutboundMessageOrDone_def getControlQueue_def getSendQueue_def Let_def
        split: if_splits option.splits out_case.splits)
      (metis queue_of_simps)+
  then show "pl_inv g'" "res = NextClosed \<Longrightarrow> se_ctx e"
    "res = NextMsg m q \<Longrightarrow> \<exists>pl. holds_queue pl p q g' \<and> (ch_closed (chan_at (pl_queues g') q) \<or> msg_ok (pl_config g') pl p m)"
  proof (atomize (full), cases)
    case first
    then show "pl_inv g' \<and> (res = NextClosed \<longrightarrow> se_ctx e)
      \<and> (res = NextMsg m q \<longrightarrow> (\<exists>pl. holds_queue pl p q g' \<and> (ch_closed (chan_at (pl_queues g') q) \<or> msg_ok (pl_config g') pl p m)))"
      using take_from_inv [OF inv, of "map_of (queue_of controlPlaneMessage g) p"] take_from_open [OF inv refl]
        take_from_held [OF inv, of _ controlPlaneMessage p] held(1) [of controlPlaneMessage]
      by (metis fst_conv snd_conv)
  next
    case (second pl)
    then show "pl_inv g' \<and> (res = NextClosed \<longrightarrow> se_ctx e)
      \<and> (res = NextMsg m q \<longrightarrow> (\<exists>pl. holds_queue pl p q g' \<and> (ch_closed (chan_at (pl_queues g') q) \<or> msg_ok (pl_config g') pl p m)))"
      using take_from_inv [OF w(1), of "map_of (queue_of pl g) p"] take_from_open [OF w(1), of pl p] w(3)
        take_from_held [OF w(1), of _ pl p] held(2) [of pl]
      by (metis fst_conv snd_conv)
  next
    case other
    with w(1) show "pl_inv g' \<and> (res = NextClosed \<longrightarrow> se_ctx e)
      \<and> (res = NextMsg m q \<longrightarrow> (\<exists>pl. holds_queue pl p q g' \<and> (ch_closed (chan_at (pl_queues g') q) \<or> msg_ok (pl_config g') pl p m)))"
      by simp
  qed
qed

text \<open>So a stream keeps the invariant, and it asks to terminate only when its context is done.\<close>

lemma stream_stops:
  assumes "pl_inv g" "list_all (stream_env_ok p) es" "runBidirectionalStreamLoop es p g = (res, sent, g')"
  shows "pl_inv g' \<and> (res = LoopStop \<longrightarrow> list_ex se_ctx es)"
  using assms
proof (induction es arbitrary: g res sent g')
  case (Cons e es)
  have e: "stream_env_ok p e" "pl_inv (se_other e g)"
    using Cons.prems(1,2) pl_reach_inv by (auto simp: stream_env_ok_def)
  obtain nr g1 where nxt: "nextOutboundMessageOrDone e p (se_other e g) = (nr, g1)"
    by (cases "nextOutboundMessageOrDone e p (se_other e g)")
  note held = next_held [OF e(2,1) nxt]
  show ?case
  proof (cases nr)
    case (NextMsg m q)
    obtain err w where s: "processOutboundMessage False (se_send e) m = (err, w)"
      by (cases "processOutboundMessage False (se_send e) m")
    obtain r' sent' g2 where rest: "runBidirectionalStreamLoop es p g1 = (r', sent', g2)"
      by (cases "runBidirectionalStreamLoop es p g1")
    have "pl_inv (snd (handleSendFailure p m q g1))"
      using held(1,3) NextMsg handleSendFailure_inv by blast
    with Cons.IH [OF held(1) _ rest] Cons.prems NextMsg nxt s rest held(1) show ?thesis
      by (cases "handleSendFailure p m q g1") (auto split: option.splits pl_error.splits)
  qed (use Cons nxt held in \<open>auto split: if_splits\<close>)
qed simp

lemma attempt_stops:
  assumes inv: "pl_inv g" and a: "attempt_env_ok p a" and res: "attemptStreamConnection a p g = (res, sent, g')"
  shows "pl_inv g' \<and> (res = LoopStop \<longrightarrow> ctx_after a)"
proof -
  have "pl_inv (markPeerSeen (ae_now a) p g)"
    by (rule inv_intros, rule inv)
  moreover have "list_all (stream_env_ok p) (sticky_ctx False (ae_stream a))"
    using a by (simp add: attempt_env_ok_def sticky_ctx_simps)
  ultimately show ?thesis
    using stream_stops [of "markPeerSeen (ae_now a) p g" p "sticky_ctx False (ae_stream a)"] inv res
    by (auto simp: attemptStreamConnection_def establishStreamWithHandshake_def ctx_after_def sticky_ctx_simps(1) Let_def
        split: option.splits prod.splits)
qed

text \<open>Rounds of the loop in which the context lives and nobody closes the link.\<close>

definition keeps_open :: "(peer_link \<Rightarrow> peer_link) \<Rightarrow> bool" where
  "keeps_open f \<longleftrightarrow> (\<forall>g. \<not> pl_closed g \<longrightarrow> \<not> pl_closed (f g))"

definition live_attempt :: "attempt_env \<Rightarrow> bool" where
  "live_attempt a \<longleftrightarrow> \<not> ae_ctx a \<and> \<not> ctx_after a \<and> \<not> ae_ctx_wait a \<and> keeps_open (ae_other a)
     \<and> list_all (\<lambda>e. keeps_open (se_other e) \<and> keeps_open (se_wait e)) (ae_stream a)"

lemma metric_ops_closed [simp]:
  "pl_closed (recordPlaneSendFailure p pl g) = pl_closed g" "pl_closed (recordPeerSendFailure p g) = pl_closed g"
  "pl_closed (recordPlaneDrop p pl g) = pl_closed g" "pl_closed (markPeerSeen now p g) = pl_closed g"
  by (simp_all add: metric_ops)

lemma stream_keeps_open:
  "list_all (\<lambda>e. keeps_open (se_other e) \<and> keeps_open (se_wait e)) es \<Longrightarrow> \<not> pl_closed g \<Longrightarrow>
   \<not> pl_closed (snd (snd (runBidirectionalStreamLoop es p g)))"
proof (induction es arbitrary: g)
  case (Cons e es)
  obtain nr g1 where nxt: "nextOutboundMessageOrDone e p (se_other e g) = (nr, g1)"
    by (cases "nextOutboundMessageOrDone e p (se_other e g)")
  have take: "pl_closed (snd (take_from r h)) = pl_closed h" for r h
    by (auto simp: take_from_def split: option.splits prod.splits recv_result.splits)
  have "\<not> pl_closed (snd (nextOutboundMessageOrDone e p (se_other e g)))"
    using Cons.prems
    by (auto simp: nextOutboundMessageOrDone_def Let_def keeps_open_def take split: option.splits out_case.splits)
  with nxt have g1: "\<not> pl_closed g1" by simp
  moreover have "pl_closed (snd (handleSendFailure p m r g1)) = pl_closed g1" for m r
    by (auto simp: handleSendFailure_def dropFailedMessage_def Let_def split: prod.splits send_result.splits)
  ultimately show ?case
    using Cons.IH [OF _ g1] Cons.prems(1) nxt
    by (auto split: next_result.splits prod.splits option.splits pl_error.splits)
      (metis snd_conv)+
qed simp

lemma attempt_keeps_open:
  assumes "live_attempt a" "\<not> pl_closed g"
  shows "\<not> pl_closed (snd (snd (attemptStreamConnection a p g)))"
proof -
  have "list_all (\<lambda>e. keeps_open (se_other e) \<and> keeps_open (se_wait e)) (sticky_ctx d es)"
    if "list_all (\<lambda>e. keeps_open (se_other e) \<and> keeps_open (se_wait e)) es" for d es
    using that by (induction es arbitrary: d) auto
  with assms stream_keeps_open [of "sticky_ctx False (ae_stream a)" "markPeerSeen (ae_now a) p g" p] show ?thesis
    by (auto simp: attemptStreamConnection_def establishStreamWithHandshake_def live_attempt_def Let_def
        split: option.splits prod.splits)
qed

lemma outbound_delays:
  assumes "pl_inv g" "list_all (attempt_env_ok p) as" "n < maxRetries"
    "runOutboundConnection finished as n p g = (res, delays, g')"
  shows "length delays \<le> 1 \<and> (delays \<noteq> [] \<longrightarrow> res = OutStopped \<and> list_ex ctx_after as)
    \<and> (\<not> finished \<and> \<not> pl_closed g \<and> list_all live_attempt as \<longrightarrow> res \<noteq> OutStopped)"
  using assms
proof (induction as arbitrary: finished n g)
  case (Cons a as)
  let ?g = "ae_other a g"
  have inv: "pl_inv ?g" and a: "attempt_env_ok p a"
    using Cons.prems(1,2) pl_reach_inv by (auto simp: attempt_env_ok_def)
  obtain r sent g1 where at: "attemptStreamConnection a p ?g = (r, sent, g1)"
    by (cases "attemptStreamConnection a p ?g")
  note stops = attempt_stops [OF inv a at]
  show ?case
  proof (cases "finished \<or> ae_ctx a \<or> pl_closed ?g")
    case True
    with Cons.prems(4) show ?thesis by (auto simp: Let_def live_attempt_def keeps_open_def split: if_splits)
  next
    case False
    show ?thesis
    proof (cases r)
      case LoopRetry
      then have "runOutboundConnection (ctx_after a) as 0 p g1 = (res, delays, g')"
        using Cons.prems(4) False at by (simp add: Let_def)
      from Cons.IH [OF _ _ _ this] stops Cons.prems(2) attempt_keeps_open [of a ?g p] False at show ?thesis
        by (auto simp: live_attempt_def maxRetries_def)
    next
      case LoopStop
      with stops Cons.prems(3,4) False at show ?thesis
        by (auto simp: Let_def live_attempt_def)
    qed (use Cons.prems(4) False at in \<open>auto simp: Let_def\<close>)
  qed
qed simp

lemma unreachable_retried:
  assumes "\<forall>a \<in> set as. live_attempt a \<and> (ae_open a \<noteq> None \<or> ae_send a \<noteq> None \<or> ae_recv a \<noteq> None)" "\<not> pl_closed g"
  shows "runOutboundConnection False as n p g = (OutRunning, [], fold ae_other as g)"
  using assms
proof (induction as arbitrary: n g)
  case (Cons a as)
  have "\<exists>sent. attemptStreamConnection a p (ae_other a g) = (LoopRetry, sent, ae_other a g)"
    using Cons.prems
    by (auto simp: attemptStreamConnection_def establishStreamWithHandshake_def Let_def split: option.splits)
  with Cons show ?case by (auto simp: live_attempt_def keeps_open_def)
qed simp

text \<open>
  C27. The retry loop has its two answers the wrong way round, so that its backoff is dead code. Whatever its streams do and
  whatever the rest of the program does meanwhile, provided that the peer's queues are only taken away under a waiting stream when its
  context is done (as by \<open>Disconnect\<close> and \<open>Close\<close>, which first cancel the loop that is registered for the peer), a run of the loop
  begins at most one delay, and then only because its context is done, so that it ends there; and as long as the context lives and the link is open the loop never stops, hence never gives the peer up. In
  particular a peer whose stream cannot be established, or whose handshake fails, is tried again and again without any delay,
  and neither its health nor its metrics show it: the link is left as the others make it.
\<close>

theorem retry_semantics:
  assumes inv: "pl_inv g" and env: "list_all (attempt_env_ok p) as" and n: "n < maxRetries"
    and run: "runOutboundConnection finished as n p g = (res, delays, g')"
  shows "length delays \<le> 1 \<and> (delays \<noteq> [] \<longrightarrow> res = OutStopped \<and> list_ex ctx_after as)
    \<and> (\<not> finished \<and> \<not> pl_closed g \<and> list_all live_attempt as \<longrightarrow> res \<noteq> OutStopped
        \<and> (list_all (\<lambda>a. ae_open a \<noteq> None \<or> ae_send a \<noteq> None \<or> ae_recv a \<noteq> None) as \<longrightarrow>
             res = OutRunning \<and> delays = [] \<and> g' = fold ae_other as g))"
  using outbound_delays [OF inv env n run] unreachable_retried [of as g n p] run
  by (auto simp: list_all_iff)

definition fail_attempt :: attempt_env where
  "fail_attempt = \<lparr>ae_other = \<lambda>g. g, ae_ctx = False, ae_now = 7, ae_open = Some (PlTransport ''refused''),
     ae_send = None, ae_recv = None, ae_stream = [], ae_ctx_wait = False\<rparr>"

definition seen_attempt :: attempt_env where
  "seen_attempt = fail_attempt\<lparr>ae_other := markPeerSeen 9 ''q''\<rparr>"

theorem retry_semantics_witness:
  "\<exists>g'. runOutboundConnection False (seen_attempt # replicate 1000 fail_attempt) 0 ''q'' demo_link = (OutRunning, [], g')"
proof -
  let ?as = "seen_attempt # replicate 1000 fail_attempt"
  obtain res delays g' where run: "runOutboundConnection False ?as 0 ''q'' demo_link = (res, delays, g')"
    by (cases "runOutboundConnection False ?as 0 ''q'' demo_link")
  have "list_all (attempt_env_ok ''q'') ?as" "list_all live_attempt ?as"
    "list_all (\<lambda>a. ae_open a \<noteq> None \<or> ae_send a \<noteq> None \<or> ae_recv a \<noteq> None) ?as"
    by (auto simp: list_all_iff attempt_env_ok_def live_attempt_def keeps_open_def ctx_after_def seen_attempt_def
        fail_attempt_def intro: step_seen)
  moreover have "\<not> pl_closed demo_link"
    by (simp add: link_eval)
  ultimately show ?thesis
    using retry_semantics [OF NewGRPCPeerLink_inv [OF demo_new] _ _ run] run by (simp add: maxRetries_def)
qed

text \<open>
  C28. Reconnects and stale streams. When a known peer opens a new inbound stream, its health is not
  touched by the handshake; and when the handler of its old stream cleans up afterwards, the new connection
  stays registered but the peer's health is set to disconnected.
\<close>

theorem stale_cleanup_disconnects:
  assumes inv: "pl_inv g" and p: "p \<noteq> []" and known: "map_of (sendQueues g) p \<noteq> None" and s: "old \<noteq> stream"
    and opn: "EventStream_open now stream (Inr (Some (WHandshake p v))) g = (r, g1)"
  shows "GetPeerHealth p g1 = GetPeerHealth p g
    \<and> map_of (connections (EventStream_cleanup p old g1)) p =
        Some \<lparr>ci_node = inboundPeer p ''inbound-connection'', ci_stream = Some stream\<rparr>
    \<and> GetPeerHealth p (EventStream_cleanup p old g1) = (PeerDisconnected, None)"
proof -
  have g1: "g1 = g\<lparr>connections := AList.update p
      \<lparr>ci_node = inboundPeer p ''inbound-connection'', ci_stream = Some stream\<rparr> (connections g)\<rparr>"
    using opn p registerPeer_known [OF inv known] by (simp add: EventStream_open_def Let_def)
  obtain mt where "map_of (pl_metrics g) p = Some mt"
    using keys_metrics [OF inv known] by auto
  with s show ?thesis
    by (simp add: g1 EventStream_cleanup_def GetPeerHealth_def on_metrics_def)
qed

theorem stale_cleanup_disconnects_witness:
  "GetPeerHealth ''q'' (EventStream_cleanup ''q'' 1
     (snd (EventStream_open 9 2 (Inr (Some (WHandshake ''q'' 100))) demo_queued))) = (PeerDisconnected, None)"
proof -
  have a: "map_of (sendQueues demo_queued) ''q'' \<noteq> None"
    using demo_queued_queues(2) by simp
  have b: "EventStream_open 9 2 (Inr (Some (WHandshake ''q'' 100))) demo_queued =
      (fst (EventStream_open 9 2 (Inr (Some (WHandshake ''q'' 100))) demo_queued),
       snd (EventStream_open 9 2 (Inr (Some (WHandshake ''q'' 100))) demo_queued))"
    by simp
  from stale_cleanup_disconnects [OF demo_queued_inv _ a _ b, of 1] show ?thesis by simp
qed

subsection \<open>Heartbeats\<close>

text \<open>The heartbeat of a tick to a connected peer fails when the link is closed, the context is done or the queue is full.\<close>

definition beat_fails :: "(string \<Rightarrow> bool) \<Rightarrow> string \<Rightarrow> peer_link \<Rightarrow> bool" where
  "beat_fails gave_up p g \<longleftrightarrow> pl_closed g \<or> gave_up p
     \<or> cfg_SendQueueSize (pl_config g) \<le> int (queue_len (controlQueues g) p g)"

definition after_beat :: "bool \<Rightarrow> peer_metrics \<Rightarrow> peer_metrics \<Rightarrow> bool" where
  "after_beat failed m m' \<longleftrightarrow> healthState m' = (if failed then PeerUnhealthy else healthState m)
     \<and> failureCount m' = failureCount m + (if failed then 1 else 0)
     \<and> missedHeartbeatCount m' = missedHeartbeatCount m \<and> lastSeenAt m' = lastSeenAt m"

lemma SendHeartbeat_value:
  assumes inv: "pl_inv g" and r: "map_of (controlQueues g) p = Some r"
  shows "SendHeartbeat now (gave_up p) p g =
    (if pl_closed g then (Some PlClosed, g)
     else if beat_fails gave_up p g then (Some PlQueueFull, recordPlaneDrop p controlPlaneMessage g)
     else (None, recordPlaneQueued p controlPlaneMessage
       (g\<lparr>pl_queues := snd (try_send r (HeartbeatMsg p now 0) (pl_queues g))\<rparr>)))"
proof -
  have q: "queue_ok g controlPlaneMessage (p, r)"
    using queue_of_ok [OF inv, of controlPlaneMessage p r] r by simp
  then have full: "try_send r x (pl_queues g) = (Full, pl_queues g)"
    if "cfg_SendQueueSize (pl_config g) \<le> int (queue_len (controlQueues g) p g)" for x
    using r that by (auto simp: try_send_def Let_def queue_ok_def queue_len_def)
  have room: "\<exists>h. try_send r x (pl_queues g) = (Sent, h)"
    if "\<not> cfg_SendQueueSize (pl_config g) \<le> int (queue_len (controlQueues g) p g)" for x
    using q r that by (auto simp: try_send_def Let_def queue_ok_def queue_len_def)
  show ?thesis
  proof (cases "cfg_SendQueueSize (pl_config g) \<le> int (queue_len (controlQueues g) p g)")
    case True
    with r full show ?thesis by (simp add: SendHeartbeat_def lookup_queue_def enqueue_def beat_fails_def)
  next
    case False
    then obtain h where "try_send r (HeartbeatMsg p now 0) (pl_queues g) = (Sent, h)"
      using room by blast
    with r False show ?thesis by (simp add: SendHeartbeat_def lookup_queue_def enqueue_def beat_fails_def)
  qed
qed

text \<open>One round of the loop touches the metrics and the queue of its peer only.\<close>

lemma beat_step:
  assumes inv: "pl_inv g" and r: "map_of (controlQueues g) p = Some r"
  obtains g1 where "heartbeat_loop now gave_up (p # ps) g = heartbeat_loop now gave_up ps g1" "pl_inv g1"
    "controlQueues g1 = controlQueues g" "\<And>q. q \<noteq> p \<Longrightarrow> beat_fails gave_up q g1 = beat_fails gave_up q g"
    "\<And>q. q \<noteq> p \<Longrightarrow> map_of (pl_metrics g1) q = map_of (pl_metrics g) q"
    "\<And>m. map_of (pl_metrics g) p = Some m \<Longrightarrow> \<exists>m'. map_of (pl_metrics g1) p = Some m' \<and> after_beat (beat_fails gave_up p g) m m'"
proof -
  let ?s = "SendHeartbeat now (gave_up p) p g"
  define g1 where "g1 = (if fst ?s = None then snd ?s
    else recordPeerSendFailure p (recordPlaneSendFailure p controlPlaneMessage (snd ?s)))"
  note s = SendHeartbeat_value [OF inv r, of now gave_up]
  have loop: "heartbeat_loop now gave_up (p # ps) g = heartbeat_loop now gave_up ps g1"
    by (simp add: s g1_def)
  have "pl_inv (snd ?s)"
    by (rule inv_intros, rule inv)
  then have inv1: "pl_inv g1"
    by (auto simp: g1_def intro: metric_ops_inv)
  have other: "ch_items (chan_at (pl_queues g1) r') = ch_items (chan_at (pl_queues g) r')" if "r' \<noteq> r" for r'
    using that by (simp add: s g1_def metric_ops try_send_items)
  have frame: "controlQueues g1 = controlQueues g" "pl_closed g1 = pl_closed g" "pl_config g1 = pl_config g"
    by (simp_all add: s g1_def metric_ops)
  have "queue_len (controlQueues g1) q g1 = queue_len (controlQueues g) q g" if "q \<noteq> p" for q
  proof -
    have "r' \<noteq> r" if "map_of (controlQueues g) q = Some r'" for r'
      using ref_not_shared [OF inv, of p r controlPlaneMessage q controlPlaneMessage] r that \<open>q \<noteq> p\<close>
      by (auto dest: map_of_SomeD)
    then show ?thesis
      unfolding queue_len_def frame by (auto simp: other split: option.splits)
  qed
  then have fails: "q \<noteq> p \<Longrightarrow> beat_fails gave_up q g1 = beat_fails gave_up q g" for q
    unfolding beat_fails_def frame by simp
  have metrics: "q \<noteq> p \<Longrightarrow> map_of (pl_metrics g1) q = map_of (pl_metrics g) q" for q
    by (simp add: s g1_def metric_ops on_metrics_lookup)
  have "\<exists>m'. map_of (pl_metrics g1) p = Some m' \<and> after_beat (beat_fails gave_up p g) m m'"
    if "map_of (pl_metrics g) p = Some m" for m
    using that unfolding g1_def s by (auto simp: metric_ops on_metrics_lookup after_beat_def Let_def beat_fails_def)
  from that [OF loop inv1 frame(1) fails metrics this] show ?thesis .
qed

lemma heartbeat_loop_metrics:
  assumes "pl_inv g" "distinct ps" "\<forall>p \<in> set ps. map_of (controlQueues g) p \<noteq> None" "map_of (pl_metrics g) p = Some m"
  shows "\<exists>g' m'. heartbeat_loop now gave_up ps g = (None, g') \<and> map_of (pl_metrics g') p = Some m'
    \<and> after_beat (p \<in> set ps \<and> beat_fails gave_up p g) m m'"
  using assms
proof (induction ps arbitrary: g m)
  case (Cons q ps)
  obtain r where r: "map_of (controlQueues g) q = Some r"
    using Cons.prems(3) by auto
  obtain g1 where g1: "heartbeat_loop now gave_up (q # ps) g = heartbeat_loop now gave_up ps g1" "pl_inv g1"
    "controlQueues g1 = controlQueues g" "\<And>q'. q' \<noteq> q \<Longrightarrow> beat_fails gave_up q' g1 = beat_fails gave_up q' g"
    "\<And>q'. q' \<noteq> q \<Longrightarrow> map_of (pl_metrics g1) q' = map_of (pl_metrics g) q'"
    "\<And>m. map_of (pl_metrics g) q = Some m \<Longrightarrow> \<exists>m'. map_of (pl_metrics g1) q = Some m' \<and> after_beat (beat_fails gave_up q g) m m'"
    by (rule beat_step [OF Cons.prems(1) r, of now gave_up ps], rule that)
  obtain m1 where m1: "map_of (pl_metrics g1) p = Some m1" "after_beat (p = q \<and> beat_fails gave_up q g) m m1"
    using g1(5,6) Cons.prems(4) by (cases "p = q") (auto simp: after_beat_def)
  from Cons.IH [OF g1(2) _ _ m1(1)] Cons.prems(2,3) g1(3) obtain g' m' where
    "heartbeat_loop now gave_up ps g1 = (None, g')" "map_of (pl_metrics g') p = Some m'"
    "after_beat (p \<in> set ps \<and> beat_fails gave_up p g1) m1 m'" by auto
  with g1(1,4) m1(2) Cons.prems(2) show ?case
    by (cases "p = q") (auto simp: after_beat_def)
qed (simp add: after_beat_def)

text \<open>The messages that show a peer to be alive; a handshake in the middle of a stream or an acknowledgement is not looked at.\<close>

definition marks_seen :: "wire_message \<Rightarrow> bool" where
  "marks_seen msg = (case msg of Some (WEvent _) \<Rightarrow> True | Some (WControlPlane _) \<Rightarrow> True | Some (WHeartbeat _) \<Rightarrow> True
     | _ \<Rightarrow> False)"

lemma receive_metrics:
  assumes "map_of (pl_metrics g) p = Some m"
  shows "map_of (pl_metrics (receive_message now p msg g)) p =
    Some (if marks_seen msg
      then m\<lparr>healthState := PeerHealthy, failureCount := 0, missedHeartbeatCount := 0, lastSeenAt := now\<rparr> else m)"
  using assms
  by (auto simp: marks_seen_def receive_message_def Let_def markPeerSeen_def on_metrics_lookup distributeEvent_def
      distributeInterestMessage_def split: option.splits wire_kind.splits)

lemma silent_value:
  assumes inv: "pl_inv g" and m: "map_of (pl_metrics g) p = Some m" and seen: "lastSeenAt m \<noteq> zero_time"
    and range: "cfg_HeartbeatInterval (pl_config g) * cfg_MissedHeartbeatLimit (pl_config g) \<le> max_int64"
      "in_int64 (now - lastSeenAt m)"
  defines "late \<equiv> healthState m \<noteq> PeerDisconnected
    \<and> cfg_HeartbeatInterval (pl_config g) * cfg_MissedHeartbeatLimit (pl_config g) \<le> now - lastSeenAt m"
  shows "map_of (pl_metrics (markSilentPeersUnhealthy now g)) p = Some (if late
      then m\<lparr>healthState := PeerUnhealthy, missedHeartbeatCount := (now - lastSeenAt m) div cfg_HeartbeatInterval (pl_config g)\<rparr>
      else m)"
    and "late \<Longrightarrow> cfg_MissedHeartbeatLimit (pl_config g) \<le> (now - lastSeenAt m) div cfg_HeartbeatInterval (pl_config g)"
proof -
  let ?i = "cfg_HeartbeatInterval (pl_config g)" and ?l = "cfg_MissedHeartbeatLimit (pl_config g)"
  let ?d = "now - lastSeenAt m"
  have pos: "0 < ?i" "0 < ?l"
    using inv by (auto simp: pl_inv_def config_ok_def)
  then have timeout: "heartbeatTimeout g = ?i * ?l"
    using range(1) by (auto simp: heartbeatTimeout_def max_int64_def intro!: wrap64_small)
  have sub: "time_Sub now (lastSeenAt m) = ?d"
    using range(2) by (auto simp: time_Sub_def in_int64_def max_int64_def)
  have late: "?d sdiv ?i = ?d div ?i \<and> ?l \<le> ?d div ?i" if "?i * ?l \<le> ?d"
  proof -
    have "0 < ?i * ?l" using pos by simp
    then have "0 < ?d" using that by linarith
    moreover have "?i * ?l div ?i \<le> ?d div ?i"
      using that pos by (intro zdiv_mono1) auto
    ultimately show ?thesis
      using pos by (simp add: signed_divide_int_def)
  qed
  have "map_of (pl_metrics (markSilentPeersUnhealthy now g)) p = Some (silent_step now (?i * ?l) ?i m)"
    using m by (simp add: markSilentPeersUnhealthy_def map_of_metrics_map timeout)
  then show "map_of (pl_metrics (markSilentPeersUnhealthy now g)) p = Some (if late
      then m\<lparr>healthState := PeerUnhealthy, missedHeartbeatCount := ?d div ?i\<rparr> else m)"
    using seen late by (auto simp: silent_step_def sub late_def)
  show "late \<Longrightarrow> ?l \<le> ?d div ?i"
    using late by (simp add: late_def)
qed

text \<open>
  C25. Failure detection. A tick of the heartbeat loop at time \<open>now\<close> makes a peer unhealthy when it is not disconnected and has not
  been heard of within the timeout (interval times limit), recording at least \<open>limit\<close> missed heartbeats, and also when it is
  connected and its heartbeat cannot be queued (closed link, context done, full control queue), which counts as one more
  failure; otherwise the tick leaves its health alone, and it never panics while undisturbed. Any event, control message
  or heartbeat received from the peer after that makes it healthy again with its counters cleared; any other
  message changes nothing.
\<close>

theorem failure_detection:
  assumes inv: "pl_inv g" and m: "map_of (pl_metrics g) p = Some m" and seen: "lastSeenAt m \<noteq> zero_time"
    and range: "cfg_HeartbeatInterval (pl_config g) * cfg_MissedHeartbeatLimit (pl_config g) \<le> max_int64"
      "in_int64 (now - lastSeenAt m)"
    and tick: "sendHeartbeatToConnectedPeers now gave_up g = (res, g')"
    and silent: "silent = (healthState m \<noteq> PeerDisconnected
      \<and> cfg_HeartbeatInterval (pl_config g) * cfg_MissedHeartbeatLimit (pl_config g) \<le> now - lastSeenAt m)"
    and failed: "failed = (map_of (connections g) p \<noteq> None \<and> beat_fails gave_up p g)"
  shows "res = None \<and> (\<exists>m1. map_of (pl_metrics g') p = Some m1
    \<and> healthState m1 = (if silent \<or> failed then PeerUnhealthy else healthState m)
    \<and> failureCount m1 = failureCount m + (if failed then 1 else 0) \<and> lastSeenAt m1 = lastSeenAt m
    \<and> (if silent then missedHeartbeatCount m1 = (now - lastSeenAt m) div cfg_HeartbeatInterval (pl_config g)
          \<and> cfg_MissedHeartbeatLimit (pl_config g) \<le> missedHeartbeatCount m1
       else missedHeartbeatCount m1 = missedHeartbeatCount m)
    \<and> (\<exists>m2. map_of (pl_metrics (receive_message later p msg g')) p = Some m2
        \<and> (if marks_seen msg
           then healthState m2 = PeerHealthy \<and> failureCount m2 = 0 \<and> missedHeartbeatCount m2 = 0 \<and> lastSeenAt m2 = later
           else m2 = m1)))"
proof -
  let ?g = "markSilentPeersUnhealthy now g"
  let ?m = "if silent
      then m\<lparr>healthState := PeerUnhealthy, missedHeartbeatCount := (now - lastSeenAt m) div cfg_HeartbeatInterval (pl_config g)\<rparr>
      else m"
  have m0: "map_of (pl_metrics ?g) p = Some ?m"
    and limit: "silent \<Longrightarrow> cfg_MissedHeartbeatLimit (pl_config g) \<le> (now - lastSeenAt m) div cfg_HeartbeatInterval (pl_config g)"
    unfolding silent using silent_value [OF inv m seen range] by auto
  have frame: "connections ?g = connections g" "controlQueues ?g = controlQueues g" "pl_closed ?g = pl_closed g"
    "pl_config ?g = pl_config g" "pl_queues ?g = pl_queues g"
    by (simp_all add: markSilentPeersUnhealthy_def)
  have fails: "p \<in> set (connectedPeerIDs ?g) \<and> beat_fails gave_up p ?g \<longleftrightarrow> failed"
    unfolding failed beat_fails_def queue_len_def connectedPeerIDs_def frame by (auto simp: gm_keys_dom)
  have "distinct (connectedPeerIDs ?g)" "\<forall>q \<in> set (connectedPeerIDs ?g). map_of (controlQueues ?g) q \<noteq> None"
    unfolding connectedPeerIDs_def frame using inv by (auto simp: pl_inv_def keys_ok_def gm_wf_def map_of_eq_None_iff)
  from heartbeat_loop_metrics [OF markSilent_inv [OF inv] this m0, of now gave_up]
  obtain m1 where "res = None" and m1: "map_of (pl_metrics g') p = Some m1" "after_beat failed ?m m1"
    using tick unfolding fails by (auto simp: sendHeartbeatToConnectedPeers_def Let_def)
  with receive_metrics [OF m1(1), of later msg] limit show ?thesis
    by (auto simp: after_beat_def)
qed

theorem failure_detection_witness:
  "\<exists>g' m1. sendHeartbeatToConnectedPeers 20000000005 (\<lambda>_. False) demo_queued = (None, g')
     \<and> map_of (pl_metrics g') ''q'' = Some m1 \<and> healthState m1 = PeerUnhealthy \<and> missedHeartbeatCount m1 = 4
     \<and> failureCount m1 = 1"
proof -
  obtain m where m: "map_of (pl_metrics demo_queued) ''q'' = Some m" "lastSeenAt m = 5" "healthState m = PeerHealthy"
    "failureCount m = 0"
    by (auto simp: demo_queued_def link_eval)
  have cfg: "cfg_HeartbeatInterval (pl_config demo_queued) = 5000000000"
    "cfg_MissedHeartbeatLimit (pl_config demo_queued) = 3" "map_of (connections demo_queued) ''q'' \<noteq> None"
    "beat_fails (\<lambda>_. False) ''q'' demo_queued"
    by (simp_all add: demo_queued_def link_eval beat_fails_def)
  obtain res g' where tick: "sendHeartbeatToConnectedPeers 20000000005 (\<lambda>_. False) demo_queued = (res, g')"
    by (cases "sendHeartbeatToConnectedPeers 20000000005 (\<lambda>_. False) demo_queued")
  from failure_detection [OF demo_queued_inv m(1) _ _ _ tick refl refl, of 0 None] tick m(2-4) cfg show ?thesis
    by (auto simp: zero_time_def max_int64_def in_int64_def)
qed

end
