(* ===== verification/Mesh_Node.thy ===== *)
theory Mesh_Node
  imports Peer_Stream Routing_Table
begin

text \<open>
  The mesh node, \<open>internal/meshnode\<close>: configuration, clients, subscriptions and interest gossip,
  publishing, incoming peer messages, lifecycle, health and statistics. The node owns an event log (any
  implementation of the interface, given by its operations \<open>ops\<close>), a routing table and a peer link.
  Client objects live in a heap, since the routing table, the client map and the HTTP layer hold pointers to
  the same object. A context is threaded through the operations that look at it more than once.
\<close>

subsection \<open>Errors and configuration\<close>

datatype mesh_error =
    MClosed | MStopped | MNilClient | MNilEvent | MNotAuthenticated | MPayloadTooLarge | MEmptyTopic
  | MCtx | MBadAction | MPropagateAll | MSubscriptionNotFound | MClientNotFound
  | MNilCredentials | MBadCredentials | MEmptyClientID
  | MNilConfig | MEmptyNodeID | MInvalidListenAddress | MPeerLinkConfig pl_error
  | MLogFactory string | MLogFactoryNil
  | MLog log_error | MRouting rt_error | MPeer pl_error
  | MDelivery nat nat nat nat
  | MChannelFull string | MNoDeliverEvent string

record mesh_config =
  mc_NodeID :: string
  mc_ListenAddress :: string
  mc_PeerLinkConfig :: "pl_config option"
  mc_SeedNodes :: "string list option"

definition NewConfig :: "string \<Rightarrow> string \<Rightarrow> mesh_config" where
  "NewConfig nodeID listenAddress =
     \<lparr>mc_NodeID = nodeID, mc_ListenAddress = listenAddress, mc_PeerLinkConfig = None, mc_SeedNodes = None\<rparr>"

definition ValidateConfig :: "mesh_config \<Rightarrow> mesh_error option" where
  "ValidateConfig c =
     (if mc_NodeID c = [] then Some MEmptyNodeID
      else if mc_ListenAddress c = [] then Some MInvalidListenAddress
      else case mc_PeerLinkConfig c of
        None \<Rightarrow> None
      | Some pc \<Rightarrow> (case Validate pc of Some err \<Rightarrow> Some (MPeerLinkConfig err) | None \<Rightarrow> None))"

definition WithPeerLinkConfig :: "pl_config option \<Rightarrow> mesh_config \<Rightarrow> mesh_config" where
  "WithPeerLinkConfig pc c = c\<lparr>mc_PeerLinkConfig := pc\<rparr>"

definition WithBootstrapConfig :: "string list option \<Rightarrow> mesh_config \<Rightarrow> mesh_config" where
  "WithBootstrapConfig seeds c = c\<lparr>mc_SeedNodes := seeds\<rparr>"

definition MaxEventPayloadSize :: nat where
  "MaxEventPayloadSize = 1024 * 1024"

subsection \<open>Clients\<close>

record client_obj =
  co_connectedAt :: int
  co_authenticated :: bool
  co_chan :: "event chan"
  co_buffer :: "event list"

definition new_client_obj :: "int \<Rightarrow> client_obj" where
  "new_client_obj now =
     \<lparr>co_connectedAt = now, co_authenticated = True, co_chan = make_chan 100, co_buffer = []\<rparr>"

fun client_addr :: "subscriber \<Rightarrow> nat option" where
  "client_addr (TrustedClient i a) = Some a"
| "client_addr (HTTPClient i a) = Some a"
| "client_addr _ = None"

definition client_at :: "client_obj list \<Rightarrow> nat \<Rightarrow> client_obj" where
  "client_at h a = (if a < length h then h ! a else new_client_obj 0)"

fun IsAuthenticated :: "client_obj list \<Rightarrow> subscriber \<Rightarrow> bool" where
  "IsAuthenticated h (TrustedClient i a) = True"
| "IsAuthenticated h (HTTPClient i a) = co_authenticated (client_at h a)"
| "IsAuthenticated h _ = False"

text \<open>A non-blocking send to a client's channel.\<close>

definition chan_push :: "event \<Rightarrow> event chan \<Rightarrow> bool \<times> event chan" where
  "chan_push e c =
     (if length (ch_items c) < ch_cap c then (True, c\<lparr>ch_items := ch_items c @ [e]\<rparr>) else (False, c))"

definition trusted_DeliverEvent :: "string \<Rightarrow> nat \<Rightarrow> event \<Rightarrow> client_obj list \<Rightarrow> mesh_error option \<times> client_obj list" where
  "trusted_DeliverEvent i a e h =
     (let eventCopy = Copy e;
          o1 = (client_at h a)\<lparr>co_buffer := co_buffer (client_at h a) @ [eventCopy]\<rparr>
      in case chan_push eventCopy (co_chan o1) of
           (True, c) \<Rightarrow> (None, h[a := o1\<lparr>co_chan := c\<rparr>])
         | (False, c) \<Rightarrow> (Some (MChannelFull i), h[a := o1]))"

definition http_DeliverEvent :: "string \<Rightarrow> nat \<Rightarrow> event \<Rightarrow> client_obj list \<Rightarrow> mesh_error option \<times> client_obj list" where
  "http_DeliverEvent i a e h =
     (case chan_push e (co_chan (client_at h a)) of
        (True, c) \<Rightarrow> (None, h[a := (client_at h a)\<lparr>co_chan := c\<rparr>])
      | (False, c) \<Rightarrow> (Some (MChannelFull i), h))"

text \<open>The dynamic call: a subscriber without the method is reported.\<close>

fun DeliverEvent :: "subscriber \<Rightarrow> event \<Rightarrow> client_obj list \<Rightarrow> mesh_error option \<times> client_obj list" where
  "DeliverEvent (TrustedClient i a) e h = trusted_DeliverEvent i a e h"
| "DeliverEvent (HTTPClient i a) e h = http_DeliverEvent i a e h"
| "DeliverEvent s e h = (Some (MNoDeliverEvent (ID s)), h)"

declare trusted_DeliverEvent_def [simp] http_DeliverEvent_def [simp]

definition GetReceivedEvents :: "nat \<Rightarrow> client_obj list \<Rightarrow> event list" where
  "GetReceivedEvents a h = map Copy (co_buffer (client_at h a))"

subsection \<open>State\<close>

record client_subscription =
  cs_ID :: string
  cs_Topic :: string
  cs_ClientID :: string
  cs_CreatedAt :: int

record 'l mesh_node =
  mn_config :: mesh_config
  eventLog :: 'l
  routingTable :: rtable
  peerLink :: peer_link
  mn_started :: bool
  mn_closed :: bool
  lifecycleCancel :: "nat option"
  clients :: "(string, subscriber) gomap"
  mn_subscriptions :: "(string, (string, client_subscription) gomap) gomap"
  peerSubscriptions :: "(string, (string, bool) gomap) gomap"
  interestUpdatesSent :: nat
  interestUpdatesReceived :: nat
  interestSnapshotsSent :: nat
  interestSnapshotsReceived :: nat
  emptySnapshotsReceived :: nat
  snapshotTopicsReceived :: nat
  clientHeap :: "client_obj list"
  mn_next :: nat
  mn_cancelled :: "nat list"

text \<open>
  \<open>factory\<close> is the configured \<open>EventLogFactory\<close> with its answer (an error, nil or a log), \<open>inmemory\<close>
  the log \<open>NewInMemoryEventLog\<close> gives when there is no factory.
\<close>

definition default_link_config :: "mesh_config \<Rightarrow> pl_config" where
  "default_link_config c =
     SetDefaults \<lparr>cfg_NodeID = mc_NodeID c, cfg_ListenAddress = mc_ListenAddress c, cfg_SendQueueSize = 0,
       cfg_SendTimeout = 0, cfg_MaxSendAttempts = 0, cfg_HeartbeatInterval = 0, cfg_MissedHeartbeatLimit = 0,
       cfg_MaxMessageSize = 0\<rparr>"

definition NewGRPCMeshNode ::
  "'l \<Rightarrow> (string + 'l option) option \<Rightarrow> mesh_config option \<Rightarrow> mesh_error + 'l mesh_node" where
  "NewGRPCMeshNode inmemory factory config =
     (case config of
        None \<Rightarrow> Inl MNilConfig
      | Some c \<Rightarrow>
         (case ValidateConfig c of
            Some err \<Rightarrow> Inl err
          | None \<Rightarrow>
             (case factory of
                Some (Inl err) \<Rightarrow> Inl (MLogFactory err)
              | Some (Inr None) \<Rightarrow> Inl MLogFactoryNil
              | _ \<Rightarrow>
                 let log = (case factory of Some (Inr (Some l)) \<Rightarrow> l | _ \<Rightarrow> inmemory);
                     pc = (case mc_PeerLinkConfig c of Some pc \<Rightarrow> pc | None \<Rightarrow> default_link_config c)
                 in (case NewGRPCPeerLink pc of
                       Inl err \<Rightarrow> Inl (MPeer err)
                     | Inr link \<Rightarrow> Inr
                        \<lparr>mn_config = c, eventLog = log, routingTable = NewInMemoryRoutingTable,
                         peerLink = link, mn_started = False, mn_closed = False, lifecycleCancel = None,
                         clients = [], mn_subscriptions = [], peerSubscriptions = [],
                         interestUpdatesSent = 0, interestUpdatesReceived = 0, interestSnapshotsSent = 0,
                         interestSnapshotsReceived = 0, emptySnapshotsReceived = 0,
                         snapshotTopicsReceived = 0, clientHeap = [], mn_next = 0, mn_cancelled = []\<rparr>))))"

subsection \<open>Local subscriptions\<close>

definition localSubscriptionSnapshot :: "'l mesh_node \<Rightarrow> client_subscription list" where
  "localSubscriptionSnapshot n = concat (map (\<lambda>(_, subs). map snd subs) (mn_subscriptions n))"

definition localInterestSnapshot :: "'l mesh_node \<Rightarrow> string list" where
  "localInterestSnapshot n = sort (uniq_loop [] [] (map cs_Topic (localSubscriptionSnapshot n)))"

definition localTopicInterestCount :: "string \<Rightarrow> 'l mesh_node \<Rightarrow> nat" where
  "localTopicInterestCount topic n =
     length (filter (\<lambda>s. cs_Topic s = topic) (localSubscriptionSnapshot n))"

definition addSubscriptionMetadata :: "int \<Rightarrow> string \<Rightarrow> string \<Rightarrow> string \<Rightarrow> 'l mesh_node \<Rightarrow> 'l mesh_node" where
  "addSubscriptionMetadata now clientID subscriptionID topic n =
     (let m0 = mn_subscriptions n;
          m1 = (if map_of m0 clientID = None then AList.update clientID [] m0 else m0);
          s = \<lparr>cs_ID = subscriptionID, cs_Topic = topic, cs_ClientID = clientID, cs_CreatedAt = now\<rparr>
      in n\<lparr>mn_subscriptions :=
           AList.update clientID (AList.update subscriptionID s (gm_get [] m1 clientID)) m1\<rparr>)"

definition removeSubscriptionMetadataByTopic :: "string \<Rightarrow> string \<Rightarrow> 'l mesh_node \<Rightarrow> 'l mesh_node" where
  "removeSubscriptionMetadataByTopic clientID topic n =
     (case map_of (mn_subscriptions n) clientID of
        None \<Rightarrow> n
      | Some clientSubs \<Rightarrow>
          let clientSubs' = filter (\<lambda>(_, s). cs_Topic s \<noteq> topic) clientSubs
          in if clientSubs' = []
             then n\<lparr>mn_subscriptions := AList.delete clientID (mn_subscriptions n)\<rparr>
             else n\<lparr>mn_subscriptions := AList.update clientID clientSubs' (mn_subscriptions n)\<rparr>)"

definition GetClientSubscriptions :: "string \<Rightarrow> 'l mesh_node \<Rightarrow> client_subscription list" where
  "GetClientSubscriptions clientID n =
     (case map_of (mn_subscriptions n) clientID of None \<Rightarrow> [] | Some subs \<Rightarrow> map snd subs)"

subsection \<open>Interest gossip\<close>

text \<open>Sending to every peer; each send looks at the context once.\<close>

fun propagate_loop ::
  "int \<Rightarrow> ctx \<Rightarrow> interest_update \<Rightarrow> string list \<Rightarrow> nat \<times> nat \<Rightarrow> 'l mesh_node \<Rightarrow> (nat \<times> nat) \<times> 'l mesh_node" where
  "propagate_loop now ctx update [] (ok, bad) n = ((ok, bad), n)"
| "propagate_loop now ctx update (peerID # ps) (ok, bad) n =
     (case poll ctx of (gave_up, ctx') \<Rightarrow>
        (case SendInterestUpdate now gave_up peerID (Some update) (peerLink n) of
           (Some err, g) \<Rightarrow> propagate_loop now ctx' update ps (ok, bad + 1) (n\<lparr>peerLink := g\<rparr>)
         | (None, g) \<Rightarrow> propagate_loop now ctx' update ps (ok + 1, bad)
             (n\<lparr>peerLink := g, interestUpdatesSent := interestUpdatesSent n + 1\<rparr>)))"

definition propagateInterestUpdate ::
  "int \<Rightarrow> ctx \<Rightarrow> string \<Rightarrow> string \<Rightarrow> 'l mesh_node \<Rightarrow> mesh_error option \<times> 'l mesh_node" where
  "propagateInterestUpdate now ctx action topic n =
     (if action = [] \<or> topic = [] then (Some MBadAction, n)
      else if action \<noteq> ''subscribe'' \<and> action \<noteq> ''unsubscribe'' then (Some MBadAction, n)
      else case GetConnectedPeers (peerLink n) of
        Inl err \<Rightarrow> (Some (MPeer err), n)
      | Inr connectedPeers \<Rightarrow>
          if connectedPeers = [] then (None, n)
          else
            let update = \<lparr>iu_NodeId = mc_NodeID (mn_config n), iu_Action = action, iu_Topic = topic\<rparr>
            in case propagate_loop now ctx update (map pn_ID connectedPeers) (0, 0) n of
                 ((ok, bad), n') \<Rightarrow> (if bad > 0 \<and> ok = 0 then Some MPropagateAll else None, n'))"

definition syncLocalSubscriptionsToPeer ::
  "int \<Rightarrow> bool \<Rightarrow> string \<Rightarrow> 'l mesh_node \<Rightarrow> mesh_error option \<times> 'l mesh_node" where
  "syncLocalSubscriptionsToPeer now gave_up peerID n =
     (let snapshot = \<lparr>is_NodeId = mc_NodeID (mn_config n), is_Topics = localInterestSnapshot n\<rparr>
      in case SendInterestSnapshot now gave_up peerID (Some snapshot) (peerLink n) of
           (Some err, g) \<Rightarrow> (Some (MPeer err), n\<lparr>peerLink := g\<rparr>)
         | (None, g) \<Rightarrow> (None, n\<lparr>peerLink := g, interestSnapshotsSent := interestSnapshotsSent n + 1\<rparr>))"

text \<open>One tick of \<open>resyncSubscriptionsToNewPeers\<close>; \<open>seen\<close> is its map of peers already synchronised.\<close>

fun resync_loop ::
  "int \<Rightarrow> ctx \<Rightarrow> string list \<Rightarrow> (string, bool) gomap \<Rightarrow> 'l mesh_node \<Rightarrow> (string, bool) gomap \<times> 'l mesh_node" where
  "resync_loop now ctx [] seen n = (seen, n)"
| "resync_loop now ctx (peerID # ps) seen n =
     (if gm_get False seen peerID then resync_loop now ctx ps seen n
      else case poll ctx of (gave_up, ctx') \<Rightarrow>
        (case syncLocalSubscriptionsToPeer now gave_up peerID n of
           (Some err, n') \<Rightarrow> resync_loop now ctx' ps seen n'
         | (None, n') \<Rightarrow> resync_loop now ctx' ps (AList.update peerID True seen) n'))"

definition resync_tick ::
  "int \<Rightarrow> ctx \<Rightarrow> (string, bool) gomap \<Rightarrow> 'l mesh_node \<Rightarrow> (string, bool) gomap \<times> 'l mesh_node" where
  "resync_tick now ctx seen n =
     (case GetConnectedPeers (peerLink n) of
        Inl err \<Rightarrow> (seen, n)
      | Inr connectedPeers \<Rightarrow>
         (case resync_loop now ctx (map pn_ID connectedPeers) seen n of
            (seen', n') \<Rightarrow> (filter (\<lambda>(p, _). p \<in> set (map pn_ID connectedPeers)) seen', n')))"

subsection \<open>Subscribing\<close>

definition subscription_id :: "string \<Rightarrow> int \<Rightarrow> string" where
  "subscription_id clientID now = ''sub-'' @ clientID @ ''-'' @ show_int now"

text \<open>
  The clock is read twice, for the id and for the creation time; one reading stands for both. A failed
  propagation is logged only.
\<close>

definition NodeSubscribe ::
  "int \<Rightarrow> ctx \<Rightarrow> subscriber option \<Rightarrow> string \<Rightarrow> 'l mesh_node \<Rightarrow> mesh_error option \<times> 'l mesh_node" where
  "NodeSubscribe now ctx client topic n =
     (if mn_closed n then (Some MClosed, n)
      else if \<not> mn_started n then (Some MStopped, n)
      else case client of
        None \<Rightarrow> (Some MNilClient, n)
      | Some c \<Rightarrow>
          if topic = [] then (Some MEmptyTopic, n)
          else if \<not> IsAuthenticated (clientHeap n) c then (Some MNotAuthenticated, n)
          else
            let hadLocalInterest = localTopicInterestCount topic n > 0
            in case Subscribe topic (Some c) (routingTable n) of
                 (Some err, rt) \<Rightarrow> (Some (MRouting err), n\<lparr>routingTable := rt\<rparr>)
               | (None, rt) \<Rightarrow>
                   let n = n\<lparr>routingTable := rt\<rparr>;
                       n = n\<lparr>clients := AList.update (ID c) c (clients n)\<rparr>;
                       n = addSubscriptionMetadata now (ID c) (subscription_id (ID c) now) topic n
                   in if hadLocalInterest then (None, n)
                      else (None, snd (propagateInterestUpdate now ctx ''subscribe'' topic n)))"

definition NodeUnsubscribe ::
  "int \<Rightarrow> ctx \<Rightarrow> subscriber option \<Rightarrow> string \<Rightarrow> 'l mesh_node \<Rightarrow> mesh_error option \<times> 'l mesh_node" where
  "NodeUnsubscribe now ctx client topic n =
     (if mn_closed n then (Some MClosed, n)
      else if \<not> mn_started n then (Some MStopped, n)
      else case client of
        None \<Rightarrow> (Some MNilClient, n)
      | Some c \<Rightarrow>
          if topic = [] then (Some MEmptyTopic, n)
          else if \<not> IsAuthenticated (clientHeap n) c then (Some MNotAuthenticated, n)
          else case Unsubscribe topic (ID c) (routingTable n) of
            (Some err, rt) \<Rightarrow> (Some (MRouting err), n\<lparr>routingTable := rt\<rparr>)
          | (None, rt) \<Rightarrow>
              let n = removeSubscriptionMetadataByTopic (ID c) topic (n\<lparr>routingTable := rt\<rparr>)
              in if localTopicInterestCount topic n = 0
                 then (None, snd (propagateInterestUpdate now ctx ''unsubscribe'' topic n))
                 else (None, n))"

definition UnsubscribeByID ::
  "int \<Rightarrow> ctx \<Rightarrow> string \<Rightarrow> string \<Rightarrow> 'l mesh_node \<Rightarrow> mesh_error option \<times> 'l mesh_node" where
  "UnsubscribeByID now ctx clientID subscriptionID n =
     (case map_of (mn_subscriptions n) clientID of
        None \<Rightarrow> (Some MSubscriptionNotFound, n)
      | Some clientSubs \<Rightarrow>
         (case map_of clientSubs subscriptionID of
            None \<Rightarrow> (Some MSubscriptionNotFound, n)
          | Some subscription \<Rightarrow>
             (case map_of (clients n) clientID of
                None \<Rightarrow> (Some MClientNotFound, n)
              | Some client \<Rightarrow> NodeUnsubscribe now ctx (Some client) (cs_Topic subscription) n)))"

subsection \<open>Incoming interest\<close>

definition processIncomingInterestUpdate :: "interest_update option \<Rightarrow> 'l mesh_node \<Rightarrow> 'l mesh_node" where
  "processIncomingInterestUpdate update n =
     (case update of
        None \<Rightarrow> n
      | Some u \<Rightarrow>
          let n = n\<lparr>interestUpdatesReceived := interestUpdatesReceived n + 1\<rparr>;
              ps = (if map_of (peerSubscriptions n) (iu_NodeId u) = None
                    then AList.update (iu_NodeId u) [] (peerSubscriptions n) else peerSubscriptions n);
              topics = gm_get [] ps (iu_NodeId u);
              topics' = (if iu_Action u = ''subscribe'' then AList.update (iu_Topic u) True topics
                         else if iu_Action u = ''unsubscribe'' then AList.delete (iu_Topic u) topics
                         else topics)
          in n\<lparr>peerSubscriptions := AList.update (iu_NodeId u) topics' ps\<rparr>)"

fun snapshot_topics :: "string list \<Rightarrow> (string, bool) gomap \<Rightarrow> (string, bool) gomap" where
  "snapshot_topics [] m = m"
| "snapshot_topics (t # ts) m = snapshot_topics ts (if t \<noteq> [] then AList.update t True m else m)"

definition processIncomingInterestSnapshot :: "interest_snapshot option \<Rightarrow> 'l mesh_node \<Rightarrow> 'l mesh_node" where
  "processIncomingInterestSnapshot snapshot n =
     (case snapshot of
        None \<Rightarrow> n
      | Some s \<Rightarrow>
          let n = n\<lparr>interestSnapshotsReceived := interestSnapshotsReceived n + 1\<rparr>;
              n = (if is_Topics s = [] then n\<lparr>emptySnapshotsReceived := emptySnapshotsReceived n + 1\<rparr> else n);
              n = n\<lparr>snapshotTopicsReceived := snapshotTopicsReceived n + length (is_Topics s)\<rparr>
          in n\<lparr>peerSubscriptions :=
               AList.update (is_NodeId s) (snapshot_topics (is_Topics s) []) (peerSubscriptions n)\<rparr>)"

definition processIncomingInterestMessage :: "interest_message option \<Rightarrow> 'l mesh_node \<Rightarrow> 'l mesh_node" where
  "processIncomingInterestMessage message n =
     (case message of
        None \<Rightarrow> n
      | Some m \<Rightarrow>
          if im_Update m \<noteq> None then processIncomingInterestUpdate (im_Update m) n
          else if im_Snapshot m \<noteq> None then processIncomingInterestSnapshot (im_Snapshot m) n
          else n)"

fun any_interest :: "string \<Rightarrow> (string, bool) gomap \<Rightarrow> bool" where
  "any_interest topic [] = False"
| "any_interest topic ((pattern, hasSubscriber) # m) =
     (if hasSubscriber \<and> matchesPeerSubscriptionPattern pattern topic then True else any_interest topic m)"

definition getInterestedPeers :: "string \<Rightarrow> peer_node list \<Rightarrow> 'l mesh_node \<Rightarrow> peer_node list" where
  "getInterestedPeers topic allPeers n =
     filter (\<lambda>peer. case map_of (peerSubscriptions n) (pn_ID peer) of
                      None \<Rightarrow> False | Some peerTopics \<Rightarrow> any_interest topic peerTopics) allPeers"

end
