(* ===== verification/Mesh_Publish.thy ===== *)
theory Mesh_Publish
  imports Mesh_Node
begin

text \<open>
  Publishing (\<open>internal/meshnode/node_publish.go\<close>) and events that arrive from peers
  (\<open>node_peer_events.go\<close>). The context is polled in the order of the code: by the log, before each local
  delivery, after the deliveries, before each peer, by each send to a peer, and at the end.
\<close>

subsection \<open>Definitions\<close>

record delivery_result =
  LocalSuccesses :: nat
  LocalFailures :: nat
  PeerSuccesses :: nat
  PeerFailures :: nat
  dr_Errors :: "mesh_error list"

definition HasFailures :: "delivery_result \<Rightarrow> bool" where
  "HasFailures r \<longleftrightarrow> LocalFailures r > 0 \<or> PeerFailures r > 0"

definition TotalAttempts :: "delivery_result \<Rightarrow> nat" where
  "TotalAttempts r = LocalSuccesses r + LocalFailures r + PeerSuccesses r + PeerFailures r"

definition result_Error :: "delivery_result \<Rightarrow> mesh_error option" where
  "result_Error r =
     (if HasFailures r
      then Some (MDelivery (LocalSuccesses r) (LocalFailures r) (PeerSuccesses r) (PeerFailures r)) else None)"

definition no_result :: delivery_result where
  "no_result = \<lparr>LocalSuccesses = 0, LocalFailures = 0, PeerSuccesses = 0, PeerFailures = 0, dr_Errors = []\<rparr>"

definition validatePublishRequest :: "subscriber option \<Rightarrow> event option \<Rightarrow> 'l mesh_node \<Rightarrow> mesh_error option" where
  "validatePublishRequest client event n =
     (if mn_closed n then Some MClosed
      else if \<not> mn_started n then Some MStopped
      else case client of
        None \<Rightarrow> Some MNilClient
      | Some c \<Rightarrow>
         (case event of
            None \<Rightarrow> Some MNilEvent
          | Some e \<Rightarrow>
              if \<not> IsAuthenticated (clientHeap n) c then Some MNotAuthenticated
              else if length (bytes_of (ev_payload e)) > MaxEventPayloadSize then Some MPayloadTooLarge
              else None))"

fun deliver_loop ::
  "ctx \<Rightarrow> event \<Rightarrow> subscriber list \<Rightarrow> delivery_result \<Rightarrow> client_obj list \<Rightarrow> delivery_result \<times> ctx \<times> client_obj list" where
  "deliver_loop ctx event [] r h = (r, ctx, h)"
| "deliver_loop ctx event (s # ss) r h =
     (case poll ctx of
        (True, ctx') \<Rightarrow> (r\<lparr>dr_Errors := dr_Errors r @ [MCtx]\<rparr>, ctx', h)
      | (False, ctx') \<Rightarrow>
          if Type s = LocalClient
          then (case DeliverEvent s event h of
                  (Some err, h') \<Rightarrow> deliver_loop ctx' event ss
                    (r\<lparr>LocalFailures := LocalFailures r + 1, dr_Errors := dr_Errors r @ [err]\<rparr>) h'
                | (None, h') \<Rightarrow> deliver_loop ctx' event ss (r\<lparr>LocalSuccesses := LocalSuccesses r + 1\<rparr>) h')
          else deliver_loop ctx' event ss r h)"

definition deliverToLocalSubscribers :: "ctx \<Rightarrow> event \<Rightarrow> 'l mesh_node \<Rightarrow> delivery_result \<times> ctx \<times> 'l mesh_node" where
  "deliverToLocalSubscribers ctx event n =
     (case GetSubscribers (ev_topic event) (routingTable n) of
        Inl err \<Rightarrow> (no_result\<lparr>dr_Errors := [MRouting err]\<rparr>, ctx, n)
      | Inr localSubscribers \<Rightarrow>
         (case deliver_loop ctx event localSubscribers no_result (clientHeap n) of
            (r, ctx', h) \<Rightarrow> (r, ctx', n\<lparr>clientHeap := h\<rparr>)))"

fun forward_loop ::
  "int \<Rightarrow> ctx \<Rightarrow> event \<Rightarrow> string list \<Rightarrow> delivery_result \<Rightarrow> peer_link \<Rightarrow> delivery_result \<times> ctx \<times> peer_link" where
  "forward_loop now ctx event [] r g = (r, ctx, g)"
| "forward_loop now ctx event (peerID # ps) r g =
     (case poll ctx of
        (True, ctx') \<Rightarrow> (r\<lparr>dr_Errors := dr_Errors r @ [MCtx]\<rparr>, ctx', g)
      | (False, ctx') \<Rightarrow>
         (case poll ctx' of (gave_up, ctx'') \<Rightarrow>
            (case SendEvent now gave_up peerID (Some event) g of
               (Some err, g') \<Rightarrow> forward_loop now ctx'' event ps
                 (r\<lparr>PeerFailures := PeerFailures r + 1, dr_Errors := dr_Errors r @ [MPeer err]\<rparr>) g'
             | (None, g') \<Rightarrow> forward_loop now ctx'' event ps (r\<lparr>PeerSuccesses := PeerSuccesses r + 1\<rparr>) g')))"

definition forwardToPeers ::
  "int \<Rightarrow> ctx \<Rightarrow> event \<Rightarrow> delivery_result \<Rightarrow> 'l mesh_node \<Rightarrow> delivery_result \<times> ctx \<times> 'l mesh_node" where
  "forwardToPeers now ctx event r n =
     (case GetConnectedPeers (peerLink n) of
        Inl err \<Rightarrow> (r\<lparr>dr_Errors := dr_Errors r @ [MPeer err]\<rparr>, ctx, n)
      | Inr connectedPeers \<Rightarrow>
         (case forward_loop now ctx event
                 (map pn_ID (getInterestedPeers (ev_topic event) connectedPeers n)) r (peerLink n) of
            (r', ctx', g) \<Rightarrow> (r', ctx', n\<lparr>peerLink := g\<rparr>)))"

definition PublishEventWithResult ::
  "'l log_ops \<Rightarrow> int \<Rightarrow> ctx \<Rightarrow> subscriber option \<Rightarrow> event option \<Rightarrow> 'l mesh_node \<Rightarrow>
   (mesh_error + event) \<times> 'l mesh_node" where
  "PublishEventWithResult ops now ctx client event n =
     (case validatePublishRequest client event n of
        Some err \<Rightarrow> (Inl err, n)
      | None \<Rightarrow>
          let e = the event in
          (case poll ctx of (cancelled, ctx) \<Rightarrow>
             (case op_AppendEvent ops cancelled (ev_topic e) (Some e) (eventLog n) of
                (Inl err, l) \<Rightarrow> (Inl (MLog err), n\<lparr>eventLog := l\<rparr>)
              | (Inr persistedEvent, l) \<Rightarrow>
                 (case deliverToLocalSubscribers ctx persistedEvent (n\<lparr>eventLog := l\<rparr>) of (r, ctx, n) \<Rightarrow>
                    (case poll ctx of
                       (True, ctx) \<Rightarrow> (Inl MCtx, n)
                     | (False, ctx) \<Rightarrow>
                        (case forwardToPeers now ctx persistedEvent r n of (r, ctx, n) \<Rightarrow>
                           (case poll ctx of
                              (True, ctx) \<Rightarrow> (Inl MCtx, n)
                            | (False, ctx) \<Rightarrow>
                               (case result_Error r of
                                  Some err \<Rightarrow> (Inl err, n)
                                | None \<Rightarrow> (Inr persistedEvent, n)))))))))"

definition PublishEvent ::
  "'l log_ops \<Rightarrow> int \<Rightarrow> ctx \<Rightarrow> subscriber option \<Rightarrow> event option \<Rightarrow> 'l mesh_node \<Rightarrow>
   mesh_error option \<times> 'l mesh_node" where
  "PublishEvent ops now ctx client event n =
     (case PublishEventWithResult ops now ctx client event n of
        (Inl err, n') \<Rightarrow> (Some err, n') | (Inr _, n') \<Rightarrow> (None, n'))"

text \<open>An event from a peer: delivery errors are logged only, and the context is looked at by the log alone.\<close>

fun incoming_loop :: "event \<Rightarrow> subscriber list \<Rightarrow> client_obj list \<Rightarrow> client_obj list" where
  "incoming_loop event [] h = h"
| "incoming_loop event (s # ss) h =
     incoming_loop event ss (if Type s = LocalClient then snd (DeliverEvent s event h) else h)"

definition processIncomingUserEvent ::
  "'l log_ops \<Rightarrow> bool \<Rightarrow> event \<Rightarrow> 'l mesh_node \<Rightarrow> 'l mesh_node" where
  "processIncomingUserEvent ops cancelled event n =
     (if mn_closed n \<or> \<not> mn_started n then n
      else case op_AppendEvent ops cancelled (ev_topic event) (Some event) (eventLog n) of
        (Inl err, l) \<Rightarrow> n\<lparr>eventLog := l\<rparr>
      | (Inr persistedEvent, l) \<Rightarrow>
          let n = n\<lparr>eventLog := l\<rparr> in
          (case GetSubscribers (ev_topic event) (routingTable n) of
             Inl err \<Rightarrow> n
           | Inr localSubscribers \<Rightarrow>
               n\<lparr>clientHeap := incoming_loop persistedEvent localSubscribers (clientHeap n)\<rparr>))"

text \<open>
  One iteration of the two consumer loops: \<open>ctx\<close> says that the \<open>select\<close> takes the context's case,
  \<open>ch\<close> is the channel the peer link gave them (on a closed link there is none, and the loop only logs the
  error). True means the loop goes on.
\<close>

definition data_plane_step :: "'l log_ops \<Rightarrow> bool \<Rightarrow> bool \<Rightarrow> nat \<Rightarrow> 'l mesh_node \<Rightarrow> bool \<times> 'l mesh_node" where
  "data_plane_step ops ctx cancelled ch n =
     (if ctx then (False, n)
      else case try_recv ch (pl_eventChans (peerLink n)) of
        (Item e, h) \<Rightarrow> (True, processIncomingUserEvent ops cancelled e
            (n\<lparr>peerLink := (peerLink n)\<lparr>pl_eventChans := h\<rparr>\<rparr>))
      | (Drained, h) \<Rightarrow> (False, n)
      | (Empty, h) \<Rightarrow> (True, n))"

definition control_plane_step :: "bool \<Rightarrow> nat \<Rightarrow> 'l mesh_node \<Rightarrow> bool \<times> 'l mesh_node" where
  "control_plane_step ctx ch n =
     (if ctx then (False, n)
      else case try_recv ch (pl_interestChans (peerLink n)) of
        (Item m, h) \<Rightarrow> (True, processIncomingInterestMessage (Some m)
            (n\<lparr>peerLink := (peerLink n)\<lparr>pl_interestChans := h\<rparr>\<rparr>))
      | (Drained, h) \<Rightarrow> (False, n)
      | (Empty, h) \<Rightarrow> (True, n))"

end
