(* ===== verification/Mesh_Interest.thy ===== *)
theory Mesh_Interest
  imports Mesh_Node
begin

text \<open>
  What the node knows of its own subscribers and of its peers': the subscription metadata as a set of topics
  per client, its agreement with the routing table, and the received gossip as a set of topics per peer.
\<close>

subsection \<open>Subscription metadata\<close>

lemma subscription_id_inject: "subscription_id c i = subscription_id c j \<longleftrightarrow> i = j"
  by (simp add: subscription_id_def show_int_inject)

definition client_topics :: "'l mesh_node \<Rightarrow> string \<Rightarrow> string set" where
  "client_topics n c = cs_Topic ` snd ` set (gm_get [] (mn_subscriptions n) c)"

definition interest :: "'l mesh_node \<Rightarrow> string set" where
  "interest n = cs_Topic ` set (localSubscriptionSnapshot n)"

text \<open>
  The invariant of the metadata: an id tells the client and the creation time, a client in the map
  has subscriptions, and no topic is empty.
\<close>

definition sub_ok :: "string \<Rightarrow> string \<times> client_subscription \<Rightarrow> bool" where
  "sub_ok c = (\<lambda>(i, s). i = subscription_id c (cs_CreatedAt s) \<and> cs_ID s = i \<and> cs_ClientID s = c
     \<and> cs_Topic s \<noteq> [])"

definition meta_inv :: "'l mesh_node \<Rightarrow> bool" where
  "meta_inv n \<longleftrightarrow> gm_wf (mn_subscriptions n)
     \<and> list_all (\<lambda>(c, subs). subs \<noteq> [] \<and> gm_wf subs \<and> list_all (sub_ok c) subs) (mn_subscriptions n)"

lemma interest_client_topics:
  "meta_inv n \<Longrightarrow> t \<in> interest n \<longleftrightarrow> (\<exists>c. t \<in> client_topics n c)"
proof -
  assume "meta_inv n"
  then have wf: "gm_wf (mn_subscriptions n)" by (simp add: meta_inv_def)
  have "t \<in> interest n \<longleftrightarrow> (\<exists>c subs. (c, subs) \<in> set (mn_subscriptions n) \<and> t \<in> cs_Topic ` snd ` set subs)"
    by (force simp: interest_def localSubscriptionSnapshot_def)
  also have "\<dots> \<longleftrightarrow> (\<exists>c subs. map_of (mn_subscriptions n) c = Some subs \<and> t \<in> cs_Topic ` snd ` set subs)"
    by (simp add: gm_mem_iff [OF wf])
  also have "\<dots> \<longleftrightarrow> (\<exists>c. t \<in> client_topics n c)"
  proof -
    have "t \<in> client_topics n c \<longleftrightarrow>
        (\<exists>subs. map_of (mn_subscriptions n) c = Some subs \<and> t \<in> cs_Topic ` snd ` set subs)" for c
      by (cases "map_of (mn_subscriptions n) c") (simp_all add: client_topics_def gm_get_def)
    then show ?thesis by simp
  qed
  finally show ?thesis .
qed

lemma count_interest: "localTopicInterestCount t n > 0 \<longleftrightarrow> t \<in> interest n"
  by (auto simp: localTopicInterestCount_def interest_def filter_empty_conv)

lemma count_zero: "localTopicInterestCount t n = 0 \<longleftrightarrow> t \<notin> interest n"
  using count_interest [of t n] by auto

lemma snapshot_interest:
  "set (localInterestSnapshot n) = interest n" "sorted (localInterestSnapshot n)"
  "distinct (localInterestSnapshot n)"
  by (simp_all add: localInterestSnapshot_def interest_def uniq_loop_set uniq_loop_distinct)

lemma meta_inv_client:
  "meta_inv n \<Longrightarrow> gm_wf (gm_get [] (mn_subscriptions n) c) \<and> list_all (sub_ok c) (gm_get [] (mn_subscriptions n) c)"
  by (auto simp: meta_inv_def gm_get_def list_all_iff split: option.splits dest: map_of_SomeD)

lemma addSubscriptionMetadata_eq:
  "mn_subscriptions (addSubscriptionMetadata now c i t n) = AList.update c
     (AList.update i \<lparr>cs_ID = i, cs_Topic = t, cs_ClientID = c, cs_CreatedAt = now\<rparr>
       (gm_get [] (mn_subscriptions n) c)) (mn_subscriptions n)"
  by (auto simp: addSubscriptionMetadata_def Let_def gm_get_def gm_update_twice split: option.splits)

lemma addSubscriptionMetadata_inv [inv_intros]:
  assumes "meta_inv n" "t \<noteq> []"
  shows "meta_inv (addSubscriptionMetadata now c (subscription_id c now) t n)"
proof -
  have "list_all (sub_ok c) (AList.update (subscription_id c now)
      \<lparr>cs_ID = subscription_id c now, cs_Topic = t, cs_ClientID = c, cs_CreatedAt = now\<rparr>
      (gm_get [] (mn_subscriptions n) c))"
    using meta_inv_client [OF assms(1), of c] assms(2)
    by (auto simp: list_all_iff gm_set_update sub_ok_def)
  moreover have "AList.update i x m \<noteq> []" for i x and m :: "(string, client_subscription) gomap"
    by (cases m) auto
  ultimately show ?thesis
    using assms meta_inv_client [OF assms(1), of c] unfolding meta_inv_def addSubscriptionMetadata_eq
    by (auto simp: list_all_iff gm_set_update)
qed

text \<open>With an id that is new, subscribing adds one topic to one client.\<close>

lemma addSubscriptionMetadata_topics:
  assumes "meta_inv n" "map_of (gm_get [] (mn_subscriptions n) c) i = None"
  shows "client_topics (addSubscriptionMetadata now c i t n) =
     (client_topics n)(c := insert t (client_topics n c))"
proof
  fix c'
  have "set (AList.update i s (gm_get [] (mn_subscriptions n) c)) =
      insert (i, s) (set (gm_get [] (mn_subscriptions n) c))" for s
    by (simp add: update_fresh [OF assms(2)])
  then show "client_topics (addSubscriptionMetadata now c i t n) c' =
      ((client_topics n)(c := insert t (client_topics n c))) c'"
    by (simp add: client_topics_def addSubscriptionMetadata_eq)
qed

lemma fresh_id:
  assumes "meta_inv n" "\<forall>s \<in> set (localSubscriptionSnapshot n). cs_CreatedAt s \<noteq> now"
  shows "map_of (gm_get [] (mn_subscriptions n) c) (subscription_id c now) = None"
proof (rule ccontr)
  assume "map_of (gm_get [] (mn_subscriptions n) c) (subscription_id c now) \<noteq> None"
  then obtain s where s: "(subscription_id c now, s) \<in> set (gm_get [] (mn_subscriptions n) c)"
    by (auto dest: map_of_SomeD)
  then have "cs_CreatedAt s = now"
    using meta_inv_client [OF assms(1), of c] by (auto simp: list_all_iff sub_ok_def subscription_id_inject)
  moreover have "s \<in> set (localSubscriptionSnapshot n)"
  proof (cases "map_of (mn_subscriptions n) c")
    case (Some subs)
    then have "(c, subs) \<in> set (mn_subscriptions n)" "s \<in> snd ` set subs"
      using s by (auto simp: gm_get_def image_iff dest: map_of_SomeD intro!: bexI [where x = "(subscription_id c now, s)"])
    then show ?thesis
      unfolding localSubscriptionSnapshot_def set_concat set_map by (intro UN_I [of "map snd subs"]) force+
  qed (use s in \<open>simp add: gm_get_def\<close>)
  ultimately show False using assms(2) by blast
qed

lemma removeMetadata_inv [inv_intros]:
  assumes "meta_inv n"
  shows "meta_inv (removeSubscriptionMetadataByTopic c t n)"
proof (cases "map_of (mn_subscriptions n) c")
  case None
  with assms show ?thesis by (simp add: removeSubscriptionMetadataByTopic_def)
next
  case (Some subs)
  then have subs: "gm_wf subs" "list_all (sub_ok c) subs"
    using meta_inv_client [OF assms, of c] by (simp_all add: gm_get_def)
  have "gm_wf (filter P subs)" for P
    using subs(1) by (simp add: gm_wf_def distinct_map_filter)
  with assms subs Some show ?thesis
    by (auto simp: removeSubscriptionMetadataByTopic_def Let_def meta_inv_def list_all_iff
        gm_set_update gm_set_delete)
qed

lemma removeMetadata_topics:
  "client_topics (removeSubscriptionMetadataByTopic c t n) = (client_topics n)(c := client_topics n c - {t})"
proof (cases "map_of (mn_subscriptions n) c")
  case None
  then show ?thesis
    by (auto simp: removeSubscriptionMetadataByTopic_def client_topics_def gm_get_def fun_eq_iff)
next
  case (Some subs)
  have "cs_Topic ` snd ` set (filter (\<lambda>(_, s). cs_Topic s \<noteq> t) subs) = cs_Topic ` snd ` set subs - {t}"
    by force
  moreover have "cs_Topic ` snd ` set subs - {t} = {}" if "filter (\<lambda>(_, s). cs_Topic s \<noteq> t) subs = []"
    using that by (force simp: filter_empty_conv)
  ultimately show ?thesis
    using Some by (auto simp: removeSubscriptionMetadataByTopic_def client_topics_def Let_def gm_get_def fun_eq_iff)
qed

subsection \<open>Received gossip\<close>

definition peer_view :: "'l mesh_node \<Rightarrow> string \<Rightarrow> string set" where
  "peer_view n p = {t. map_of (gm_get [] (peerSubscriptions n) p) t = Some True}"

text \<open>What a message means, for a receiver that keeps a set of topics per node.\<close>

definition apply_message :: "interest_message \<Rightarrow> (string \<Rightarrow> string set) \<Rightarrow> string \<Rightarrow> string set" where
  "apply_message m V =
     (case im_Update m of
        Some u \<Rightarrow>
          if iu_Action u = ''subscribe'' then V(iu_NodeId u := insert (iu_Topic u) (V (iu_NodeId u)))
          else if iu_Action u = ''unsubscribe'' then V(iu_NodeId u := V (iu_NodeId u) - {iu_Topic u})
          else V
      | None \<Rightarrow>
         (case im_Snapshot m of
            Some s \<Rightarrow> V(is_NodeId s := set (is_Topics s) - {[]})
          | None \<Rightarrow> V))"

lemma snapshot_topics_lookup:
  "map_of (snapshot_topics ts m) t = (if t \<in> set ts \<and> t \<noteq> [] then Some True else map_of m t)"
  by (induction ts m rule: snapshot_topics.induct) auto

lemma process_message_view:
  "peer_view (processIncomingInterestMessage (Some m) n) = apply_message m (peer_view n)"
proof (cases "im_Update m")
  case None
  then show ?thesis
    by (auto simp: processIncomingInterestMessage_def apply_message_def processIncomingInterestSnapshot_def
        peer_view_def Let_def fun_eq_iff snapshot_topics_lookup split: option.splits)
next
  case (Some u)
  have get: "gm_get [] (if map_of ps k = None then AList.update k [] ps else ps) k' = gm_get [] ps k'"
    for ps :: "(string, (string, bool) gomap) gomap" and k k'
    by (auto simp: gm_get_def)
  show ?thesis
    using Some
    by (auto simp: processIncomingInterestMessage_def apply_message_def processIncomingInterestUpdate_def
        peer_view_def Let_def fun_eq_iff get gm_get_None)
qed

lemma any_interest_iff:
  "any_interest topic m \<longleftrightarrow> (\<exists>p. (p, True) \<in> set m \<and> pattern_matches p topic)"
  by (induction topic m rule: any_interest.induct) (auto simp: matcher_iffs)

definition peers_wf :: "'l mesh_node \<Rightarrow> bool" where
  "peers_wf n \<longleftrightarrow> list_all (\<lambda>(p, m). gm_wf m) (peerSubscriptions n) \<and> gm_wf (peerSubscriptions n)"

lemma snapshot_topics_wf: "gm_wf m \<Longrightarrow> gm_wf (snapshot_topics ts m)"
  by (induction ts m rule: snapshot_topics.induct) auto

lemma peers_wf_update:
  "peers_wf n \<Longrightarrow> gm_wf m \<Longrightarrow> peerSubscriptions n' = AList.update k m (peerSubscriptions n) \<Longrightarrow> peers_wf n'"
  by (auto simp: peers_wf_def list_all_iff gm_set_update)

lemma peers_wf_get: "peers_wf n \<Longrightarrow> gm_wf (gm_get [] (peerSubscriptions n) k)"
  by (cases "map_of (peerSubscriptions n) k")
    (auto simp: peers_wf_def gm_get_def list_all_iff dest: map_of_SomeD)

lemma process_update_eq:
  "peerSubscriptions (processIncomingInterestUpdate (Some u) n) =
     AList.update (iu_NodeId u)
       (let topics = gm_get [] (peerSubscriptions n) (iu_NodeId u)
        in if iu_Action u = ''subscribe'' then AList.update (iu_Topic u) True topics
           else if iu_Action u = ''unsubscribe'' then AList.delete (iu_Topic u) topics else topics)
       (peerSubscriptions n)"
  by (cases "map_of (peerSubscriptions n) (iu_NodeId u)")
    (simp_all add: processIncomingInterestUpdate_def Let_def gm_update_twice gm_get_None)

lemma process_snapshot_eq:
  "peerSubscriptions (processIncomingInterestSnapshot (Some s) n) =
     AList.update (is_NodeId s) (snapshot_topics (is_Topics s) []) (peerSubscriptions n)"
  by (simp add: processIncomingInterestSnapshot_def Let_def)

lemma process_message_wf [inv_intros]:
  assumes wf: "peers_wf n"
  shows "peers_wf (processIncomingInterestMessage m n)"
proof -
  have "peers_wf (processIncomingInterestUpdate (Some u) n)" for u
    by (rule peers_wf_update [OF wf _ process_update_eq]) (simp add: Let_def peers_wf_get [OF wf])
  moreover have "peers_wf (processIncomingInterestSnapshot (Some s) n)" for s
    by (rule peers_wf_update [OF wf _ process_snapshot_eq]) (simp add: snapshot_topics_wf)
  ultimately show ?thesis
    using wf by (auto simp: processIncomingInterestMessage_def split: option.splits)
qed

lemma interested_iff:
  assumes "peers_wf n"
  shows "(case map_of (peerSubscriptions n) p of None \<Rightarrow> False | Some ts \<Rightarrow> any_interest topic ts)
    \<longleftrightarrow> (\<exists>t \<in> peer_view n p. pattern_matches t topic)"
proof (cases "map_of (peerSubscriptions n) p")
  case (Some ts)
  then have "gm_wf ts"
    using peers_wf_get [OF assms, of p] by (simp add: gm_get_def)
  with Some show ?thesis
    by (simp add: any_interest_iff peer_view_def gm_get_Some gm_mem_iff Bex_def)
qed (simp add: peer_view_def gm_get_def)

end
