(* ===== verification/Mesh_Subs.thy ===== *)
theory Mesh_Subs
  imports Mesh_Interest
begin

text \<open>
  Subscribing and unsubscribing: what each operation does to the routing table and to the metadata, and that
  the two agree after any sequence of requests.
\<close>

subsection \<open>Propagation changes the peer link only\<close>

lemma propagate_loop_frame:
  "\<exists>g k. snd (propagate_loop now ctx u ps (a, b) n) = n\<lparr>peerLink := g, interestUpdatesSent := k\<rparr>"
proof (induction now ctx u ps "(a, b)" n arbitrary: a b rule: propagate_loop.induct)
  case (1 now ctx u a b n)
  have "n = n\<lparr>peerLink := peerLink n, interestUpdatesSent := interestUpdatesSent n\<rparr>" by simp
  then show ?case by (metis propagate_loop.simps(1) snd_conv)
next
  case (2 now ctx u p ps a b n)
  obtain c ctx' where pl: "poll ctx = (c, ctx')" by (cases "poll ctx")
  obtain r g where s: "SendInterestUpdate now c p (Some u) (peerLink n) = (r, g)"
    by (cases "SendInterestUpdate now c p (Some u) (peerLink n)")
  show ?case
  proof (cases r)
    case None
    with 2(1) [OF pl [symmetric] s [symmetric]] pl s show ?thesis by force
  next
    case (Some err)
    with 2(2) [OF pl [symmetric] s [symmetric]] pl s show ?thesis by force
  qed
qed

lemma propagate_frame:
  "\<exists>g k. snd (propagateInterestUpdate now ctx a t n) = n\<lparr>peerLink := g, interestUpdatesSent := k\<rparr>"
proof -
  have same: "n = n\<lparr>peerLink := peerLink n, interestUpdatesSent := interestUpdatesSent n\<rparr>" by simp
  have loop: "\<exists>g k. snd (propagate_loop now ctx u ps (0, 0) n) = n\<lparr>peerLink := g, interestUpdatesSent := k\<rparr>" for u ps
    by (rule propagate_loop_frame)
  have "snd (propagateInterestUpdate now ctx a t n) = n
      \<or> (\<exists>u ps. snd (propagateInterestUpdate now ctx a t n) = snd (propagate_loop now ctx u ps (0, 0) n))"
    unfolding propagateInterestUpdate_def Let_def
    by (auto split: sum.splits prod.splits if_splits) (metis snd_conv)+
  then show ?thesis
    using same loop by metis
qed

subsection \<open>The operations\<close>

definition mesh_sync :: "'l mesh_node \<Rightarrow> bool" where
  "mesh_sync n \<longleftrightarrow> rt_inv (routingTable n) \<and> \<not> rt_closed (routingTable n) \<and> meta_inv n
     \<and> (\<forall>t c. rt_view (routingTable n) (t, c) \<noteq> None \<longleftrightarrow> t \<in> client_topics n c)"

definition stamped_before :: "int \<Rightarrow> 'l mesh_node \<Rightarrow> bool" where
  "stamped_before now n \<longleftrightarrow> list_all (\<lambda>s. cs_CreatedAt s < now) (localSubscriptionSnapshot n)"

lemma metadata_cong:
  assumes "mn_subscriptions n' = mn_subscriptions n"
  shows "client_topics n' = client_topics n" "meta_inv n' = meta_inv n"
    "localSubscriptionSnapshot n' = localSubscriptionSnapshot n" "interest n' = interest n"
    "localTopicInterestCount t n' = localTopicInterestCount t n"
  using assms
  by (simp_all add: client_topics_def fun_eq_iff meta_inv_def localSubscriptionSnapshot_def interest_def
      localTopicInterestCount_def)

lemma mesh_sync_cong:
  "routingTable n' = routingTable n \<Longrightarrow> mn_subscriptions n' = mn_subscriptions n \<Longrightarrow> mesh_sync n' = mesh_sync n"
  using metadata_cong [of n' n] by (simp add: mesh_sync_def)

lemma NodeSubscribe_cases:
  obtains (refused) err where "NodeSubscribe now ctx client topic n = (Some err, n)"
  | (accepted) c rt n1 n2 where "client = Some c" "topic \<noteq> []" "\<not> mn_closed n" "mn_started n"
      "IsAuthenticated (clientHeap n) c"
      "Subscribe topic (Some c) (routingTable n) = (None, rt)"
      "n1 = addSubscriptionMetadata now (ID c) (subscription_id (ID c) now) topic
         (n\<lparr>routingTable := rt, clients := AList.update (ID c) c (clients n)\<rparr>)"
      "n2 = (if topic \<in> interest n then n1 else snd (propagateInterestUpdate now ctx ''subscribe'' topic n1))"
      "NodeSubscribe now ctx client topic n = (None, n2)"
proof (cases client)
  case None
  then have "\<exists>err. NodeSubscribe now ctx client topic n = (Some err, n)"
    by (simp add: NodeSubscribe_def)
  with refused show ?thesis by blast
next
  case (Some c)
  obtain r rt where rt: "Subscribe topic (Some c) (routingTable n) = (r, rt)"
    by (cases "Subscribe topic (Some c) (routingTable n)")
  show ?thesis
  proof (cases "mn_closed n \<or> \<not> mn_started n \<or> topic = [] \<or> \<not> IsAuthenticated (clientHeap n) c \<or> r \<noteq> None")
    case True
    have "n\<lparr>routingTable := rt\<rparr> = n" if "r \<noteq> None"
      using that rt rt.sub_error by (cases r) auto
    with True Some rt have "\<exists>err. NodeSubscribe now ctx client topic n = (Some err, n)"
      by (cases r) (auto simp: NodeSubscribe_def)
    with refused show ?thesis by blast
  next
    case False
    then have r: "r = None" by blast
    show ?thesis
      using accepted [OF Some _ _ _ _ rt [unfolded r] refl refl] False Some rt
      by (simp add: NodeSubscribe_def Let_def count_interest split: if_splits)
  qed
qed

lemma NodeUnsubscribe_cases:
  obtains (refused) err where "NodeUnsubscribe now ctx client topic n = (Some err, n)"
  | (accepted) c rt n1 n2 where "client = Some c" "topic \<noteq> []" "\<not> mn_closed n" "mn_started n"
      "IsAuthenticated (clientHeap n) c"
      "Unsubscribe topic (ID c) (routingTable n) = (None, rt)"
      "n1 = removeSubscriptionMetadataByTopic (ID c) topic (n\<lparr>routingTable := rt\<rparr>)"
      "n2 = (if topic \<in> interest n1 then n1 else snd (propagateInterestUpdate now ctx ''unsubscribe'' topic n1))"
      "NodeUnsubscribe now ctx client topic n = (None, n2)"
proof (cases client)
  case None
  then have "\<exists>err. NodeUnsubscribe now ctx client topic n = (Some err, n)"
    by (simp add: NodeUnsubscribe_def)
  with refused show ?thesis by blast
next
  case (Some c)
  obtain r rt where rt: "Unsubscribe topic (ID c) (routingTable n) = (r, rt)"
    by (cases "Unsubscribe topic (ID c) (routingTable n)")
  show ?thesis
  proof (cases "mn_closed n \<or> \<not> mn_started n \<or> topic = [] \<or> \<not> IsAuthenticated (clientHeap n) c \<or> r \<noteq> None")
    case True
    have "n\<lparr>routingTable := rt\<rparr> = n" if "r \<noteq> None"
      using that rt rt.unsub_error by (cases r) auto
    with True Some rt have "\<exists>err. NodeUnsubscribe now ctx client topic n = (Some err, n)"
      by (cases r) (auto simp: NodeUnsubscribe_def)
    with refused show ?thesis by blast
  next
    case False
    then have r: "r = None" by blast
    show ?thesis
      using accepted [OF Some _ _ _ _ rt [unfolded r] refl refl] False Some rt
      by (simp add: NodeUnsubscribe_def Let_def count_zero split: if_splits)
  qed
qed

lemma add_metadata_frame [simp]:
  "routingTable (addSubscriptionMetadata now c i t n) = routingTable n"
  "peerLink (addSubscriptionMetadata now c i t n) = peerLink n"
  "mn_config (addSubscriptionMetadata now c i t n) = mn_config n"
  by (simp_all add: addSubscriptionMetadata_def Let_def)

lemma remove_metadata_frame [simp]:
  "routingTable (removeSubscriptionMetadataByTopic c t n) = routingTable n"
  "peerLink (removeSubscriptionMetadataByTopic c t n) = peerLink n"
  "mn_config (removeSubscriptionMetadataByTopic c t n) = mn_config n"
  by (simp_all add: removeSubscriptionMetadataByTopic_def Let_def split: option.splits)

lemma optional_propagate_frame:
  assumes "n2 = (if b then n1 else snd (propagateInterestUpdate now ctx a t n1))"
  shows "routingTable n2 = routingTable n1" "mn_subscriptions n2 = mn_subscriptions n1"
    "mn_config n2 = mn_config n1" "clientHeap n2 = clientHeap n1" "mn_started n2 = mn_started n1"
    "mn_closed n2 = mn_closed n1" "clients n2 = clients n1" "eventLog n2 = eventLog n1"
proof -
  obtain g k where frame: "snd (propagateInterestUpdate now ctx a t n1) = n1\<lparr>peerLink := g, interestUpdatesSent := k\<rparr>"
    using propagate_frame by blast
  show "routingTable n2 = routingTable n1" "mn_subscriptions n2 = mn_subscriptions n1"
    "mn_config n2 = mn_config n1" "clientHeap n2 = clientHeap n1" "mn_started n2 = mn_started n1"
    "mn_closed n2 = mn_closed n1" "clients n2 = clients n1" "eventLog n2 = eventLog n1"
    by (simp_all add: assms frame)
qed

lemma snapshot_mem:
  "s \<in> set (localSubscriptionSnapshot n) \<longleftrightarrow>
     (\<exists>c m i. (c, m) \<in> set (mn_subscriptions n) \<and> (i, s) \<in> set m)"
  by (force simp: localSubscriptionSnapshot_def)

lemma snapshot_get:
  "(i, s) \<in> set (gm_get [] (mn_subscriptions n) c) \<Longrightarrow> s \<in> set (localSubscriptionSnapshot n)"
  by (cases "map_of (mn_subscriptions n) c") (auto simp: gm_get_def snapshot_mem dest: map_of_SomeD)

lemma add_metadata_snapshot:
  assumes "meta_inv n" "s \<in> set (localSubscriptionSnapshot (addSubscriptionMetadata now c i t n))"
  shows "s \<in> set (localSubscriptionSnapshot n) \<or> cs_CreatedAt s = now"
proof -
  have wf: "gm_wf (mn_subscriptions n)" "gm_wf (gm_get [] (mn_subscriptions n) c)"
    using assms(1) meta_inv_client [OF assms(1)] by (auto simp: meta_inv_def)
  obtain c' m j where m: "(c', m) \<in> set (mn_subscriptions (addSubscriptionMetadata now c i t n))" "(j, s) \<in> set m"
    using assms(2) by (auto simp: snapshot_mem)
  then consider "(c', m) \<in> set (mn_subscriptions n)"
    | "m = AList.update i \<lparr>cs_ID = i, cs_Topic = t, cs_ClientID = c, cs_CreatedAt = now\<rparr>
         (gm_get [] (mn_subscriptions n) c)"
    by (auto simp: addSubscriptionMetadata_eq gm_set_update [OF wf(1)])
  then show ?thesis
  proof cases
    case 1
    with m(2) show ?thesis by (auto simp: snapshot_mem)
  next
    case 2
    with m(2) show ?thesis by (auto simp: gm_set_update [OF wf(2)] dest: snapshot_get)
  qed
qed

lemma remove_metadata_snapshot:
  assumes "meta_inv n" "s \<in> set (localSubscriptionSnapshot (removeSubscriptionMetadataByTopic c t n))"
  shows "s \<in> set (localSubscriptionSnapshot n)"
proof (cases "map_of (mn_subscriptions n) c")
  case None
  with assms show ?thesis by (simp add: removeSubscriptionMetadataByTopic_def)
next
  case (Some subs)
  have wf: "gm_wf (mn_subscriptions n)"
    using assms(1) by (simp add: meta_inv_def)
  obtain c' m j where m: "(c', m) \<in> set (mn_subscriptions (removeSubscriptionMetadataByTopic c t n))" "(j, s) \<in> set m"
    using assms(2) by (auto simp: snapshot_mem)
  then have "(c', m) \<in> set (mn_subscriptions n) \<or> m = filter (\<lambda>(_, s). cs_Topic s \<noteq> t) subs"
    using Some by (auto simp: removeSubscriptionMetadataByTopic_def Let_def gm_set_delete gm_set_update [OF wf]
        split: if_splits)
  then show ?thesis
    using m(2) map_of_SomeD [OF Some] by (auto simp: snapshot_mem) blast
qed

text \<open>One request keeps the routing table and the metadata in agreement.\<close>

lemma NodeSubscribe_sync:
  assumes "mesh_sync n" "stamped_before now n"
  shows "mesh_sync (snd (NodeSubscribe now ctx client topic n))"
    and "now < later \<Longrightarrow> stamped_before later (snd (NodeSubscribe now ctx client topic n))"
proof -
  have stamp: "stamped_before later n" if "now < later"
    using assms(2) that by (auto simp: stamped_before_def list_all_iff)
  have both: "mesh_sync (snd (NodeSubscribe now ctx client topic n))
    \<and> (now < later \<longrightarrow> stamped_before later (snd (NodeSubscribe now ctx client topic n)))"
  proof (cases rule: NodeSubscribe_cases [of now ctx client topic n, case_names refused accepted])
    case (refused err)
    with assms stamp show ?thesis by simp
  next
    case (accepted c rt n1 n2)
    let ?n0 = "n\<lparr>routingTable := rt, clients := AList.update (ID c) c (clients n)\<rparr>"
    have meta: "meta_inv ?n0"
      using assms(1) metadata_cong(2) [of ?n0 n] by (simp add: mesh_sync_def)
    have rt: "rt_inv rt" "\<not> rt_closed rt" "rt_view rt = (rt_view (routingTable n))((topic, ID c) \<mapsto> c)"
      using rt.sub_value [of "routingTable n" topic c] assms(1) accepted(2,6) by (auto simp: mesh_sync_def)
    have "map_of (gm_get [] (mn_subscriptions ?n0) (ID c)) (subscription_id (ID c) now) = None"
      using assms by (intro fresh_id [OF meta]) (auto simp: stamped_before_def list_all_iff
          metadata_cong(3) [of ?n0 n])
    then have topics: "client_topics n1 = (client_topics n)(ID c := insert topic (client_topics n (ID c)))"
      using addSubscriptionMetadata_topics [OF meta] accepted(7) metadata_cong(1) [of ?n0 n] by simp
    have n1: "routingTable n1 = rt" "meta_inv n1"
      using accepted(2,7) meta by (auto intro: inv_intros)
    have "mesh_sync n1"
      using assms(1) rt n1 topics by (auto simp: mesh_sync_def)
    moreover have "stamped_before later n1" if "now < later"
      using add_metadata_snapshot [OF meta] assms(2) that accepted(7) metadata_cong(3) [of ?n0 n]
      by (fastforce simp: stamped_before_def list_all_iff)
    ultimately show ?thesis
      using optional_propagate_frame [OF accepted(8)] mesh_sync_cong [of n2 n1] metadata_cong(3) [of n2 n1]
        accepted(9) by (simp add: stamped_before_def)
  qed
  show "mesh_sync (snd (NodeSubscribe now ctx client topic n))"
    and "now < later \<Longrightarrow> stamped_before later (snd (NodeSubscribe now ctx client topic n))"
    using both by blast+
qed

lemma NodeUnsubscribe_sync:
  assumes "mesh_sync n" "stamped_before now n"
  shows "mesh_sync (snd (NodeUnsubscribe now ctx client topic n))"
    and "now \<le> later \<Longrightarrow> stamped_before later (snd (NodeUnsubscribe now ctx client topic n))"
proof -
  have stamp: "stamped_before later n" if "now \<le> later"
    using assms(2) that by (auto simp: stamped_before_def list_all_iff)
  have both: "mesh_sync (snd (NodeUnsubscribe now ctx client topic n))
    \<and> (now \<le> later \<longrightarrow> stamped_before later (snd (NodeUnsubscribe now ctx client topic n)))"
  proof (cases rule: NodeUnsubscribe_cases [of now ctx client topic n, case_names refused accepted])
    case (refused err)
    with assms stamp show ?thesis by simp
  next
    case (accepted c rt n1 n2)
    let ?n0 = "n\<lparr>routingTable := rt\<rparr>"
    have meta: "meta_inv ?n0"
      using assms(1) metadata_cong(2) [of ?n0 n] by (simp add: mesh_sync_def)
    have rt: "rt_inv rt" "\<not> rt_closed rt" "rt_view rt = (rt_view (routingTable n))((topic, ID c) := None)"
      using rt.unsub_value [of "routingTable n" topic "ID c"] assms(1) accepted(6) by (auto simp: mesh_sync_def)
    have topics: "client_topics n1 = (client_topics n)(ID c := client_topics n (ID c) - {topic})"
      using removeMetadata_topics [of "ID c" topic ?n0] accepted(7) metadata_cong(1) [of ?n0 n] by simp
    have n1: "routingTable n1 = rt" "meta_inv n1"
      using accepted(7) meta by (auto intro: inv_intros)
    have "mesh_sync n1"
      using assms(1) rt n1 topics by (auto simp: mesh_sync_def split: if_splits)
    moreover have "stamped_before later n1" if "now \<le> later"
      using remove_metadata_snapshot [OF meta] stamp [OF that] accepted(7) metadata_cong(3) [of ?n0 n]
      by (fastforce simp: stamped_before_def list_all_iff)
    ultimately show ?thesis
      using optional_propagate_frame [OF accepted(8)] mesh_sync_cong [of n2 n1] metadata_cong(3) [of n2 n1]
        accepted(9) by (simp add: stamped_before_def)
  qed
  show "mesh_sync (snd (NodeUnsubscribe now ctx client topic n))"
    and "now \<le> later \<Longrightarrow> stamped_before later (snd (NodeUnsubscribe now ctx client topic n))"
    using both by blast+
qed

subsection \<open>Sequences of requests\<close>

datatype node_req =
    SubReq "subscriber option" string
  | UnsubReq "subscriber option" string
  | UnsubIdReq string string

fun node_step :: "int \<times> ctx \<times> node_req \<Rightarrow> 'l mesh_node \<Rightarrow> 'l mesh_node" where
  "node_step (now, ctx, SubReq c t) n = snd (NodeSubscribe now ctx c t n)"
| "node_step (now, ctx, UnsubReq c t) n = snd (NodeUnsubscribe now ctx c t n)"
| "node_step (now, ctx, UnsubIdReq c i) n = snd (UnsubscribeByID now ctx c i n)"

lemma UnsubscribeByID_cases:
  "snd (UnsubscribeByID now ctx c i n) = n
   \<or> (\<exists>client t. snd (UnsubscribeByID now ctx c i n) = snd (NodeUnsubscribe now ctx client t n))"
  by (auto simp: UnsubscribeByID_def split: option.splits)

lemma node_step_sync:
  assumes "mesh_sync n" "stamped_before now n"
  shows "mesh_sync (node_step (now, ctx, q) n)"
    and "now < later \<Longrightarrow> stamped_before later (node_step (now, ctx, q) n)"
proof -
  have stamp: "stamped_before later n" if "now < later"
    using assms(2) that by (auto simp: stamped_before_def list_all_iff)
  have "mesh_sync (node_step (now, ctx, q) n)
    \<and> (now < later \<longrightarrow> stamped_before later (node_step (now, ctx, q) n))"
  proof (cases q)
    case (SubReq c t)
    with NodeSubscribe_sync [OF assms] show ?thesis by simp
  next
    case (UnsubReq c t)
    with NodeUnsubscribe_sync [OF assms] show ?thesis by simp
  next
    case (UnsubIdReq c i)
    with UnsubscribeByID_cases [of now ctx c i n] NodeUnsubscribe_sync [OF assms] assms(1) stamp
    show ?thesis by auto
  qed
  then show "mesh_sync (node_step (now, ctx, q) n)"
    and "now < later \<Longrightarrow> stamped_before later (node_step (now, ctx, q) n)" by blast+
qed

lemma node_run_sync:
  "mesh_sync n \<Longrightarrow> sorted_wrt (<) (map fst qs) \<Longrightarrow> (qs \<noteq> [] \<longrightarrow> stamped_before (fst (hd qs)) n) \<Longrightarrow>
   mesh_sync (fold node_step qs n)"
proof (induction qs arbitrary: n)
  case (Cons q qs)
  obtain now ctx r where q: "q = (now, ctx, r)" by (cases q)
  have "mesh_sync (node_step q n)"
    unfolding q using Cons.prems q by (intro node_step_sync) auto
  moreover have "qs \<noteq> [] \<longrightarrow> stamped_before (fst (hd qs)) (node_step q n)"
    unfolding q using Cons.prems q by (auto intro!: node_step_sync(2))
  ultimately show ?case
    using Cons.IH Cons.prems(2) by simp
qed simp

lemma new_node_sync:
  "NewGRPCMeshNode l f c = Inr n \<Longrightarrow> mesh_sync (n\<lparr>mn_started := b\<rparr>) \<and> stamped_before now (n\<lparr>mn_started := b\<rparr>)"
  by (auto simp: NewGRPCMeshNode_def mesh_sync_def stamped_before_def meta_inv_def client_topics_def rt_view_def
      gm_get_def localSubscriptionSnapshot_def NewInMemoryRoutingTable_def rt_inv_def Let_def
      split: option.splits sum.splits)

text \<open>
  C17. What clients asked for is what they get. After any sequence of subscribe and unsubscribe requests to a
  started node (by topic or by id, accepted or refused, the clock advancing between them), a client is
  among the subscribers the routing table returns for a topic exactly when it holds a subscription
  whose pattern matches the topic.
\<close>

theorem routing_matches_subscriptions:
  assumes new: "NewGRPCMeshNode l f c = Inr n0" and clock: "sorted_wrt (<) (map fst qs)"
    and n: "n = fold node_step qs (n0\<lparr>mn_started := True\<rparr>)"
  shows "\<exists>ss. GetSubscribers topic (routingTable n) = Inr ss
    \<and> (\<forall>i. i \<in> ID ` set ss \<longleftrightarrow> (\<exists>s. s \<in> set (GetClientSubscriptions i n) \<and> pattern_matches (cs_Topic s) topic))"
proof -
  have sync: "mesh_sync n"
    unfolding n using new_node_sync [OF new] clock by (intro node_run_sync) auto
  then have ok: "rt_inv (routingTable n)" "\<not> rt_closed (routingTable n)"
    and agree: "\<And>t i. rt_view (routingTable n) (t, i) \<noteq> None \<longleftrightarrow> t \<in> client_topics n i"
    by (auto simp: mesh_sync_def)
  obtain ss where ss: "GetSubscribers topic (routingTable n) = Inr ss"
    using rt.lookup_value [OF ok] by blast
  have "i \<in> ID ` set ss \<longleftrightarrow> (\<exists>t. t \<in> client_topics n i \<and> pattern_matches t topic)" for i
  proof -
    have "i \<in> ID ` set ss \<longleftrightarrow> (\<exists>s p. ID s = i \<and> pattern_matches p topic \<and> rt_view (routingTable n) (p, i) = Some s)"
      using rt.lookup_mem [OF ok ss] by auto
    also have "\<dots> \<longleftrightarrow> (\<exists>p. pattern_matches p topic \<and> rt_view (routingTable n) (p, i) \<noteq> None)"
      using rt.view_id [OF ok(1)] by auto
    finally show ?thesis using agree by blast
  qed
  moreover have "client_topics n i = cs_Topic ` set (GetClientSubscriptions i n)" for i
    by (cases "map_of (mn_subscriptions n) i")
      (simp_all add: client_topics_def GetClientSubscriptions_def gm_get_def)
  ultimately show ?thesis using ss by auto
qed

definition demo_mesh_config :: mesh_config where
  "demo_mesh_config = NewConfig ''n1'' '':7000''"

definition demo_node :: "mem_log mesh_node" where
  "demo_node = (case NewGRPCMeshNode NewInMemoryEventLog None (Some demo_mesh_config) of Inr n \<Rightarrow> n)"

lemma demo_node_new: "NewGRPCMeshNode NewInMemoryEventLog None (Some demo_mesh_config) = Inr demo_node"
  by (simp add: demo_node_def NewGRPCMeshNode_def demo_mesh_config_def NewConfig_def ValidateConfig_def
      NewGRPCPeerLink_def Validate_def default_link_config_def SetDefaults_def)

theorem routing_matches_subscriptions_witness:
  "\<exists>ss. GetSubscribers ''o.x'' (routingTable (fold node_step
       [(1, None, SubReq (Some (TrustedClient ''a'' 0)) ''o.*''), (2, None, UnsubReq (Some (TrustedClient ''b'' 1)) ''o.*'')]
       (demo_node\<lparr>mn_started := True\<rparr>))) = Inr ss"
  using routing_matches_subscriptions [OF demo_node_new _ refl,
      of "[(1, None, SubReq (Some (TrustedClient ''a'' 0)) ''o.*''),
           (2, None, UnsubReq (Some (TrustedClient ''b'' 1)) ''o.*'')]" "''o.x''"]
  by auto

text \<open>
  C30. Unsubscribing by id removes more than the subscription named: every subscription of that client with
  the same topic goes, under whatever id, and the client leaves the routing table for that topic; its
  subscriptions to other topics stay.
\<close>

theorem unsubscribe_by_id_removes_topic:
  assumes sync: "mesh_sync n" and node: "mn_started n" "\<not> mn_closed n"
    and sub: "map_of (gm_get [] (mn_subscriptions n) c) i = Some s"
    and client: "map_of (clients n) c = Some cl" "ID cl = c" "IsAuthenticated (clientHeap n) cl"
  shows "\<exists>n'. UnsubscribeByID now ctx c i n = (None, n')
    \<and> GetClientSubscriptions c n' = filter (\<lambda>s'. cs_Topic s' \<noteq> cs_Topic s) (GetClientSubscriptions c n)
    \<and> rt_view (routingTable n') (cs_Topic s, c) = None"
proof -
  obtain subs where subs: "map_of (mn_subscriptions n) c = Some subs" "map_of subs i = Some s"
    using sub by (cases "map_of (mn_subscriptions n) c") (auto simp: gm_get_def)
  have topic: "cs_Topic s \<noteq> []"
    using meta_inv_client [of n c] sync map_of_SomeD [OF subs(2)] subs(1)
    by (auto simp: mesh_sync_def gm_get_def list_all_iff sub_ok_def)
  have eq: "UnsubscribeByID now ctx c i n = NodeUnsubscribe now ctx (Some cl) (cs_Topic s) n"
    using subs client by (simp add: UnsubscribeByID_def)
  obtain rt where rt: "Unsubscribe (cs_Topic s) c (routingTable n) = (None, rt)"
    "rt_view rt = (rt_view (routingTable n))((cs_Topic s, c) := None)"
    using rt.unsub_value [of "routingTable n" "cs_Topic s" c] sync by (auto simp: mesh_sync_def)
  show ?thesis
  proof (cases rule: NodeUnsubscribe_cases [of now ctx "Some cl" "cs_Topic s" n, case_names refused accepted])
    case (refused err)
    with node topic client rt show ?thesis
      by (simp add: NodeUnsubscribe_def Let_def split: if_splits)
  next
    case (accepted c' rt' n1 n2)
    have "GetClientSubscriptions c n1 = filter (\<lambda>s'. cs_Topic s' \<noteq> cs_Topic s) (GetClientSubscriptions c n)"
      using accepted(1,7) subs client(2)
      by (auto simp: GetClientSubscriptions_def removeSubscriptionMetadataByTopic_def Let_def filter_map comp_def
          case_prod_beta')
    with accepted rt client(2) eq optional_propagate_frame [OF accepted(8)] show ?thesis
      by (auto simp: GetClientSubscriptions_def)
  qed
qed

theorem unsubscribe_by_id_removes_topic_witness:
  "\<exists>n'. UnsubscribeByID 9 None ''a'' (subscription_id ''a'' 1)
      (fold node_step [(1, None, SubReq (Some (TrustedClient ''a'' 0)) ''t''),
         (2, None, SubReq (Some (TrustedClient ''a'' 0)) ''t'')] (demo_node\<lparr>mn_started := True\<rparr>)) = (None, n')
      \<and> GetClientSubscriptions ''a'' n' = []"
proof -
  let ?qs = "[(1, None, SubReq (Some (TrustedClient ''a'' 0)) ''t''), (2, None, SubReq (Some (TrustedClient ''a'' 0)) ''t'')]"
  let ?n = "fold node_step ?qs (demo_node\<lparr>mn_started := True\<rparr>)"
  have sync: "mesh_sync ?n"
    using new_node_sync [OF demo_node_new] by (intro node_run_sync) auto
  have eval: "mn_started ?n" "\<not> mn_closed ?n" "map_of (clients ?n) ''a'' = Some (TrustedClient ''a'' 0)"
    "gm_get [] (mn_subscriptions ?n) ''a'' =
       [(subscription_id ''a'' 1, \<lparr>cs_ID = subscription_id ''a'' 1, cs_Topic = ''t'', cs_ClientID = ''a'', cs_CreatedAt = 1\<rparr>),
        (subscription_id ''a'' 2, \<lparr>cs_ID = subscription_id ''a'' 2, cs_Topic = ''t'', cs_ClientID = ''a'', cs_CreatedAt = 2\<rparr>)]"
    by (simp_all add: demo_node_def NewGRPCMeshNode_def demo_mesh_config_def NewConfig_def ValidateConfig_def
        NewGRPCPeerLink_def Validate_def default_link_config_def SetDefaults_def NodeSubscribe_def Subscribe_def
        NewInMemoryRoutingTable_def put_subscriber_def Let_def gm_get_def addSubscriptionMetadata_def
        localTopicInterestCount_def localSubscriptionSnapshot_def propagateInterestUpdate_def GetConnectedPeers_def
        subscription_id_inject)
  then have subs: "GetClientSubscriptions ''a'' ?n =
      [\<lparr>cs_ID = subscription_id ''a'' 1, cs_Topic = ''t'', cs_ClientID = ''a'', cs_CreatedAt = 1\<rparr>,
       \<lparr>cs_ID = subscription_id ''a'' 2, cs_Topic = ''t'', cs_ClientID = ''a'', cs_CreatedAt = 2\<rparr>]"
    by (cases "map_of (mn_subscriptions ?n) ''a''") (simp_all add: GetClientSubscriptions_def gm_get_def)
  have "map_of (gm_get [] (mn_subscriptions ?n) ''a'') (subscription_id ''a'' 1) =
      Some \<lparr>cs_ID = subscription_id ''a'' 1, cs_Topic = ''t'', cs_ClientID = ''a'', cs_CreatedAt = 1\<rparr>"
    unfolding eval(4) by simp
  from unsubscribe_by_id_removes_topic [OF sync eval(1,2) this eval(3), of 9 None] show ?thesis
    unfolding subs by auto
qed

end
