(* ===== verification/Mesh_Delivery.thy ===== *)
theory Mesh_Delivery
  imports Mesh_Publish Mesh_Subs Peer_Props
begin

text \<open>
  Publishing: an event is stored before anything is delivered or forwarded, it is stored once, and a publish
  that succeeds has reached every matching local client and the queue of every interested peer.
\<close>

subsection \<open>Local delivery\<close>

fun delivered_as :: "subscriber \<Rightarrow> event \<Rightarrow> event" where
  "delivered_as (TrustedClient i a) e = Copy e"
| "delivered_as s e = e"

definition chan_of :: "client_obj list \<Rightarrow> nat \<Rightarrow> event chan" where
  "chan_of h a = co_chan (client_at h a)"

lemma client_at_update: "client_at (h[a := x]) b = (if b = a \<and> a < length h then x else client_at h b)"
  by (auto simp: client_at_def)

lemma DeliverEvent_success:
  assumes "DeliverEvent s e h = (None, h')" "\<forall>a. client_addr s = Some a \<longrightarrow> a < length h"
  obtains a where "client_addr s = Some a" "length (ch_items (chan_of h a)) < ch_cap (chan_of h a)"
    "length h' = length h"
    "\<And>b. chan_of h' b = (if b = a then (chan_of h a)\<lparr>ch_items := ch_items (chan_of h a) @ [delivered_as s e]\<rparr>
       else chan_of h b)"
  using assms
  by (cases s) (auto simp: Let_def chan_push_def chan_of_def client_at_update split: if_splits)

lemma DeliverEvent_room:
  assumes "client_addr s = Some a" "length (ch_items (chan_of h a)) < ch_cap (chan_of h a)"
  shows "fst (DeliverEvent s e h) = None"
  using assms by (cases s) (auto simp: Let_def chan_push_def chan_of_def)

lemma DeliverEvent_length: "length (snd (DeliverEvent s e h)) = length h"
  by (cases s) (auto simp: Let_def split: prod.splits bool.splits)

definition valid_subscribers :: "subscriber list \<Rightarrow> client_obj list \<Rightarrow> bool" where
  "valid_subscribers ss h \<longleftrightarrow> list_all (\<lambda>s. case client_addr s of None \<Rightarrow> True | Some a \<Rightarrow> a < length h) ss"

lemma valid_subscribers_Cons:
  "valid_subscribers (s # ss) h \<longleftrightarrow> (\<forall>a. client_addr s = Some a \<longrightarrow> a < length h) \<and> valid_subscribers ss h"
  by (auto simp: valid_subscribers_def split: option.splits)

lemma valid_subscribers_cong: "length h1 = length h \<Longrightarrow> valid_subscribers ss h1 = valid_subscribers ss h"
  by (simp add: valid_subscribers_def cong: option.case_cong)

definition addressed_to :: "nat \<Rightarrow> subscriber list \<Rightarrow> subscriber list" where
  "addressed_to a ss = filter (\<lambda>s. client_addr s = Some a) ss"

lemma addr_local: "client_addr s = Some a \<Longrightarrow> Type s = LocalClient"
  by (cases s) auto

text \<open>A loop without failures puts one copy into a client's channel per entry for that client.\<close>

lemma deliver_loop_no_failure:
  assumes "deliver_loop None e ss r h = (r', ctx', h')" "LocalFailures r' = LocalFailures r"
    and "valid_subscribers ss h"
  shows "ctx' = None \<and> length h' = length h \<and> PeerFailures r' = PeerFailures r
    \<and> ch_items (chan_of h' a) = ch_items (chan_of h a) @ map (\<lambda>s. delivered_as s e) (addressed_to a ss)"
proof -
  have mono: "LocalFailures r \<le> LocalFailures r'" if "deliver_loop None e ss r h = (r', ctx', h')" for ss r h
    using that
  proof (induction ss arbitrary: r h)
    case (Cons s ss)
    show ?case
    proof (cases "Type s = LocalClient")
      case True
      obtain err h1 where d: "DeliverEvent s e h = (err, h1)" by (cases "DeliverEvent s e h")
      show ?thesis
        using Cons.prems True d Cons.IH [of "r\<lparr>LocalSuccesses := LocalSuccesses r + 1\<rparr>" h1]
          Cons.IH [of "r\<lparr>LocalFailures := LocalFailures r + 1, dr_Errors := dr_Errors r @ [the err]\<rparr>" h1]
        by (cases err) auto
    next
      case False
      with Cons show ?thesis by auto
    qed
  qed simp
  show ?thesis
    using assms
  proof (induction ss arbitrary: r h)
    case Nil
    then show ?case by (simp add: addressed_to_def)
  next
    case (Cons s ss)
    show ?case
    proof (cases "Type s = LocalClient")
      case False
      then have "client_addr s = None"
        by (cases s) auto
      with False Cons show ?thesis by (auto simp: addressed_to_def valid_subscribers_Cons)
    next
      case True
      obtain err h1 where d: "DeliverEvent s e h = (err, h1)" by (cases "DeliverEvent s e h")
      show ?thesis
      proof (cases err)
        case (Some x)
        let ?r = "r\<lparr>LocalFailures := LocalFailures r + 1, dr_Errors := dr_Errors r @ [x]\<rparr>"
        have "deliver_loop None e ss ?r h1 = (r', ctx', h')"
          using Cons.prems(1) True d Some by simp
        from mono [OF this] Cons.prems(2) show ?thesis by simp
      next
        case None
        have v: "\<forall>b. client_addr s = Some b \<longrightarrow> b < length h"
          using Cons.prems(3) by (auto simp: valid_subscribers_Cons)
        obtain b where b: "client_addr s = Some b" "length h1 = length h"
          "\<And>c. chan_of h1 c = (if c = b then (chan_of h b)\<lparr>ch_items := ch_items (chan_of h b) @ [delivered_as s e]\<rparr>
             else chan_of h c)"
          using DeliverEvent_success [OF d [unfolded None] v] by metis
        have "deliver_loop None e ss (r\<lparr>LocalSuccesses := LocalSuccesses r + 1\<rparr>) h1 = (r', ctx', h')"
          using Cons.prems(1) True d None by simp
        from Cons.IH [OF this] Cons.prems(2,3) b show ?thesis
          by (auto simp: valid_subscribers_Cons valid_subscribers_cong [OF b(2)] addressed_to_def)
      qed
    qed
  qed
qed

text \<open>With room in every channel addressed, no delivery fails.\<close>

lemma deliver_loop_room:
  assumes "valid_subscribers ss h" "list_all (\<lambda>s. Type s = PeerNode \<or> client_addr s \<noteq> None) ss"
    and "\<And>a. length (ch_items (chan_of h a)) + length (addressed_to a ss) \<le> ch_cap (chan_of h a)"
  shows "LocalFailures (fst (deliver_loop None e ss r h)) = LocalFailures r"
  using assms
proof (induction ss arbitrary: r h)
  case (Cons s ss)
  show ?case
  proof (cases "Type s = LocalClient")
    case False
    then have "client_addr s = None"
      by (cases s) auto
    with False Cons show ?thesis by (auto simp: addressed_to_def valid_subscribers_Cons)
  next
    case True
    then obtain a where a: "client_addr s = Some a"
      using Cons.prems(2) by auto
    have "length (ch_items (chan_of h a)) < ch_cap (chan_of h a)"
      using Cons.prems(3) [of a] a by (simp add: addressed_to_def)
    then obtain h1 where d: "DeliverEvent s e h = (None, h1)"
      using DeliverEvent_room [OF a] by (metis prod.collapse)
    have v: "\<forall>b. client_addr s = Some b \<longrightarrow> b < length h"
      using Cons.prems(1) by (auto simp: valid_subscribers_Cons)
    obtain b where b: "client_addr s = Some b" "length h1 = length h"
      "\<And>c. chan_of h1 c = (if c = b then (chan_of h b)\<lparr>ch_items := ch_items (chan_of h b) @ [delivered_as s e]\<rparr>
         else chan_of h c)"
      using DeliverEvent_success [OF d v] by metis
    have "LocalFailures (fst (deliver_loop None e ss (r\<lparr>LocalSuccesses := LocalSuccesses r + 1\<rparr>) h1)) =
        LocalFailures (r\<lparr>LocalSuccesses := LocalSuccesses r + 1\<rparr>)"
    proof (rule Cons.IH)
      show "valid_subscribers ss h1" "list_all (\<lambda>s. Type s = PeerNode \<or> client_addr s \<noteq> None) ss"
        using Cons.prems(1,2) by (auto simp: valid_subscribers_Cons valid_subscribers_cong [OF b(2)])
      show "length (ch_items (chan_of h1 c)) + length (addressed_to c ss) \<le> ch_cap (chan_of h1 c)" for c
        using Cons.prems(3) [of c] b(1) by (auto simp: b(3) addressed_to_def)
    qed
    with True d show ?thesis by simp
  qed
qed simp

subsection \<open>Forwarding\<close>

lemma SendEvent_success:
  assumes inv: "pl_inv g" and s: "SendEvent now c p (Some e) g = (None, g')"
  obtains r where "map_of (sendQueues g) p = Some r" "pl_inv g'" "sendQueues g' = sendQueues g"
    "\<And>q. ch_items (chan_at (pl_queues g') q) =
       ch_items (chan_at (pl_queues g) q) @ (if q = r then [DataPlaneMessage p (Some e) now 0] else [])"
proof -
  obtain r where r: "lookup_queue sendQueues p g = Inr r"
    using s by (auto simp: SendEvent_def split: sum.splits)
  let ?m = "DataPlaneMessage p (Some e) now 0"
  have "enqueue c p dataPlaneMessage r ?m g = (None, g')"
    using s r by (simp add: SendEvent_def)
  then have sent: "fst (try_send r ?m (pl_queues g)) = Sent"
    and g': "g' = recordPlaneQueued p dataPlaneMessage (g\<lparr>pl_queues := snd (try_send r ?m (pl_queues g))\<rparr>)"
    by (auto simp: enqueue_def split: if_splits prod.splits send_result.splits)
  have "pl_inv g'"
    using send_ops_inv(1) [OF inv, of now c p "Some e"] s by simp
  moreover have "map_of (sendQueues g) p = Some r"
    using lookup_queue_Inr(1) [OF r] by simp
  ultimately show ?thesis
    using that [of r] sent by (simp add: g' recordPlaneQueued_def try_send_items)
qed

lemma SendEvent_frame: "sendQueues (snd (SendEvent now c p e g)) = sendQueues g"
  by (auto simp: SendEvent_def enqueue_def recordPlaneQueued_def recordPlaneDrop_def
      split: sum.splits prod.splits send_result.splits)

lemma forward_loop_mono:
  "forward_loop now None e ps r g = (r', ctx', g') \<Longrightarrow>
   PeerFailures r \<le> PeerFailures r' \<and> LocalFailures r' = LocalFailures r"
proof (induction ps arbitrary: r g)
  case (Cons p ps)
  obtain err g1 where s: "SendEvent now False p (Some e) g = (err, g1)" by (cases "SendEvent now False p (Some e) g")
  show ?case
    using Cons.prems s Cons.IH [of "r\<lparr>PeerSuccesses := PeerSuccesses r + 1\<rparr>" g1]
      Cons.IH [of "r\<lparr>PeerFailures := PeerFailures r + 1, dr_Errors := dr_Errors r @ [MPeer (the err)]\<rparr>" g1]
    by (cases err) auto
qed simp

text \<open>A forwarding loop without failures appends the event to the data queue of each peer it names.\<close>

lemma forward_loop_no_failure:
  assumes "forward_loop now None e ps r g = (r', ctx', g')" "PeerFailures r' = PeerFailures r"
    and "pl_inv g" "distinct ps"
  shows "ctx' = None \<and> LocalFailures r' = LocalFailures r \<and> pl_inv g' \<and> sendQueues g' = sendQueues g
    \<and> (\<forall>p. p \<in> set ps \<longrightarrow> map_of (sendQueues g) p \<noteq> None)
    \<and> (\<forall>p q. map_of (sendQueues g) p = Some q \<longrightarrow> ch_items (chan_at (pl_queues g') q) =
        ch_items (chan_at (pl_queues g) q) @ (if p \<in> set ps then [DataPlaneMessage p (Some e) now 0] else []))"
proof -
  show ?thesis
    using assms
  proof (induction ps arbitrary: r g)
    case (Cons p ps)
    obtain err g1 where s: "SendEvent now False p (Some e) g = (err, g1)" by (cases "SendEvent now False p (Some e) g")
    show ?case
    proof (cases err)
      case (Some x)
      let ?r = "r\<lparr>PeerFailures := PeerFailures r + 1, dr_Errors := dr_Errors r @ [MPeer x]\<rparr>"
      have "forward_loop now None e ps ?r g1 = (r', ctx', g')"
        using Cons.prems(1) s Some by simp
      from forward_loop_mono [OF this] Cons.prems(2) show ?thesis by simp
    next
      case None
      obtain q where q: "map_of (sendQueues g) p = Some q" "pl_inv g1" "sendQueues g1 = sendQueues g"
        "\<And>q'. ch_items (chan_at (pl_queues g1) q') =
           ch_items (chan_at (pl_queues g) q') @ (if q' = q then [DataPlaneMessage p (Some e) now 0] else [])"
        using SendEvent_success [OF Cons.prems(3) s [unfolded None]] by metis
      have rest: "forward_loop now None e ps (r\<lparr>PeerSuccesses := PeerSuccesses r + 1\<rparr>) g1 = (r', ctx', g')"
        using Cons.prems(1) s None by simp
      have same: "q' = q \<longleftrightarrow> p' = p" if "map_of (sendQueues g) p' = Some q'" for p' q'
        using ref_not_shared [OF Cons.prems(3), of p q dataPlaneMessage p' dataPlaneMessage]
          q(1) that by (auto dest: map_of_SomeD)
      from Cons.IH [OF rest _ q(2)] Cons.prems(2,4) q(1,3) same show ?thesis
        by (auto simp: q(4))
    qed
  qed simp
qed

subsection \<open>Whatever the context does\<close>

text \<open>A loop that leaves its context live has not been interrupted.\<close>

lemma deliver_loop_live:
  "deliver_loop ctx e ss r h = (r', ctx', h') \<Longrightarrow> \<not> fst (poll ctx') \<Longrightarrow>
   \<not> fst (poll ctx) \<and> deliver_loop None e ss r h = (r', None, h')"
proof (induction ss arbitrary: ctx r h)
  case (Cons s ss)
  obtain d ctx1 where p: "poll ctx = (d, ctx1)" by (cases "poll ctx")
  obtain err h1 where s: "DeliverEvent s e h = (err, h1)" by (cases "DeliverEvent s e h")
  show ?case
  proof (cases d)
    case True
    with p poll_done_stays [of ctx ctx1] Cons.prems show ?thesis by auto
  next
    case False
    with p s Cons.prems Cons.IH [of ctx1] show ?thesis
      by (cases err) (auto split: if_splits)
  qed
qed simp

lemma forward_loop_live:
  "forward_loop now ctx e ps r g = (r', ctx', g') \<Longrightarrow> \<not> fst (poll ctx') \<Longrightarrow>
   \<not> fst (poll ctx) \<and> forward_loop now None e ps r g = (r', None, g')"
proof (induction ps arbitrary: ctx r g)
  case (Cons p ps)
  obtain d ctx1 where p: "poll ctx = (d, ctx1)" by (cases "poll ctx")
  obtain c ctx2 where c: "poll ctx1 = (c, ctx2)" by (cases "poll ctx1")
  obtain err g1 where s: "SendEvent now c p (Some e) g = (err, g1)" by (cases "SendEvent now c p (Some e) g")
  show ?case
  proof (cases d)
    case True
    with p poll_done_stays [of ctx ctx1] Cons.prems show ?thesis by auto
  next
    case False
    with p c s Cons.prems Cons.IH [of ctx2] have "\<not> fst (poll ctx2)"
      by (cases err) auto
    then have "\<not> c"
      using poll_done_stays [of ctx1 ctx2] c by auto
    with False p c s Cons.prems Cons.IH [of ctx2] show ?thesis
      by (cases err) auto
  qed
qed simp

text \<open>Interrupted or not, a loop hands out nothing but the event it was given.\<close>

lemma DeliverEvent_only:
  "\<exists>xs. ch_items (chan_of (snd (DeliverEvent s e h)) a) = ch_items (chan_of h a) @ xs \<and> set xs \<subseteq> {e, Copy e}"
  by (cases s) (auto simp: Let_def chan_push_def chan_of_def client_at_update)

lemma deliver_loop_only:
  "deliver_loop ctx e ss r h = (r', ctx', h') \<Longrightarrow>
   \<exists>xs. ch_items (chan_of h' a) = ch_items (chan_of h a) @ xs \<and> set xs \<subseteq> {e, Copy e}"
proof (induction ss arbitrary: ctx r h)
  case (Cons s ss)
  obtain d ctx1 where p: "poll ctx = (d, ctx1)" by (cases "poll ctx")
  obtain err h1 where s: "DeliverEvent s e h = (err, h1)" by (cases "DeliverEvent s e h")
  obtain xs where xs: "ch_items (chan_of h1 a) = ch_items (chan_of h a) @ xs" "set xs \<subseteq> {e, Copy e}"
    using DeliverEvent_only [of s e h a] s by auto
  have step: "\<exists>ys. ch_items (chan_of h' a) = ch_items (chan_of h1 a) @ ys \<and> set ys \<subseteq> {e, Copy e} \<Longrightarrow>
      \<exists>ys. ch_items (chan_of h' a) = ch_items (chan_of h a) @ ys \<and> set ys \<subseteq> {e, Copy e}"
    using xs by (metis append.assoc set_append Un_least)
  show ?case
  proof (cases d)
    case True
    with p Cons.prems show ?thesis by auto
  next
    case False
    show ?thesis
    proof (cases "Type s = LocalClient")
      case True
      with False p s Cons.prems obtain r1 where "deliver_loop ctx1 e ss r1 h1 = (r', ctx', h')"
        by (cases err) auto
      from step [OF Cons.IH [OF this]] show ?thesis .
    next
      case other: False
      with False p Cons.prems Cons.IH [of ctx1 r h] show ?thesis by simp
    qed
  qed
qed simp

definition forwards_of :: "int \<Rightarrow> event \<Rightarrow> peer_message set" where
  "forwards_of now e = range (\<lambda>p. DataPlaneMessage p (Some e) now 0)"

lemma try_send_only:
  "\<exists>xs. ch_items (chan_at (snd (try_send r m h)) q) = ch_items (chan_at h q) @ xs \<and> set xs \<subseteq> {m}"
  by (auto simp: try_send_def Let_def chan_at_update)

lemma SendEvent_only:
  "\<exists>xs. ch_items (chan_at (pl_queues (snd (SendEvent now c p (Some e) g))) q) = ch_items (chan_at (pl_queues g) q) @ xs
     \<and> set xs \<subseteq> forwards_of now e"
proof (cases "lookup_queue sendQueues p g")
  case (Inr r)
  let ?m = "DataPlaneMessage p (Some e) now 0"
  let ?g = "snd (enqueue c p dataPlaneMessage r ?m g)"
  have "pl_queues ?g = pl_queues g \<or> pl_queues ?g = snd (try_send r ?m (pl_queues g))"
    by (auto simp: enqueue_def recordPlaneQueued_def recordPlaneDrop_def split: prod.splits send_result.splits)
  then have "\<exists>xs. ch_items (chan_at (pl_queues ?g) q) = ch_items (chan_at (pl_queues g) q) @ xs \<and> set xs \<subseteq> {?m}"
    using try_send_only [of r ?m "pl_queues g" q] by auto
  moreover have "{?m} \<subseteq> forwards_of now e"
    by (auto simp: forwards_of_def)
  ultimately show ?thesis
    using Inr by (simp add: SendEvent_def) blast
qed (simp add: SendEvent_def)

lemma forward_loop_only:
  "forward_loop now ctx e ps r g = (r', ctx', g') \<Longrightarrow>
   \<exists>xs. ch_items (chan_at (pl_queues g') q) = ch_items (chan_at (pl_queues g) q) @ xs \<and> set xs \<subseteq> forwards_of now e"
proof (induction ps arbitrary: ctx r g)
  case (Cons p ps)
  obtain d ctx1 where p: "poll ctx = (d, ctx1)" by (cases "poll ctx")
  obtain c ctx2 where c: "poll ctx1 = (c, ctx2)" by (cases "poll ctx1")
  obtain err g1 where s: "SendEvent now c p (Some e) g = (err, g1)" by (cases "SendEvent now c p (Some e) g")
  obtain xs where xs: "ch_items (chan_at (pl_queues g1) q) = ch_items (chan_at (pl_queues g) q) @ xs"
    "set xs \<subseteq> forwards_of now e"
    using SendEvent_only [of now c p e g q] s by auto
  have step: "\<exists>ys. ch_items (chan_at (pl_queues g') q) = ch_items (chan_at (pl_queues g1) q) @ ys \<and> set ys \<subseteq> forwards_of now e \<Longrightarrow>
      \<exists>ys. ch_items (chan_at (pl_queues g') q) = ch_items (chan_at (pl_queues g) q) @ ys \<and> set ys \<subseteq> forwards_of now e"
    using xs by (metis append.assoc set_append Un_least)
  show ?case
  proof (cases d)
    case True
    with p Cons.prems show ?thesis by auto
  next
    case False
    then obtain r1 where "forward_loop now ctx2 e ps r1 g1 = (r', ctx', g')"
      using p c s Cons.prems by (cases err) auto
    from step [OF Cons.IH [OF this]] show ?thesis .
  qed
qed simp

subsection \<open>Publishing\<close>

lemma publish_cases:
  obtains (invalid) err where "validatePublishRequest client event n = Some err"
      "PublishEventWithResult ops now ctx client event n = (Inl err, n)"
  | (unlogged) e err l where "event = Some e" "validatePublishRequest client event n = None"
      "op_AppendEvent ops (fst (poll ctx)) (ev_topic e) (Some e) (eventLog n) = (Inl err, l)"
      "PublishEventWithResult ops now ctx client event n = (Inl (MLog err), n\<lparr>eventLog := l\<rparr>)"
  | (interrupted) e e' l r ctx1 n1 where "event = Some e" "validatePublishRequest client event n = None"
      "op_AppendEvent ops (fst (poll ctx)) (ev_topic e) (Some e) (eventLog n) = (Inr e', l)"
      "deliverToLocalSubscribers (snd (poll ctx)) e' (n\<lparr>eventLog := l\<rparr>) = (r, ctx1, n1)" "fst (poll ctx1)"
      "PublishEventWithResult ops now ctx client event n = (Inl MCtx, n1)"
  | (finished) e e' l r ctx1 n1 r2 ctx2 n2 where "event = Some e" "validatePublishRequest client event n = None"
      "op_AppendEvent ops (fst (poll ctx)) (ev_topic e) (Some e) (eventLog n) = (Inr e', l)"
      "deliverToLocalSubscribers (snd (poll ctx)) e' (n\<lparr>eventLog := l\<rparr>) = (r, ctx1, n1)" "\<not> fst (poll ctx1)"
      "forwardToPeers now (snd (poll ctx1)) e' r n1 = (r2, ctx2, n2)"
      "PublishEventWithResult ops now ctx client event n =
         (if fst (poll ctx2) then Inl MCtx else case result_Error r2 of Some err \<Rightarrow> Inl err | None \<Rightarrow> Inr e', n2)"
proof (cases "validatePublishRequest client event n")
  case (Some err)
  with invalid [of err] show ?thesis
    by (simp add: PublishEventWithResult_def)
next
  case None
  then obtain e where e: "event = Some e"
    by (auto simp: validatePublishRequest_def split: if_splits option.splits)
  obtain x l where app: "op_AppendEvent ops (fst (poll ctx)) (ev_topic e) (Some e) (eventLog n) = (x, l)"
    by (cases "op_AppendEvent ops (fst (poll ctx)) (ev_topic e) (Some e) (eventLog n)")
  show ?thesis
  proof (cases x)
    case (Inl err)
    with unlogged [OF e None] app None e show ?thesis
      by (simp add: PublishEventWithResult_def case_prod_beta')
  next
    case (Inr e')
    obtain r ctx1 n1 where dl: "deliverToLocalSubscribers (snd (poll ctx)) e' (n\<lparr>eventLog := l\<rparr>) = (r, ctx1, n1)"
      by (cases "deliverToLocalSubscribers (snd (poll ctx)) e' (n\<lparr>eventLog := l\<rparr>)")
    obtain r2 ctx2 n2 where fw: "forwardToPeers now (snd (poll ctx1)) e' r n1 = (r2, ctx2, n2)"
      by (cases "forwardToPeers now (snd (poll ctx1)) e' r n1")
    show ?thesis
    proof (cases "fst (poll ctx1)")
      case True
      with interrupted [OF e None app [unfolded Inr] dl] app None e Inr dl show ?thesis
        by (simp add: PublishEventWithResult_def case_prod_beta' split: bool.splits)
    next
      case False
      show ?thesis
      proof (rule finished [OF e None app [unfolded Inr] dl False fw])
        show "PublishEventWithResult ops now ctx client event n =
          (if fst (poll ctx2) then Inl MCtx else case result_Error r2 of Some err \<Rightarrow> Inl err | None \<Rightarrow> Inr e', n2)"
          using app None e Inr dl fw False
          by (auto simp: PublishEventWithResult_def case_prod_beta' split: bool.splits option.splits)
      qed
    qed
  qed
qed

text \<open>What the clients' channels and the peers' queues gained between two states.\<close>

definition delivers_only :: "int \<Rightarrow> event \<Rightarrow> 'l mesh_node \<Rightarrow> 'l mesh_node \<Rightarrow> bool" where
  "delivers_only now e n n' \<longleftrightarrow>
     (\<forall>a. \<exists>xs. ch_items (chan_of (clientHeap n') a) = ch_items (chan_of (clientHeap n) a) @ xs \<and> set xs \<subseteq> {e, Copy e})
     \<and> (\<forall>q. \<exists>xs. ch_items (chan_at (pl_queues (peerLink n')) q) =
            ch_items (chan_at (pl_queues (peerLink n)) q) @ xs \<and> set xs \<subseteq> forwards_of now e)"

lemma deliverToLocal_frame:
  assumes "deliverToLocalSubscribers ctx e n = (r, ctx', n')"
  shows "eventLog n' = eventLog n \<and> peerLink n' = peerLink n \<and> routingTable n' = routingTable n
    \<and> peerSubscriptions n' = peerSubscriptions n \<and> delivers_only now e n n'"
proof -
  have "\<exists>h. n' = n\<lparr>clientHeap := h\<rparr> \<and> (\<forall>a. \<exists>xs. ch_items (chan_of h a) = ch_items (chan_of (clientHeap n) a) @ xs
      \<and> set xs \<subseteq> {e, Copy e})"
  proof (cases "GetSubscribers (ev_topic e) (routingTable n)")
    case (Inl err)
    have "n' = n\<lparr>clientHeap := clientHeap n\<rparr>"
      using Inl assms by (simp add: deliverToLocalSubscribers_def)
    then show ?thesis by fastforce
  next
    case (Inr ss)
    obtain h where "deliver_loop ctx e ss no_result (clientHeap n) = (r, ctx', h)" "n' = n\<lparr>clientHeap := h\<rparr>"
      using Inr assms by (auto simp: deliverToLocalSubscribers_def split: prod.splits)
    with deliver_loop_only show ?thesis by blast
  qed
  then show ?thesis by (auto simp: delivers_only_def)
qed

lemma forwardToPeers_frame:
  assumes "forwardToPeers now ctx e r n = (r', ctx', n')"
  shows "eventLog n' = eventLog n \<and> clientHeap n' = clientHeap n \<and> delivers_only now e n n'"
proof -
  have "\<exists>g. n' = n\<lparr>peerLink := g\<rparr> \<and> (\<forall>q. \<exists>xs. ch_items (chan_at (pl_queues g) q) =
      ch_items (chan_at (pl_queues (peerLink n)) q) @ xs \<and> set xs \<subseteq> forwards_of now e)"
  proof (cases "GetConnectedPeers (peerLink n)")
    case (Inl err)
    have "n' = n\<lparr>peerLink := peerLink n\<rparr>"
      using Inl assms by (simp add: forwardToPeers_def)
    then show ?thesis by fastforce
  next
    case (Inr ps)
    obtain g where "forward_loop now ctx e (map pn_ID (getInterestedPeers (ev_topic e) ps n)) r (peerLink n)
        = (r', ctx', g)" "n' = n\<lparr>peerLink := g\<rparr>"
      using Inr assms by (auto simp: forwardToPeers_def split: prod.splits)
    with forward_loop_only show ?thesis by blast
  qed
  then show ?thesis by (auto simp: delivers_only_def)
qed

lemma delivers_only_trans:
  assumes "delivers_only now e n n1" "delivers_only now e n1 n2"
  shows "delivers_only now e n n2"
  unfolding delivers_only_def
proof (intro conjI allI)
  fix a
  obtain xs ys where "ch_items (chan_of (clientHeap n1) a) = ch_items (chan_of (clientHeap n) a) @ xs" "set xs \<subseteq> {e, Copy e}"
    "ch_items (chan_of (clientHeap n2) a) = ch_items (chan_of (clientHeap n1) a) @ ys" "set ys \<subseteq> {e, Copy e}"
    using assms unfolding delivers_only_def by meson
  then show "\<exists>zs. ch_items (chan_of (clientHeap n2) a) = ch_items (chan_of (clientHeap n) a) @ zs \<and> set zs \<subseteq> {e, Copy e}"
    by (intro exI [of _ "xs @ ys"]) simp
next
  fix q
  obtain xs ys where "ch_items (chan_at (pl_queues (peerLink n1)) q) = ch_items (chan_at (pl_queues (peerLink n)) q) @ xs"
    "set xs \<subseteq> forwards_of now e"
    "ch_items (chan_at (pl_queues (peerLink n2)) q) = ch_items (chan_at (pl_queues (peerLink n1)) q) @ ys"
    "set ys \<subseteq> forwards_of now e"
    using assms unfolding delivers_only_def by meson
  then show "\<exists>zs. ch_items (chan_at (pl_queues (peerLink n2)) q) = ch_items (chan_at (pl_queues (peerLink n)) q) @ zs
      \<and> set zs \<subseteq> forwards_of now e"
    by (intro exI [of _ "xs @ ys"]) simp
qed

text \<open>For any log that keeps the contract: nothing is handed out that was not stored first, and stored once.\<close>

context event_log_safe
begin

lemma publish_logs:
  assumes log: "log_ok (eventLog n)" "topic_ok (ev_topic e)"
      "int (length (topic_events (eventLog n) (ev_topic e))) < max_int64"
    and pub: "PublishEventWithResult ops now ctx client (Some e) n = (res, n')"
  shows "log_ok (eventLog n')
    \<and> ((\<exists>err. res = Inl err) \<and> topic_events (eventLog n') = topic_events (eventLog n)
          \<and> clientHeap n' = clientHeap n \<and> peerLink n' = peerLink n
       \<or> (let e' = WithOffset e (int (length (topic_events (eventLog n) (ev_topic e)))) in
            topic_events (eventLog n') = (topic_events (eventLog n))
              (ev_topic e := topic_events (eventLog n) (ev_topic e) @ [stored e'])
            \<and> delivers_only now e' n n' \<and> ((\<exists>err. res = Inl err) \<or> res = Inr e')))"
proof (cases rule: publish_cases
    [of client "Some e" n ops now ctx, case_names invalid unlogged interrupted finished])
  case (invalid err)
  with pub log show ?thesis by (simp, blast)
next
  case (unlogged x err l)
  with append_ok [OF log, of "fst (poll ctx)" "Some e"] append_fails [OF log(1,2)] pub show ?thesis by auto
next
  case (interrupted x e' l r ctx1 n1)
  have "log_ok l" "e' = WithOffset e (int (length (topic_events (eventLog n) (ev_topic e))))"
    "topic_events l = (topic_events (eventLog n))(ev_topic e := topic_events (eventLog n) (ev_topic e) @ [stored e'])"
    using append_ok [OF log, of "fst (poll ctx)" "Some e"] append_returns [OF log] interrupted(1,3) by auto
  moreover have "delivers_only now e' n n1"
    using deliverToLocal_frame [OF interrupted(4), of now] by (simp add: delivers_only_def)
  ultimately show ?thesis
    using deliverToLocal_frame [OF interrupted(4)] interrupted(6) pub by (simp add: Let_def)
next
  case (finished x e' l r ctx1 n1 r2 ctx2 n2)
  have "log_ok l" "e' = WithOffset e (int (length (topic_events (eventLog n) (ev_topic e))))"
    "topic_events l = (topic_events (eventLog n))(ev_topic e := topic_events (eventLog n) (ev_topic e) @ [stored e'])"
    using append_ok [OF log, of "fst (poll ctx)" "Some e"] append_returns [OF log] finished(1,3) by auto
  moreover have "delivers_only now e' n n1"
    using deliverToLocal_frame [OF finished(4), of now] by (simp add: delivers_only_def)
  with forwardToPeers_frame [OF finished(6)] have "delivers_only now e' n n2"
    using delivers_only_trans by blast
  ultimately show ?thesis
    using deliverToLocal_frame [OF finished(4)] forwardToPeers_frame [OF finished(6)] finished(7) pub
    by (auto simp: Let_def split: option.splits if_splits)
qed

end

subsection \<open>The outcome of a publish\<close>

definition client_live :: "client_obj list \<Rightarrow> subscriber \<Rightarrow> bool" where
  "client_live h s = (case client_addr s of None \<Rightarrow> False | Some a \<Rightarrow> a < length h)"

text \<open>
  The structural invariant of a node: its parts keep theirs, and whoever is in the routing table is a client
  whose object exists.
\<close>

definition node_ok :: "'l mesh_node \<Rightarrow> bool" where
  "node_ok n \<longleftrightarrow> rt_inv (routingTable n) \<and> pl_inv (peerLink n) \<and> peers_wf n
     \<and> (\<forall>k s. rt_view (routingTable n) k = Some s \<longrightarrow> client_live (clientHeap n) s)"

definition node_open :: "'l mesh_node \<Rightarrow> bool" where
  "node_open n \<longleftrightarrow> \<not> mn_closed n \<and> \<not> rt_closed (routingTable n) \<and> \<not> pl_closed (peerLink n)"

lemma looked_up_live:
  assumes "node_ok n" "\<not> rt_closed (routingTable n)" "GetSubscribers t (routingTable n) = Inr ss"
  shows "list_all (client_live (clientHeap n)) ss"
proof -
  have rt: "rt_inv (routingTable n)"
    using assms(1) by (simp add: node_ok_def)
  show ?thesis
    unfolding list_all_iff
    using rt.lookup_mem [OF rt assms(2,3)] assms(1) by (auto simp: node_ok_def)
qed

lemma live_valid: "list_all (client_live h) ss \<Longrightarrow> valid_subscribers ss h"
  by (auto simp: valid_subscribers_def client_live_def list_all_iff split: option.splits)

lemma live_local: "list_all (client_live h) ss \<Longrightarrow> list_all (\<lambda>s. Type s = PeerNode \<or> client_addr s \<noteq> None) ss"
  by (auto simp: client_live_def list_all_iff split: option.splits)

lemma connected_ids:
  assumes "pl_inv g" "GetConnectedPeers g = Inr ps"
  shows "map pn_ID ps = map fst (connections g)" "distinct (map pn_ID ps)"
proof -
  have k: "keys_ok (connections g) (sendQueues g) (controlQueues g)"
    using assms(1) by (simp add: pl_inv_def)
  have ps: "ps = map (\<lambda>(_, conn). ci_node conn) (connections g)"
    using assms(2) by (auto simp: GetConnectedPeers_def split: if_splits)
  show ids: "map pn_ID ps = map fst (connections g)"
    using k by (auto simp: ps keys_ok_def list_all_iff)
  show "distinct (map pn_ID ps)"
    using k unfolding ids by (simp add: keys_ok_def gm_wf_def)
qed

definition wants :: "'l mesh_node \<Rightarrow> string \<Rightarrow> string \<Rightarrow> bool" where
  "wants n topic p \<longleftrightarrow> p \<in> fst ` set (connections (peerLink n)) \<and> (\<exists>t \<in> peer_view n p. pattern_matches t topic)"

lemma interested_ids:
  assumes "pl_inv (peerLink n)" "peers_wf n" "GetConnectedPeers (peerLink n) = Inr ps"
  shows "distinct (map pn_ID (getInterestedPeers topic ps n))"
    and "set (map pn_ID (getInterestedPeers topic ps n)) = {p. wants n topic p}"
proof -
  have ids: "map pn_ID ps = map fst (connections (peerLink n))" "distinct (map pn_ID ps)"
    using connected_ids [OF assms(1,3)] by auto
  show "distinct (map pn_ID (getInterestedPeers topic ps n))"
    using ids(2) by (simp add: getInterestedPeers_def distinct_map_filter)
  have set: "fst ` set (connections (peerLink n)) = pn_ID ` set ps"
    by (metis ids(1) set_map)
  show "set (map pn_ID (getInterestedPeers topic ps n)) = {p. wants n topic p}"
    unfolding getInterestedPeers_def interested_iff [OF assms(2)] wants_def set by auto
qed

text \<open>A publish that returns an event, whatever the log: everyone who wants the event has it.\<close>

lemma publish_success:
  assumes ok: "node_ok n" "node_open n"
    and pub: "PublishEventWithResult ops now ctx client (Some e) n = (Inr e', n')" and topic: "ev_topic e' = ev_topic e"
    and ss: "GetSubscribers (ev_topic e) (routingTable n) = Inr ss"
  shows "ch_items (chan_of (clientHeap n') a) =
      ch_items (chan_of (clientHeap n) a) @ map (\<lambda>s. delivered_as s e') (addressed_to a ss)"
    and "wants n (ev_topic e) p \<Longrightarrow> map_of (sendQueues (peerLink n)) p \<noteq> None"
    and "map_of (sendQueues (peerLink n)) p = Some q \<Longrightarrow> ch_items (chan_at (pl_queues (peerLink n')) q) =
      ch_items (chan_at (pl_queues (peerLink n)) q) @
        (if wants n (ev_topic e) p then [DataPlaneMessage p (Some e') now 0] else [])"
proof -
  obtain ps where ps: "GetConnectedPeers (peerLink n) = Inr ps"
    using ok(2) by (simp add: GetConnectedPeers_def node_open_def)
  have inv: "pl_inv (peerLink n)" "peers_wf n" "\<not> rt_closed (routingTable n)"
    using ok by (auto simp: node_ok_def node_open_def)
  obtain l r ctx1 n1 r2 ctx2 where dl: "deliverToLocalSubscribers (snd (poll ctx)) e' (n\<lparr>eventLog := l\<rparr>) = (r, ctx1, n1)"
    and live1: "\<not> fst (poll ctx1)" and fw: "forwardToPeers now (snd (poll ctx1)) e' r n1 = (r2, ctx2, n')"
    and live2: "\<not> fst (poll ctx2)" and no_err: "result_Error r2 = None"
    using pub
    by (cases rule: publish_cases [of client "Some e" n ops now ctx, case_names invalid unlogged interrupted finished])
      (auto split: if_splits option.splits)
  obtain h where h: "deliver_loop (snd (poll ctx)) e' ss no_result (clientHeap n) = (r, ctx1, h)"
    and n1: "n1 = n\<lparr>eventLog := l, clientHeap := h\<rparr>"
    using dl ss topic by (auto simp: deliverToLocalSubscribers_def split: prod.splits)
  let ?ids = "map pn_ID (getInterestedPeers (ev_topic e) ps n)"
  have ids: "distinct ?ids" "set ?ids = {p. wants n (ev_topic e) p}"
    using interested_ids [OF inv(1,2) ps] by auto
  have "getInterestedPeers (ev_topic e) ps n1 = getInterestedPeers (ev_topic e) ps n"
    by (simp add: getInterestedPeers_def n1)
  then obtain g where g: "forward_loop now (snd (poll ctx1)) e' ?ids r (peerLink n) = (r2, ctx2, g)"
    and n': "n' = n1\<lparr>peerLink := g\<rparr>"
    using fw ps topic by (auto simp: forwardToPeers_def n1 split: prod.splits)
  have fwd: "forward_loop now None e' ?ids r (peerLink n) = (r2, None, g)"
    using forward_loop_live [OF g live2] by simp
  have zero: "LocalFailures r2 = 0" "PeerFailures r2 = 0"
    using no_err by (auto simp: result_Error_def HasFailures_def split: if_splits)
  have "PeerFailures r = 0 \<and> LocalFailures r = LocalFailures r2"
    using forward_loop_mono [OF fwd] zero by simp
  with zero have r: "PeerFailures r = 0" "LocalFailures r = 0" by simp_all
  have del: "deliver_loop None e' ss no_result (clientHeap n) = (r, None, h)"
    using deliver_loop_live [OF h live1] by simp
  have valid: "valid_subscribers ss (clientHeap n)"
    using live_valid [OF looked_up_live [OF ok(1) inv(3) ss]] .
  show "ch_items (chan_of (clientHeap n') a) =
      ch_items (chan_of (clientHeap n) a) @ map (\<lambda>s. delivered_as s e') (addressed_to a ss)"
    using deliver_loop_no_failure [OF del _ valid] r by (simp add: n' n1 no_result_def)
  note fin = forward_loop_no_failure [OF fwd _ inv(1) ids(1)]
  show "wants n (ev_topic e) p \<Longrightarrow> map_of (sendQueues (peerLink n)) p \<noteq> None"
    using fin zero r ids(2) by auto
  show "map_of (sendQueues (peerLink n)) p = Some q \<Longrightarrow> ch_items (chan_at (pl_queues (peerLink n')) q) =
      ch_items (chan_at (pl_queues (peerLink n)) q) @
        (if wants n (ev_topic e) p then [DataPlaneMessage p (Some e') now 0] else [])"
    using fin zero r ids(2) by (auto simp: n')
qed

text \<open>And when there is room for it, a publish does return an event.\<close>

lemma SendEvent_room:
  assumes inv: "pl_inv g" "\<not> pl_closed g" and q: "map_of (sendQueues g) p = Some q"
    and room: "int (length (ch_items (chan_at (pl_queues g) q))) < cfg_SendQueueSize (pl_config g)"
  shows "\<exists>g'. SendEvent now False p (Some e) g = (None, g') \<and> \<not> pl_closed g' \<and> pl_config g' = pl_config g"
proof -
  have "queue_ok g dataPlaneMessage (p, q)"
    using queue_of_ok [OF inv(1), of dataPlaneMessage] q by simp
  then have "\<exists>h. try_send q m (pl_queues g) = (Sent, h)" for m
    using room by (auto simp: queue_ok_def try_send_def Let_def)
  then obtain h where "try_send q (DataPlaneMessage p (Some e) now 0) (pl_queues g) = (Sent, h)" by blast
  then show ?thesis
    using inv(2) q by (simp add: SendEvent_def lookup_queue_def enqueue_def recordPlaneQueued_def)
qed

lemma forward_loop_room:
  assumes "pl_inv g" "\<not> pl_closed g" "distinct ps"
    and "\<And>p. p \<in> set ps \<Longrightarrow> \<exists>q. map_of (sendQueues g) p = Some q
      \<and> int (length (ch_items (chan_at (pl_queues g) q))) < cfg_SendQueueSize (pl_config g)"
  shows "\<exists>r' g'. forward_loop now None e ps r g = (r', None, g') \<and> PeerFailures r' = PeerFailures r"
  using assms
proof (induction ps arbitrary: r g)
  case (Cons p ps)
  obtain q where q: "map_of (sendQueues g) p = Some q"
    "int (length (ch_items (chan_at (pl_queues g) q))) < cfg_SendQueueSize (pl_config g)"
    using Cons.prems(4) [of p] by auto
  obtain g1 where g1: "SendEvent now False p (Some e) g = (None, g1)" "\<not> pl_closed g1" "pl_config g1 = pl_config g"
    using SendEvent_room [OF Cons.prems(1,2) q] by blast
  obtain q1 where q1: "map_of (sendQueues g) p = Some q1" "pl_inv g1" "sendQueues g1 = sendQueues g"
    "\<And>q'. ch_items (chan_at (pl_queues g1) q') =
       ch_items (chan_at (pl_queues g) q') @ (if q' = q1 then [DataPlaneMessage p (Some e) now 0] else [])"
    using SendEvent_success [OF Cons.prems(1) g1(1)] by metis
  have same: "q' = q1 \<longleftrightarrow> p' = p" if "map_of (sendQueues g) p' = Some q'" for p' q'
    using ref_not_shared [OF Cons.prems(1), of p q1 dataPlaneMessage p' dataPlaneMessage]
      q1(1) that by (auto dest: map_of_SomeD)
  have "\<exists>q'. map_of (sendQueues g1) p' = Some q'
      \<and> int (length (ch_items (chan_at (pl_queues g1) q'))) < cfg_SendQueueSize (pl_config g1)" if "p' \<in> set ps" for p'
    using Cons.prems(3) Cons.prems(4) [of p'] that same by (auto simp: q1(3,4) g1(3))
  then obtain r' g' where "forward_loop now None e ps (r\<lparr>PeerSuccesses := PeerSuccesses r + 1\<rparr>) g1 = (r', None, g')"
    "PeerFailures r' = PeerFailures r"
    using Cons.IH [of g1 "r\<lparr>PeerSuccesses := PeerSuccesses r + 1\<rparr>"] q1(2) g1(2) Cons.prems(3) by auto
  with g1(1) show ?case by simp
qed simp

definition peer_room :: "string \<Rightarrow> peer_link \<Rightarrow> bool" where
  "peer_room p g \<longleftrightarrow> int (queue_len (sendQueues g) p g) < cfg_SendQueueSize (pl_config g)"

definition client_room :: "subscriber list \<Rightarrow> client_obj list \<Rightarrow> bool" where
  "client_room ss h \<longleftrightarrow>
     (\<forall>a. length (ch_items (chan_of h a)) + length (addressed_to a ss) \<le> ch_cap (chan_of h a))"

lemma deliver_loop_never: "fst (snd (deliver_loop None e ss r h)) = None
    \<and> PeerFailures (fst (deliver_loop None e ss r h)) = PeerFailures r"
  by (induction ss arbitrary: r h) (auto split: prod.splits option.splits)

lemma publish_room:
  assumes ok: "node_ok n" "node_open n"
    and valid: "validatePublishRequest client (Some e) n = None"
    and app: "op_AppendEvent ops False (ev_topic e) (Some e) (eventLog n) = (Inr e', l)" and topic: "ev_topic e' = ev_topic e"
    and ss: "GetSubscribers (ev_topic e) (routingTable n) = Inr ss" "client_room ss (clientHeap n)"
    and peers: "\<And>p. wants n (ev_topic e) p \<Longrightarrow> peer_room p (peerLink n)"
  shows "\<exists>n'. PublishEventWithResult ops now None client (Some e) n = (Inr e', n')"
proof -
  have inv: "pl_inv (peerLink n)" "peers_wf n" "\<not> rt_closed (routingTable n)" "\<not> pl_closed (peerLink n)"
    using ok by (auto simp: node_ok_def node_open_def)
  obtain ps where ps: "GetConnectedPeers (peerLink n) = Inr ps"
    using inv(4) by (simp add: GetConnectedPeers_def)
  obtain r ctx h where del: "deliver_loop None e' ss no_result (clientHeap n) = (r, ctx, h)"
    by (cases "deliver_loop None e' ss no_result (clientHeap n)")
  have live: "list_all (client_live (clientHeap n)) ss"
    by (rule looked_up_live [OF ok(1) inv(3) ss(1)])
  have r: "ctx = None" "LocalFailures r = 0" "PeerFailures r = 0"
    using deliver_loop_never [of e' ss no_result "clientHeap n"] del
      deliver_loop_room [OF live_valid [OF live] live_local [OF live], of e' no_result] ss(2)
    by (auto simp: client_room_def no_result_def)
  let ?n1 = "n\<lparr>eventLog := l, clientHeap := h\<rparr>"
  let ?ids = "map pn_ID (getInterestedPeers (ev_topic e) ps n)"
  have ids: "distinct ?ids" "set ?ids = {p. wants n (ev_topic e) p}"
    using interested_ids [OF inv(1,2) ps] by auto
  have room: "\<exists>q. map_of (sendQueues (peerLink n)) p = Some q
      \<and> int (length (ch_items (chan_at (pl_queues (peerLink n)) q))) < cfg_SendQueueSize (pl_config (peerLink n))"
    if "p \<in> set ?ids" for p
  proof -
    have w: "wants n (ev_topic e) p" using that ids(2) by blast
    then have "p \<in> fst ` set (sendQueues (peerLink n))"
      using inv(1) by (auto simp: wants_def pl_inv_def keys_ok_def)
    then obtain q where "map_of (sendQueues (peerLink n)) p = Some q"
      by (metis map_of_eq_None_iff not_None_eq)
    with peers [OF w] show ?thesis by (auto simp: peer_room_def queue_len_def)
  qed
  obtain r' g' where fw: "forward_loop now None e' ?ids r (peerLink n) = (r', None, g')" "PeerFailures r' = PeerFailures r"
    using forward_loop_room [OF inv(1,4) ids(1) room] by blast
  have "LocalFailures r' = 0"
    using forward_loop_mono [OF fw(1)] r by simp
  then have "result_Error r' = None"
    using fw(2) r by (simp add: result_Error_def HasFailures_def)
  moreover have "deliverToLocalSubscribers None e' (n\<lparr>eventLog := l\<rparr>) = (r, None, ?n1)"
    using del ss(1) topic r(1) by (simp add: deliverToLocalSubscribers_def)
  moreover have "forwardToPeers now None e' r ?n1 = (r', None, ?n1\<lparr>peerLink := g'\<rparr>)"
    using fw(1) ps topic by (simp add: forwardToPeers_def getInterestedPeers_def)
  ultimately show ?thesis
    using valid app by (simp add: PublishEventWithResult_def)
qed

end
