(* ===== verification/Mesh_Lifecycle.thy ===== *)
theory Mesh_Lifecycle
  imports Mesh_Publish
begin

text \<open>
  The node's lifecycle, discovery, accessors, health and routing statistics
  (\<open>internal/meshnode/node_lifecycle.go\<close>, \<open>node_discovery.go\<close>, \<open>node_accessors.go\<close>,
  \<open>node_health.go\<close>, \<open>node_routing_stats.go\<close>, \<open>internal/discovery/static.go\<close>).
\<close>

subsection \<open>Discovery\<close>

definition staticPeerNode :: "string \<Rightarrow> peer_node" where
  "staticPeerNode address = \<lparr>pn_ID = address, pn_Address = address, pn_IsHealthy = True\<rparr>"

definition FindPeers :: "string list \<Rightarrow> peer_node list" where
  "FindPeers seedNodes = map staticPeerNode seedNodes"

fun connect_loop :: "int \<Rightarrow> (string \<Rightarrow> string option) \<Rightarrow> peer_node list \<Rightarrow> peer_link \<Rightarrow> peer_link" where
  "connect_loop now dial [] g = g"
| "connect_loop now dial (peer # ps) g =
     connect_loop now dial ps (snd (Connect now (dial (pn_Address peer)) peer g))"

definition runDiscovery :: "int \<Rightarrow> (string \<Rightarrow> string option) \<Rightarrow> string list \<Rightarrow> 'l mesh_node \<Rightarrow> 'l mesh_node" where
  "runDiscovery now dial seedNodes n =
     n\<lparr>peerLink := connect_loop now dial (FindPeers seedNodes) (peerLink n)\<rparr>"

subsection \<open>Start, stop, close\<close>

definition NodeStart ::
  "int \<Rightarrow> string + string \<Rightarrow> (string \<Rightarrow> string option) \<Rightarrow> 'l mesh_node \<Rightarrow> mesh_error option \<times> 'l mesh_node" where
  "NodeStart now listen dial n =
     (if mn_closed n then (Some MClosed, n)
      else if mn_started n then (None, n)
      else case Start listen (peerLink n) of
        (Some err, g) \<Rightarrow> (Some (MPeer err), n\<lparr>peerLink := g\<rparr>)
      | (None, g) \<Rightarrow>
          let n = n\<lparr>peerLink := g\<rparr>;
              n = (case mc_SeedNodes (mn_config n) of
                     None \<Rightarrow> n
                   | Some seeds \<Rightarrow> if seeds = [] then n else runDiscovery now dial seeds n);
              cancel = mn_next n;
              n = n\<lparr>mn_next := mn_next n + 1\<rparr>
          in (case StartHeartbeats False (peerLink n) of
                (Some err, g) \<Rightarrow> (Some (MPeer err), n\<lparr>peerLink := g, mn_cancelled := cancel # mn_cancelled n\<rparr>)
              | (None, g) \<Rightarrow> (None, n\<lparr>peerLink := g, lifecycleCancel := Some cancel, mn_started := True\<rparr>)))"

text \<open>The goroutines \<open>Start\<close> leaves behind first subscribe to the peer link.\<close>

definition handleIncomingPeerEvents :: "'l mesh_node \<Rightarrow> (pl_error + nat) \<times> (pl_error + nat) \<times> 'l mesh_node" where
  "handleIncomingPeerEvents n =
     (case ReceiveEvents (peerLink n) of (events, g) \<Rightarrow>
        (case ReceiveInterestMessages g of (messages, g') \<Rightarrow> (events, messages, n\<lparr>peerLink := g'\<rparr>)))"

definition NodeStop :: "'l mesh_node \<Rightarrow> mesh_error option \<times> 'l mesh_node" where
  "NodeStop n =
     (if \<not> mn_started n then (None, n)
      else
        let cancel = lifecycleCancel n;
            n = n\<lparr>lifecycleCancel := None, mn_started := False\<rparr>;
            n = (case cancel of None \<Rightarrow> n | Some c \<Rightarrow> n\<lparr>mn_cancelled := c # mn_cancelled n\<rparr>)
        in case StopHeartbeats (peerLink n) of
             (Some err, g) \<Rightarrow> (Some (MPeer err), n\<lparr>peerLink := g\<rparr>)
           | (None, g) \<Rightarrow>
              (case Stop g of
                 (Some err, g) \<Rightarrow> (Some (MPeer err), n\<lparr>peerLink := g\<rparr>)
               | (None, g) \<Rightarrow> (None, n\<lparr>peerLink := g\<rparr>)))"

definition NodeClose :: "'l log_ops \<Rightarrow> 'l mesh_node \<Rightarrow> mesh_error option \<times> 'l mesh_node" where
  "NodeClose ops n =
     (if mn_closed n then (None, n)
      else case op_Close ops (eventLog n) of
        (Some err, l) \<Rightarrow> (Some (MLog err), n\<lparr>eventLog := l\<rparr>)
      | (None, l) \<Rightarrow>
          let n = n\<lparr>eventLog := l\<rparr> in
          (case CloseTable (routingTable n) of
             (Some err, rt) \<Rightarrow> (Some (MRouting err), n\<lparr>routingTable := rt\<rparr>)
           | (None, rt) \<Rightarrow>
               let n = n\<lparr>routingTable := rt\<rparr> in
               (case ClosePeerLink (peerLink n) of
                  (Some err, g) \<Rightarrow> (Some (MPeer err), n\<lparr>peerLink := g\<rparr>)
                | (None, g) \<Rightarrow> (None, n\<lparr>peerLink := g, mn_started := False, mn_closed := True\<rparr>))))"

subsection \<open>Accessors\<close>

datatype credentials = CredNil | CredString string | CredOther

definition NewTrustedClient :: "int \<Rightarrow> string \<Rightarrow> client_obj list \<Rightarrow> subscriber \<times> client_obj list" where
  "NewTrustedClient now i h = (TrustedClient i (length h), h @ [new_client_obj now])"

definition AuthenticateClient ::
  "int \<Rightarrow> credentials \<Rightarrow> 'l mesh_node \<Rightarrow> (mesh_error + subscriber) \<times> 'l mesh_node" where
  "AuthenticateClient now cred n =
     (if mn_closed n then (Inl MClosed, n)
      else case cred of
        CredNil \<Rightarrow> (Inl MNilCredentials, n)
      | CredOther \<Rightarrow> (Inl MBadCredentials, n)
      | CredString clientID \<Rightarrow>
          if clientID = [] then (Inl MEmptyClientID, n)
          else case map_of (clients n) clientID of
            Some existingClient \<Rightarrow> (Inr existingClient, n)
          | None \<Rightarrow>
             (case NewTrustedClient now clientID (clientHeap n) of
                (client, h) \<Rightarrow> (Inr client,
                  n\<lparr>clientHeap := h, clients := AList.update clientID client (clients n)\<rparr>)))"

definition GetNodeID :: "'l mesh_node \<Rightarrow> string" where
  "GetNodeID n = mc_NodeID (mn_config n)"

definition GetConnectedClients :: "'l mesh_node \<Rightarrow> subscriber list" where
  "GetConnectedClients n = map snd (clients n)"

definition NodeGetConnectedPeers :: "'l mesh_node \<Rightarrow> pl_error + peer_node list" where
  "NodeGetConnectedPeers n = GetConnectedPeers (peerLink n)"

subsection \<open>Health\<close>

text \<open>The health message lists the issues; their wording is left out.\<close>

datatype health_issue =
    NodeIsClosed | NodeNotStarted | LogClosedNode | LogIssue log_error
  | TableClosedNode | TableIssue rt_error | LinkClosedNode | LinkIssue pl_error

record health_status =
  hs_Healthy :: bool
  EventLogHealthy :: bool
  RoutingTableHealthy :: bool
  PeerLinkHealthy :: bool
  ConnectedClients :: nat
  ConnectedPeers :: nat
  hs_Message :: "health_issue list"

definition GetHealth :: "'l log_ops \<Rightarrow> ctx \<Rightarrow> 'l mesh_node \<Rightarrow> health_status" where
  "GetHealth ops ctx n =
     (let m0 = (if mn_closed n then [NodeIsClosed] else []) @ (if mn_started n then [] else [NodeNotStarted]);
          (logOk, m1) = (if mn_closed n then (False, [LogClosedNode])
                         else case op_GetStatistics ops ctx (eventLog n) of
                           Inl err \<Rightarrow> (False, [LogIssue err]) | Inr _ \<Rightarrow> (True, []));
          (tableOk, m2) = (if mn_closed n then (False, [TableClosedNode])
                           else case GetSubscribers ''__health.check'' (routingTable n) of
                             Inl err \<Rightarrow> (False, [TableIssue err]) | Inr _ \<Rightarrow> (True, []));
          (linkOk, peers, m3) = (if mn_closed n then (False, [], [LinkClosedNode])
                           else case GetConnectedPeers (peerLink n) of
                             Inl err \<Rightarrow> (False, [], [LinkIssue err]) | Inr peers \<Rightarrow> (True, peers, []))
      in \<lparr>hs_Healthy = (\<not> mn_closed n \<and> logOk \<and> tableOk \<and> linkOk), EventLogHealthy = logOk,
          RoutingTableHealthy = tableOk, PeerLinkHealthy = linkOk,
          ConnectedClients = length (clients n), ConnectedPeers = length peers,
          hs_Message = m0 @ m1 @ m2 @ m3\<rparr>)"

subsection \<open>Statistics\<close>

record routing_stats =
  LocalSubscriptions :: nat
  LocalClientsWithSubscriptions :: nat
  LocalInterestTopics :: "string list"
  PeerInterest :: "(string, string list) gomap"
  InterestUpdatesSent :: nat
  InterestUpdatesReceived :: nat
  InterestSnapshotsSent :: nat
  InterestSnapshotsReceived :: nat
  EmptySnapshotsReceived :: nat
  SnapshotTopicsReceived :: nat

fun counts_loop :: "nat \<times> nat \<Rightarrow> (string, (string, client_subscription) gomap) gomap \<Rightarrow> nat \<times> nat" where
  "counts_loop (subs, cls) [] = (subs, cls)"
| "counts_loop (subs, cls) ((_, clientSubs) # m) =
     (if clientSubs = [] then counts_loop (subs, cls) m
      else counts_loop (subs + length clientSubs, cls + 1) m)"

definition localSubscriptionCounts :: "'l mesh_node \<Rightarrow> nat \<times> nat" where
  "localSubscriptionCounts n = counts_loop (0, 0) (mn_subscriptions n)"

fun interest_loop :: "(string, string list) gomap \<Rightarrow> (string, (string, bool) gomap) gomap \<Rightarrow> (string, string list) gomap" where
  "interest_loop peers [] = peers"
| "interest_loop peers ((peerID, topics) # m) =
     (let peerTopics = map fst (filter snd topics) in
      if topics = [] \<or> peerTopics = [] then interest_loop peers m
      else interest_loop (AList.update peerID (sort peerTopics) peers) m)"

definition peerInterestSnapshot :: "'l mesh_node \<Rightarrow> (string, string list) gomap" where
  "peerInterestSnapshot n = interest_loop [] (peerSubscriptions n)"

definition GetRoutingStats :: "'l mesh_node \<Rightarrow> routing_stats" where
  "GetRoutingStats n =
     \<lparr>LocalSubscriptions = fst (localSubscriptionCounts n),
      LocalClientsWithSubscriptions = snd (localSubscriptionCounts n),
      LocalInterestTopics = localInterestSnapshot n, PeerInterest = peerInterestSnapshot n,
      InterestUpdatesSent = interestUpdatesSent n, InterestUpdatesReceived = interestUpdatesReceived n,
      InterestSnapshotsSent = interestSnapshotsSent n, InterestSnapshotsReceived = interestSnapshotsReceived n,
      EmptySnapshotsReceived = emptySnapshotsReceived n, SnapshotTopicsReceived = snapshotTopicsReceived n\<rparr>"

end
