(* ===== verification/Mesh_Safety.thy ===== *)
theory Mesh_Safety
  imports Mesh_Delivery Mesh_Lifecycle
begin

text \<open>
  The node as a transition system: every operation a caller, a goroutine of the node or a goroutine of its peer
  link can run, and the invariant they keep. The properties of publishing are stated for the states
  that are reached this way.
\<close>

subsection \<open>What each operation keeps\<close>

lemma node_ok_frame:
  assumes "node_ok n" "subscriptions (routingTable n') = subscriptions (routingTable n)"
    "peerSubscriptions n' = peerSubscriptions n" "length (clientHeap n) \<le> length (clientHeap n')" "pl_inv (peerLink n')"
  shows "node_ok n'"
proof -
  have live: "client_live (clientHeap n) s \<Longrightarrow> client_live (clientHeap n') s" for s
    using assms(4) by (auto simp: client_live_def split: option.splits)
  have "rt_view (routingTable n') = rt_view (routingTable n)" "rt_inv (routingTable n') = rt_inv (routingTable n)"
    using assms(2) by (auto simp: rt_view_def rt_inv_def fun_eq_iff)
  with assms live show ?thesis
    by (auto simp: node_ok_def peers_wf_def)
qed

definition link_keeps :: "peer_link \<Rightarrow> peer_link \<Rightarrow> bool" where
  "link_keeps g g' \<longleftrightarrow> (pl_inv g \<longrightarrow> pl_inv g') \<and> pl_closed g' = pl_closed g \<and> queues_stable g g'"

lemma link_keeps_refl [simp]: "link_keeps g g"
  by (simp add: link_keeps_def stable_refl)

lemma link_keeps_trans: "link_keeps g g1 \<Longrightarrow> link_keeps g1 g2 \<Longrightarrow> link_keeps g g2"
  by (auto simp: link_keeps_def intro: stable_trans)

lemma send_keeps:
  "link_keeps g (snd (SendEvent now c p e g))" "link_keeps g (snd (SendInterestUpdate now c p u g))"
  "link_keeps g (snd (SendInterestSnapshot now c p s g))"
proof -
  have "pl_closed (snd (enqueue c p pl r m g)) = pl_closed g" for pl r m
    by (auto simp: enqueue_def recordPlaneQueued_def split: prod.splits send_result.splits)
  then have "pl_closed (snd (SendEvent now c p e g)) = pl_closed g"
    "pl_closed (snd (SendInterestUpdate now c p u g)) = pl_closed g"
    "pl_closed (snd (SendInterestSnapshot now c p s g)) = pl_closed g"
    by (auto simp: SendEvent_def SendInterestUpdate_def SendInterestSnapshot_def sendInterestMessage_def split: sum.splits)
  then show "link_keeps g (snd (SendEvent now c p e g))" "link_keeps g (snd (SendInterestUpdate now c p u g))"
    "link_keeps g (snd (SendInterestSnapshot now c p s g))"
    unfolding link_keeps_def by (auto intro: inv_intros stable_intros)
qed

lemma propagate_loop_keeps: "link_keeps (peerLink n) (peerLink (snd (propagate_loop now ctx u ps (a, b) n)))"
proof (induction ps arbitrary: ctx a b n)
  case (Cons p ps)
  obtain c ctx' where pl: "poll ctx = (c, ctx')" by (cases "poll ctx")
  obtain r g where s: "SendInterestUpdate now c p (Some u) (peerLink n) = (r, g)"
    by (cases "SendInterestUpdate now c p (Some u) (peerLink n)")
  have g: "link_keeps (peerLink n) g"
    using send_keeps(2) [of "peerLink n" now c p "Some u"] s by simp
  show ?case
  proof (cases r)
    case None
    have "link_keeps g (peerLink (snd (propagate_loop now ctx' u ps (a + 1, b)
        (n\<lparr>peerLink := g, interestUpdatesSent := interestUpdatesSent n + 1\<rparr>))))"
      using Cons.IH [of "n\<lparr>peerLink := g, interestUpdatesSent := interestUpdatesSent n + 1\<rparr>"] by simp
    with g None pl s show ?thesis by (auto intro: link_keeps_trans)
  next
    case (Some err)
    have "link_keeps g (peerLink (snd (propagate_loop now ctx' u ps (a, b + 1) (n\<lparr>peerLink := g\<rparr>))))"
      using Cons.IH [of "n\<lparr>peerLink := g\<rparr>"] by simp
    with g Some pl s show ?thesis by (auto intro: link_keeps_trans)
  qed
qed simp

lemma propagate_keeps: "link_keeps (peerLink n) (peerLink (snd (propagateInterestUpdate now ctx act t n)))"
proof -
  have "snd (propagateInterestUpdate now ctx act t n) = n
      \<or> (\<exists>u ps. snd (propagateInterestUpdate now ctx act t n) = snd (propagate_loop now ctx u ps (0, 0) n))"
    unfolding propagateInterestUpdate_def Let_def
    by (auto split: sum.splits prod.splits if_splits) (metis snd_conv)+
  then show ?thesis using propagate_loop_keeps [of n] by (metis link_keeps_refl)
qed

lemma forward_loop_keeps: "link_keeps g (snd (snd (forward_loop now ctx e ps r g)))"
proof (induction ps arbitrary: ctx r g)
  case (Cons p ps)
  obtain d ctx1 where p: "poll ctx = (d, ctx1)" by (cases "poll ctx")
  obtain c ctx2 where c: "poll ctx1 = (c, ctx2)" by (cases "poll ctx1")
  obtain err g1 where s: "SendEvent now c p (Some e) g = (err, g1)" by (cases "SendEvent now c p (Some e) g")
  have "link_keeps g g1"
    using send_keeps(1) [of g now c p "Some e"] s by simp
  with Cons.IH [of g1] p c s show ?case
    by (cases d; cases err) (auto intro: link_keeps_trans)
qed simp

lemma deliver_loop_length: "length (snd (snd (deliver_loop ctx e ss r h))) = length h"
proof (induction ss arbitrary: ctx r h)
  case (Cons s ss)
  obtain d ctx1 where p: "poll ctx = (d, ctx1)" by (cases "poll ctx")
  obtain err h1 where s: "DeliverEvent s e h = (err, h1)" by (cases "DeliverEvent s e h")
  have "length h1 = length h"
    using DeliverEvent_length [of s e h] s by simp
  with Cons.IH p s show ?case
    by (cases d; cases err) auto
qed simp

lemma incoming_loop_length: "length (incoming_loop e ss h) = length h"
  by (induction ss arbitrary: h) (auto simp: DeliverEvent_length)

lemma resync_loop_keeps:
  "\<exists>g k. snd (resync_loop now ctx ps seen n) = n\<lparr>peerLink := g, interestSnapshotsSent := k\<rparr> \<and> link_keeps (peerLink n) g"
proof (induction ps arbitrary: ctx seen n)
  case Nil
  have "n = n\<lparr>peerLink := peerLink n, interestSnapshotsSent := interestSnapshotsSent n\<rparr>" by simp
  then show ?case by (metis link_keeps_refl resync_loop.simps(1) snd_conv)
next
  case (Cons p ps)
  obtain c ctx' where pl: "poll ctx = (c, ctx')" by (cases "poll ctx")
  obtain r n1 where s: "syncLocalSubscriptionsToPeer now c p n = (r, n1)"
    by (cases "syncLocalSubscriptionsToPeer now c p n")
  obtain g k where n1: "n1 = n\<lparr>peerLink := g, interestSnapshotsSent := k\<rparr>" "link_keeps (peerLink n) g"
  proof -
    let ?s = "\<lparr>is_NodeId = mc_NodeID (mn_config n), is_Topics = localInterestSnapshot n\<rparr>"
    obtain r' g where send: "SendInterestSnapshot now c p (Some ?s) (peerLink n) = (r', g)"
      by (cases "SendInterestSnapshot now c p (Some ?s) (peerLink n)")
    have "link_keeps (peerLink n) g"
      using send_keeps(3) [of "peerLink n" now c p "Some ?s"] send by simp
    moreover have "n1 = n\<lparr>peerLink := g, interestSnapshotsSent := interestSnapshotsSent n1\<rparr>"
      using s send by (cases r') (auto simp: syncLocalSubscriptionsToPeer_def Let_def)
    ultimately show ?thesis using that by blast
  qed
  have "\<exists>g k. snd (resync_loop now ctx' ps seen' n1) = n\<lparr>peerLink := g, interestSnapshotsSent := k\<rparr>
      \<and> link_keeps (peerLink n) g" for seen'
    using Cons.IH [of ctx' seen' n1] n1 by (auto intro: link_keeps_trans)
  with Cons.IH [of ctx seen n] pl s show ?case
    by (cases r) auto
qed

lemma connect_loop_keeps: "link_keeps g (connect_loop now dial ps g)"
proof (induction ps arbitrary: g)
  case (Cons p ps)
  have "link_keeps g (snd (Connect now d p g))" for d
    by (auto simp: link_keeps_def intro: inv_intros stable_intros)
      (auto simp: Connect_def Let_def registerPeer_def ensure_send_queue_def ensure_control_queue_def ensure_metrics_def
        new_queue_def SetPeerHealth_def split: option.splits if_splits prod.splits)
  with Cons.IH show ?case by (auto intro: link_keeps_trans)
qed simp

subsection \<open>The transition system\<close>

text \<open>
  A step is an operation of the node run without interruption, or one of the pieces into which the locks divide those that do
  not hold the node's lock exclusively. A publish holds it shared and an incoming event gives it up in between, so that others may
  run between their effects: the append (\<open>step_append\<close>), each delivery (\<open>step_deliver\<close>), each step of a send to a peer
  (\<open>step_link\<close>). The HTTP layer writes the routing table without the node's lock, for the streams it opens and
  closes (\<open>step_route\<close>, \<open>step_unroute\<close>); the other pieces are those of a subscription
  (\<open>step_route\<close>, \<open>step_add\<close>, sends, \<open>step_sent\<close>) and of the consumer loops (\<open>step_take_event\<close>,
  \<open>step_take_message\<close>). A subscriber that is registered or delivered to is a client with an object. \<open>step_client\<close> is
  a client object made outside the node (the HTTP layer makes its own), \<open>step_read\<close> a reader of a client's channel. The
  goroutines of the peer link run as the link's own steps, except that only the node closes its link; \<open>Close\<close> holds
  the node's lock from its first effect to its last.
\<close>

inductive mesh_step :: "'l log_ops \<Rightarrow> 'l mesh_node \<Rightarrow> 'l mesh_node \<Rightarrow> bool" for ops where
  step_start: "mesh_step ops n (snd (NodeStart now listen dial n))"
| step_stop: "mesh_step ops n (snd (NodeStop n))"
| step_close: "mesh_step ops n (snd (NodeClose ops n))"
| step_auth: "mesh_step ops n (snd (AuthenticateClient now cred n))"
| step_client: "mesh_step ops n (n\<lparr>clientHeap := clientHeap n @ [new_client_obj now]\<rparr>)"
| step_subscribe: "client_live (clientHeap n) c \<Longrightarrow> mesh_step ops n (snd (NodeSubscribe now ctx (Some c) topic n))"
| step_unsubscribe: "mesh_step ops n (snd (NodeUnsubscribe now ctx client topic n))"
| step_unsubscribe_id: "mesh_step ops n (snd (UnsubscribeByID now ctx cid sid n))"
| step_publish: "mesh_step ops n (snd (PublishEventWithResult ops now ctx client ev n))"
| step_event: "mesh_step ops n (processIncomingUserEvent ops cancelled e n)"
| step_interest: "mesh_step ops n (processIncomingInterestMessage m n)"
| step_data: "mesh_step ops n (snd (data_plane_step ops ctx cancelled ch n))"
| step_control: "mesh_step ops n (snd (control_plane_step ctx ch n))"
| step_resync: "mesh_step ops n (snd (resync_tick now ctx seen n))"
| step_append: "mesh_step ops n (n\<lparr>eventLog := snd (op_AppendEvent ops cancelled topic ev (eventLog n))\<rparr>)"
| step_deliver: "client_live (clientHeap n) c \<Longrightarrow> mesh_step ops n (n\<lparr>clientHeap := snd (DeliverEvent c e (clientHeap n))\<rparr>)"
| step_route: "client_live (clientHeap n) c \<Longrightarrow>
    mesh_step ops n (n\<lparr>routingTable := snd (Subscribe topic (Some c) (routingTable n))\<rparr>)"
| step_unroute: "mesh_step ops n (n\<lparr>routingTable := snd (Unsubscribe topic cid (routingTable n))\<rparr>)"
| step_add: "mesh_step ops n (addSubscriptionMetadata now cid sid topic n)"
| step_remove: "mesh_step ops n (removeSubscriptionMetadataByTopic cid topic n)"
| step_sent: "mesh_step ops n (n\<lparr>interestUpdatesSent := k1, interestSnapshotsSent := k2\<rparr>)"
| step_take_event: "mesh_step ops n (n\<lparr>peerLink := (peerLink n)
    \<lparr>pl_eventChans := snd (try_recv ch (pl_eventChans (peerLink n)))\<rparr>\<rparr>)"
| step_take_message: "mesh_step ops n (n\<lparr>peerLink := (peerLink n)
    \<lparr>pl_interestChans := snd (try_recv ch (pl_interestChans (peerLink n)))\<rparr>\<rparr>)"
| step_read: "mesh_step ops n (n\<lparr>clientHeap := (clientHeap n)
    [a := (client_at (clientHeap n) a)\<lparr>co_chan := (chan_of (clientHeap n) a)\<lparr>ch_items := tl (ch_items (chan_of (clientHeap n) a))\<rparr>\<rparr>]\<rparr>)"
| step_link: "pl_step (peerLink n) g \<Longrightarrow> pl_closed g = pl_closed (peerLink n) \<Longrightarrow> mesh_step ops n (n\<lparr>peerLink := g\<rparr>)"

definition node_inv :: "'l mesh_node \<Rightarrow> bool" where
  "node_inv n \<longleftrightarrow> node_ok n \<and> (mn_closed n \<or> node_open n)"

lemma node_inv_frame:
  assumes "node_inv n" "routingTable n' = routingTable n" "peerSubscriptions n' = peerSubscriptions n"
    "length (clientHeap n) \<le> length (clientHeap n')" "link_keeps (peerLink n) (peerLink n')"
    "mn_closed n' = mn_closed n"
  shows "node_inv n'"
  using assms node_ok_frame [of n n'] by (auto simp: node_inv_def node_open_def link_keeps_def node_ok_def)

lemma node_inv_table:
  assumes "node_inv n" "rt_inv rt" "rt_closed rt = rt_closed (routingTable n)"
    and "\<And>k s. rt_view rt k = Some s \<Longrightarrow> client_live (clientHeap n) s"
  shows "node_inv (n\<lparr>routingTable := rt\<rparr>)"
  using assms by (auto simp: node_inv_def node_ok_def node_open_def peers_wf_def)

lemma node_inv_live: "node_inv n \<Longrightarrow> rt_view (routingTable n) k = Some s \<Longrightarrow> client_live (clientHeap n) s"
  by (cases k) (auto simp: node_inv_def node_ok_def)

lemma Subscribe_inv:
  assumes "node_inv n" "client_live (clientHeap n) s" "Subscribe t (Some s) (routingTable n) = (res, rt)"
  shows "node_inv (n\<lparr>routingTable := rt\<rparr>)"
proof (cases res)
  case (Some err)
  with assms rt.sub_error have "rt = routingTable n" by blast
  with assms(1) show ?thesis by simp
next
  case None
  then have t: "t \<noteq> []" "\<not> rt_closed (routingTable n)"
    using assms(3) by (auto simp: Subscribe_def split: if_splits)
  have inv: "rt_inv (routingTable n)" using assms(1) by (simp add: node_inv_def node_ok_def)
  have "rt_inv rt" "\<not> rt_closed rt" "rt_view rt = (rt_view (routingTable n))((t, ID s) \<mapsto> s)"
    using rt.sub_value [OF inv t(2,1), of s] assms(3) by auto
  with t assms(1,2) show ?thesis
    by (intro node_inv_table) (auto intro: node_inv_live split: if_splits)
qed

lemma Unsubscribe_keeps:
  assumes "node_inv n"
  shows "node_inv (n\<lparr>routingTable := snd (Unsubscribe t i (routingTable n))\<rparr>)"
proof (cases "rt_closed (routingTable n)")
  case True
  with assms show ?thesis by (simp add: Unsubscribe_def)
next
  case False
  have inv: "rt_inv (routingTable n)" using assms(1) by (simp add: node_inv_def node_ok_def)
  obtain rt where "Unsubscribe t i (routingTable n) = (None, rt)" "rt_inv rt" "\<not> rt_closed rt"
    "rt_view rt = (rt_view (routingTable n))((t, i) := None)"
    using rt.unsub_value [OF inv False, of t i] by auto
  with False assms show ?thesis
    by (auto intro!: node_inv_table intro: node_inv_live split: if_splits)
qed

lemma NodeSubscribe_inv:
  assumes inv: "node_inv n" and live: "client_live (clientHeap n) c"
  shows "node_inv (snd (NodeSubscribe now ctx (Some c) topic n))"
proof (cases rule: NodeSubscribe_cases [of now ctx "Some c" topic n, case_names refused accepted])
  case (refused err)
  with inv show ?thesis by simp
next
  case (accepted c' rt n1 n2)
  have opn: "rt_inv (routingTable n)" "\<not> rt_closed (routingTable n)"
    using inv accepted(3) by (auto simp: node_inv_def node_open_def node_ok_def)
  have rt: "rt_inv rt" "\<not> rt_closed rt" "rt_view rt = (rt_view (routingTable n))((topic, ID c) \<mapsto> c)"
    using rt.sub_value [OF opn accepted(2), of c] accepted(1,6) by auto
  have n1: "routingTable n1 = rt" "peerLink n1 = peerLink n" "peerSubscriptions n1 = peerSubscriptions n"
    "clientHeap n1 = clientHeap n" "mn_closed n1 = mn_closed n"
    by (simp_all add: accepted(7) addSubscriptionMetadata_def Let_def)
  have "node_inv n1"
    using inv rt live by (auto simp: node_inv_def node_ok_def node_open_def n1 peers_wf_def)
  moreover have "node_inv (snd (propagateInterestUpdate now ctx ''subscribe'' topic n1))" if "node_inv n1"
    using propagate_frame [of now ctx "''subscribe''" topic n1] propagate_keeps [of n1 now ctx "''subscribe''" topic]
    by (intro node_inv_frame [OF that]) auto
  ultimately show ?thesis
    using accepted(8,9) by simp
qed

lemma NodeUnsubscribe_inv:
  assumes inv: "node_inv n"
  shows "node_inv (snd (NodeUnsubscribe now ctx client topic n))"
proof (cases rule: NodeUnsubscribe_cases [of now ctx client topic n, case_names refused accepted])
  case (refused err)
  with inv show ?thesis by simp
next
  case (accepted c rt n1 n2)
  have opn: "rt_inv (routingTable n)" "\<not> rt_closed (routingTable n)"
    using inv accepted(3) by (auto simp: node_inv_def node_open_def node_ok_def)
  have rt: "rt_inv rt" "\<not> rt_closed rt" "rt_view rt = (rt_view (routingTable n))((topic, ID c) := None)"
    using rt.unsub_value [OF opn, of topic "ID c"] accepted(6) by auto
  have n1: "routingTable n1 = rt" "peerLink n1 = peerLink n" "peerSubscriptions n1 = peerSubscriptions n"
    "clientHeap n1 = clientHeap n" "mn_closed n1 = mn_closed n"
    by (simp_all add: accepted(7) removeSubscriptionMetadataByTopic_def Let_def split: option.splits)
  have "node_inv n1"
    using inv rt by (auto simp: node_inv_def node_ok_def node_open_def n1 peers_wf_def split: if_splits)
  moreover have "node_inv (snd (propagateInterestUpdate now ctx ''unsubscribe'' topic n1))" if "node_inv n1"
    using propagate_frame [of now ctx "''unsubscribe''" topic n1] propagate_keeps [of n1 now ctx "''unsubscribe''" topic]
    by (intro node_inv_frame [OF that]) auto
  ultimately show ?thesis
    using accepted(8,9) by simp
qed

lemma publish_frame:
  assumes "PublishEventWithResult ops now ctx client ev n = (r, n')"
  shows "routingTable n' = routingTable n \<and> peerSubscriptions n' = peerSubscriptions n
    \<and> length (clientHeap n') = length (clientHeap n) \<and> link_keeps (peerLink n) (peerLink n') \<and> mn_closed n' = mn_closed n"
proof -
  have dl: "routingTable n2 = routingTable n1 \<and> peerSubscriptions n2 = peerSubscriptions n1
      \<and> length (clientHeap n2) = length (clientHeap n1) \<and> peerLink n2 = peerLink n1 \<and> mn_closed n2 = mn_closed n1"
    if "deliverToLocalSubscribers c e n1 = (x, c', n2)" for c e x c' and n1 n2 :: "'a mesh_node"
  proof -
    have "length h = length (clientHeap n1)" if "deliver_loop c e ss no_result (clientHeap n1) = (x, c', h)" for ss h
      using deliver_loop_length [of c e ss no_result "clientHeap n1"] that by simp
    with that show ?thesis
      by (auto simp: deliverToLocalSubscribers_def split: sum.splits prod.splits)
  qed
  have fw: "routingTable n2 = routingTable n1 \<and> peerSubscriptions n2 = peerSubscriptions n1
      \<and> length (clientHeap n2) = length (clientHeap n1) \<and> link_keeps (peerLink n1) (peerLink n2) \<and> mn_closed n2 = mn_closed n1"
    if "forwardToPeers now c e x n1 = (x', c', n2)" for c e x x' c' and n1 n2 :: "'a mesh_node"
  proof -
    have "link_keeps (peerLink n1) g" if "forward_loop now c e ps x (peerLink n1) = (x', c', g)" for ps g
      using forward_loop_keeps [of "peerLink n1" now c e ps x] that by simp
    with that show ?thesis
      by (auto simp: forwardToPeers_def split: sum.splits prod.splits)
  qed
  show ?thesis
    using assms
    by (cases rule: publish_cases [of client ev n ops now ctx, case_names invalid unlogged interrupted finished])
      (auto dest!: dl fw)
qed

lemma NodeStart_frame:
  assumes n': "n' = snd (NodeStart now listen dial n)"
  shows "routingTable n' = routingTable n \<and> peerSubscriptions n' = peerSubscriptions n \<and> clientHeap n' = clientHeap n
    \<and> link_keeps (peerLink n) (peerLink n') \<and> mn_closed n' = mn_closed n"
proof -
  have start: "link_keeps g (snd (Start listen g))" "link_keeps g (snd (StartHeartbeats b g))" for b g
    by (auto simp: link_keeps_def intro: inv_intros stable_intros)
      (auto simp: Start_def StartHeartbeats_def Let_def split: sum.splits if_splits)
  obtain e1 g1 where g1: "Start listen (peerLink n) = (e1, g1)" by (cases "Start listen (peerLink n)")
  let ?n1 = "n\<lparr>peerLink := g1\<rparr>"
  let ?n2 = "case mc_SeedNodes (mn_config n) of None \<Rightarrow> ?n1
    | Some seeds \<Rightarrow> if seeds = [] then ?n1 else runDiscovery now dial seeds ?n1"
  obtain e3 g3 where g3: "StartHeartbeats False (peerLink ?n2) = (e3, g3)" by (cases "StartHeartbeats False (peerLink ?n2)")
  have k1: "link_keeps (peerLink n) g1"
    using start(1) [of "peerLink n"] g1 by simp
  have k2: "link_keeps g1 (peerLink ?n2)"
    using connect_loop_keeps by (auto simp: runDiscovery_def split: option.splits)
  have k3: "link_keeps (peerLink ?n2) g3"
    using start(2) [of "peerLink ?n2" False] g3 by simp
  have frame: "routingTable ?n2 = routingTable n" "peerSubscriptions ?n2 = peerSubscriptions n"
    "clientHeap ?n2 = clientHeap n" "mn_closed ?n2 = mn_closed n"
    by (auto simp: runDiscovery_def split: option.splits)
  note k = k1 link_keeps_trans [OF link_keeps_trans [OF k1 k2] k3]
  show ?thesis
  proof (cases "mn_closed n \<or> mn_started n")
    case True
    then show ?thesis by (auto simp: NodeStart_def n')
  next
    case False
    show ?thesis
      by (cases e1; cases e3) (use False g1 g3 frame k in \<open>simp_all add: NodeStart_def n' Let_def\<close>)
  qed
qed

lemma NodeStart_inv: "node_inv n \<Longrightarrow> node_inv (snd (NodeStart now listen dial n))"
  using NodeStart_frame [OF refl, of now listen dial n] by (auto intro: node_inv_frame)

lemma NodeStop_frame:
  assumes n': "n' = snd (NodeStop n)"
  shows "routingTable n' = routingTable n \<and> peerSubscriptions n' = peerSubscriptions n \<and> clientHeap n' = clientHeap n
    \<and> link_keeps (peerLink n) (peerLink n') \<and> mn_closed n' = mn_closed n"
proof -
  have stop: "link_keeps g (snd (StopHeartbeats g))" "link_keeps g (snd (Stop g))" for g
    by (auto simp: link_keeps_def intro: inv_intros stable_intros)
      (auto simp: Stop_def StopHeartbeats_def Let_def split: option.splits if_splits)
  obtain e1 g1 where g1: "StopHeartbeats (peerLink n) = (e1, g1)" by (cases "StopHeartbeats (peerLink n)")
  obtain e2 g2 where g2: "Stop g1 = (e2, g2)" by (cases "Stop g1")
  have k: "link_keeps (peerLink n) g1" "link_keeps (peerLink n) g2"
    using stop(1) [of "peerLink n"] stop(2) [of g1] g1 g2 by (auto intro: link_keeps_trans)
  show ?thesis
    by (cases e1; cases e2; cases "lifecycleCancel n") (use g1 g2 k in \<open>simp_all add: NodeStop_def n' Let_def\<close>)
qed

lemma NodeStop_inv: "node_inv n \<Longrightarrow> node_inv (snd (NodeStop n))"
  using NodeStop_frame [OF refl, of n] by (auto intro: node_inv_frame)

lemma NodeClose_inv:
  assumes "node_inv n"
  shows "node_inv (snd (NodeClose ops n))"
proof (cases "mn_closed n")
  case True
  with assms show ?thesis by (simp add: NodeClose_def)
next
  case False
  obtain e l where l: "op_Close ops (eventLog n) = (e, l)" by (cases "op_Close ops (eventLog n)")
  obtain g where g: "ClosePeerLink (peerLink n) = (None, g)" "pl_inv (peerLink n) \<Longrightarrow> pl_inv g"
    using lifecycle_ops_inv [of "peerLink n"] by (cases "pl_closed (peerLink n)") (auto simp: ClosePeerLink_def Let_def)
  obtain rt where rt: "CloseTable (routingTable n) = (None, rt)" "rt_inv rt" "rt_view rt = Map.empty"
    by (auto simp: CloseTable_def rt_inv_def rt_view_def gm_get_def fun_eq_iff)
  have "pl_inv g"
    using assms g by (simp add: node_inv_def node_ok_def)
  with assms False l g rt show ?thesis
    by (cases e) (auto simp: NodeClose_def Let_def node_inv_def node_ok_def node_open_def peers_wf_def)
qed

lemma processIncomingUserEvent_inv:
  assumes "node_inv n"
  shows "node_inv (processIncomingUserEvent ops cancelled e n)"
  using assms by (auto intro!: node_inv_frame [OF assms] simp: processIncomingUserEvent_def Let_def incoming_loop_length
      split: prod.splits sum.splits)

lemma processIncomingInterestMessage_inv:
  assumes "node_inv n"
  shows "node_inv (processIncomingInterestMessage m n)"
proof -
  let ?n = "processIncomingInterestMessage m n"
  have "routingTable ?n = routingTable n" "clientHeap ?n = clientHeap n" "peerLink ?n = peerLink n" "mn_closed ?n = mn_closed n"
    unfolding processIncomingInterestMessage_def processIncomingInterestUpdate_def
      processIncomingInterestSnapshot_def Let_def by (auto split: option.splits)
  moreover have "peers_wf ?n"
    using assms process_message_wf [of n m] by (simp add: node_inv_def node_ok_def)
  ultimately show ?thesis
    using assms by (auto simp: node_inv_def node_ok_def node_open_def)
qed

text \<open>The consumers of the link's channels.\<close>

lemma take_chan_keeps:
  "link_keeps g (g\<lparr>pl_eventChans := snd (try_recv ch (pl_eventChans g))\<rparr>)"
  "link_keeps g (g\<lparr>pl_interestChans := snd (try_recv ch (pl_interestChans g))\<rparr>)"
  by (auto simp: link_keeps_def pl_inv_def queue_ok_def subs_ok_def intro: try_recv_ok stable_frame)

lemma data_plane_step_inv:
  assumes "node_inv n"
  shows "node_inv (snd (data_plane_step ops ctx cancelled ch n))"
proof -
  have "node_inv (n\<lparr>peerLink := (peerLink n)\<lparr>pl_eventChans := snd (try_recv ch (pl_eventChans (peerLink n)))\<rparr>\<rparr>)"
    by (rule node_inv_frame [OF assms]) (simp_all add: take_chan_keeps)
  with assms show ?thesis
    by (auto simp: data_plane_step_def intro: processIncomingUserEvent_inv split: prod.splits recv_result.splits)
qed

lemma control_plane_step_inv:
  assumes "node_inv n"
  shows "node_inv (snd (control_plane_step ctx ch n))"
proof -
  have "node_inv (n\<lparr>peerLink := (peerLink n)\<lparr>pl_interestChans := snd (try_recv ch (pl_interestChans (peerLink n)))\<rparr>\<rparr>)"
    by (rule node_inv_frame [OF assms]) (simp_all add: take_chan_keeps)
  with assms show ?thesis
    by (auto simp: control_plane_step_def intro: processIncomingInterestMessage_inv split: prod.splits recv_result.splits)
qed

lemma mesh_step_inv:
  assumes "mesh_step ops n n'" "node_inv n"
  shows "node_inv n'"
  using assms
proof cases
  case (step_auth now cred)
  then show ?thesis
    using assms(2) by (auto intro!: node_inv_frame [OF assms(2)]
        simp: AuthenticateClient_def NewTrustedClient_def split: credentials.splits option.splits)
next
  case (step_client now)
  then show ?thesis by (auto intro!: node_inv_frame [OF assms(2)])
next
  case (step_unsubscribe_id now ctx cid sid)
  with UnsubscribeByID_cases [of now ctx cid sid n] NodeUnsubscribe_inv [OF assms(2)] assms(2) show ?thesis by auto
next
  case (step_publish now ctx client ev)
  obtain r n2 where "PublishEventWithResult ops now ctx client ev n = (r, n2)"
    by (cases "PublishEventWithResult ops now ctx client ev n")
  with publish_frame [OF this] step_publish show ?thesis
    by (auto intro!: node_inv_frame [OF assms(2)])
next
  case (step_resync now ctx seen)
  show ?thesis
  proof (cases "GetConnectedPeers (peerLink n)")
    case (Inl err)
    with assms(2) step_resync show ?thesis by (simp add: resync_tick_def)
  next
    case (Inr ps)
    obtain g k where "snd (resync_loop now ctx (map pn_ID ps) seen n) = n\<lparr>peerLink := g, interestSnapshotsSent := k\<rparr>"
      "link_keeps (peerLink n) g"
      using resync_loop_keeps by blast
    with Inr step_resync show ?thesis
      by (intro node_inv_frame [OF assms(2)]) (auto simp: resync_tick_def split: prod.splits)
  qed
next
  case (step_deliver c e)
  then show ?thesis by (auto intro!: node_inv_frame [OF assms(2)] simp: DeliverEvent_length)
next
  case (step_route c topic)
  with Subscribe_inv [OF assms(2) step_route(2), of topic] show ?thesis by (metis prod.collapse)
next
  case (step_link g)
  then show ?thesis
    using pl_step_inv [of "peerLink n" g] pl_step_stable [of "peerLink n" g]
    by (auto intro!: node_inv_frame [OF assms(2)] simp: link_keeps_def)
next
  case (step_add now cid sid topic)
  then show ?thesis by (auto intro!: node_inv_frame [OF assms(2)] simp: addSubscriptionMetadata_def Let_def)
next
  case (step_remove cid topic)
  then show ?thesis
    by (auto intro!: node_inv_frame [OF assms(2)] simp: removeSubscriptionMetadataByTopic_def Let_def split: option.splits)
next
  case (step_unroute topic cid)
  with Unsubscribe_keeps [OF assms(2)] show ?thesis by simp
next
  case (step_append cancelled topic ev)
  then show ?thesis by (auto intro!: node_inv_frame [OF assms(2)])
next
  case (step_sent k1 k2)
  then show ?thesis by (auto intro!: node_inv_frame [OF assms(2)])
next
  case (step_read a)
  then show ?thesis by (auto intro!: node_inv_frame [OF assms(2)])
next
  case (step_take_event ch)
  then show ?thesis by (auto intro!: node_inv_frame [OF assms(2)] simp: take_chan_keeps)
next
  case (step_take_message ch)
  then show ?thesis by (auto intro!: node_inv_frame [OF assms(2)] simp: take_chan_keeps)
qed (auto intro: NodeStart_inv NodeStop_inv NodeClose_inv NodeSubscribe_inv NodeUnsubscribe_inv processIncomingUserEvent_inv
    processIncomingInterestMessage_inv data_plane_step_inv control_plane_step_inv)

text \<open>No step of the node takes a queue reference from a sender either.\<close>

lemma subscribe_ops_link:
  "link_keeps (peerLink n) (peerLink (snd (NodeSubscribe now ctx client topic n)))"
  "link_keeps (peerLink n) (peerLink (snd (NodeUnsubscribe now ctx client topic n)))"
proof -
  have add: "peerLink (addSubscriptionMetadata now c i t m) = peerLink m" for c i t and m :: "'a mesh_node"
    by (simp add: addSubscriptionMetadata_def Let_def)
  have rem: "peerLink (removeSubscriptionMetadataByTopic c t m) = peerLink m" for c t and m :: "'a mesh_node"
    by (simp add: removeSubscriptionMetadataByTopic_def Let_def split: option.splits)
  show "link_keeps (peerLink n) (peerLink (snd (NodeSubscribe now ctx client topic n)))"
  proof (cases rule: NodeSubscribe_cases [of now ctx client topic n, case_names refused accepted])
    case (accepted c rt n1 n2)
    then show ?thesis
      using propagate_keeps [of n1 now ctx "''subscribe''" topic] add by auto
  qed simp
  show "link_keeps (peerLink n) (peerLink (snd (NodeUnsubscribe now ctx client topic n)))"
  proof (cases rule: NodeUnsubscribe_cases [of now ctx client topic n, case_names refused accepted])
    case (accepted c rt n1 n2)
    then show ?thesis
      using propagate_keeps [of n1 now ctx "''unsubscribe''" topic] rem by auto
  qed simp
qed

lemma incoming_link:
  "peerLink (processIncomingUserEvent ops cancelled e n) = peerLink n"
  "peerLink (processIncomingInterestMessage m n) = peerLink n"
  by (auto simp: processIncomingUserEvent_def processIncomingInterestMessage_def processIncomingInterestUpdate_def
      processIncomingInterestSnapshot_def Let_def split: prod.splits sum.splits option.splits)

lemma consumer_link:
  "link_keeps (peerLink n) (peerLink (snd (data_plane_step ops ctx cancelled ch n)))"
  "link_keeps (peerLink n) (peerLink (snd (control_plane_step ctx ch n)))"
  using take_chan_keeps [of "peerLink n" ch]
  by (auto simp: data_plane_step_def control_plane_step_def incoming_link split: prod.splits recv_result.splits)

lemma link_keeps_stable: "link_keeps g g' \<Longrightarrow> queues_stable g g'"
  by (simp add: link_keeps_def)

lemma resync_link: "link_keeps (peerLink n) (peerLink (snd (resync_tick now ctx seen n)))"
proof (cases "GetConnectedPeers (peerLink n)")
  case (Inr ps)
  obtain g k where "snd (resync_loop now ctx (map pn_ID ps) seen n) = n\<lparr>peerLink := g, interestSnapshotsSent := k\<rparr>"
    "link_keeps (peerLink n) g"
    using resync_loop_keeps by blast
  with Inr show ?thesis by (auto simp: resync_tick_def split: prod.splits)
qed (simp add: resync_tick_def)

lemma close_link: "queues_stable (peerLink n) (peerLink (snd (NodeClose ops n)))"
  using lifecycle_stable(8) [of "peerLink n"]
  by (auto simp: NodeClose_def Let_def intro: stable_refl split: prod.splits option.splits)

lemma mesh_step_stable:
  assumes "mesh_step ops n n'"
  shows "queues_stable (peerLink n) (peerLink n')"
  using assms
proof cases
  case (step_start now listen dial)
  then show ?thesis using NodeStart_frame [OF refl, of now listen dial n] by (simp add: link_keeps_stable)
next
  case step_stop
  then show ?thesis using NodeStop_frame [OF refl, of n] by (simp add: link_keeps_stable)
next
  case step_close
  then show ?thesis by (simp add: close_link)
next
  case (step_auth now cred)
  then show ?thesis
    by (simp add: AuthenticateClient_def NewTrustedClient_def stable_refl split: credentials.splits option.splits)
next
  case (step_publish now ctx client ev)
  obtain r n2 where "PublishEventWithResult ops now ctx client ev n = (r, n2)"
    by (cases "PublishEventWithResult ops now ctx client ev n")
  with publish_frame [OF this] step_publish show ?thesis by (simp add: link_keeps_stable)
next
  case (step_unsubscribe_id now ctx cid sid)
  with UnsubscribeByID_cases [of now ctx cid sid n] subscribe_ops_link(2) [of n, THEN link_keeps_stable] show ?thesis
    by (auto simp: stable_refl)
next
  case (step_add now cid sid topic)
  then show ?thesis by (simp add: addSubscriptionMetadata_def Let_def stable_refl)
next
  case (step_remove cid topic)
  then show ?thesis by (simp add: removeSubscriptionMetadataByTopic_def Let_def stable_refl split: option.splits)
qed (simp_all add: link_keeps_stable subscribe_ops_link consumer_link resync_link incoming_link take_chan_keeps
    pl_step_stable stable_refl)

lemma mesh_reach_stable: "(mesh_step ops)\<^sup>*\<^sup>* n n' \<Longrightarrow> queues_stable (peerLink n) (peerLink n')"
  by (induction rule: rtranclp_induct) (auto intro: stable_refl stable_trans mesh_step_stable)

lemma new_node_inv:
  assumes "NewGRPCMeshNode l f c = Inr n"
  shows "node_inv n"
proof -
  obtain pc where pc: "NewGRPCPeerLink pc = Inr (peerLink n)" and n: "routingTable n = NewInMemoryRoutingTable"
    "peerSubscriptions n = []" "\<not> mn_closed n"
    using assms by (auto simp: NewGRPCMeshNode_def Let_def split: option.splits sum.splits)
  have "\<not> pl_closed (peerLink n)"
    using pc by (auto simp: NewGRPCPeerLink_def split: option.splits) (metis peer_link.select_convs(2))
  with NewGRPCPeerLink_inv [OF pc] n show ?thesis
    by (simp add: node_inv_def node_ok_def node_open_def peers_wf_def NewInMemoryRoutingTable_def rt_inv_def
        rt_view_def gm_get_def)
qed

definition reachable :: "'l log_ops \<Rightarrow> 'l mesh_node \<Rightarrow> bool" where
  "reachable ops n \<longleftrightarrow> (\<exists>l f c n0. NewGRPCMeshNode l f c = Inr n0 \<and> (mesh_step ops)\<^sup>*\<^sup>* n0 n)"

lemma reachable_inv: "reachable ops n \<Longrightarrow> node_inv n"
proof -
  have "(mesh_step ops)\<^sup>*\<^sup>* n0 n \<Longrightarrow> node_inv n0 \<Longrightarrow> node_inv n" for n0
    by (induction rule: rtranclp_induct) (auto intro: mesh_step_inv)
  then show "reachable ops n \<Longrightarrow> node_inv n"
    by (auto simp: reachable_def dest: new_node_inv)
qed

lemma reachable_steps: "reachable ops n \<Longrightarrow> (mesh_step ops)\<^sup>*\<^sup>* n n' \<Longrightarrow> reachable ops n'"
  unfolding reachable_def by (meson rtranclp_trans)

subsection \<open>Events from peers\<close>

lemma DeliverEvent_chan:
  assumes "client_live h s"
  shows "chan_of (snd (DeliverEvent s e h)) a =
    (if client_addr s = Some a \<and> length (ch_items (chan_of h a)) < ch_cap (chan_of h a)
     then (chan_of h a)\<lparr>ch_items := ch_items (chan_of h a) @ [delivered_as s e]\<rparr> else chan_of h a)"
  using assms by (cases s) (auto simp: client_live_def Let_def chan_push_def chan_of_def client_at_update)

lemma client_live_cong: "length h' = length h \<Longrightarrow> client_live h' = client_live h"
  by (auto simp: client_live_def fun_eq_iff split: option.splits)

text \<open>A client gets the copies meant for it as long as its channel has room; the rest is dropped.\<close>

lemma incoming_loop_chan:
  "list_all (client_live h) ss \<Longrightarrow>
   ch_items (chan_of (incoming_loop e ss h) a) = ch_items (chan_of h a) @
     take (ch_cap (chan_of h a) - length (ch_items (chan_of h a))) (map (\<lambda>s. delivered_as s e) (addressed_to a ss))"
proof (induction ss arbitrary: h)
  case (Cons s ss)
  let ?h = "snd (DeliverEvent s e h)"
  have s: "client_live h s" "Type s = LocalClient"
    using Cons.prems by (auto simp: client_live_def addr_local split: option.splits)
  have live: "list_all (client_live ?h) ss"
    using Cons.prems client_live_cong [OF DeliverEvent_length [of s e h]] by simp
  show ?case
  proof (cases "client_addr s = Some a")
    case True
    then show ?thesis
      using Cons.IH [OF live] s
      by (cases "ch_cap (chan_of h a) - length (ch_items (chan_of h a))")
        (auto simp: DeliverEvent_chan [OF s(1)] addressed_to_def not_less diff_Suc split: nat.splits)
  next
    case False
    then show ?thesis
      using Cons.IH [OF live] s by (simp add: DeliverEvent_chan [OF s(1)] addressed_to_def)
  qed
qed (simp add: addressed_to_def)

subsection \<open>A node for the examples\<close>

text \<open>A started node with one client on \<open>o.*\<close> and one connected peer that announced \<open>o.*\<close>.\<close>

definition demo_started :: "mem_log mesh_node" where
  "demo_started = snd (NodeStart 1 (Inr '':7000'') (\<lambda>_. None) demo_node)"

definition demo_client :: "mem_log mesh_node" where
  "demo_client = snd (AuthenticateClient 2 (CredString ''a'') demo_started)"

definition demo_subscribed :: "mem_log mesh_node" where
  "demo_subscribed = snd (NodeSubscribe 3 None (Some (TrustedClient ''a'' 0)) ''o.*'' demo_client)"

definition demo_connected :: "mem_log mesh_node" where
  "demo_connected = demo_subscribed\<lparr>peerLink := snd (Connect 4 None demo_peer (peerLink demo_subscribed))\<rparr>"

definition demo_live :: "mem_log mesh_node" where
  "demo_live = processIncomingInterestMessage (Some \<lparr>im_Update = Some \<lparr>iu_NodeId = ''q'', iu_Action = ''subscribe'',
     iu_Topic = ''o.*''\<rparr>, im_Snapshot = None\<rparr>) demo_connected"

lemma demo_node_fields:
  "eventLog demo_node = NewInMemoryEventLog" "routingTable demo_node = NewInMemoryRoutingTable"
  "mn_config demo_node = demo_mesh_config" "\<not> mn_started demo_node" "\<not> mn_closed demo_node"
  "clients demo_node = []" "mn_subscriptions demo_node = []" "peerSubscriptions demo_node = []" "clientHeap demo_node = []"
  "\<not> pl_closed (peerLink demo_node)" "\<not> pl_started (peerLink demo_node)" "connections (peerLink demo_node) = []"
  "pl_queues (peerLink demo_node) = []" "sendQueues (peerLink demo_node) = []" "outboundCancel (peerLink demo_node) = []"
  "controlQueues (peerLink demo_node) = []" "pl_metrics (peerLink demo_node) = []" "\<not> heartbeatsRunning (peerLink demo_node)"
  "cfg_SendQueueSize (pl_config (peerLink demo_node)) = 100" "cfg_NodeID (pl_config (peerLink demo_node)) = ''n1''"
  "mc_SeedNodes demo_mesh_config = None"
  by (simp_all add: demo_node_def NewGRPCMeshNode_def demo_mesh_config_def NewConfig_def ValidateConfig_def
      NewGRPCPeerLink_def Validate_def default_link_config_def SetDefaults_def)

lemma demo_started_fields:
  "eventLog demo_started = NewInMemoryEventLog" "routingTable demo_started = NewInMemoryRoutingTable"
  "mn_config demo_started = demo_mesh_config" "mn_started demo_started" "\<not> mn_closed demo_started"
  "clients demo_started = []" "mn_subscriptions demo_started = []" "peerSubscriptions demo_started = []" "clientHeap demo_started = []"
  "\<not> pl_closed (peerLink demo_started)" "connections (peerLink demo_started) = []"
  "pl_queues (peerLink demo_started) = []" "sendQueues (peerLink demo_started) = []" "outboundCancel (peerLink demo_started) = []"
  "controlQueues (peerLink demo_started) = []" "pl_metrics (peerLink demo_started) = []"
  "cfg_SendQueueSize (pl_config (peerLink demo_started)) = 100" "cfg_NodeID (pl_config (peerLink demo_started)) = ''n1''"
  by (simp_all add: demo_started_def NodeStart_def Start_def StartHeartbeats_def demo_node_fields Let_def)

lemma demo_client_value:
  "demo_client = demo_started\<lparr>clientHeap := [new_client_obj 2], clients := [(''a'', TrustedClient ''a'' 0)]\<rparr>"
  by (simp add: demo_client_def AuthenticateClient_def NewTrustedClient_def demo_started_fields)

lemma demo_subscribed_value:
  "demo_subscribed = demo_client\<lparr>routingTable := \<lparr>subscriptions = [(''o.*'', [(''a'', TrustedClient ''a'' 0)])], rt_closed = False\<rparr>,
     mn_subscriptions := [(''a'', [(subscription_id ''a'' 3, \<lparr>cs_ID = subscription_id ''a'' 3, cs_Topic = ''o.*'',
       cs_ClientID = ''a'', cs_CreatedAt = 3\<rparr>)])]\<rparr>"
  by (simp add: demo_subscribed_def demo_client_value NodeSubscribe_def Subscribe_def put_subscriber_def
      NewInMemoryRoutingTable_def demo_started_fields addSubscriptionMetadata_def Let_def gm_get_def
      localTopicInterestCount_def localSubscriptionSnapshot_def propagateInterestUpdate_def GetConnectedPeers_def)

lemma demo_live_fields:
  "eventLog demo_live = NewInMemoryEventLog" "mn_started demo_live" "\<not> mn_closed demo_live"
  "routingTable demo_live = \<lparr>subscriptions = [(''o.*'', [(''a'', TrustedClient ''a'' 0)])], rt_closed = False\<rparr>"
  "clientHeap demo_live = [new_client_obj 2]" "peerSubscriptions demo_live = [(''q'', [(''o.*'', True)])]"
  "map fst (connections (peerLink demo_live)) = [''q'']" "sendQueues (peerLink demo_live) = [(''q'', 0)]"
  "pl_queues (peerLink demo_live) = [make_chan 100, make_chan 100]"
  "cfg_SendQueueSize (pl_config (peerLink demo_live)) = 100" "\<not> pl_closed (peerLink demo_live)"
  by (simp_all add: demo_live_def processIncomingInterestMessage_def processIncomingInterestUpdate_def Let_def
      demo_connected_def demo_subscribed_value demo_client_value demo_started_fields gm_get_def
      link_eval SetPeerHealth_def)

lemma demo_live_reachable: "reachable mem_ops demo_live"
proof -
  note rtranclp.rtrancl_into_rtrancl [trans]
  have "(mesh_step mem_ops)\<^sup>*\<^sup>* demo_node demo_started"
    unfolding demo_started_def by (rule r_into_rtranclp, rule step_start)
  also have "mesh_step mem_ops demo_started demo_client"
    unfolding demo_client_def by (rule step_auth)
  also have "mesh_step mem_ops demo_client demo_subscribed"
    unfolding demo_subscribed_def
    by (rule step_subscribe) (simp add: client_live_def demo_client_value)
  also have "mesh_step mem_ops demo_subscribed demo_connected"
    unfolding demo_connected_def
    by (rule step_link, rule step_Connect) (simp add: demo_subscribed_value demo_client_value demo_started_fields link_eval)
  also have "mesh_step mem_ops demo_connected demo_live"
    unfolding demo_live_def by (rule step_interest)
  finally show ?thesis
    using demo_node_new unfolding reachable_def by blast
qed


lemma demo_lookup: "GetSubscribers ''o.x'' (routingTable demo_live) = Inr [TrustedClient ''a'' 0]"
  by (simp add: demo_live_fields GetSubscribers_def matchesPattern_def Let_def gm_get_def)

lemma demo_room:
  "client_room [TrustedClient ''a'' 0] (clientHeap demo_live)" "peer_room ''q'' (peerLink demo_live)"
  "wants demo_live ''o.x'' p \<longleftrightarrow> p = ''q''"
proof -
  show "client_room [TrustedClient ''a'' 0] (clientHeap demo_live)"
    by (auto simp: client_room_def demo_live_fields chan_of_def client_at_def new_client_obj_def addressed_to_def)
  show "peer_room ''q'' (peerLink demo_live)"
    by (simp add: peer_room_def queue_len_def demo_live_fields chan_at_def)
  have "fst ` set (connections (peerLink demo_live)) = {''q''}"
    using demo_live_fields(7) by (metis list.set(1,2) set_map)
  moreover have "pattern_matches ''o.*'' ''o.x''"
    by (simp add: pattern_matches_def)
  ultimately show "wants demo_live ''o.x'' p \<longleftrightarrow> p = ''q''"
    by (auto simp: wants_def peer_view_def demo_live_fields gm_get_def)
qed


subsection \<open>Properties\<close>

text \<open>
  C5. In every state \<open>n\<close> a node can reach before it is closed, whatever the interleaving of requests, incoming messages, client
  reads, streams that the HTTP layer registers and unregisters, and steps of the peer link, with publishes and incoming events cut
  into the pieces that others may come between: a topic lookup succeeds and returns clients whose objects exist; the
  peers to forward to are exactly the connected ones that announced a matching pattern, each once; and for each connected peer a
  sender finds a queue. When it goes on to send, in any state \<open>n'\<close> the node is in by then, the event is queued or the queue
  reported full, unless the peer was disconnected in between: then, and only then, the send panics, provided that it does
  not give up first.
\<close>

theorem node_safety:
  assumes "reachable ops n" "\<not> mn_closed n" "(mesh_step ops)\<^sup>*\<^sup>* n n'"
  shows "\<exists>ss ps. GetSubscribers topic (routingTable n) = Inr ss \<and> list_all (client_live (clientHeap n)) ss
    \<and> GetConnectedPeers (peerLink n) = Inr ps \<and> distinct (map pn_ID (getInterestedPeers topic ps n))
    \<and> set (map pn_ID (getInterestedPeers topic ps n)) = {p. wants n topic p}
    \<and> (\<forall>p \<in> pn_ID ` set ps. \<exists>r. lookup_queue sendQueues p (peerLink n) = Inr r
        \<and> (\<forall>gave_up e. let res = fst (enqueue gave_up p dataPlaneMessage r (DataPlaneMessage p e now 0) (peerLink n')) in
             res \<in> {None, Some PlQueueFull, Some PlPanic}
             \<and> (res = Some PlPanic \<longleftrightarrow> \<not> gave_up \<and> map_of (sendQueues (peerLink n')) p \<noteq> Some r)))"
proof -
  have ok: "node_ok n" "node_open n"
    using reachable_inv [OF assms(1)] assms(2) by (auto simp: node_inv_def)
  then have inv: "pl_inv (peerLink n)" "peers_wf n" "rt_inv (routingTable n)" "\<not> rt_closed (routingTable n)"
    "\<not> pl_closed (peerLink n)"
    by (auto simp: node_ok_def node_open_def)
  have inv': "pl_inv (peerLink n')"
    using reachable_inv [OF reachable_steps [OF assms(1,3)]] by (simp add: node_inv_def node_ok_def)
  obtain ps where ps: "GetConnectedPeers (peerLink n) = Inr ps"
    using inv(5) by (simp add: GetConnectedPeers_def)
  obtain ss where ss: "GetSubscribers topic (routingTable n) = Inr ss"
    using rt.lookup_value [OF inv(3,4)] by blast
  have send: "\<exists>r. lookup_queue sendQueues p (peerLink n) = Inr r
        \<and> (\<forall>gave_up e. let res = fst (enqueue gave_up p dataPlaneMessage r (DataPlaneMessage p e now 0) (peerLink n')) in
             res \<in> {None, Some PlQueueFull, Some PlPanic}
             \<and> (res = Some PlPanic \<longleftrightarrow> \<not> gave_up \<and> map_of (sendQueues (peerLink n')) p \<noteq> Some r))"
    if p: "p \<in> pn_ID ` set ps" for p
  proof -
    have "p \<in> fst ` set (connections (peerLink n))"
      using connected_ids(1) [OF inv(1) ps] p by (metis set_map)
    then obtain r where r: "lookup_queue (queue_of dataPlaneMessage) p (peerLink n) = Inr r"
      "holds_queue dataPlaneMessage p r (peerLink n)"
      using connected_lookup [OF inv(1,5)] by blast
    have "holds_queue dataPlaneMessage p r (peerLink n')"
      using mesh_reach_stable [OF assms(3)] r(2) by (simp add: queues_stable_def)
    moreover have "lookup_queue sendQueues p (peerLink n) = Inr r"
      using r(1) inv(5) by (simp add: lookup_queue_def)
    ultimately show ?thesis
      using enqueue_held [OF inv', of dataPlaneMessage p r] unfolding Let_def by (intro exI [of _ r]) simp
  qed
  show ?thesis
    by (rule exI [of _ ss], rule exI [of _ ps], intro conjI ballI)
      (rule ss looked_up_live [OF ok(1) inv(4) ss] ps interested_ids [OF inv(1,2) ps] send; assumption?)+
qed

theorem node_safety_witness:
  "\<exists>ss. GetSubscribers ''o.x'' (routingTable demo_live) = Inr ss \<and> list_all (client_live (clientHeap demo_live)) ss
     \<and> fst (enqueue False ''q'' dataPlaneMessage 0 (DataPlaneMessage ''q'' None 1 0)
         (snd (Disconnect ''q'' (peerLink demo_live)))) = Some PlPanic"
proof -
  let ?n = "demo_live\<lparr>peerLink := snd (Disconnect ''q'' (peerLink demo_live))\<rparr>"
  have gone: "map_of (sendQueues (peerLink ?n)) ''q'' = None"
    by (simp add: Disconnect_def SetPeerHealth_def drop_queue_eq Let_def demo_live_fields)
  have "mesh_step mem_ops demo_live ?n"
    by (rule step_link, rule step_Disconnect)
      (simp add: Disconnect_def SetPeerHealth_def drop_queue_eq Let_def demo_live_fields)
  then obtain ss ps where ss: "GetSubscribers ''o.x'' (routingTable demo_live) = Inr ss" "list_all (client_live (clientHeap demo_live)) ss"
    and ps: "GetConnectedPeers (peerLink demo_live) = Inr ps"
    and send: "\<forall>p \<in> pn_ID ` set ps. \<exists>r. lookup_queue sendQueues p (peerLink demo_live) = Inr r
      \<and> (\<forall>gave_up e. let res = fst (enqueue gave_up p dataPlaneMessage r (DataPlaneMessage p e 1 0) (peerLink ?n)) in
           res \<in> {None, Some PlQueueFull, Some PlPanic}
           \<and> (res = Some PlPanic \<longleftrightarrow> \<not> gave_up \<and> map_of (sendQueues (peerLink ?n)) p \<noteq> Some r))"
    using node_safety [OF demo_live_reachable demo_live_fields(3) r_into_rtranclp, of ?n "''o.x''" 1] by blast
  have "pl_inv (peerLink demo_live)"
    using reachable_inv [OF demo_live_reachable] by (simp add: node_inv_def node_ok_def)
  from connected_ids(1) [OF this ps] have "''q'' \<in> pn_ID ` set ps"
    unfolding demo_live_fields(7) by (metis list.set_intros(1) set_map)
  moreover have "lookup_queue sendQueues ''q'' (peerLink demo_live) = Inr 0"
    by (simp add: lookup_queue_def demo_live_fields)
  ultimately have "fst (enqueue False ''q'' dataPlaneMessage 0 (DataPlaneMessage ''q'' None 1 0) (peerLink ?n)) = Some PlPanic"
    using send gone unfolding Let_def by fastforce
  with ss show ?thesis by simp
qed

text \<open>
  C1. Nothing is delivered or forwarded that was not stored first, and it is stored exactly once: for the
  in-memory log and any context, a publish either fails and leaves log, clients and peers alone, or appends the event
  at the end of its topic, numbered with the topic's length, and whatever the clients' channels and the peers' queues
  gained is that numbered event, even if the publish then fails. A published event, when returned, is the stored one.
\<close>

theorem publish_persists_first:
  assumes log: "mem_inv (eventLog n)" "int (length (mem_topic (eventLog n) (ev_topic e))) < max_int64"
    and pub: "PublishEventWithResult mem_ops now ctx client (Some e) n = (res, n')"
  shows "mem_inv (eventLog n')
    \<and> ((\<exists>err. res = Inl err) \<and> mem_topic (eventLog n') = mem_topic (eventLog n)
          \<and> clientHeap n' = clientHeap n \<and> peerLink n' = peerLink n
       \<or> (let e' = WithOffset e (int (length (mem_topic (eventLog n) (ev_topic e)))) in
            mem_topic (eventLog n') = (mem_topic (eventLog n)) (ev_topic e := mem_topic (eventLog n) (ev_topic e) @ [e'])
            \<and> delivers_only now e' n n' \<and> ((\<exists>err. res = Inl err) \<or> res = Inr e')))"
proof (cases "ev_topic e = []")
  case True
  from pub show ?thesis
    by (cases rule: publish_cases [of client "Some e" n mem_ops now ctx, case_names invalid unlogged interrupted finished])
      (use log(1) True in \<open>auto simp: AppendEvent_def split: if_splits\<close>)
next
  case False
  from mem.publish_logs [OF log(1) this log(2) pub] show ?thesis .
qed

theorem publish_persists_first_witness:
  "\<exists>res n'. PublishEventWithResult mem_ops 9 (Some 1) (Some (TrustedClient ''a'' 0)) (Some (NewEvent 5 ''o.x'' None)) demo_live = (res, n')
     \<and> mem_inv (eventLog n')"
proof -
  let ?p = "PublishEventWithResult mem_ops 9 (Some 1) (Some (TrustedClient ''a'' 0)) (Some (NewEvent 5 ''o.x'' None)) demo_live"
  obtain res n' where p: "?p = (res, n')" by (cases ?p)
  have "mem_inv (eventLog n')"
    using publish_persists_first [OF _ _ p] by (simp add: demo_live_fields mem_eval)
  with p show ?thesis by blast
qed

text \<open>
  C2. A publish that succeeds has reached everyone: in a reachable state and under any context, when an event is
  returned, every client's channel has gained one copy per matching entry of the routing table for it, and
  the data queue of a registered peer has gained the event exactly when the peer is connected and announced a matching
  pattern; nothing else was added anywhere.
\<close>

theorem publish_reaches_everyone:
  assumes reach: "reachable mem_ops n"
    and log: "mem_inv (eventLog n)" "int (length (mem_topic (eventLog n) (ev_topic e))) < max_int64"
    and pub: "PublishEventWithResult mem_ops now ctx client (Some e) n = (Inr e', n')"
  shows "e' = WithOffset e (int (length (mem_topic (eventLog n) (ev_topic e))))
    \<and> (\<exists>ss. GetSubscribers (ev_topic e) (routingTable n) = Inr ss
        \<and> (\<forall>a. ch_items (chan_of (clientHeap n') a) =
              ch_items (chan_of (clientHeap n) a) @ map (\<lambda>s. delivered_as s e') (addressed_to a ss)))
    \<and> (\<forall>p q. map_of (sendQueues (peerLink n)) p = Some q \<longrightarrow> ch_items (chan_at (pl_queues (peerLink n')) q) =
          ch_items (chan_at (pl_queues (peerLink n)) q) @
            (if wants n (ev_topic e) p then [DataPlaneMessage p (Some e') now 0] else []))"
proof -
  have "\<not> mn_closed n" and e': "e' = WithOffset e (int (length (mem_topic (eventLog n) (ev_topic e))))"
  proof -
    show "\<not> mn_closed n"
      using pub by (auto simp: PublishEventWithResult_def validatePublishRequest_def split: if_splits)
    show "e' = WithOffset e (int (length (mem_topic (eventLog n) (ev_topic e))))"
      using pub
      by (cases rule: publish_cases [of client "Some e" n mem_ops now ctx, case_names invalid unlogged interrupted finished])
        (auto split: if_splits option.splits elim!: AppendEvent_Inr [OF log])
  qed
  then have ok: "node_ok n" "node_open n"
    using reachable_inv [OF reach] by (auto simp: node_inv_def)
  have "rt_inv (routingTable n)" "\<not> rt_closed (routingTable n)"
    using ok by (auto simp: node_ok_def node_open_def)
  then obtain ss where ss: "GetSubscribers (ev_topic e) (routingTable n) = Inr ss"
    using rt.lookup_value by blast
  have t: "ev_topic e' = ev_topic e"
    by (simp add: e')
  show ?thesis
    using e' ss publish_success(1,3) [OF ok pub t ss] by blast
qed

theorem publish_reaches_everyone_witness:
  "\<exists>n'. PublishEventWithResult mem_ops 9 None (Some (TrustedClient ''a'' 0)) (Some (NewEvent 5 ''o.x'' None)) demo_live
      = (Inr (NewEvent 5 ''o.x'' None), n')
    \<and> ch_items (chan_of (clientHeap n') 0) = [NewEvent 5 ''o.x'' None]
    \<and> ch_items (chan_at (pl_queues (peerLink n')) 0) = [DataPlaneMessage ''q'' (Some (NewEvent 5 ''o.x'' None)) 9 0]"
proof -
  let ?e = "NewEvent 5 ''o.x'' None"
  have len: "mem_inv (eventLog demo_live)" "int (length (mem_topic (eventLog demo_live) (ev_topic ?e))) < max_int64"
    by (simp_all add: demo_live_fields mem_eval)
  have e: "WithOffset ?e (int (length (mem_topic (eventLog demo_live) (ev_topic ?e)))) = ?e" "ev_topic ?e = ''o.x''"
    by (simp_all add: demo_live_fields mem_eval NewEvent_def WithOffset_def)
  have ok: "node_ok demo_live" "node_open demo_live"
    using reachable_inv [OF demo_live_reachable] demo_live_fields(3) by (auto simp: node_inv_def)
  obtain l where app: "op_AppendEvent mem_ops False (ev_topic ?e) (Some ?e) (eventLog demo_live) = (Inr ?e, l)"
    by (simp add: demo_live_fields mem_eval NewEvent_def WithOffset_def)
  have valid: "validatePublishRequest (Some (TrustedClient ''a'' 0)) (Some ?e) demo_live = None"
    by (simp add: validatePublishRequest_def demo_live_fields NewEvent_def)
  obtain n' where pub: "PublishEventWithResult mem_ops 9 None (Some (TrustedClient ''a'' 0)) (Some ?e) demo_live = (Inr ?e, n')"
    using publish_room [OF ok valid app refl] demo_lookup demo_room unfolding e(2) by metis
  note r = publish_reaches_everyone [OF demo_live_reachable len pub]
  have "ch_items (chan_of (clientHeap n') 0) =
      ch_items (chan_of (clientHeap demo_live) 0) @ map (\<lambda>s. delivered_as s ?e) (addressed_to 0 [TrustedClient ''a'' 0])"
    using r [THEN conjunct2, THEN conjunct1] demo_lookup unfolding e(2) by auto
  also have "\<dots> = [Copy ?e]"
    by (simp add: demo_live_fields chan_of_def client_at_def new_client_obj_def addressed_to_def)
  also have "Copy ?e = ?e"
    by (rule Copy_id) (simp_all add: NewEvent_def)
  finally have c: "ch_items (chan_of (clientHeap n') 0) = [?e]" .
  have "ch_items (chan_at (pl_queues (peerLink n')) 0) = ch_items (chan_at (pl_queues (peerLink demo_live)) 0) @
      (if wants demo_live ''o.x'' ''q'' then [DataPlaneMessage ''q'' (Some ?e) 9 0] else [])"
    using r [THEN conjunct2, THEN conjunct2] demo_live_fields(8) unfolding e(2) by (metis map_of_Cons_code(2))
  also have "\<dots> = [DataPlaneMessage ''q'' (Some ?e) 9 0]"
    by (simp add: demo_room(3) demo_live_fields chan_at_def)
  finally show ?thesis
    using pub c by blast
qed

text \<open>
  C18. A publish does succeed when nothing is full: in a reachable, started state with an open log, an
  authenticated publisher, a non-empty topic and a payload within the limit, if every matching client's channel
  has room for its copies and every interested peer's queue for one message, the event is returned, numbered
  with the length of its topic.
\<close>

theorem publish_accepts:
  assumes reach: "reachable mem_ops n" and node: "\<not> mn_closed n" "mn_started n"
    and log: "mem_inv (eventLog n)" "\<not> ml_closed (eventLog n)"
      "int (length (mem_topic (eventLog n) (ev_topic e))) < max_int64"
    and req: "IsAuthenticated (clientHeap n) c" "ev_topic e \<noteq> []" "length (bytes_of (ev_payload e)) \<le> MaxEventPayloadSize"
    and room: "GetSubscribers (ev_topic e) (routingTable n) = Inr ss" "client_room ss (clientHeap n)"
      "\<forall>p. wants n (ev_topic e) p \<longrightarrow> peer_room p (peerLink n)"
  shows "\<exists>n'. PublishEventWithResult mem_ops now None (Some c) (Some e) n =
    (Inr (WithOffset e (int (length (mem_topic (eventLog n) (ev_topic e))))), n')"
proof -
  have ok: "node_ok n" "node_open n"
    using reachable_inv [OF reach] node(1) by (auto simp: node_inv_def)
  have valid: "validatePublishRequest (Some c) (Some e) n = None"
    using node req by (simp add: validatePublishRequest_def)
  obtain l where "op_AppendEvent mem_ops False (ev_topic e) (Some e) (eventLog n) =
      (Inr (WithOffset e (int (length (mem_topic (eventLog n) (ev_topic e))))), l)"
    using mem.append_value [OF log(1,2) req(2) log(3)] by blast
  from publish_room [OF ok valid this _ room(1,2)] room(3) show ?thesis by simp
qed

theorem publish_accepts_witness:
  "\<exists>n'. PublishEventWithResult mem_ops 9 None (Some (TrustedClient ''a'' 0)) (Some (NewEvent 5 ''o.x'' None)) demo_live
      = (Inr (NewEvent 5 ''o.x'' None), n')"
  using publish_accepts [OF demo_live_reachable demo_live_fields(3,2), of "NewEvent 5 ''o.x'' None" "TrustedClient ''a'' 0"
      "[TrustedClient ''a'' 0]" 9] demo_lookup demo_room
  by (simp add: NewEvent_def demo_live_fields mem_eval WithOffset_def)

lemma incoming_value:
  assumes ok: "node_ok n" "node_open n" and node: "\<not> mn_closed n" "mn_started n"
    and log: "mem_inv (eventLog n)" "\<not> ml_closed (eventLog n)"
      "int (length (mem_topic (eventLog n) (ev_topic e))) < max_int64" "ev_topic e \<noteq> []"
    and e': "e' = WithOffset e (int (length (mem_topic (eventLog n) (ev_topic e))))"
  obtains l ss where "mem_inv l" "mem_topic l = (mem_topic (eventLog n))(ev_topic e := mem_topic (eventLog n) (ev_topic e) @ [e'])"
    "GetSubscribers (ev_topic e) (routingTable n) = Inr ss"
    "processIncomingUserEvent mem_ops False e n = n\<lparr>eventLog := l, clientHeap := incoming_loop e' ss (clientHeap n)\<rparr>"
    "\<forall>a. ch_items (chan_of (incoming_loop e' ss (clientHeap n)) a) = ch_items (chan_of (clientHeap n) a) @
        take (ch_cap (chan_of (clientHeap n) a) - length (ch_items (chan_of (clientHeap n) a)))
          (map (\<lambda>s. delivered_as s e') (addressed_to a ss))"
proof -
  have rt: "rt_inv (routingTable n)" "\<not> rt_closed (routingTable n)"
    using ok by (auto simp: node_ok_def node_open_def)
  obtain ss where ss: "GetSubscribers (ev_topic e) (routingTable n) = Inr ss"
    using rt.lookup_value [OF rt] by blast
  obtain l where l: "AppendEvent False (ev_topic e) (Some e) (eventLog n) = (Inr e', l)" "mem_inv l"
    "mem_topic l = (mem_topic (eventLog n))(ev_topic e := mem_topic (eventLog n) (ev_topic e) @ [e'])"
    using mem.append_value [OF log(1,2,4,3)] e' by auto
  have "processIncomingUserEvent mem_ops False e n = n\<lparr>eventLog := l, clientHeap := incoming_loop e' ss (clientHeap n)\<rparr>"
    using node l(1) ss by (simp add: processIncomingUserEvent_def Let_def)
  with that [OF l(2,3) ss] incoming_loop_chan [OF looked_up_live [OF ok(1) rt(2) ss], of e'] show ?thesis by simp
qed

text \<open>
  An event from a peer is stored once, under this node's own numbering, and goes to local clients only: in a
  reachable, started state with an open log it ends up at the end of its topic, every matching client gets its copies
  as far as its channel has room, and the peer link is not touched, so that an event never travels further than one hop.
\<close>

theorem incoming_event_stays_local:
  assumes reach: "reachable mem_ops n" and node: "\<not> mn_closed n" "mn_started n"
    and log: "mem_inv (eventLog n)" "\<not> ml_closed (eventLog n)"
      "int (length (mem_topic (eventLog n) (ev_topic e))) < max_int64" "ev_topic e \<noteq> []"
    and n': "n' = processIncomingUserEvent mem_ops False e n"
  shows "(let e' = WithOffset e (int (length (mem_topic (eventLog n) (ev_topic e)))) in
      mem_inv (eventLog n')
      \<and> mem_topic (eventLog n') = (mem_topic (eventLog n))(ev_topic e := mem_topic (eventLog n) (ev_topic e) @ [e'])
      \<and> (\<exists>ss. GetSubscribers (ev_topic e) (routingTable n) = Inr ss
          \<and> (\<forall>a. ch_items (chan_of (clientHeap n') a) = ch_items (chan_of (clientHeap n) a) @
                take (ch_cap (chan_of (clientHeap n) a) - length (ch_items (chan_of (clientHeap n) a)))
                  (map (\<lambda>s. delivered_as s e') (addressed_to a ss))))
      \<and> peerLink n' = peerLink n)"
proof -
  have ok: "node_ok n" "node_open n"
    using reachable_inv [OF reach] node(1) by (auto simp: node_inv_def)
  show ?thesis
    by (rule incoming_value [OF ok node log refl]) (simp add: n' Let_def)
qed

theorem incoming_event_stays_local_witness:
  "peerLink (processIncomingUserEvent mem_ops False (NewEvent 5 ''o.x'' None) demo_live) = peerLink demo_live"
  using incoming_event_stays_local [OF demo_live_reachable demo_live_fields(3,2) _ _ _ _ refl, of "NewEvent 5 ''o.x'' None"]
  by (simp add: demo_live_fields mem_eval NewEvent_def Let_def)

end
