(* ===== verification/Mesh_Pair.thy ===== *)
theory Mesh_Pair
  imports Mesh_Safety
begin

text \<open>
  Two nodes and the stream between them: what one node queues for the other travels over the outbound stream, as any wire message
  that means the same, into the channel of the other's consumer loop, and is acted on there. The two theorems at the end
  are the two directions of the traffic: interest announcements, and events.
\<close>

subsection \<open>The sending side\<close>

definition plane_items :: "(string, nat) gomap \<Rightarrow> string \<Rightarrow> peer_link \<Rightarrow> peer_message list" where
  "plane_items qs p g = (case map_of qs p of None \<Rightarrow> [] | Some r \<Rightarrow> ch_items (chan_at (pl_queues g) r))"

text \<open>What waits for a peer, in the order in which the stream sends it.\<close>

definition queued :: "string \<Rightarrow> peer_link \<Rightarrow> peer_message list" where
  "queued p g = plane_items (controlQueues g) p g @ plane_items (sendQueues g) p g"

definition on_wire :: "peer_message \<Rightarrow> wire_message" where
  "on_wire m = (case serializeMessage m of Inr w \<Rightarrow> w | Inl _ \<Rightarrow> None)"

definition sendable :: "peer_message \<Rightarrow> bool" where
  "sendable m \<longleftrightarrow> \<not> isl (serializeMessage m)"

lemma on_wire_sendable: "list_all sendable ms \<Longrightarrow> map serializeMessage ms = map Inr (map on_wire ms)"
  by (induction ms) (auto simp: sendable_def on_wire_def split: sum.splits)

lemma drain_queued:
  assumes "pl_inv g" "map_of (sendQueues g) p \<noteq> None" "list_all quiet es" "length (queued p g) \<le> length es"
    "list_all sendable (queued p g)"
  shows "\<exists>g'. runBidirectionalStreamLoop es p g = (LoopRunning, map on_wire (queued p g), g')"
proof -
  obtain c d where q: "map_of (controlQueues g) p = Some c" "map_of (sendQueues g) p = Some d"
    using assms(1,2) keys_same [of g p] by (cases "map_of (controlQueues g) p") auto
  have "queued p g = ch_items (chan_at (pl_queues g) c) @ ch_items (chan_at (pl_queues g) d)"
    by (simp add: queued_def plane_items_def q)
  with drain_general [OF assms(1) q assms(3)] assms(4) on_wire_sendable [OF assms(5)] show ?thesis by metis
qed

subsection \<open>The receiving side\<close>

text \<open>A consumer waits at a registered channel, which is empty.\<close>

definition listening :: "nat \<Rightarrow> (nat, bool) gomap \<Rightarrow> 'm heap \<Rightarrow> bool" where
  "listening ch subs h \<longleftrightarrow> map_of subs ch \<noteq> None \<and> ch_items (chan_at h ch) = [] \<and> 0 < ch_cap (chan_at h ch)"

lemma distribute_then_take:
  assumes "subs_ok subs h" "listening ch subs h"
  shows "fst (try_recv ch (distribute x subs h)) = Item x"
proof -
  obtain b where "(ch, b) \<in> set subs"
    using assms(2) by (auto simp: listening_def dest: map_of_SomeD)
  then have "\<not> ch_closed (chan_at h ch)"
    using assms(1) by (auto simp: subs_ok_def list_all_iff)
  then have "ch_items (chan_at (distribute x subs h) ch) = [x]"
    using assms distribute_items [of subs x h ch] by (simp add: listening_def subs_ok_def)
  then show ?thesis by (simp add: try_recv_def Let_def)
qed

lemma receive_keeps: "link_keeps g (receive_message now p w g)"
proof -
  have "pl_closed (receive_message now p w g) = pl_closed g"
    by (auto simp: receive_message_def Let_def markPeerSeen_def distributeEvent_def distributeInterestMessage_def
        split: option.splits wire_kind.splits)
  then show ?thesis
    by (auto simp: link_keeps_def intro: inv_intros stable_intros)
qed

lemma receive_queues: "pl_queues (receive_message now p w g) = pl_queues g" "connections (receive_message now p w g) = connections g"
  by (auto simp: receive_message_def Let_def markPeerSeen_def distributeEvent_def distributeInterestMessage_def
      split: option.splits wire_kind.splits)

lemma receive_event_item:
  assumes "pl_inv g" "\<not> pl_closed g" "listening ch (pl_subscribers g) (pl_eventChans g)"
  shows "fst (try_recv ch (pl_eventChans (receive_message now p (Some (WEvent m)) g))) = Item (eventFromProto now m)"
  using assms distribute_then_take [of "pl_subscribers g" "pl_eventChans g" ch "eventFromProto now m"]
  by (simp add: receive_message_def Let_def markPeerSeen_def distributeEvent_def pl_inv_def)

lemma receive_interest_item:
  assumes "pl_inv g" "\<not> pl_closed g" "listening ch (interestSubscribers g) (pl_interestChans g)" "interestMessageFromProto c = Some m"
  shows "fst (try_recv ch (pl_interestChans (receive_message now p (Some (WControlPlane c)) g))) = Item m"
  using assms distribute_then_take [of "interestSubscribers g" "pl_interestChans g" ch m]
  by (simp add: receive_message_def Let_def markPeerSeen_def distributeInterestMessage_def pl_inv_def)

lemma node_inv_link:
  assumes "node_inv n" "link_keeps (peerLink n) g"
  shows "node_inv (n\<lparr>peerLink := g\<rparr>)"
  by (rule node_inv_frame [OF assms(1)]) (use assms(2) in simp_all)

text \<open>An event that arrives is stored and handed to the local clients; nothing is queued for any peer.\<close>

lemma event_arrives:
  fixes b :: "mem_log mesh_node"
  assumes inv: "node_inv b" and node: "\<not> mn_closed b" "mn_started b" and log: "mem_inv (eventLog b)" "\<not> ml_closed (eventLog b)"
    and ch: "listening ch (pl_subscribers (peerLink b)) (pl_eventChans (peerLink b))"
    and ev: "ev = eventFromProto now m" "ev_topic ev \<noteq> []" "int (length (mem_topic (eventLog b) (ev_topic ev))) < max_int64"
    and e': "e' = WithOffset ev (int (length (mem_topic (eventLog b) (ev_topic ev))))"
  obtains b' ss where
    "data_plane_step mem_ops False False ch (b\<lparr>peerLink := receive_message now p (Some (WEvent m)) (peerLink b)\<rparr>) = (True, b')"
    "mem_topic (eventLog b') = (mem_topic (eventLog b))(ev_topic ev := mem_topic (eventLog b) (ev_topic ev) @ [e'])"
    "GetSubscribers (ev_topic ev) (routingTable b) = Inr ss"
    "\<And>a. ch_items (chan_of (clientHeap b') a) = ch_items (chan_of (clientHeap b) a) @
        take (ch_cap (chan_of (clientHeap b) a) - length (ch_items (chan_of (clientHeap b) a)))
          (map (\<lambda>s. delivered_as s e') (addressed_to a ss))"
    "pl_queues (peerLink b') = pl_queues (peerLink b)"
proof -
  let ?g = "receive_message now p (Some (WEvent m)) (peerLink b)"
  have link: "pl_inv (peerLink b)" "\<not> pl_closed (peerLink b)"
    using inv node(1) by (auto simp: node_inv_def node_ok_def node_open_def)
  obtain h where h: "try_recv ch (pl_eventChans ?g) = (Item ev, h)"
    using receive_event_item [OF link ch, of now p m] ev(1) by (cases "try_recv ch (pl_eventChans ?g)") simp
  let ?b = "b\<lparr>peerLink := ?g\<lparr>pl_eventChans := h\<rparr>\<rparr>"
  have "link_keeps ?g (?g\<lparr>pl_eventChans := h\<rparr>)"
    using take_chan_keeps(1) [of ?g ch] h by simp
  then have "node_inv ?b"
    by (intro node_inv_link [OF inv]) (rule link_keeps_trans [OF receive_keeps])
  then have ok: "node_ok ?b" "node_open ?b" and nb: "\<not> mn_closed ?b" "mn_started ?b"
    using node by (auto simp: node_inv_def)
  have lg: "mem_inv (eventLog ?b)" "\<not> ml_closed (eventLog ?b)" "int (length (mem_topic (eventLog ?b) (ev_topic ev))) < max_int64"
    using log ev(3) by simp_all
  obtain l ss where r: "mem_topic l = (mem_topic (eventLog b))(ev_topic ev := mem_topic (eventLog b) (ev_topic ev) @ [e'])"
    "GetSubscribers (ev_topic ev) (routingTable b) = Inr ss"
    "processIncomingUserEvent mem_ops False ev ?b = ?b\<lparr>eventLog := l, clientHeap := incoming_loop e' ss (clientHeap b)\<rparr>"
    "\<forall>a. ch_items (chan_of (incoming_loop e' ss (clientHeap b)) a) = ch_items (chan_of (clientHeap b) a) @
        take (ch_cap (chan_of (clientHeap b) a) - length (ch_items (chan_of (clientHeap b) a)))
          (map (\<lambda>s. delivered_as s e') (addressed_to a ss))"
    by (rule incoming_value [OF ok nb lg ev(2), of e']) (use e' in simp_all)
  have "data_plane_step mem_ops False False ch (b\<lparr>peerLink := ?g\<rparr>) =
      (True, ?b\<lparr>eventLog := l, clientHeap := incoming_loop e' ss (clientHeap b)\<rparr>)"
    using h r(3) by (simp add: data_plane_step_def)
  then show ?thesis
    by (rule that) (use r in \<open>simp_all add: receive_queues\<close>)
qed

text \<open>A gossip message that arrives is applied.\<close>

lemma gossip_arrives:
  assumes inv: "node_inv b" and node: "\<not> mn_closed b"
    and ch: "listening ch (interestSubscribers (peerLink b)) (pl_interestChans (peerLink b))"
    and m: "interestMessageFromProto c = Some m"
  obtains b' where
    "control_plane_step False ch (b\<lparr>peerLink := receive_message now p (Some (WControlPlane c)) (peerLink b)\<rparr>) = (True, b')"
    "peer_view b' = apply_message m (peer_view b)" "connections (peerLink b') = connections (peerLink b)"
proof -
  let ?g = "receive_message now p (Some (WControlPlane c)) (peerLink b)"
  have link: "pl_inv (peerLink b)" "\<not> pl_closed (peerLink b)"
    using inv node by (auto simp: node_inv_def node_ok_def node_open_def)
  obtain h where h: "try_recv ch (pl_interestChans ?g) = (Item m, h)"
    using receive_interest_item [OF link ch m, of now p] by (cases "try_recv ch (pl_interestChans ?g)") simp
  let ?b = "b\<lparr>peerLink := ?g\<lparr>pl_interestChans := h\<rparr>\<rparr>"
  have same: "peerLink (processIncomingInterestMessage (Some m) ?b) = peerLink ?b"
    unfolding processIncomingInterestMessage_def processIncomingInterestUpdate_def processIncomingInterestSnapshot_def Let_def
    by (auto split: option.splits)
  have view: "peer_view ?b = peer_view b"
    by (simp add: peer_view_def fun_eq_iff)
  have "control_plane_step False ch (b\<lparr>peerLink := ?g\<rparr>) = (True, processIncomingInterestMessage (Some m) ?b)"
    using h by (simp add: control_plane_step_def)
  then show ?thesis
    by (rule that) (simp_all add: process_message_view view same receive_queues)
qed

subsection \<open>What a node queues\<close>

lemma publish_queues:
  assumes "PublishEventWithResult ops now ctx client ev n = (r, n')"
  shows "sendQueues (peerLink n') = sendQueues (peerLink n)"
proof -
  have fl: "sendQueues (snd (snd (forward_loop now c e ps x g))) = sendQueues g" for c e ps x g
  proof (induction ps arbitrary: c x g)
    case (Cons p ps)
    show ?case
      using SendEvent_frame [of now _ p "Some e" g] Cons.IH
      by (auto simp: Cons.IH split: prod.splits bool.splits option.splits) (metis snd_conv)+
  qed simp
  have fw: "sendQueues (peerLink n2) = sendQueues (peerLink n1)"
    if "forwardToPeers now c e x n1 = (x', c', n2)" for c e x x' c' and n1 n2 :: "'a mesh_node"
    using that fl [of c e _ x "peerLink n1"] by (auto simp: forwardToPeers_def split: sum.splits prod.splits) (metis snd_conv)
  show ?thesis
    using assms
    by (cases rule: publish_cases [of client ev n ops now ctx, case_names invalid unlogged interrupted finished])
      (auto dest!: fw dest: deliverToLocal_frame)
qed

lemma sync_queues:
  assumes inv: "pl_inv (peerLink n)" and s: "syncLocalSubscriptionsToPeer now c p n = (None, n')"
  obtains q where "pl_inv (peerLink n')" "map_of (sendQueues (peerLink n')) p \<noteq> None"
    "plane_items (controlQueues (peerLink n')) p (peerLink n') = q @ [ControlPlaneMsg p (Some \<lparr>im_Update = None,
      im_Snapshot = Some \<lparr>is_NodeId = mc_NodeID (mn_config n), is_Topics = localInterestSnapshot n\<rparr>\<rparr>) now 0]"
proof -
  let ?s = "\<lparr>is_NodeId = mc_NodeID (mn_config n), is_Topics = localInterestSnapshot n\<rparr>"
  let ?m = "ControlPlaneMsg p (Some \<lparr>im_Update = None, im_Snapshot = Some ?s\<rparr>) now 0"
  obtain g where g: "SendInterestSnapshot now c p (Some ?s) (peerLink n) = (None, g)" "peerLink n' = g"
    using s by (auto simp: syncLocalSubscriptionsToPeer_def Let_def split: prod.splits option.splits)
  obtain r where r: "lookup_queue controlQueues p (peerLink n) = Inr r"
    using g(1) by (auto simp: SendInterestSnapshot_def sendInterestMessage_def split: sum.splits)
  then have enq: "enqueue c p controlPlaneMessage r ?m (peerLink n) = (None, g)"
    using g(1) by (simp add: SendInterestSnapshot_def sendInterestMessage_def)
  then have sent: "fst (try_send r ?m (pl_queues (peerLink n))) = Sent"
    and g': "g = recordPlaneQueued p controlPlaneMessage ((peerLink n)\<lparr>pl_queues := snd (try_send r ?m (pl_queues (peerLink n)))\<rparr>)"
    by (auto simp: enqueue_def split: if_splits prod.splits send_result.splits)
  have "pl_inv g"
    using interest_ops_inv(2) [OF inv, of now c p "Some ?s"] g(1) by simp
  moreover have mr: "map_of (controlQueues (peerLink n)) p = Some r"
    using lookup_queue_Inr(2) [OF r] by simp
  moreover have "controlQueues g = controlQueues (peerLink n)" "sendQueues g = sendQueues (peerLink n)"
    by (simp_all add: g' recordPlaneQueued_def)
  moreover have "ch_items (chan_at (pl_queues g) r) = ch_items (chan_at (pl_queues (peerLink n)) r) @ [?m]"
    using sent by (simp add: g' recordPlaneQueued_def try_send_items)
  ultimately show ?thesis
    using that [of "ch_items (chan_at (pl_queues (peerLink n)) r)"] keys_same [OF inv, of p] g(2)
    by (auto simp: plane_items_def)
qed

text \<open>
  An event has landed at a node: it is stored at the end of its topic, under the node's numbering and clock, with the
  topic, payload and headers it was published with; every matching client has its copies as far as its channel has
  room; nothing is queued for a peer.
\<close>

definition lands :: "event \<Rightarrow> int \<Rightarrow> mem_log mesh_node \<Rightarrow> mem_log mesh_node \<Rightarrow> bool" where
  "lands e now b b' \<longleftrightarrow> (\<exists>e' ss. ev_topic e' = ev_topic e \<and> bytes_of (ev_payload e') = bytes_of (ev_payload e)
       \<and> map_of (ev_headers e') = map_of (ev_headers e) \<and> ev_timestamp e' = now
       \<and> ev_offset e' = int (length (mem_topic (eventLog b) (ev_topic e)))
       \<and> mem_topic (eventLog b') = (mem_topic (eventLog b))(ev_topic e := mem_topic (eventLog b) (ev_topic e) @ [e'])
       \<and> GetSubscribers (ev_topic e) (routingTable b) = Inr ss
       \<and> (\<forall>c. ch_items (chan_of (clientHeap b') c) = ch_items (chan_of (clientHeap b) c) @
            take (ch_cap (chan_of (clientHeap b) c) - length (ch_items (chan_of (clientHeap b) c)))
              (map (\<lambda>s. delivered_as s e') (addressed_to c ss))))
     \<and> pl_queues (peerLink b') = pl_queues (peerLink b)"

text \<open>What any wire form of an event does at a node.\<close>

lemma wire_event_effect:
  assumes w: "wire_equiv (on_wire (DataPlaneMessage p (Some e') now 0)) w'" and topic: "ev_topic e \<noteq> []"
    and e': "ev_topic e' = ev_topic e" "ev_payload e' = ev_payload e" "ev_headers e' = ev_headers e"
    and b: "reachable mem_ops b" "\<not> mn_closed b" "mn_started b" "mem_inv (eventLog b)" "\<not> ml_closed (eventLog b)"
      "int (length (mem_topic (eventLog b) (ev_topic e))) < max_int64"
      "listening ch (pl_subscribers (peerLink b)) (pl_eventChans (peerLink b))"
  shows "case data_plane_step mem_ops False False ch (b\<lparr>peerLink := receive_message later from w' (peerLink b)\<rparr>) of (go, b') \<Rightarrow>
       go \<and> lands e later b b'"
proof -
  have "serializeMessage (DataPlaneMessage p (Some e') now 0) = Inr (on_wire (DataPlaneMessage p (Some e') now 0))"
    by (simp add: on_wire_def)
  from w this obtain m where m: "w' = Some (WEvent m)" "ev_topic (eventFromProto later m) = ev_topic e'"
    "ev_timestamp (eventFromProto later m) = later"
    "bytes_of (ev_payload (eventFromProto later m)) = bytes_of (ev_payload e')"
    "map_of (ev_headers (eventFromProto later m)) = map_of (ev_headers e')"
    by (rule event_wire [where now = later])
  define ev where "ev = eventFromProto later m"
  let ?e = "WithOffset ev (int (length (mem_topic (eventLog b) (ev_topic ev))))"
  have t: "ev_topic ev = ev_topic e"
    by (simp add: ev_def m(2) e'(1))
  then have pre: "ev_topic ev \<noteq> []" "int (length (mem_topic (eventLog b) (ev_topic ev))) < max_int64"
    using topic b(6) by simp_all
  show ?thesis
    by (rule event_arrives [OF reachable_inv [OF b(1)] b(2-5,7) ev_def pre refl, of "from"])
      (use t m e' in \<open>auto simp: lands_def ev_def intro!: exI [of _ ?e]\<close>)
qed

subsection \<open>An example\<close>

text \<open>The node of the other examples, after its consumer loops have asked the link for their channels.\<close>

definition demo_ears :: "mem_log mesh_node" where
  "demo_ears = demo_live\<lparr>peerLink := snd (ReceiveInterestMessages (snd (ReceiveEvents (peerLink demo_live))))\<rparr>"

lemma demo_live_link:
  "controlQueues (peerLink demo_live) = [(''q'', 1)]" "pl_subscribers (peerLink demo_live) = []"
  "pl_eventChans (peerLink demo_live) = []" "interestSubscribers (peerLink demo_live) = []"
  "pl_interestChans (peerLink demo_live) = []" "mc_NodeID (mn_config demo_live) = ''n1''" "interest demo_live = {''o.*''}"
proof -
  have "pl_subscribers (peerLink demo_node) = []" "pl_eventChans (peerLink demo_node) = []"
    "interestSubscribers (peerLink demo_node) = []" "pl_interestChans (peerLink demo_node) = []" "mc_NodeID demo_mesh_config = ''n1''"
    by (simp_all add: demo_node_def NewGRPCMeshNode_def demo_mesh_config_def NewConfig_def ValidateConfig_def
        NewGRPCPeerLink_def Validate_def default_link_config_def SetDefaults_def)
  then have "pl_subscribers (peerLink demo_started) = []" "pl_eventChans (peerLink demo_started) = []"
    "interestSubscribers (peerLink demo_started) = []" "pl_interestChans (peerLink demo_started) = []" "mc_NodeID demo_mesh_config = ''n1''"
    by (simp_all add: demo_started_def NodeStart_def Start_def StartHeartbeats_def demo_node_fields Let_def)
  then show "controlQueues (peerLink demo_live) = [(''q'', 1)]" "pl_subscribers (peerLink demo_live) = []"
    "pl_eventChans (peerLink demo_live) = []" "interestSubscribers (peerLink demo_live) = []"
    "pl_interestChans (peerLink demo_live) = []" "mc_NodeID (mn_config demo_live) = ''n1''" "interest demo_live = {''o.*''}"
    by (simp_all add: demo_live_def processIncomingInterestMessage_def processIncomingInterestUpdate_def Let_def
        demo_connected_def demo_subscribed_value demo_client_value demo_started_fields gm_get_def interest_def
        localSubscriptionSnapshot_def link_eval SetPeerHealth_def)
qed

lemma demo_ears_fields:
  "\<not> mn_closed demo_ears" "mn_started demo_ears" "eventLog demo_ears = NewInMemoryEventLog"
  "listening 0 (pl_subscribers (peerLink demo_ears)) (pl_eventChans (peerLink demo_ears))"
  "listening 0 (interestSubscribers (peerLink demo_ears)) (pl_interestChans (peerLink demo_ears))"
  "peer_view demo_ears = peer_view demo_live"
  by (simp_all add: demo_ears_def demo_live_fields demo_live_link ReceiveEvents_def ReceiveInterestMessages_def
      registerSubscriber_def registerInterestSubscriber_def listening_def chan_at_def make_chan_def Let_def peer_view_def fun_eq_iff)

lemma demo_ears_reachable: "reachable mem_ops demo_ears"
proof -
  let ?n = "demo_live\<lparr>peerLink := snd (ReceiveEvents (peerLink demo_live))\<rparr>"
  have "mesh_step mem_ops demo_live ?n"
    by (rule step_link, rule step_ReceiveEvents) (simp add: demo_live_fields ReceiveEvents_def registerSubscriber_def Let_def)
  moreover have "mesh_step mem_ops ?n (?n\<lparr>peerLink := snd (ReceiveInterestMessages (peerLink ?n))\<rparr>)"
    by (rule step_link, rule step_ReceiveInterest)
      (simp add: demo_live_fields ReceiveEvents_def registerSubscriber_def ReceiveInterestMessages_def registerInterestSubscriber_def Let_def)
  moreover have "?n\<lparr>peerLink := snd (ReceiveInterestMessages (peerLink ?n))\<rparr> = demo_ears"
    by (simp add: demo_ears_def)
  ultimately show ?thesis
    using demo_live_reachable unfolding reachable_def by (metis rtranclp.rtrancl_into_rtrancl)
qed

lemma demo_sync:
  "fst (syncLocalSubscriptionsToPeer 9 False ''q'' demo_live) = None"
  "queued ''q'' (peerLink (snd (syncLocalSubscriptionsToPeer 9 False ''q'' demo_live))) = [ControlPlaneMsg ''q''
     (Some \<lparr>im_Update = None, im_Snapshot = Some \<lparr>is_NodeId = ''n1'', is_Topics = localInterestSnapshot demo_live\<rparr>\<rparr>) 9 0]"
  by (simp_all add: syncLocalSubscriptionsToPeer_def SendInterestSnapshot_def sendInterestMessage_def lookup_queue_def demo_live_fields
      demo_live_link enqueue_def try_send_def recordPlaneQueued_def queued_def plane_items_def chan_at_def make_chan_def Let_def)

lemma demo_published:
  "\<exists>n'. PublishEventWithResult mem_ops 9 None (Some (TrustedClient ''a'' 0)) (Some (NewEvent 5 ''o.x'' None)) demo_live
      = (Inr (NewEvent 5 ''o.x'' None), n') \<and> queued ''q'' (peerLink n') = [DataPlaneMessage ''q'' (Some (NewEvent 5 ''o.x'' None)) 9 0]"
proof -
  let ?e = "NewEvent 5 ''o.x'' None"
  have e: "WithOffset ?e 0 = ?e" "ev_topic ?e = ''o.x''" "ev_payload ?e = Some []"
    by (simp_all add: NewEvent_def WithOffset_def)
  obtain l where app: "AppendEvent False ''o.x'' (Some ?e) NewInMemoryEventLog = (Inr ?e, l)"
    by (simp add: AppendEvent_def NewInMemoryEventLog_def gm_get_def e Let_def)
  have conns: "connections (peerLink demo_live) = [(''q'', \<lparr>ci_node = demo_peer, ci_stream = None\<rparr>)]"
    by (simp add: demo_live_def processIncomingInterestMessage_def processIncomingInterestUpdate_def Let_def
        demo_connected_def demo_subscribed_value demo_client_value demo_started_fields gm_get_def link_eval SetPeerHealth_def)
  have "matchesPeerSubscriptionPattern ''o.*'' ''o.x''"
    by code_simp
  then show ?thesis
    by (simp add: PublishEventWithResult_def validatePublishRequest_def demo_live_fields(2-7) app e deliverToLocalSubscribers_def demo_lookup
       [unfolded demo_live_fields] forwardToPeers_def GetConnectedPeers_def conns getInterestedPeers_def demo_live_fields demo_live_link
       SendEvent_def lookup_queue_def enqueue_def try_send_def recordPlaneQueued_def queued_def plane_items_def chan_at_def make_chan_def
       client_at_def new_client_obj_def chan_push_def no_result_def result_Error_def HasFailures_def demo_peer_def Let_def)
qed

subsection \<open>Properties\<close>

text \<open>
  C4. Interest crosses a link. When node \<open>a\<close>, in a state it can reach, has sent its subscriptions to peer \<open>p\<close> and its stream to
  the peer is not disturbed, the stream sends a message \<open>w\<close> such that any node \<open>b\<close>, in a state it can reach and with a waiting
  consumer, that receives a message with the meaning of \<open>w\<close>, knows afterwards exactly the patterns \<open>a\<close> has local subscribers for,
  and nothing else about any other node changes: \<open>b\<close> then forwards an event to \<open>a\<close> exactly when it is connected to \<open>a\<close> and one
  of those patterns matches.
\<close>

theorem interest_crosses_link:
  assumes a: "reachable ops a" "\<not> mn_closed a" "syncLocalSubscriptionsToPeer now False p a = (None, a')"
    and stream: "list_all quiet es" "length (queued p (peerLink a')) \<le> length es" "list_all sendable (queued p (peerLink a'))"
    and b: "reachable ops' b" "\<not> mn_closed b" "listening ch (interestSubscribers (peerLink b)) (pl_interestChans (peerLink b))"
  shows "\<exists>before w after g'. runBidirectionalStreamLoop es p (peerLink a') = (LoopRunning, before @ w # after, g')
    \<and> (\<forall>w' later from. wire_equiv w w' \<longrightarrow>
        (case control_plane_step False ch (b\<lparr>peerLink := receive_message later from w' (peerLink b)\<rparr>) of (go, b') \<Rightarrow>
           go \<and> peer_view b' = (peer_view b)(mc_NodeID (mn_config a) := interest a - {[]})
           \<and> (\<forall>topic. wants b' topic (mc_NodeID (mn_config a)) \<longleftrightarrow>
                mc_NodeID (mn_config a) \<in> fst ` set (connections (peerLink b))
                \<and> (\<exists>t \<in> interest a - {[]}. pattern_matches t topic))))"
proof -
  let ?s = "\<lparr>is_NodeId = mc_NodeID (mn_config a), is_Topics = localInterestSnapshot a\<rparr>"
  let ?m = "\<lparr>im_Update = None, im_Snapshot = Some ?s\<rparr>"
  have "pl_inv (peerLink a)"
    using reachable_inv [OF a(1)] a(2) by (simp add: node_inv_def node_ok_def)
  then obtain q where q: "pl_inv (peerLink a')" "map_of (sendQueues (peerLink a')) p \<noteq> None"
    "plane_items (controlQueues (peerLink a')) p (peerLink a') = q @ [ControlPlaneMsg p (Some ?m) now 0]"
    using a(3) by (rule sync_queues)
  obtain g' where "runBidirectionalStreamLoop es p (peerLink a') = (LoopRunning, map on_wire (queued p (peerLink a')), g')"
    using drain_queued [OF q(1,2) stream] by blast
  also have "map on_wire (queued p (peerLink a')) = map on_wire q @ Some (WControlPlane (Some (WInterestSnapshot ?s)))
      # map on_wire (plane_items (sendQueues (peerLink a')) p (peerLink a'))"
    by (simp add: queued_def q(3) on_wire_def controlMessageToProto_def)
  finally have run: "runBidirectionalStreamLoop es p (peerLink a') = (LoopRunning, map on_wire q @
      Some (WControlPlane (Some (WInterestSnapshot ?s))) # map on_wire (plane_items (sendQueues (peerLink a')) p (peerLink a')), g')" .
  have effect: "case control_plane_step False ch (b\<lparr>peerLink := receive_message later from w' (peerLink b)\<rparr>) of (go, b') \<Rightarrow>
       go \<and> peer_view b' = (peer_view b)(mc_NodeID (mn_config a) := interest a - {[]})
       \<and> (\<forall>topic. wants b' topic (mc_NodeID (mn_config a)) \<longleftrightarrow>
            mc_NodeID (mn_config a) \<in> fst ` set (connections (peerLink b))
            \<and> (\<exists>t \<in> interest a - {[]}. pattern_matches t topic))"
    if "wire_equiv (Some (WControlPlane (Some (WInterestSnapshot ?s)))) w'" for w' later "from"
  proof -
    have w': "w' = Some (WControlPlane (Some (WInterestSnapshot ?s)))"
      using that by simp
    have "interestMessageFromProto (Some (WInterestSnapshot ?s)) = Some ?m"
      by (simp add: interestMessageFromProto_def)
    then obtain b' where b': "control_plane_step False ch (b\<lparr>peerLink := receive_message later from w' (peerLink b)\<rparr>) = (True, b')"
      "peer_view b' = apply_message ?m (peer_view b)" "connections (peerLink b') = connections (peerLink b)"
      using gossip_arrives [OF reachable_inv [OF b(1)] b(2,3)] unfolding w' by metis
    have "peer_view b' = (peer_view b)(mc_NodeID (mn_config a) := interest a - {[]})"
      by (simp add: b'(2) apply_message_def snapshot_interest)
    with b'(1,3) show ?thesis by (simp add: wants_def)
  qed
  show ?thesis
    by (intro exI conjI allI impI, rule run, rule effect)
qed

theorem interest_crosses_link_witness:
  "\<exists>w. fst (snd (runBidirectionalStreamLoop [quiet_env] ''q''
       (peerLink (snd (syncLocalSubscriptionsToPeer 9 False ''q'' demo_live))))) = [w]
     \<and> peer_view (snd (control_plane_step False 0 (demo_ears\<lparr>peerLink := receive_message 7 ''n1'' w (peerLink demo_ears)\<rparr>))) ''n1''
       = {''o.*''}"
proof -
  obtain a' where a': "syncLocalSubscriptionsToPeer 9 False ''q'' demo_live = (None, a')"
    using demo_sync(1) by (cases "syncLocalSubscriptionsToPeer 9 False ''q'' demo_live") simp
  have s: "list_all quiet [quiet_env]" "length (queued ''q'' (peerLink a')) \<le> length [quiet_env]"
    "list_all sendable (queued ''q'' (peerLink a'))"
    using demo_sync(2) a' by (simp_all add: quiet_def quiet_env_def sendable_def controlMessageToProto_def)
  obtain before w after g' where run: "runBidirectionalStreamLoop [quiet_env] ''q'' (peerLink a') = (LoopRunning, before @ w # after, g')"
    and eff: "\<forall>w' later from. wire_equiv w w' \<longrightarrow>
        (case control_plane_step False 0 (demo_ears\<lparr>peerLink := receive_message later from w' (peerLink demo_ears)\<rparr>) of (go, b') \<Rightarrow>
           go \<and> peer_view b' = (peer_view demo_ears)(mc_NodeID (mn_config demo_live) := interest demo_live - {[]})
           \<and> (\<forall>topic. wants b' topic (mc_NodeID (mn_config demo_live)) \<longleftrightarrow>
                mc_NodeID (mn_config demo_live) \<in> fst ` set (connections (peerLink demo_ears))
                \<and> (\<exists>t \<in> interest demo_live - {[]}. pattern_matches t topic)))"
    using interest_crosses_link [OF demo_live_reachable demo_live_fields(3) a' s demo_ears_reachable demo_ears_fields(1,5)] by blast
  have "pl_inv (peerLink demo_live)"
    using reachable_inv [OF demo_live_reachable] demo_live_fields(3) by (simp add: node_inv_def node_ok_def)
  then obtain q where "pl_inv (peerLink a')" "map_of (sendQueues (peerLink a')) ''q'' \<noteq> None"
    by (rule sync_queues [OF _ a'])
  from drain_queued [OF this s] run have "before @ w # after = map on_wire (queued ''q'' (peerLink a'))" by auto
  then have w: "before = []" "after = []" "wire_equiv w w"
    using demo_sync(2) a' by (auto simp: Cons_eq_append_conv on_wire_def controlMessageToProto_def append_eq_Cons_conv)
  show ?thesis
    using run a' w eff [rule_format, OF w(3), of 7 "''n1''"] by (auto simp: demo_live_link split: prod.splits)
qed

text \<open>
  C3. An event crosses a link once. When a publish at node \<open>a\<close>, in a state it can reach, has returned the event and peer \<open>p\<close> wants
  it, and the stream to the peer is not disturbed, the last message the stream sends is one \<open>w\<close> such that any node \<open>b\<close>, in a state
  it can reach, started, with an open log and a waiting consumer, that receives a message with the meaning of \<open>w\<close>, stores the
  event at the end of its topic under its own numbering, with the published topic, payload and headers, gives every
  matching local client its copies as far as its channel has room, and queues nothing for any peer.
\<close>

theorem event_crosses_link:
  assumes a: "reachable mem_ops a" "mem_inv (eventLog a)" "int (length (mem_topic (eventLog a) (ev_topic e))) < max_int64"
    and pub: "PublishEventWithResult mem_ops now ctx client (Some e) a = (Inr e', a')" "wants a (ev_topic e) p"
    and stream: "list_all quiet es" "length (queued p (peerLink a')) \<le> length es" "list_all sendable (queued p (peerLink a'))"
    and b: "reachable mem_ops b" "\<not> mn_closed b" "mn_started b" "mem_inv (eventLog b)" "\<not> ml_closed (eventLog b)"
      "int (length (mem_topic (eventLog b) (ev_topic e))) < max_int64"
      "listening ch (pl_subscribers (peerLink b)) (pl_eventChans (peerLink b))"
  shows "\<exists>before w g'. runBidirectionalStreamLoop es p (peerLink a') = (LoopRunning, before @ [w], g')
    \<and> (\<forall>w' later from. wire_equiv w w' \<longrightarrow>
        (case data_plane_step mem_ops False False ch (b\<lparr>peerLink := receive_message later from w' (peerLink b)\<rparr>) of (go, b') \<Rightarrow>
           go \<and> lands e later b b'))"
proof -
  have topic: "ev_topic e \<noteq> []" and open_a: "\<not> mn_closed a"
    using pub(1) by (auto simp: PublishEventWithResult_def validatePublishRequest_def AppendEvent_def
        split: if_splits option.splits prod.splits)
  have e': "ev_topic e' = ev_topic e" "ev_payload e' = ev_payload e" "ev_headers e' = ev_headers e"
    using mem.publish_logs [OF a(2) topic a(3) pub(1)] by (auto simp: Let_def)
  have ok: "node_ok a" "node_open a"
    using reachable_inv [OF a(1)] open_a by (auto simp: node_inv_def)
  have "rt_inv (routingTable a)" "\<not> rt_closed (routingTable a)"
    using ok by (auto simp: node_ok_def node_open_def)
  then obtain ss where ss: "GetSubscribers (ev_topic e) (routingTable a) = Inr ss"
    using rt.lookup_value by blast
  obtain d where d: "map_of (sendQueues (peerLink a)) p = Some d"
    using publish_success(2) [OF ok pub(1) e'(1) ss pub(2)] by blast
  have q: "plane_items (sendQueues (peerLink a')) p (peerLink a') =
      ch_items (chan_at (pl_queues (peerLink a)) d) @ [DataPlaneMessage p (Some e') now 0]"
    using publish_success(3) [OF ok pub(1) e'(1) ss d] pub(2) publish_queues [OF pub(1)] d by (simp add: plane_items_def)
  have inv: "pl_inv (peerLink a')"
    using publish_frame [OF pub(1)] ok(1) by (auto simp: link_keeps_def node_ok_def)
  have "map_of (sendQueues (peerLink a')) p \<noteq> None"
    using publish_queues [OF pub(1)] d by simp
  then obtain g' where "runBidirectionalStreamLoop es p (peerLink a') = (LoopRunning, map on_wire (queued p (peerLink a')), g')"
    using drain_queued [OF inv _ stream] by blast
  also have "map on_wire (queued p (peerLink a')) = map on_wire (plane_items (controlQueues (peerLink a')) p (peerLink a') @
      ch_items (chan_at (pl_queues (peerLink a)) d)) @ [on_wire (DataPlaneMessage p (Some e') now 0)]"
    by (simp add: queued_def q)
  finally show ?thesis
    by (intro exI conjI allI impI, assumption) (rule wire_event_effect [OF _ topic e' b])
qed

theorem event_crosses_link_witness:
  "\<exists>n' w. PublishEventWithResult mem_ops 9 None (Some (TrustedClient ''a'' 0)) (Some (NewEvent 5 ''o.x'' None)) demo_live
       = (Inr (NewEvent 5 ''o.x'' None), n')
     \<and> fst (snd (runBidirectionalStreamLoop [quiet_env] ''q'' (peerLink n'))) = [w]
     \<and> lands (NewEvent 5 ''o.x'' None) 7 demo_ears
         (snd (data_plane_step mem_ops False False 0 (demo_ears\<lparr>peerLink := receive_message 7 ''n1'' w (peerLink demo_ears)\<rparr>)))"
proof -
  let ?e = "NewEvent 5 ''o.x'' None"
  obtain n' where pub: "PublishEventWithResult mem_ops 9 None (Some (TrustedClient ''a'' 0)) (Some ?e) demo_live = (Inr ?e, n')"
    and q: "queued ''q'' (peerLink n') = [DataPlaneMessage ''q'' (Some ?e) 9 0]"
    using demo_published by blast
  have s: "list_all quiet [quiet_env]" "length (queued ''q'' (peerLink n')) \<le> length [quiet_env]"
    "list_all sendable (queued ''q'' (peerLink n'))"
    using q by (simp_all add: quiet_def quiet_env_def sendable_def)
  have e: "ev_topic ?e = ''o.x''"
    by (simp add: NewEvent_def)
  have lg: "mem_inv NewInMemoryEventLog" "\<not> ml_closed NewInMemoryEventLog" "int (length (mem_topic NewInMemoryEventLog ''o.x'')) < max_int64"
    by (simp_all add: mem_eval)
  obtain before w g' where run: "runBidirectionalStreamLoop [quiet_env] ''q'' (peerLink n') = (LoopRunning, before @ [w], g')"
    and eff: "\<forall>w' later from. wire_equiv w w' \<longrightarrow>
        (case data_plane_step mem_ops False False 0 (demo_ears\<lparr>peerLink := receive_message later from w' (peerLink demo_ears)\<rparr>) of (go, b') \<Rightarrow>
           go \<and> lands ?e later demo_ears b')"
    using event_crosses_link [OF demo_live_reachable _ _ pub _ s demo_ears_reachable demo_ears_fields(1,2) _ _ _ demo_ears_fields(4)]
      demo_room(3) lg unfolding e demo_live_fields(1) demo_ears_fields(3) by blast
  have "pl_inv (peerLink n')" "map_of (sendQueues (peerLink n')) ''q'' \<noteq> None"
    using publish_frame [OF pub] publish_queues [OF pub] reachable_inv [OF demo_live_reachable] demo_live_fields(3,8)
    by (auto simp: link_keeps_def node_inv_def node_ok_def)
  from drain_queued [OF this s] run q have w: "before @ [w] = [on_wire (DataPlaneMessage ''q'' (Some ?e) 9 0)]" by auto
  then have "before = []" "wire_equiv w w"
    by (auto simp: on_wire_def NewEvent_def)
  then show ?thesis
    using pub run eff [rule_format, of w 7 "''n1''"] by (auto split: prod.splits)
qed

end
