(* ===== verification/Pebble_Keys.thy ===== *)
theory Pebble_Keys
  imports Event_Log
begin

text \<open>
  The keys of the Pebble log, \<open>internal/eventlog/pebble_keys.go\<close>: a topic's events lie under
  \<open>'e'\<close>, its length, its name and the offset in big-endian order, its counter under \<open>'o'\<close>, its length and its
  name. The store orders keys as byte strings, so a scan over a topic's prefix visits exactly its events, in
  the order of their offsets.
\<close>

subsection \<open>Big-endian numbers\<close>

text \<open>Unsigned integers in big-endian order, \<open>n\<close> bytes.\<close>

fun be_bytes :: "nat \<Rightarrow> nat \<Rightarrow> byte list" where
  "be_bytes 0 x = []"
| "be_bytes (Suc n) x = be_bytes n (x div 256) @ [of_nat x]"

definition be_value :: "byte list \<Rightarrow> nat" where
  "be_value bs = foldl (\<lambda>a b. a * 256 + unat b) 0 bs"

lemma length_be_bytes [simp]: "length (be_bytes n x) = n"
  by (induction n arbitrary: x) auto

lemma be_value_snoc [simp]: "be_value (bs @ [b]) = be_value bs * 256 + unat b"
  by (simp add: be_value_def)

lemma be_value_bytes: "be_value (be_bytes n x) = x mod 256 ^ n"
proof (induction n arbitrary: x)
  case 0
  then show ?case by (simp add: be_value_def)
next
  case (Suc n)
  have "unat (of_nat x :: byte) = x mod 256"
    by (simp add: unat_of_nat)
  with Suc show ?case
    by (simp add: mod_mult2_eq mult.commute)
qed

lemma be_bytes_inject:
  "x < 256 ^ n \<Longrightarrow> y < 256 ^ n \<Longrightarrow> be_bytes n x = be_bytes n y \<longleftrightarrow> x = y"
  by (metis be_value_bytes mod_less)

lemma append_less_same: "length xs = length ys \<Longrightarrow> xs @ us < ys @ vs \<longleftrightarrow> xs < ys \<or> xs = ys \<and> us < vs"
  for xs ys us vs :: "'a::linorder list"
  by (induction xs ys rule: list_induct2) auto

lemma digits_less: "r < m \<Longrightarrow> s < m \<Longrightarrow> a * m + r < b * m + s \<longleftrightarrow> a < b \<or> a = b \<and> r < s" for a b r s m :: nat
proof -
  assume rs: "r < m" "s < m"
  have less: "x * m + u < y * m + v" if "x < y" "u < m" for x y u v
  proof -
    have "x * m + u < Suc x * m" using that(2) by simp
    also have "\<dots> \<le> y * m" using that(1) by (intro mult_le_mono1) simp
    finally show ?thesis by simp
  qed
  consider "a < b" | "a = b" | "b < a" by linarith
  then show ?thesis
    using less [of a b r s] less [of b a s r] rs by cases auto
qed

lemma be_bytes_less:
  "x < 256 ^ n \<Longrightarrow> y < 256 ^ n \<Longrightarrow> be_bytes n x < be_bytes n y \<longleftrightarrow> x < y"
proof (induction n arbitrary: x y)
  case (Suc n)
  have div: "x div 256 < 256 ^ n" "y div 256 < 256 ^ n"
    using Suc.prems by (simp_all add: less_mult_imp_div_less mult.commute)
  have low: "(of_nat x :: byte) < of_nat y \<longleftrightarrow> x mod 256 < y mod 256"
    by (simp add: word_less_nat_alt unat_of_nat)
  have "be_bytes (Suc n) x < be_bytes (Suc n) y \<longleftrightarrow>
      x div 256 < y div 256 \<or> x div 256 = y div 256 \<and> x mod 256 < y mod 256"
    using Suc.IH [OF div] be_bytes_inject [OF div] low by (simp add: append_less_same)
  also have "\<dots> \<longleftrightarrow> x < y"
    using digits_less [of "x mod 256" 256 "y mod 256" "x div 256" "y div 256"] by simp
  finally show ?case .
qed simp

subsection \<open>Definitions\<close>

definition pebbleEventKeyPrefix :: byte where
  "pebbleEventKeyPrefix = of_nat (of_char CHR ''e'')"

definition pebbleOffsetKeyPrefix :: byte where
  "pebbleOffsetKeyPrefix = of_nat (of_char CHR ''o'')"

definition pebbleTopicPrefix :: "byte \<Rightarrow> string \<Rightarrow> byte list" where
  "pebbleTopicPrefix pfx topic =
     [pfx] @ be_bytes 4 (unat (of_nat (length topic) :: 32 word)) @ str_bytes topic"

definition pebbleEventTopicPrefix :: "string \<Rightarrow> byte list" where
  "pebbleEventTopicPrefix topic = pebbleTopicPrefix pebbleEventKeyPrefix topic"

definition pebbleOffsetKey :: "string \<Rightarrow> byte list" where
  "pebbleOffsetKey topic = pebbleTopicPrefix pebbleOffsetKeyPrefix topic"

definition pebbleEventKey :: "string \<Rightarrow> 64 word \<Rightarrow> byte list" where
  "pebbleEventKey topic offset = pebbleEventTopicPrefix topic @ be_bytes 8 (unat offset)"

text \<open>The loop of \<open>pebblePrefixUpperBound\<close> walks from the last byte; here over the reversed prefix.\<close>

fun upper_loop :: "byte list \<Rightarrow> byte list option" where
  "upper_loop [] = None"
| "upper_loop (b # bs) = (if b \<noteq> 255 then Some (rev ((b + 1) # bs)) else upper_loop bs)"

definition pebblePrefixUpperBound :: "byte list \<Rightarrow> byte list option" where
  "pebblePrefixUpperBound pfx = upper_loop (rev pfx)"

definition encodePebbleOffset :: "64 word \<Rightarrow> byte list" where
  "encodePebbleOffset offset = be_bytes 8 (unat offset)"

definition decodePebbleOffset :: "byte list \<Rightarrow> 64 word" where
  "decodePebbleOffset encoded = of_nat (be_value (take 8 encoded))"

definition decodePebbleOffsetTopicKey :: "byte list \<Rightarrow> string option" where
  "decodePebbleOffsetTopicKey key =
     (if length key < 5 \<or> hd key \<noteq> pebbleOffsetKeyPrefix then None
      else
        let topicLen = be_value (take 4 (drop 1 key))
        in if length key \<noteq> 5 + topicLen then None else Some (bytes_str (drop 5 key)))"

subsection \<open>Topics that can be stored\<close>

text \<open>The length field has four bytes.\<close>

definition topic_storable :: "string \<Rightarrow> bool" where
  "topic_storable t \<longleftrightarrow> t \<noteq> [] \<and> length t < 2 ^ 32"

lemma topic_length: "topic_storable t \<Longrightarrow> unat (of_nat (length t) :: 32 word) = length t"
  by (simp add: topic_storable_def unat_of_nat)

lemma pebbleTopicPrefix_inject:
  assumes "topic_storable t" "topic_storable u"
  shows "pebbleTopicPrefix p t @ xs = pebbleTopicPrefix q u @ ys \<longleftrightarrow> p = q \<and> t = u \<and> xs = ys"
proof
  assume eq: "pebbleTopicPrefix p t @ xs = pebbleTopicPrefix q u @ ys"
  then have "p = q" and rest: "be_bytes 4 (length t) @ (str_bytes t @ xs) = be_bytes 4 (length u) @ (str_bytes u @ ys)"
    by (simp_all add: pebbleTopicPrefix_def topic_length assms)
  from rest have "be_bytes 4 (length t) = be_bytes 4 (length u)" "str_bytes t @ xs = str_bytes u @ ys"
    by (simp_all add: append_eq_append_conv)
  moreover have "length t < 256 ^ 4" "length u < 256 ^ 4"
    using assms by (simp_all add: topic_storable_def)
  ultimately have "length t = length u"
    using be_bytes_inject by blast
  with \<open>str_bytes t @ xs = str_bytes u @ ys\<close> \<open>p = q\<close> show "p = q \<and> t = u \<and> xs = ys"
    by (simp add: append_eq_append_conv)
qed simp

lemma prefixes_differ: "pebbleEventKeyPrefix \<noteq> pebbleOffsetKeyPrefix"
  by (simp add: pebbleEventKeyPrefix_def pebbleOffsetKeyPrefix_def)

lemma unat_bound: "unat (w :: 64 word) < 256 ^ 8"
  using unsigned_less [of w, where 'a = nat] by simp

lemma event_key_inject:
  assumes "topic_storable t" "topic_storable u"
  shows "pebbleEventKey t i = pebbleEventKey u j \<longleftrightarrow> t = u \<and> i = j"
  unfolding pebbleEventKey_def pebbleEventTopicPrefix_def pebbleTopicPrefix_inject [OF assms]
    be_bytes_inject [OF unat_bound unat_bound] by (simp add: word_unat_eq_iff)

lemma offset_key_inject:
  "topic_storable t \<Longrightarrow> topic_storable u \<Longrightarrow> pebbleOffsetKey t = pebbleOffsetKey u \<longleftrightarrow> t = u"
  using pebbleTopicPrefix_inject [of t u pebbleOffsetKeyPrefix "[]" pebbleOffsetKeyPrefix "[]"]
  by (simp add: pebbleOffsetKey_def)

lemma event_offset_key:
  "pebbleEventKey t i \<noteq> pebbleOffsetKey u" "pebbleOffsetKey u \<noteq> pebbleEventKey t i"
  using prefixes_differ
  by (auto simp: pebbleEventKey_def pebbleEventTopicPrefix_def pebbleOffsetKey_def pebbleTopicPrefix_def)

lemma event_key_less:
  "pebbleEventKey t i < pebbleEventKey t j \<longleftrightarrow> i < j"
  "pebbleEventKey t i \<le> pebbleEventKey t j \<longleftrightarrow> i \<le> j"
proof -
  show less: "pebbleEventKey t i < pebbleEventKey t j \<longleftrightarrow> i < j" for i j
    by (simp add: pebbleEventKey_def append_less_same be_bytes_less [OF unat_bound unat_bound] word_less_nat_alt)
  show "pebbleEventKey t i \<le> pebbleEventKey t j \<longleftrightarrow> i \<le> j"
    using less [of j i] by (simp add: linorder_not_less [symmetric])
qed

lemma event_key_prefix:
  "topic_storable t \<Longrightarrow> topic_storable u \<Longrightarrow> prefix (pebbleEventTopicPrefix t) (pebbleEventKey u i) \<longleftrightarrow> t = u"
  by (auto simp: prefix_def pebbleEventKey_def pebbleEventTopicPrefix_def pebbleTopicPrefix_inject)

lemma offset_key_no_prefix: "\<not> prefix (pebbleEventTopicPrefix t) (pebbleOffsetKey u)"
  using prefixes_differ
  by (auto simp: prefix_def pebbleOffsetKey_def pebbleEventTopicPrefix_def pebbleTopicPrefix_def)

lemma decode_encode_offset: "decodePebbleOffset (encodePebbleOffset w) = w"
  using unsigned_less [of w, where 'a = nat] by (simp add: decodePebbleOffset_def encodePebbleOffset_def be_value_bytes)

lemma length_encode_offset [simp]: "length (encodePebbleOffset w) = 8"
  by (simp add: encodePebbleOffset_def)

lemma decode_offset_key: "topic_storable t \<Longrightarrow> decodePebbleOffsetTopicKey (pebbleOffsetKey t) = Some t"
  by (simp add: decodePebbleOffsetTopicKey_def pebbleOffsetKey_def pebbleTopicPrefix_def topic_length Let_def
      be_value_bytes topic_storable_def)

subsection \<open>Prefix ranges\<close>

lemma upper_loop_snoc:
  "upper_loop (xs @ [b]) =
     (case upper_loop xs of Some u \<Rightarrow> Some (b # u) | None \<Rightarrow> if b \<noteq> 255 then Some [b + 1] else None)"
  by (induction xs) auto

lemma word_less_suc: "b \<noteq> 255 \<Longrightarrow> c < b + 1 \<longleftrightarrow> c \<le> b" for b c :: byte
proof -
  assume "b \<noteq> 255"
  then have "unat b \<noteq> 255"
    by (simp add: word_unat_eq_iff)
  moreover have "unat b < 256"
    using unsigned_less [of b, where 'a = nat] by simp
  ultimately have "unat (b + 1) = unat b + 1"
    by (simp add: unat_word_ariths)
  then show ?thesis
    by (simp add: word_less_nat_alt word_le_nat_alt less_Suc_eq_le)
qed

lemma word_max: "c \<le> (255 :: byte)"
  using unsigned_less [of c, where 'a = nat] by (simp add: word_le_nat_alt)

lemma prefix_range:
  "p \<le> k \<and> (case pebblePrefixUpperBound p of None \<Rightarrow> True | Some u \<Rightarrow> k < u) \<longleftrightarrow> prefix p k"
  unfolding pebblePrefixUpperBound_def
proof (induction p arbitrary: k)
  case (Cons b bs)
  show ?case
  proof (cases k)
    case (Cons c ks)
    show ?thesis
    proof (cases "upper_loop (rev bs)")
      case None
      with Cons.IH [of ks] \<open>k = c # ks\<close> word_max [of c] show ?thesis
        by (auto simp: upper_loop_snoc word_less_suc)
    next
      case (Some u)
      with Cons.IH [of ks] \<open>k = c # ks\<close> show ?thesis
        by (auto simp: upper_loop_snoc)
    qed
  qed simp
qed simp

text \<open>
  C35. The key layout. For topics shorter than \<open>2^32\<close> bytes: keys of different topics, offsets or kinds differ; the
  keys of a topic's events are ordered as their offsets; the range from a prefix to its upper bound holds exactly the
  keys with that prefix, so that a scan of a topic meets the topic's events and nothing else; and counters and
  topic names are read back as they were written.
\<close>

theorem key_layout:
  assumes "topic_storable t" "topic_storable u"
  shows "(pebbleEventKey t i = pebbleEventKey u j \<longleftrightarrow> t = u \<and> i = j)
    \<and> (pebbleOffsetKey t = pebbleOffsetKey u \<longleftrightarrow> t = u) \<and> pebbleEventKey t i \<noteq> pebbleOffsetKey u
    \<and> (pebbleEventKey t i < pebbleEventKey t j \<longleftrightarrow> i < j)
    \<and> (let p = pebbleEventTopicPrefix t; k = pebbleEventKey u j in
         p \<le> k \<and> (case pebblePrefixUpperBound p of None \<Rightarrow> True | Some b \<Rightarrow> k < b) \<longleftrightarrow> t = u)
    \<and> decodePebbleOffset (encodePebbleOffset i) = i
    \<and> decodePebbleOffsetTopicKey (pebbleOffsetKey t) = Some t"
  using assms
  by (simp add: event_key_inject offset_key_inject event_offset_key event_key_less prefix_range event_key_prefix
      decode_encode_offset decode_offset_key Let_def)

theorem key_layout_witness:
  "pebbleEventKey ''a'' 255 < pebbleEventKey ''a'' 256 \<and> pebbleEventKey ''a'' 1 \<noteq> pebbleEventKey ''ab'' 1"
  using key_layout [of "''a''" "''ab''" 255 256] key_layout [of "''a''" "''ab''" 1 1]
  by (simp add: topic_storable_def)

end
