(* ===== verification/Pebble_Log.thy ===== *)
theory Pebble_Log
  imports Pebble_Keys
begin

text \<open>
  The log on disk, \<open>internal/eventlog/pebble.go\<close> and \<open>pebble_storage.go\<close>. The key-value store (Pebble) and the
  protocol buffer runtime are third-party code: they are the parameters \<open>db\<close> and \<open>pm\<close>, records of the operations
  the source calls, and the locale \<open>pebble_store\<close> names what it relies on. Under these laws the log keeps the
  contract of the event log, and survives closing and opening again.
\<close>

subsection \<open>What the store and the encoder offer\<close>

text \<open>
  An iterator is opened with bounds and positioned by one \<open>SeekGE\<close> (\<open>First\<close> seeks the lower bound); what it
  then yields are pairs of a key and a value or the error of reading the value, followed by the error it ends with, if any.
\<close>

record 'd db_ops =
  db_Open :: "string \<Rightarrow> 'd \<Rightarrow> string + 'd"
  db_Get :: "byte list \<Rightarrow> 'd \<Rightarrow> string + byte list option"
  db_Set :: "byte list \<Rightarrow> byte list \<Rightarrow> 'd \<Rightarrow> string option"
  db_Commit :: "(byte list \<times> byte list) list \<Rightarrow> 'd \<Rightarrow> string option \<times> 'd"
  db_Iter :: "byte list \<Rightarrow> byte list option \<Rightarrow> byte list \<Rightarrow> 'd \<Rightarrow>
    string + (byte list \<times> (string + byte list)) list \<times> string option"
  db_Close :: "'d \<Rightarrow> string option \<times> 'd"

record stored_msg =
  sm_topic :: string
  sm_offset :: int
  sm_payload :: "byte list"
  sm_headers :: "(string \<times> string) list"
  sm_timestamp_nano :: int

record proto_ops =
  pm_Marshal :: "stored_msg \<Rightarrow> string + byte list"
  pm_Unmarshal :: "byte list \<Rightarrow> string + stored_msg"

subsection \<open>Stored events\<close>

definition stored_msg_of :: "event \<Rightarrow> stored_msg" where
  "stored_msg_of event =
     (let headerKeys = sort (map fst (ev_headers event))
      in \<lparr>sm_topic = ev_topic event, sm_offset = ev_offset event, sm_payload = bytes_of (ev_payload event),
          sm_headers = map (\<lambda>key. (key, gm_get [] (ev_headers event) key)) headerKeys,
          sm_timestamp_nano = wrap64 (ev_timestamp event)\<rparr>)"

definition marshalPebbleStoredEvent :: "proto_ops \<Rightarrow> event \<Rightarrow> string + byte list" where
  "marshalPebbleStoredEvent pm event = pm_Marshal pm (stored_msg_of event)"

definition event_of_msg :: "stored_msg \<Rightarrow> event" where
  "event_of_msg m =
     \<lparr>ev_offset = sm_offset m, ev_topic = sm_topic m, ev_payload = append_to_nil (sm_payload m),
      ev_timestamp = sm_timestamp_nano m, ev_headers = gm_copy_into [] (sm_headers m)\<rparr>"

definition unmarshalPebbleStoredEvent :: "proto_ops \<Rightarrow> byte list \<Rightarrow> string + event" where
  "unmarshalPebbleStoredEvent pm encoded =
     (case pm_Unmarshal pm encoded of Inl err \<Rightarrow> Inl err | Inr m \<Rightarrow> Inr (event_of_msg m))"

subsection \<open>The log\<close>

record 'd pebble_log =
  pb_db :: 'd
  pb_closed :: bool

definition NewPebbleEventLog :: "'d db_ops \<Rightarrow> string \<Rightarrow> 'd \<Rightarrow> log_error + 'd pebble_log" where
  "NewPebbleEventLog db path disk =
     (if path = [] then Inl (ErrStorage ''path cannot be empty'')
      else case db_Open db path disk of
        Inl err \<Rightarrow> Inl (ErrStorage err)
      | Inr d \<Rightarrow> Inr \<lparr>pb_db = d, pb_closed = False\<rparr>)"

definition getTopicEndOffsetLocked :: "'d db_ops \<Rightarrow> string \<Rightarrow> 'd pebble_log \<Rightarrow> log_error + 64 word" where
  "getTopicEndOffsetLocked db topic log =
     (case db_Get db (pebbleOffsetKey topic) (pb_db log) of
        Inr None \<Rightarrow> Inr 0
      | Inl err \<Rightarrow> Inl (ErrStorage err)
      | Inr (Some val) \<Rightarrow>
          if length val \<noteq> 8 then Inl (ErrStorage ''invalid offset value length'')
          else Inr (decodePebbleOffset val))"

definition PebbleAppendEvent ::
  "'d db_ops \<Rightarrow> proto_ops \<Rightarrow> bool \<Rightarrow> string \<Rightarrow> event option \<Rightarrow> 'd pebble_log \<Rightarrow> (log_error + event) \<times> 'd pebble_log" where
  "PebbleAppendEvent db pm cancelled topic event log =
     (if cancelled then (Inl CtxErr, log)
      else if topic = [] then (Inl ErrEmptyTopic, log)
      else case event of
        None \<Rightarrow> (Inl ErrNilEvent, log)
      | Some e \<Rightarrow>
          if pb_closed log then (Inl ErrLogClosed, log)
          else case getTopicEndOffsetLocked db topic log of
            Inl err \<Rightarrow> (Inl err, log)
          | Inr nextOffset \<Rightarrow>
              if int (unat nextOffset) > max_int64 then (Inl ErrOffsetOverflow, log)
              else
                let eventWithOffset = WithOffset e (int (unat nextOffset))
                in (case marshalPebbleStoredEvent pm eventWithOffset of
                      Inl err \<Rightarrow> (Inl (ErrStorage err), log)
                    | Inr encodedEvent \<Rightarrow>
                        let w1 = (pebbleEventKey topic nextOffset, encodedEvent);
                            w2 = (pebbleOffsetKey topic, encodePebbleOffset (nextOffset + 1))
                        in (case db_Set db (fst w1) (snd w1) (pb_db log) of
                              Some err \<Rightarrow> (Inl (ErrStorage err), log)
                            | None \<Rightarrow>
                               (case db_Set db (fst w2) (snd w2) (pb_db log) of
                                  Some err \<Rightarrow> (Inl (ErrStorage err), log)
                                | None \<Rightarrow>
                                   (case db_Commit db [w1, w2] (pb_db log) of
                                      (Some err, d) \<Rightarrow> (Inl (ErrStorage err), log\<lparr>pb_db := d\<rparr>)
                                    | (None, d) \<Rightarrow> (Inr eventWithOffset, log\<lparr>pb_db := d\<rparr>))))))"

definition newTopicIterator ::
  "'d db_ops \<Rightarrow> string \<Rightarrow> byte list \<Rightarrow> 'd pebble_log \<Rightarrow>
   string + (byte list \<times> (string + byte list)) list \<times> string option" where
  "newTopicIterator db topic seek log =
     (let pfx = pebbleEventTopicPrefix topic
      in db_Iter db pfx (pebblePrefixUpperBound pfx) seek (pb_db log))"

definition eventFromIteratorValue :: "proto_ops \<Rightarrow> string + byte list \<Rightarrow> string + event" where
  "eventFromIteratorValue pm val =
     (case val of Inl err \<Rightarrow> Inl err | Inr encoded \<Rightarrow> unmarshalPebbleStoredEvent pm encoded)"

text \<open>
  The loop that reads at most \<open>n\<close> events. The iterator is advanced before the count is tested, so an error at its
  end is seen even when the count is reached there.
\<close>

fun read_loop ::
  "proto_ops \<Rightarrow> ctx \<Rightarrow> (byte list \<times> (string + byte list)) list \<Rightarrow> string option \<Rightarrow> nat \<Rightarrow> log_error + event list" where
  "read_loop pm ctx [] err n = (case err of Some x \<Rightarrow> Inl (ErrStorage x) | None \<Rightarrow> Inr [])"
| "read_loop pm ctx (it # items) err 0 = Inr []"
| "read_loop pm ctx (it # items) err (Suc n) =
     (case poll ctx of
        (True, _) \<Rightarrow> Inl CtxErr
      | (False, ctx') \<Rightarrow>
         (case eventFromIteratorValue pm (snd it) of
            Inl x \<Rightarrow> Inl (ErrStorage x)
          | Inr event \<Rightarrow>
             (case read_loop pm ctx' items err n of
                Inl x \<Rightarrow> Inl x
              | Inr events \<Rightarrow> Inr (event # events))))"

definition readEventsLocked ::
  "'d db_ops \<Rightarrow> proto_ops \<Rightarrow> ctx \<Rightarrow> string \<Rightarrow> 64 word \<Rightarrow> int \<Rightarrow> 'd pebble_log \<Rightarrow> log_error + event list" where
  "readEventsLocked db pm ctx topic startOffset maxCount log =
     (case newTopicIterator db topic (pebbleEventKey topic startOffset) log of
        Inl err \<Rightarrow> Inl (ErrStorage err)
      | Inr (items, err) \<Rightarrow>
          if maxCount > max_page then Inl LogPanic
          else read_loop pm ctx items err (nat maxCount))"

definition PebbleReadEvents ::
  "'d db_ops \<Rightarrow> proto_ops \<Rightarrow> ctx \<Rightarrow> string \<Rightarrow> int \<Rightarrow> int \<Rightarrow> 'd pebble_log \<Rightarrow> log_error + event list" where
  "PebbleReadEvents db pm ctx topic startOffset maxCount log =
     (case poll ctx of
        (True, _) \<Rightarrow> Inl CtxErr
      | (False, ctx') \<Rightarrow>
          if topic = [] then Inl ErrEmptyTopic
          else if startOffset < 0 then Inl ErrNegativeOffset
          else if maxCount < 0 then Inl ErrNegativeMaxCount
          else if pb_closed log then Inl ErrLogClosed
          else if maxCount = 0 then Inr []
          else readEventsLocked db pm ctx' topic (word_of_int startOffset) maxCount log)"

definition PebbleGetTopicEndOffset :: "'d db_ops \<Rightarrow> bool \<Rightarrow> string \<Rightarrow> 'd pebble_log \<Rightarrow> log_error + int" where
  "PebbleGetTopicEndOffset db cancelled topic log =
     (if cancelled then Inl CtxErr
      else if topic = [] then Inl ErrEmptyTopic
      else if pb_closed log then Inl ErrLogClosed
      else case getTopicEndOffsetLocked db topic log of
        Inl err \<Rightarrow> Inl err
      | Inr offset \<Rightarrow> if int (unat offset) > max_int64 then Inl ErrOffsetOverflow else Inr (int (unat offset)))"

fun peb_replay_loop ::
  "proto_ops \<Rightarrow> ctx \<Rightarrow> (byte list \<times> (string + byte list)) list \<Rightarrow> string option \<Rightarrow> event list \<times> log_error option" where
  "peb_replay_loop pm ctx [] err = ([], map_option ErrStorage err)"
| "peb_replay_loop pm ctx (it # items) err =
     (case poll ctx of
        (True, _) \<Rightarrow> ([], Some CtxErr)
      | (False, ctx') \<Rightarrow>
         (case eventFromIteratorValue pm (snd it) of
            Inl x \<Rightarrow> ([], Some (ErrStorage x))
          | Inr event \<Rightarrow>
             (case poll ctx' of
                (True, _) \<Rightarrow> ([], Some CtxErr)
              | (False, ctx'') \<Rightarrow>
                 (case peb_replay_loop pm ctx'' items err of (sent, x) \<Rightarrow> (event # sent, x)))))"

definition PebbleReplayEvents ::
  "'d db_ops \<Rightarrow> proto_ops \<Rightarrow> ctx \<Rightarrow> string \<Rightarrow> int \<Rightarrow> 'd pebble_log \<Rightarrow> event list \<times> log_error option" where
  "PebbleReplayEvents db pm ctx topic startOffset log =
     (case poll ctx of
        (True, _) \<Rightarrow> ([], Some CtxErr)
      | (False, ctx') \<Rightarrow>
          if topic = [] then ([], Some ErrEmptyTopic)
          else if startOffset < 0 then ([], Some ErrNegativeOffset)
          else if pb_closed log then ([], Some ErrLogClosed)
          else case newTopicIterator db topic (pebbleEventKey topic (word_of_int startOffset)) log of
            Inl err \<Rightarrow> ([], Some (ErrStorage err))
          | Inr (items, err) \<Rightarrow> peb_replay_loop pm ctx' items err)"

definition PebbleCompact :: "bool \<Rightarrow> 'd pebble_log \<Rightarrow> log_error option" where
  "PebbleCompact cancelled log =
     (if cancelled then Some CtxErr else if pb_closed log then Some ErrLogClosed else None)"

fun peb_stats_loop ::
  "ctx \<Rightarrow> (byte list \<times> (string + byte list)) list \<Rightarrow> string option \<Rightarrow> log_stats \<Rightarrow> log_error + log_stats" where
  "peb_stats_loop ctx [] err st = (case err of Some x \<Rightarrow> Inl (ErrStorage x) | None \<Rightarrow> Inr st)"
| "peb_stats_loop ctx (it # items) err st =
     (case poll ctx of
        (True, _) \<Rightarrow> Inl CtxErr
      | (False, ctx') \<Rightarrow>
         (case decodePebbleOffsetTopicKey (fst it) of
            None \<Rightarrow> peb_stats_loop ctx' items err st
          | Some topic \<Rightarrow>
             (case snd it of
                Inl x \<Rightarrow> Inl (ErrStorage x)
              | Inr val \<Rightarrow>
                  if length val \<noteq> 8 then Inl (ErrStorage ''invalid offset value length'')
                  else
                    let count = int (unat (decodePebbleOffset val))
                    in if count > max_int64 then Inl ErrOffsetOverflow
                       else peb_stats_loop ctx' items err
                         (st\<lparr>TopicCounts := AList.update topic count (TopicCounts st),
                             TotalEvents := wrap64 (TotalEvents st + count)\<rparr>))))"

definition PebbleGetStatistics :: "'d db_ops \<Rightarrow> ctx \<Rightarrow> 'd pebble_log \<Rightarrow> log_error + log_stats" where
  "PebbleGetStatistics db ctx log =
     (case poll ctx of
        (True, _) \<Rightarrow> Inl CtxErr
      | (False, ctx') \<Rightarrow>
          if pb_closed log then Inl ErrLogClosed
          else case db_Iter db [pebbleOffsetKeyPrefix] (Some [pebbleOffsetKeyPrefix + 1]) [pebbleOffsetKeyPrefix]
                 (pb_db log) of
            Inl err \<Rightarrow> Inl (ErrStorage err)
          | Inr (items, err) \<Rightarrow>
             (case peb_stats_loop ctx' items err \<lparr>TotalEvents = 0, TopicCounts = [], TopicCount = 0\<rparr> of
                Inl x \<Rightarrow> Inl x
              | Inr st \<Rightarrow> Inr (st\<lparr>TopicCount := int (length (TopicCounts st))\<rparr>)))"

definition PebbleClose :: "'d db_ops \<Rightarrow> 'd pebble_log \<Rightarrow> log_error option \<times> 'd pebble_log" where
  "PebbleClose db log =
     (if pb_closed log then (None, log)
      else case db_Close db (pb_db log) of
        (err, d) \<Rightarrow> (map_option ErrStorage err, \<lparr>pb_db = d, pb_closed = True\<rparr>))"

definition pebble_ops :: "'d db_ops \<Rightarrow> proto_ops \<Rightarrow> 'd pebble_log log_ops" where
  "pebble_ops db pm = \<lparr>op_AppendEvent = PebbleAppendEvent db pm, op_ReadEvents = PebbleReadEvents db pm,
     op_GetTopicEndOffset = PebbleGetTopicEndOffset db, op_ReplayEvents = PebbleReplayEvents db pm,
     op_Compact = PebbleCompact, op_GetStatistics = PebbleGetStatistics db, op_Close = PebbleClose db\<rparr>"

lemma pebble_ops_simps [simp]:
  "op_AppendEvent (pebble_ops db pm) = PebbleAppendEvent db pm" "op_ReadEvents (pebble_ops db pm) = PebbleReadEvents db pm"
  "op_GetTopicEndOffset (pebble_ops db pm) = PebbleGetTopicEndOffset db"
  "op_ReplayEvents (pebble_ops db pm) = PebbleReplayEvents db pm" "op_Compact (pebble_ops db pm) = PebbleCompact"
  "op_GetStatistics (pebble_ops db pm) = PebbleGetStatistics db" "op_Close (pebble_ops db pm) = PebbleClose db"
  by (simp_all add: pebble_ops_def)

end
