(* ===== verification/Pebble_Refine.thy ===== *)
theory Pebble_Refine
  imports Pebble_Log
begin

text \<open>
  The Pebble log keeps the contract of the event log. \<open>pebble_store\<close> names the laws of the store and the encoder;
  from them follow the laws of \<open>event_log_safe\<close> and, for a store without faults, of \<open>event_log\<close>.
\<close>

subsection \<open>Laws of the store and the encoder\<close>

definition in_range :: "byte list \<Rightarrow> byte list option \<Rightarrow> byte list \<Rightarrow> byte list \<Rightarrow> bool" where
  "in_range lo hi s k \<longleftrightarrow> lo \<le> k \<and> (case hi of None \<Rightarrow> True | Some u \<Rightarrow> k < u) \<and> s \<le> k"

text \<open>
  An iterator yields keys of its range in ascending order, skips none, and reaches the end unless it reports an error;
  a value it yields is the stored one.
\<close>

definition iter_ok ::
  "(byte list \<rightharpoonup> byte list) \<Rightarrow> (byte list \<Rightarrow> bool) \<Rightarrow> (byte list \<times> (string + byte list)) list \<Rightarrow> string option \<Rightarrow> bool" where
  "iter_ok c R items err \<longleftrightarrow> sorted_wrt (<) (map fst items)
     \<and> (\<forall>k v. (k, v) \<in> set items \<longrightarrow> R k \<and> c k \<noteq> None \<and> (case v of Inl _ \<Rightarrow> True | Inr b \<Rightarrow> c k = Some b))
     \<and> (\<forall>k. R k \<and> c k \<noteq> None \<and> (err = None \<or> (\<exists>k' \<in> fst ` set items. k \<le> k')) \<longrightarrow> k \<in> fst ` set items)"

locale pebble_store =
  fixes db :: "'d db_ops"
    and pm :: proto_ops
    and content :: "'d \<Rightarrow> byte list \<rightharpoonup> byte list"
    and db_ok :: "'d \<Rightarrow> bool"
  assumes open_durable: "db_ok d \<Longrightarrow> db_Open db path d = Inr d' \<Longrightarrow> db_ok d' \<and> content d' = content d"
    and close_durable: "db_ok d \<Longrightarrow> db_Close db d = (r, d') \<Longrightarrow> db_ok d' \<and> content d' = content d"
    and get_value: "db_ok d \<Longrightarrow> db_Get db k d = Inr v \<Longrightarrow> v = content d k"
    and commit_applied: "db_ok d \<Longrightarrow> db_Commit db b d = (None, d') \<Longrightarrow> content d' = content d ++ map_of (rev b)"
    and commit_rejected: "db_ok d \<Longrightarrow> db_Commit db b d = (Some msg, d') \<Longrightarrow> content d' = content d"
    and commit_db_ok: "db_ok d \<Longrightarrow> db_Commit db b d = (r, d') \<Longrightarrow> db_ok d'"
    and iter_yields: "db_ok d \<Longrightarrow> db_Iter db lo hi s d = Inr (items, err) \<Longrightarrow> iter_ok (content d) (in_range lo hi s) items err"
    and proto_inverse:
      "pm_Marshal pm m = Inr enc \<Longrightarrow> in_int64 (sm_offset m) \<Longrightarrow> in_int64 (sm_timestamp_nano m) \<Longrightarrow> pm_Unmarshal pm enc = Inr m"

text \<open>A store without faults: every operation succeeds.\<close>

locale faultless_store = pebble_store +
  assumes get_succeeds: "db_ok d \<Longrightarrow> \<exists>v. db_Get db k d = Inr v"
    and set_succeeds: "db_ok d \<Longrightarrow> db_Set db k v d = None"
    and commit_succeeds: "db_ok d \<Longrightarrow> \<exists>d'. db_Commit db b d = (None, d')"
    and iter_succeeds: "db_ok d \<Longrightarrow> \<exists>items. db_Iter db lo hi s d = Inr (items, None) \<and> list_all (\<lambda>(k, v). \<not> isl v) items"
    and close_succeeds: "db_ok d \<Longrightarrow> \<exists>d'. db_Close db d = (None, d')"
    and open_succeeds: "db_ok d \<Longrightarrow> \<exists>d'. db_Open db path d = Inr d'"

subsection \<open>The abstraction\<close>

definition peb_count :: "(byte list \<rightharpoonup> byte list) \<Rightarrow> string \<Rightarrow> nat" where
  "peb_count c t = (case c (pebbleOffsetKey t) of None \<Rightarrow> 0 | Some v \<Rightarrow> unat (decodePebbleOffset v))"

definition peb_event :: "proto_ops \<Rightarrow> (byte list \<rightharpoonup> byte list) \<Rightarrow> string \<Rightarrow> nat \<Rightarrow> event" where
  "peb_event pm c t i =
     (case c (pebbleEventKey t (of_nat i)) of
        None \<Rightarrow> NewEvent 0 t None
      | Some b \<Rightarrow> (case unmarshalPebbleStoredEvent pm b of Inl _ \<Rightarrow> NewEvent 0 t None | Inr e \<Rightarrow> e))"

definition peb_events :: "proto_ops \<Rightarrow> (byte list \<rightharpoonup> byte list) \<Rightarrow> string \<Rightarrow> event list" where
  "peb_events pm c t = (if topic_storable t then map (peb_event pm c t) [0..<peb_count c t] else [])"

definition stored_event :: "event \<Rightarrow> event" where
  "stored_event e = event_of_msg (stored_msg_of e)"

definition topic_inv :: "proto_ops \<Rightarrow> (byte list \<rightharpoonup> byte list) \<Rightarrow> string \<Rightarrow> bool" where
  "topic_inv pm c t \<longleftrightarrow> int (peb_count c t) \<le> max_int64
     \<and> (case c (pebbleOffsetKey t) of None \<Rightarrow> True | Some v \<Rightarrow> length v = 8 \<and> decodePebbleOffset v \<noteq> 0)
     \<and> (\<forall>i. c (pebbleEventKey t i) \<noteq> None \<longleftrightarrow> unat i < peb_count c t)
     \<and> (\<forall>i b. c (pebbleEventKey t i) = Some b \<longrightarrow>
          (\<exists>e. unmarshalPebbleStoredEvent pm b = Inr e \<and> ev_offset e = int (unat i)))"

definition peb_inv :: "proto_ops \<Rightarrow> (byte list \<rightharpoonup> byte list) \<Rightarrow> bool" where
  "peb_inv pm c \<longleftrightarrow> (\<forall>t. topic_storable t \<longrightarrow> topic_inv pm c t)
     \<and> (\<forall>k. c k \<noteq> None \<longrightarrow> (\<exists>t. topic_storable t \<and> (k = pebbleOffsetKey t \<or> (\<exists>i. k = pebbleEventKey t i))))"

subsection \<open>Iterating over a topic\<close>

lemma sorted_prefix:
  fixes xs ys :: "'a::linorder list"
  assumes "sorted_wrt (<) xs" "sorted_wrt (<) ys" "set xs \<subseteq> set ys"
    and "\<And>y x. y \<in> set ys \<Longrightarrow> x \<in> set xs \<Longrightarrow> y \<le> x \<Longrightarrow> y \<in> set xs"
  shows "prefix xs ys"
  using assms
proof (induction xs arbitrary: ys)
  case (Cons x xs)
  then obtain y ys' where ys: "ys = y # ys'"
    by (cases ys) auto
  have "y \<le> x"
    using Cons.prems(2,3) ys by auto
  then have "y \<in> set (x # xs)"
    using Cons.prems(4) [of y x] ys by simp
  then have "x \<le> y"
    using Cons.prems(1) by auto
  with \<open>y \<le> x\<close> have "x = y" by simp
  have "prefix xs ys'"
  proof (rule Cons.IH)
    show "sorted_wrt (<) xs" "sorted_wrt (<) ys'"
      using Cons.prems(1,2) ys by simp_all
    show "set xs \<subseteq> set ys'"
    proof
      fix z assume "z \<in> set xs"
      then have "z \<in> set ys" "x < z" using Cons.prems(1,3) by auto
      then show "z \<in> set ys'" using ys \<open>x = y\<close> by auto
    qed
    show "z \<in> set xs" if "z \<in> set ys'" "w \<in> set xs" "z \<le> w" for z w
    proof -
      have "z \<in> set (x # xs)" using Cons.prems(4) [of z w] that ys by simp
      moreover have "z \<noteq> x" using that(1) Cons.prems(2) ys \<open>x = y\<close> by auto
      ultimately show ?thesis by simp
    qed
  qed
  with ys \<open>x = y\<close> show ?case by simp
qed simp

definition topic_keys :: "string \<Rightarrow> nat \<Rightarrow> nat \<Rightarrow> byte list list" where
  "topic_keys t s n = map (\<lambda>i. pebbleEventKey t (of_nat i)) [s..<n]"

lemma of_nat_unat64: "int n \<le> max_int64 \<Longrightarrow> unat (of_nat n :: 64 word) = n"
  by (simp add: max_int64_def unat_of_nat)

lemma topic_keys_sorted: "int n \<le> max_int64 \<Longrightarrow> sorted_wrt (<) (topic_keys t s n)"
  by (auto simp: topic_keys_def sorted_wrt_map sorted_wrt_upt event_key_less word_less_nat_alt of_nat_unat64
      intro!: sorted_wrt_mono_rel [OF _ sorted_wrt_upt] )

lemma topic_range:
  assumes inv: "peb_inv pm c" and t: "topic_storable t" and s: "int s \<le> max_int64"
  shows "in_range (pebbleEventTopicPrefix t) (pebblePrefixUpperBound (pebbleEventTopicPrefix t))
      (pebbleEventKey t (of_nat s)) k \<and> c k \<noteq> None \<longleftrightarrow> k \<in> set (topic_keys t s (peb_count c t))"
proof -
  let ?p = "pebbleEventTopicPrefix t"
  have ti: "topic_inv pm c t"
    using inv t by (simp add: peb_inv_def)
  have bound: "int (peb_count c t) \<le> max_int64"
    using ti by (simp add: topic_inv_def)
  have rng: "in_range ?p (pebblePrefixUpperBound ?p) (pebbleEventKey t (of_nat s)) k \<longleftrightarrow>
      prefix ?p k \<and> pebbleEventKey t (of_nat s) \<le> k"
    using prefix_range [of ?p k] by (auto simp: in_range_def)
  show ?thesis
  proof
    assume "in_range ?p (pebblePrefixUpperBound ?p) (pebbleEventKey t (of_nat s)) k \<and> c k \<noteq> None"
    then have k: "prefix ?p k" "pebbleEventKey t (of_nat s) \<le> k" "c k \<noteq> None"
      using rng by auto
    obtain u where u: "topic_storable u" "k = pebbleOffsetKey u \<or> (\<exists>i. k = pebbleEventKey u i)"
      using inv k(3) unfolding peb_inv_def by blast
    then obtain i where i: "k = pebbleEventKey t i"
      using k(1) offset_key_no_prefix event_key_prefix [OF t] by auto
    have "unat i < peb_count c t"
      using ti k(3) i by (simp add: topic_inv_def)
    moreover have "s \<le> unat i"
      using k(2) i by (simp add: event_key_less word_le_nat_alt of_nat_unat64 [OF s])
    ultimately show "k \<in> set (topic_keys t s (peb_count c t))"
      using i by (auto simp: topic_keys_def intro!: image_eqI [of _ _ "unat i"])
  next
    assume "k \<in> set (topic_keys t s (peb_count c t))"
    then obtain i where i: "s \<le> i" "i < peb_count c t" "k = pebbleEventKey t (of_nat i)"
      by (auto simp: topic_keys_def)
    have u: "unat (of_nat i :: 64 word) = i"
      using i(2) bound by (intro of_nat_unat64) simp
    have "c k \<noteq> None"
      using ti i u by (simp add: topic_inv_def)
    moreover have "pebbleEventKey t (of_nat s) \<le> k"
      using i u by (simp add: event_key_less word_le_nat_alt of_nat_unat64 [OF s])
    ultimately show "in_range ?p (pebblePrefixUpperBound ?p) (pebbleEventKey t (of_nat s)) k \<and> c k \<noteq> None"
      using rng i event_key_prefix [OF t t] by simp
  qed
qed

text \<open>What an iterator over a topic yields.\<close>

lemma topic_iter:
  assumes inv: "peb_inv pm c" and t: "topic_storable t" and s: "int s \<le> max_int64"
    and it: "iter_ok c (in_range (pebbleEventTopicPrefix t) (pebblePrefixUpperBound (pebbleEventTopicPrefix t))
      (pebbleEventKey t (of_nat s))) items err"
  shows "prefix (map fst items) (topic_keys t s (peb_count c t))"
    and "err = None \<Longrightarrow> map fst items = topic_keys t s (peb_count c t)"
proof -
  let ?K = "topic_keys t s (peb_count c t)"
  have "int (peb_count c t) \<le> max_int64"
    using inv t by (simp add: peb_inv_def topic_inv_def)
  then have sK: "sorted_wrt (<) ?K" by (rule topic_keys_sorted)
  have si: "sorted_wrt (<) (map fst items)"
    using it by (simp add: iter_ok_def)
  have sub: "set (map fst items) \<subseteq> set ?K"
    using it topic_range [OF inv t s] by (fastforce simp: iter_ok_def)
  have down: "k \<in> set (map fst items)" if "k \<in> set ?K" "err = None \<or> (\<exists>k' \<in> fst ` set items. k \<le> k')" for k
    using it topic_range [OF inv t s, of k] that unfolding iter_ok_def by auto
  show p: "prefix (map fst items) ?K"
    by (rule sorted_prefix [OF si sK sub]) (use down in auto)
  show "map fst items = ?K" if "err = None"
  proof -
    have "set ?K \<subseteq> set (map fst items)" using down that by auto
    then have "prefix ?K (map fst items)"
      by (intro sorted_prefix [OF sK si]) (use sub in auto)
    with p show ?thesis by (rule prefix_order.antisym)
  qed
qed

text \<open>Reading the values.\<close>

lemma read_loop_value:
  "read_loop pm ctx items err n = Inr es \<Longrightarrow>
   map (eventFromIteratorValue pm \<circ> snd) (take n items) = map Inr es \<and> (n < length items \<or> err = None)"
  by (induction pm ctx items err n arbitrary: es rule: read_loop.induct)
    (auto split: option.splits prod.splits bool.splits sum.splits)

lemma peb_replay_value:
  "peb_replay_loop pm ctx items err = (es, x) \<Longrightarrow>
   map (eventFromIteratorValue pm \<circ> snd) (take (length es) items) = map Inr es
   \<and> (x = None \<longrightarrow> length es = length items \<and> err = None)"
  by (induction pm ctx items err arbitrary: es x rule: peb_replay_loop.induct)
    (auto split: option.splits prod.splits bool.splits sum.splits)

lemma iter_values:
  assumes inv: "peb_inv pm c" and t: "topic_storable t" and s: "int s \<le> max_int64"
    and it: "iter_ok c (in_range (pebbleEventTopicPrefix t) (pebblePrefixUpperBound (pebbleEventTopicPrefix t))
      (pebbleEventKey t (of_nat s))) items err"
    and es: "map (eventFromIteratorValue pm \<circ> snd) (take n items) = map Inr es"
  shows "es = take (min n (length items)) (drop s (peb_events pm c t))"
    and "err = None \<Longrightarrow> length items = peb_count c t - s"
proof -
  have keys: "prefix (map fst items) (topic_keys t s (peb_count c t))"
    "err = None \<Longrightarrow> map fst items = topic_keys t s (peb_count c t)"
    using topic_iter [OF inv t s it] by auto
  show "err = None \<Longrightarrow> length items = peb_count c t - s"
    using keys(2) by (metis length_map length_upt topic_keys_def)
  have le: "length items \<le> peb_count c t - s"
    using prefix_length_le [OF keys(1)] by (simp add: topic_keys_def)
  have len: "length es = min n (length items)"
    using arg_cong [OF es, of length] by (simp add: min.commute)
  show "es = take (min n (length items)) (drop s (peb_events pm c t))"
  proof (rule nth_equalityI)
    show "length es = length (take (min n (length items)) (drop s (peb_events pm c t)))"
      using len le t by (simp add: peb_events_def)
    fix j assume "j < length es"
    then have j: "j < n" "j < length items" "s + j < peb_count c t"
      using len le by auto
    obtain k v where kv: "items ! j = (k, v)" by (cases "items ! j")
    have "k = topic_keys t s (peb_count c t) ! j"
      using prefix_same_cases keys(1) j(2) kv
      by (metis (no_types) fst_conv length_map nth_append nth_map prefixE)
    then have k: "k = pebbleEventKey t (of_nat (s + j))"
      using j(3) by (simp add: topic_keys_def)
    have ev: "eventFromIteratorValue pm v = Inr (es ! j)"
      using es j \<open>j < length es\<close> kv by (metis (no_types, lifting) comp_apply length_map length_take min_less_iff_conj nth_map nth_take snd_conv)
    then obtain b where b: "v = Inr b" "unmarshalPebbleStoredEvent pm b = Inr (es ! j)"
      by (auto simp: eventFromIteratorValue_def split: sum.splits)
    have "(k, v) \<in> set items"
      using kv j(2) by (metis nth_mem)
    then have "c k = Some b"
      using it b(1) unfolding iter_ok_def by fastforce
    then show "es ! j = take (min n (length items)) (drop s (peb_events pm c t)) ! j"
      using j b(2) k le t by (simp add: peb_events_def peb_event_def)
  qed
qed

subsection \<open>Appending\<close>

lemma stored_event_fields [simp]:
  "ev_offset (stored_event e) = ev_offset e" "ev_topic (stored_event e) = ev_topic e"
  "bytes_of (ev_payload (stored_event e)) = bytes_of (ev_payload e)"
  by (simp_all add: stored_event_def event_of_msg_def stored_msg_of_def Let_def)

lemma peb_count_update:
  assumes "topic_storable t" "topic_storable u"
  shows "peb_count (c(pebbleEventKey t i \<mapsto> b, pebbleOffsetKey t \<mapsto> encodePebbleOffset w)) u =
    (if u = t then unat w else peb_count c u)"
  using assms
  by (auto simp: peb_count_def event_offset_key offset_key_inject decode_encode_offset)

lemma append_inv:
  assumes inv: "peb_inv pm c" and t: "topic_storable t" and small: "int (peb_count c t) < max_int64"
    and dec: "unmarshalPebbleStoredEvent pm b = Inr e" "ev_offset e = int (peb_count c t)"
    and c': "c' = c(pebbleEventKey t (of_nat (peb_count c t)) \<mapsto> b,
      pebbleOffsetKey t \<mapsto> encodePebbleOffset (of_nat (peb_count c t) + 1))"
  shows "peb_inv pm c'" and "peb_events pm c' = (peb_events pm c)(t := peb_events pm c t @ [e])"
proof -
  let ?n = "peb_count c t"
  have un: "unat (of_nat ?n :: 64 word) = ?n"
    using small by (intro of_nat_unat64) simp
  have us: "unat (of_nat ?n + 1 :: 64 word) = Suc ?n"
    using of_nat_unat64 [of "Suc ?n"] small by (simp add: add.commute)
  then have nz: "decodePebbleOffset (encodePebbleOffset (of_nat ?n + 1)) \<noteq> 0"
    by (auto simp: decode_encode_offset)
  have count: "peb_count c' u = (if u = t then Suc ?n else peb_count c u)" if "topic_storable u" for u
    unfolding c' peb_count_update [OF t that] us ..
  have key: "c' (pebbleEventKey u i) = (if u = t \<and> unat i = ?n then Some b else c (pebbleEventKey u i))"
    if "topic_storable u" for u i
    using event_key_inject [OF that t, of i "of_nat ?n"] un
    by (auto simp: c' event_offset_key word_unat_eq_iff)
  have okey: "c' (pebbleOffsetKey u) = (if u = t then Some (encodePebbleOffset (of_nat ?n + 1)) else c (pebbleOffsetKey u))"
    if "topic_storable u" for u
    using offset_key_inject [OF that t] by (simp add: c' event_offset_key)
  have old: "topic_inv pm c u" if "topic_storable u" for u
    using inv that by (simp add: peb_inv_def)
  have "topic_inv pm c' u" if u: "topic_storable u" for u
  proof (cases "u = t")
    case False
    with old [OF u] show ?thesis
      unfolding topic_inv_def count [OF u] key [OF u] okey [OF u] by simp
  next
    case True
    with old [OF u] small dec nz show ?thesis
      unfolding topic_inv_def count [OF u] key [OF u] okey [OF u] by (auto simp: less_Suc_eq simp del: of_nat_unat)
  qed
  moreover have "\<exists>u. topic_storable u \<and> (k = pebbleOffsetKey u \<or> (\<exists>i. k = pebbleEventKey u i))" if "c' k \<noteq> None" for k
  proof (cases "c k = None")
    case True
    with that t show ?thesis by (auto simp: c' split: if_splits)
  next
    case False
    with inv show ?thesis unfolding peb_inv_def by blast
  qed
  ultimately show "peb_inv pm c'"
    by (simp add: peb_inv_def)
  show "peb_events pm c' = (peb_events pm c)(t := peb_events pm c t @ [e])"
  proof
    fix u
    show "peb_events pm c' u = ((peb_events pm c)(t := peb_events pm c t @ [e])) u"
    proof (cases "topic_storable u")
      case True
      have ev: "peb_event pm c' u i = (if u = t \<and> i = ?n then e else peb_event pm c u i)" if "i < peb_count c' u" for i
      proof -
        have "unat (of_nat i :: 64 word) = i"
          using that count [OF True] old [OF True] small
          by (intro of_nat_unat64) (auto simp: topic_inv_def split: if_splits)
        then show ?thesis
          unfolding peb_event_def key [OF True] using dec(1) by auto
      qed
      then have "peb_events pm c' u = map (\<lambda>i. if u = t \<and> i = ?n then e else peb_event pm c u i) [0..<peb_count c' u]"
        using True by (simp add: peb_events_def)
      then show ?thesis
        using True t by (auto simp: count [OF True] peb_events_def)
    next
      case False
      then have "u \<noteq> t" using t by auto
      with False show ?thesis by (simp add: peb_events_def)
    qed
  qed
qed

subsection \<open>The contract\<close>

definition peb_log_ok ::
  "('d \<Rightarrow> bool) \<Rightarrow> proto_ops \<Rightarrow> ('d \<Rightarrow> byte list \<rightharpoonup> byte list) \<Rightarrow> 'd pebble_log \<Rightarrow> bool" where
  "peb_log_ok db_ok pm content l \<longleftrightarrow> db_ok (pb_db l) \<and> peb_inv pm (content (pb_db l))"

definition peb_log_events :: "proto_ops \<Rightarrow> ('d \<Rightarrow> byte list \<rightharpoonup> byte list) \<Rightarrow> 'd pebble_log \<Rightarrow> string \<Rightarrow> event list" where
  "peb_log_events pm content l = peb_events pm (content (pb_db l))"

lemma peb_log_length: "topic_storable t \<Longrightarrow> length (peb_log_events pm content l t) = peb_count (content (pb_db l)) t"
  by (simp add: peb_log_events_def peb_events_def)

lemma peb_offsets:
  assumes "peb_inv pm c" "topic_storable t"
  shows "map ev_offset (peb_events pm c t) = map int [0..<length (peb_events pm c t)]"
proof -
  have ti: "topic_inv pm c t" using assms by (simp add: peb_inv_def)
  have "ev_offset (peb_event pm c t i) = int i" if i: "i < peb_count c t" for i
  proof -
    have u: "unat (of_nat i :: 64 word) = i"
      using i ti by (intro of_nat_unat64) (simp add: topic_inv_def)
    then obtain b where b: "c (pebbleEventKey t (of_nat i)) = Some b"
      using ti i unfolding topic_inv_def by (metis not_None_eq)
    then obtain e where "unmarshalPebbleStoredEvent pm b = Inr e" "ev_offset e = int (unat (of_nat i :: 64 word))"
      using ti unfolding topic_inv_def by blast
    with b u show ?thesis by (simp add: peb_event_def)
  qed
  with assms(2) show ?thesis by (simp add: peb_events_def)
qed

lemma seek_word: "0 \<le> s \<Longrightarrow> s \<le> max_int64 \<Longrightarrow> (word_of_int s :: 64 word) = of_nat (nat s)"
  by (simp add: max_int64_def)

context pebble_store
begin

lemma end_offset:
  assumes "peb_log_ok db_ok pm content l" "getTopicEndOffsetLocked db t l = Inr w" "topic_storable t"
  shows "w = of_nat (peb_count (content (pb_db l)) t)" "unat w = peb_count (content (pb_db l)) t"
proof -
  have "topic_inv pm (content (pb_db l)) t" and d: "db_ok (pb_db l)"
    using assms(1,3) by (simp_all add: peb_log_ok_def peb_inv_def)
  then have small: "int (peb_count (content (pb_db l)) t) \<le> max_int64"
    by (simp add: topic_inv_def)
  obtain v where v: "db_Get db (pebbleOffsetKey t) (pb_db l) = Inr v"
    using assms(2) by (auto simp: getTopicEndOffsetLocked_def split: sum.splits)
  show u: "unat w = peb_count (content (pb_db l)) t"
    using assms(2) v get_value [OF d v]
    by (cases "content (pb_db l) (pebbleOffsetKey t)")
      (auto simp: getTopicEndOffsetLocked_def peb_count_def split: if_splits)
  then show "w = of_nat (peb_count (content (pb_db l)) t)"
    unfolding u [symmetric] by simp
qed

lemma append_Inr:
  assumes ok: "peb_log_ok db_ok pm content l" and t: "topic_storable t"
    and app: "PebbleAppendEvent db pm c t oe l = (Inr e', l')"
  obtains e b where "oe = Some e" "\<not> pb_closed l" "e' = WithOffset e (int (peb_count (content (pb_db l)) t))"
    "int (peb_count (content (pb_db l)) t) \<le> max_int64" "db_ok (pb_db l')"
    "unmarshalPebbleStoredEvent pm b = Inr (stored_event e')" "pb_closed l' = pb_closed l"
    "content (pb_db l') = (content (pb_db l))(pebbleEventKey t (of_nat (peb_count (content (pb_db l)) t)) \<mapsto> b,
      pebbleOffsetKey t \<mapsto> encodePebbleOffset (of_nat (peb_count (content (pb_db l)) t) + 1))"
proof -
  let ?n = "peb_count (content (pb_db l)) t"
  obtain e where e: "oe = Some e" and opn: "\<not> pb_closed l"
    using app by (auto simp: PebbleAppendEvent_def split: if_splits option.splits)
  obtain w where w: "getTopicEndOffsetLocked db t l = Inr w"
    using app e opn by (auto simp: PebbleAppendEvent_def split: if_splits sum.splits)
  have wn: "w = of_nat ?n" "unat w = ?n"
    using end_offset [OF ok w t] by auto
  have small: "int ?n \<le> max_int64"
    using ok t by (simp add: peb_log_ok_def peb_inv_def topic_inv_def)
  obtain b where b: "marshalPebbleStoredEvent pm (WithOffset e (int ?n)) = Inr b"
    using app e opn w wn by (auto simp: PebbleAppendEvent_def Let_def split: if_splits sum.splits)
  let ?batch = "[(pebbleEventKey t (of_nat ?n), b), (pebbleOffsetKey t, encodePebbleOffset (of_nat ?n + 1))]"
  obtain d where d: "db_Commit db ?batch (pb_db l) = (None, d)" and e': "e' = WithOffset e (int ?n)" "l' = l\<lparr>pb_db := d\<rparr>"
    using app e opn w wn b
    by (auto simp: PebbleAppendEvent_def Let_def split: if_splits option.splits prod.splits)
  have ok0: "db_ok (pb_db l)"
    using ok by (simp add: peb_log_ok_def)
  have "unmarshalPebbleStoredEvent pm b = Inr (stored_event e')"
  proof -
    have "pm_Unmarshal pm b = Inr (stored_msg_of e')"
      using b small wrap64_range
      by (intro proto_inverse) (auto simp: e' marshalPebbleStoredEvent_def stored_msg_of_def Let_def in_int64_def max_int64_def)
    then show ?thesis
      by (simp add: unmarshalPebbleStoredEvent_def stored_event_def)
  qed
  moreover have "content d = (content (pb_db l))(pebbleEventKey t (of_nat ?n) \<mapsto> b,
      pebbleOffsetKey t \<mapsto> encodePebbleOffset (of_nat ?n + 1))"
    using commit_applied [OF ok0 d] by simp
  ultimately show ?thesis
    using that e opn e' small commit_db_ok [OF ok0 d] by simp
qed

lemma append_Inl:
  assumes "peb_log_ok db_ok pm content l" "PebbleAppendEvent db pm c t oe l = (Inl x, l')"
  shows "content (pb_db l') = content (pb_db l) \<and> db_ok (pb_db l')"
proof -
  have ok0: "db_ok (pb_db l)"
    using assms(1) by (simp add: peb_log_ok_def)
  have "l' = l \<or> (\<exists>b m d. db_Commit db b (pb_db l) = (Some m, d) \<and> l' = l\<lparr>pb_db := d\<rparr>)"
    using assms(2)
    by (auto simp: PebbleAppendEvent_def Let_def split: if_splits option.splits sum.splits prod.splits)
  with ok0 commit_rejected [OF ok0] commit_db_ok [OF ok0] show ?thesis by auto
qed

lemma topic_items:
  assumes ok: "peb_log_ok db_ok pm content l" and s: "0 \<le> s" "s \<le> max_int64"
    and it: "newTopicIterator db t (pebbleEventKey t (word_of_int s)) l = Inr (items, err)"
  shows "peb_inv pm (content (pb_db l))" "int (nat s) \<le> max_int64"
    and "iter_ok (content (pb_db l)) (in_range (pebbleEventTopicPrefix t)
      (pebblePrefixUpperBound (pebbleEventTopicPrefix t)) (pebbleEventKey t (of_nat (nat s)))) items err"
proof -
  have ok0: "db_ok (pb_db l)" and inv: "peb_inv pm (content (pb_db l))"
    using ok by (simp_all add: peb_log_ok_def)
  show "peb_inv pm (content (pb_db l))" "int (nat s) \<le> max_int64"
    using inv s by simp_all
  show "iter_ok (content (pb_db l)) (in_range (pebbleEventTopicPrefix t)
      (pebblePrefixUpperBound (pebbleEventTopicPrefix t)) (pebbleEventKey t (of_nat (nat s)))) items err"
    using iter_yields [OF ok0 it [unfolded newTopicIterator_def Let_def]] unfolding seek_word [OF s] .
qed

lemma read_events_value:
  assumes ok: "peb_log_ok db_ok pm content l" and t: "topic_storable t"
    and m: "m \<le> max_page" "s + m \<le> max_int64"
    and rd: "PebbleReadEvents db pm ctx t s m l = Inr es"
  shows "0 \<le> s \<and> 0 \<le> m \<and> es = take (nat m) (drop (nat s) (peb_log_events pm content l t))"
proof -
  have sm: "0 \<le> s" "0 \<le> m" "s \<le> max_int64"
    using rd m by (auto simp: PebbleReadEvents_def split: prod.splits bool.splits if_splits)
  show ?thesis
  proof (cases "m = 0")
    case True
    with rd sm show ?thesis
      by (auto simp: PebbleReadEvents_def split: prod.splits bool.splits if_splits)
  next
    case False
    then obtain items err ctx' where it: "newTopicIterator db t (pebbleEventKey t (word_of_int s)) l = Inr (items, err)"
      and loop: "read_loop pm ctx' items err (nat m) = Inr es"
      using rd by (auto simp: PebbleReadEvents_def readEventsLocked_def split: prod.splits bool.splits if_splits sum.splits)
    note vals = read_loop_value [OF loop]
    note iv = iter_values [OF topic_items(1) [OF ok sm(1,3) it] t topic_items(2) [OF ok sm(1,3) it]
        topic_items(3) [OF ok sm(1,3) it] vals [THEN conjunct1]]
    have "es = take (min (nat m) (length items)) (drop (nat s) (peb_log_events pm content l t))"
      using iv(1) by (simp add: peb_log_events_def)
    also have "\<dots> = take (nat m) (drop (nat s) (peb_log_events pm content l t))"
    proof (cases "nat m < length items")
      case False
      then have "length items = length (drop (nat s) (peb_log_events pm content l t))"
        using vals iv(2) peb_log_length [OF t, of pm content l] by auto
      with False show ?thesis by (simp add: min_def)
    qed (simp add: min_def)
    finally show ?thesis using sm by simp
  qed
qed

lemma replay_events_value:
  assumes ok: "peb_log_ok db_ok pm content l" and t: "topic_storable t" and s: "s \<le> max_int64"
    and rp: "PebbleReplayEvents db pm ctx t s l = (es, err)"
  shows "prefix es (drop (nat s) (peb_log_events pm content l t))
    \<and> (err = None \<longrightarrow> es = drop (nat s) (peb_log_events pm content l t))"
proof (cases "0 \<le> s \<and> es \<noteq> [] \<or> err = None")
  case False
  then have "es = []"
    using rp by (auto simp: PebbleReplayEvents_def split: prod.splits bool.splits if_splits sum.splits)
  with False show ?thesis by (cases err) simp_all
next
  case True
  with rp have s0: "0 \<le> s"
    by (auto simp: PebbleReplayEvents_def split: prod.splits bool.splits if_splits sum.splits)
  obtain items x ctx' where it: "newTopicIterator db t (pebbleEventKey t (word_of_int s)) l = Inr (items, x)"
    and loop: "peb_replay_loop pm ctx' items x = (es, err)"
    using rp True by (auto simp: PebbleReplayEvents_def split: prod.splits bool.splits if_splits sum.splits)
  note vals = peb_replay_value [OF loop]
  note iv = iter_values [OF topic_items(1) [OF ok s0 s it] t topic_items(2) [OF ok s0 s it]
      topic_items(3) [OF ok s0 s it] vals [THEN conjunct1]]
  have es: "es = take (min (length es) (length items)) (drop (nat s) (peb_log_events pm content l t))"
    using iv(1) by (simp add: peb_log_events_def)
  moreover have "length items = length (drop (nat s) (peb_log_events pm content l t))" "length es = length items" if "err = None"
    using vals iv(2) peb_log_length [OF t, of pm content l] that by auto
  ultimately show ?thesis
    by (metis min.idem take_all_iff le_refl take_is_prefix)
qed

end

sublocale pebble_store \<subseteq> event_log_safe "pebble_ops db pm" "peb_log_events pm content" stored_event topic_storable
  "peb_log_ok db_ok pm content"
proof (unfold_locales, unfold pebble_ops_simps)
  fix l t c oe
  assume ok: "peb_log_ok db_ok pm content l" and t: "topic_storable t"
    and len: "int (length (peb_log_events pm content l t)) < max_int64"
  show "peb_log_ok db_ok pm content (snd (PebbleAppendEvent db pm c t oe l))"
  proof (cases "PebbleAppendEvent db pm c t oe l")
    case (Pair r l')
    show ?thesis
    proof (cases r)
      case (Inl x)
      with Pair append_Inl [OF ok] ok show ?thesis by (simp add: peb_log_ok_def)
    next
      case (Inr e')
      obtain e b where app: "e' = WithOffset e (int (peb_count (content (pb_db l)) t))" "db_ok (pb_db l')"
        "unmarshalPebbleStoredEvent pm b = Inr (stored_event e')"
        "content (pb_db l') = (content (pb_db l))(pebbleEventKey t (of_nat (peb_count (content (pb_db l)) t)) \<mapsto> b,
          pebbleOffsetKey t \<mapsto> encodePebbleOffset (of_nat (peb_count (content (pb_db l)) t) + 1))"
        by (rule append_Inr [OF ok t Pair [unfolded Inr]])
      have "peb_inv pm (content (pb_db l'))"
        by (rule append_inv(1) [OF _ t _ app(3) _ app(4)])
          (use ok len app(1) peb_log_length [OF t, of pm content l] in \<open>simp_all add: peb_log_ok_def\<close>)
      with app(2) Pair show ?thesis by (simp add: peb_log_ok_def)
    qed
  qed
next
  fix l t c e e' l'
  assume ok: "peb_log_ok db_ok pm content l" and t: "topic_storable t"
    and len: "int (length (peb_log_events pm content l t)) < max_int64"
    and app: "PebbleAppendEvent db pm c t (Some e) l = (Inr e', l')"
  obtain x b where x: "Some e = Some x" "e' = WithOffset x (int (peb_count (content (pb_db l)) t))"
    and b: "unmarshalPebbleStoredEvent pm b = Inr (stored_event e')"
    "content (pb_db l') = (content (pb_db l))(pebbleEventKey t (of_nat (peb_count (content (pb_db l)) t)) \<mapsto> b,
      pebbleOffsetKey t \<mapsto> encodePebbleOffset (of_nat (peb_count (content (pb_db l)) t) + 1))"
    by (rule append_Inr [OF ok t app])
  have "peb_events pm (content (pb_db l')) =
      (peb_events pm (content (pb_db l)))(t := peb_events pm (content (pb_db l)) t @ [stored_event e'])"
    by (rule append_inv(2) [OF _ t _ b(1) _ b(2)])
      (use ok len x(2) peb_log_length [OF t, of pm content l] in \<open>simp_all add: peb_log_ok_def\<close>)
  with x peb_log_length [OF t, of pm content l] show
    "e' = WithOffset e (int (length (peb_log_events pm content l t)))
     \<and> peb_log_events pm content l' = (peb_log_events pm content l)(t := peb_log_events pm content l t @ [stored_event e'])"
    by (simp add: peb_log_events_def)
next
  show "peb_log_ok db_ok pm content l \<Longrightarrow> topic_storable t \<Longrightarrow> PebbleAppendEvent db pm c t oe l = (Inl err', l') \<Longrightarrow>
      peb_log_events pm content l' = peb_log_events pm content l" for l t c oe err' l'
    using append_Inl by (simp add: peb_log_events_def)
  show "\<exists>err. PebbleAppendEvent db pm c t None l = (Inl err, l)" for c t l
    by (simp add: PebbleAppendEvent_def)
  show "map ev_offset (peb_log_events pm content l t) = map int [0..<length (peb_log_events pm content l t)]"
    if "peb_log_ok db_ok pm content l" "topic_storable t" for l t
    using peb_offsets that by (simp add: peb_log_ok_def peb_log_events_def)
  show "ev_offset (stored_event e) = ev_offset e" "ev_topic (stored_event e) = ev_topic e"
    "bytes_of (ev_payload (stored_event e)) = bytes_of (ev_payload e)" for e
    by simp_all
  show "0 \<le> s \<and> 0 \<le> m \<and> es = take (nat m) (drop (nat s) (peb_log_events pm content l t))"
    if "peb_log_ok db_ok pm content l" "topic_storable t" "m \<le> max_page" "s + m \<le> max_int64"
      "PebbleReadEvents db pm ctx t s m l = Inr es" for l t m s ctx es
    using read_events_value [OF that] .
  show "n = int (length (peb_log_events pm content l t))"
    if "peb_log_ok db_ok pm content l" "topic_storable t" "PebbleGetTopicEndOffset db c t l = Inr n" for l t c n
    using that end_offset(2) [OF that(1) _ that(2)] peb_log_length [OF that(2), of pm content l]
    by (auto simp: PebbleGetTopicEndOffset_def split: if_splits sum.splits)
  show "prefix es (drop (nat s) (peb_log_events pm content l t))
      \<and> (err = None \<longrightarrow> es = drop (nat s) (peb_log_events pm content l t))"
    if "peb_log_ok db_ok pm content l" "topic_storable t" "s \<le> max_int64"
      "PebbleReplayEvents db pm ctx t s l = (es, err)" for l t s ctx es err
    using replay_events_value [OF that] .
qed

subsection \<open>Without faults\<close>

definition storable :: "proto_ops \<Rightarrow> event \<Rightarrow> bool" where
  "storable pm e \<longleftrightarrow> (\<forall>n. \<not> isl (marshalPebbleStoredEvent pm (WithOffset e n)))"

lemma is_Inr: "\<not> isl x \<longleftrightarrow> (\<exists>y. x = Inr y)"
  by (cases x) auto

lemma read_loop_succeeds:
  "list_all (\<lambda>it. \<not> isl (eventFromIteratorValue pm (snd it))) items \<Longrightarrow> \<exists>es. read_loop pm None items None n = Inr es"
proof (induction items arbitrary: n)
  case (Cons it items)
  show ?case
  proof (cases n)
    case (Suc m)
    obtain e es where "eventFromIteratorValue pm (snd it) = Inr e" "read_loop pm None items None m = Inr es"
      using Cons.IH [of m] Cons.prems by (auto simp: is_Inr)
    with Suc show ?thesis by simp
  qed simp
qed simp

lemma iter_items_decode:
  assumes inv: "peb_inv pm c" and t: "topic_storable t" and s: "int s \<le> max_int64"
    and it: "iter_ok c (in_range (pebbleEventTopicPrefix t) (pebblePrefixUpperBound (pebbleEventTopicPrefix t))
      (pebbleEventKey t (of_nat s))) items err"
    and vals: "list_all (\<lambda>(k, v). \<not> isl v) items"
  shows "list_all (\<lambda>it. \<not> isl (eventFromIteratorValue pm (snd it))) items"
  unfolding list_all_iff
proof
  fix it assume "it \<in> set items"
  moreover obtain k v where kv: "it = (k, v)" by (cases it)
  ultimately obtain b where b: "v = Inr b" "c k = Some b" "k \<in> set (topic_keys t s (peb_count c t))"
    using vals it topic_range [OF inv t s, of k] unfolding iter_ok_def list_all_iff is_Inr by fastforce
  then obtain i where "k = pebbleEventKey t i"
    by (auto simp: topic_keys_def)
  then have "\<exists>e. unmarshalPebbleStoredEvent pm b = Inr e"
    using inv t b(2) unfolding peb_inv_def topic_inv_def by blast
  with kv b(1) show "\<not> isl (eventFromIteratorValue pm (snd it))"
    by (auto simp: eventFromIteratorValue_def is_Inr)
qed

context faultless_store
begin

lemma end_offset_succeeds:
  assumes ok: "peb_log_ok db_ok pm content l" and t: "topic_storable t"
  shows "\<exists>w. getTopicEndOffsetLocked db t l = Inr w"
proof -
  have ok0: "db_ok (pb_db l)" and "topic_inv pm (content (pb_db l)) t"
    using ok t by (simp_all add: peb_log_ok_def peb_inv_def)
  moreover obtain v where v: "db_Get db (pebbleOffsetKey t) (pb_db l) = Inr v"
    using get_succeeds [OF ok0] by blast
  moreover have "v = content (pb_db l) (pebbleOffsetKey t)"
    by (rule get_value [OF ok0 v])
  ultimately show ?thesis
    by (cases "content (pb_db l) (pebbleOffsetKey t)") (auto simp: getTopicEndOffsetLocked_def topic_inv_def)
qed

lemma append_succeeds_pebble:
  assumes ok: "peb_log_ok db_ok pm content l" and opn: "\<not> pb_closed l" and t: "topic_storable t"
    and len: "int (length (peb_log_events pm content l t)) < max_int64" and st: "storable pm e"
  shows "\<exists>e' l'. PebbleAppendEvent db pm False t (Some e) l = (Inr e', l') \<and> \<not> pb_closed l'"
proof -
  have ok0: "db_ok (pb_db l)"
    using ok by (simp add: peb_log_ok_def)
  obtain w where w: "getTopicEndOffsetLocked db t l = Inr w"
    using end_offset_succeeds [OF ok t] by blast
  have small: "int (unat w) < max_int64"
    using end_offset(2) [OF ok w t] len peb_log_length [OF t, of pm content l] by simp
  obtain b where b: "marshalPebbleStoredEvent pm (WithOffset e (int (unat w))) = Inr b"
    using st by (auto simp: storable_def is_Inr)
  obtain d where "db_Commit db [(pebbleEventKey t w, b), (pebbleOffsetKey t, encodePebbleOffset (w + 1))] (pb_db l) = (None, d)"
    using commit_succeeds [OF ok0] by blast
  with w small b opn t set_succeeds [OF ok0] show ?thesis
    by (auto simp: PebbleAppendEvent_def topic_storable_def Let_def simp del: of_nat_unat)
qed

lemma read_succeeds_pebble:
  assumes ok: "peb_log_ok db_ok pm content l" and opn: "\<not> pb_closed l" and t: "topic_storable t"
    and s: "0 \<le> s" "0 \<le> m" "m \<le> max_page" "s + m \<le> max_int64"
  shows "\<exists>es. PebbleReadEvents db pm None t s m l = Inr es"
proof -
  have ok0: "db_ok (pb_db l)" and s': "s \<le> max_int64"
    using ok s by (simp_all add: peb_log_ok_def)
  obtain items where it: "newTopicIterator db t (pebbleEventKey t (word_of_int s)) l = Inr (items, None)"
    and vals: "list_all (\<lambda>(k, v). \<not> isl v) items"
    using iter_succeeds [OF ok0] unfolding newTopicIterator_def Let_def by blast
  have "list_all (\<lambda>it. \<not> isl (eventFromIteratorValue pm (snd it))) items"
    by (rule iter_items_decode [OF topic_items(1) [OF ok s(1) s' it] t topic_items(2) [OF ok s(1) s' it]
          topic_items(3) [OF ok s(1) s' it] vals])
  then obtain es where "read_loop pm None items None (nat m) = Inr es"
    using read_loop_succeeds by blast
  with it s opn t show ?thesis
    by (auto simp: PebbleReadEvents_def readEventsLocked_def topic_storable_def)
qed

end

sublocale faultless_store \<subseteq> event_log "pebble_ops db pm" "peb_log_events pm content" stored_event topic_storable
  "peb_log_ok db_ok pm content" "\<lambda>l. \<not> pb_closed l" "storable pm"
proof (unfold_locales, unfold pebble_ops_simps)
  show "\<exists>n. PebbleGetTopicEndOffset db False t l = Inr n"
    if h: "peb_log_ok db_ok pm content l" "\<not> pb_closed l" "topic_storable t"
      "int (length (peb_log_events pm content l t)) \<le> max_int64" for l t
  proof -
    obtain w where w: "getTopicEndOffsetLocked db t l = Inr w"
      using end_offset_succeeds [OF h(1,3)] by blast
    with end_offset(2) [OF h(1) w h(3)] h peb_log_length [OF h(3), of pm content l] show ?thesis
      by (auto simp: PebbleGetTopicEndOffset_def topic_storable_def simp del: of_nat_unat)
  qed
qed (use append_succeeds_pebble read_succeeds_pebble in blast)+

context pebble_store
begin

lemma log_contract:
  "event_log_safe (pebble_ops db pm) (peb_log_events pm content) stored_event topic_storable (peb_log_ok db_ok pm content)"
  by unfold_locales

end

context faultless_store
begin

lemma log_contract_full:
  "event_log (pebble_ops db pm) (peb_log_events pm content) stored_event topic_storable (peb_log_ok db_ok pm content)
    (\<lambda>l. \<not> pb_closed l) (storable pm)"
  by unfold_locales

end

end
