(* ===== verification/Pebble_Store.thy ===== *)
theory Pebble_Store
  imports Pebble_Refine
begin

text \<open>
  A reference store and encoder: an association list of keys and values, and a length-prefixed encoding of stored
  events. They satisfy the laws of \<open>pebble_store\<close> and \<open>faultless_store\<close>, so the properties of the Pebble log
  that follow from the laws are not vacuous; those properties are at the end.
\<close>

subsection \<open>A store\<close>

definition ref_db :: "(byte list, byte list) gomap db_ops" where
  "ref_db = \<lparr>db_Open = (\<lambda>path d. Inr d), db_Get = (\<lambda>k d. Inr (map_of d k)), db_Set = (\<lambda>k v d. None),
     db_Commit = (\<lambda>b d. (None, fold (\<lambda>(k, v). AList.update k v) b d)),
     db_Iter = (\<lambda>lo hi s d. Inr (map (\<lambda>(k, v). (k, Inr v)) (sort_key fst (filter (\<lambda>(k, v). in_range lo hi s k) d)), None)),
     db_Close = (\<lambda>d. (None, d))\<rparr>"

lemma fold_update_lookup: "map_of (fold (\<lambda>(k, v). AList.update k v) b d) = map_of d ++ map_of (rev b)"
  by (induction b arbitrary: d) (auto simp: map_add_def fun_eq_iff split: option.splits)

lemma fold_update_wf: "gm_wf d \<Longrightarrow> gm_wf (fold (\<lambda>(k, v). AList.update k v) b d)"
  by (induction b arbitrary: d) auto

lemma sorted_distinct_strict: "sorted xs \<Longrightarrow> distinct xs \<Longrightarrow> sorted_wrt (<) xs" for xs :: "'a::linorder list"
  by (simp add: strict_sorted_iff)

lemma ref_iter:
  assumes "gm_wf d"
  shows "iter_ok (map_of d) (in_range lo hi s)
    (map (\<lambda>(k, v). (k, Inr v)) (sort_key fst (filter (\<lambda>(k, v). in_range lo hi s k) d))) None"
proof -
  let ?f = "filter (\<lambda>(k, v). in_range lo hi s k) d"
  have keys: "map fst (map (\<lambda>(k, v). (k, Inr v :: string + byte list)) (sort_key fst ?f)) = map fst (sort_key fst ?f)"
    by auto
  have "distinct (map fst ?f)"
    using assms by (simp add: gm_wf_def distinct_map_filter)
  then have "distinct (map fst (sort_key fst ?f))"
    unfolding distinct_map by simp
  then have sorted: "sorted_wrt (<) (map fst (sort_key fst ?f))"
    by (intro sorted_distinct_strict) simp
  have mem: "(k, v) \<in> set ?f \<longleftrightarrow> in_range lo hi s k \<and> map_of d k = Some v" for k v
    using gm_mem_iff [OF assms] by auto
  show ?thesis
    unfolding iter_ok_def keys
  proof (intro conjI allI impI)
    show "sorted_wrt (<) (map fst (sort_key fst ?f))" by (rule sorted)
  next
    fix k v
    assume "(k, v) \<in> set (map (\<lambda>(k, v). (k, Inr v :: string + byte list)) (sort_key fst ?f))"
    then obtain b where "v = Inr b" "(k, b) \<in> set ?f"
      by (auto simp: image_iff)
    then have "v = Inr b" "in_range lo hi s k" "map_of d k = Some b"
      using mem by blast+
    then show "in_range lo hi s k" "map_of d k \<noteq> None"
      "case v of Inl _ \<Rightarrow> True | Inr b \<Rightarrow> map_of d k = Some b" by simp_all
  next
    fix k
    assume "in_range lo hi s k \<and> map_of d k \<noteq> None \<and> (None = None \<or> (\<exists>k' \<in> fst ` set
      (map (\<lambda>(k, v). (k, Inr v :: string + byte list)) (sort_key fst ?f)). k \<le> k'))"
    then obtain v where "(k, v) \<in> set ?f"
      using mem by blast
    then show "k \<in> fst ` set (map (\<lambda>(k, v). (k, Inr v :: string + byte list)) (sort_key fst ?f))"
      by (force simp: image_iff)
  qed
qed

subsection \<open>An encoder\<close>

definition put_bytes :: "byte list \<Rightarrow> byte list" where
  "put_bytes bs = be_bytes 8 (length bs) @ bs"

definition get_bytes :: "byte list \<Rightarrow> (byte list \<times> byte list) option" where
  "get_bytes bs =
     (let n = be_value (take 8 bs); rest = drop 8 bs
      in if length rest < n then None else Some (take n rest, drop n rest))"

definition put_int :: "int \<Rightarrow> byte list" where
  "put_int i = be_bytes 8 (nat (i + 2 ^ 63))"

definition get_int :: "byte list \<Rightarrow> int \<times> byte list" where
  "get_int bs = (int (be_value (take 8 bs)) - 2 ^ 63, drop 8 bs)"

fun put_headers :: "(string \<times> string) list \<Rightarrow> byte list" where
  "put_headers [] = []"
| "put_headers ((k, v) # hs) = put_bytes (str_bytes k) @ put_bytes (str_bytes v) @ put_headers hs"

fun get_headers :: "nat \<Rightarrow> byte list \<Rightarrow> (string \<times> string) list option" where
  "get_headers 0 bs = Some []"
| "get_headers (Suc n) bs =
     (case get_bytes bs of
        None \<Rightarrow> None
      | Some (k, bs1) \<Rightarrow>
         (case get_bytes bs1 of
            None \<Rightarrow> None
          | Some (v, bs2) \<Rightarrow>
             (case get_headers n bs2 of
                None \<Rightarrow> None | Some hs \<Rightarrow> Some ((bytes_str k, bytes_str v) # hs))))"

definition fits :: "nat \<Rightarrow> bool" where
  "fits n \<longleftrightarrow> n < 256 ^ 8"

definition msg_fits :: "stored_msg \<Rightarrow> bool" where
  "msg_fits m \<longleftrightarrow> fits (length (sm_topic m)) \<and> fits (length (sm_payload m)) \<and> fits (length (sm_headers m))
     \<and> list_all (\<lambda>(k, v). fits (length k) \<and> fits (length v)) (sm_headers m)"

definition ref_proto :: proto_ops where
  "ref_proto = \<lparr>
     pm_Marshal = (\<lambda>m.
       if msg_fits m
       then Inr (put_int (sm_offset m) @ put_int (sm_timestamp_nano m) @ put_bytes (str_bytes (sm_topic m))
         @ put_bytes (sm_payload m) @ be_bytes 8 (length (sm_headers m)) @ put_headers (sm_headers m))
       else Inl ''message too large''),
     pm_Unmarshal = (\<lambda>bs.
       let (offset, bs) = get_int bs; (ts, bs) = get_int bs
       in case get_bytes bs of
            None \<Rightarrow> Inl ''topic''
          | Some (topic, bs) \<Rightarrow>
             (case get_bytes bs of
                None \<Rightarrow> Inl ''payload''
              | Some (payload, bs) \<Rightarrow>
                 (case get_headers (be_value (take 8 bs)) (drop 8 bs) of
                    None \<Rightarrow> Inl ''headers''
                  | Some hs \<Rightarrow> Inr \<lparr>sm_topic = bytes_str topic, sm_offset = offset, sm_payload = payload,
                      sm_headers = hs, sm_timestamp_nano = ts\<rparr>)))\<rparr>"

lemma get_put_bytes: "fits (length bs) \<Longrightarrow> get_bytes (put_bytes bs @ rest) = Some (bs, rest)"
  by (simp add: get_bytes_def put_bytes_def be_value_bytes fits_def Let_def)

lemma get_put_int: "in_int64 i \<Longrightarrow> get_int (put_int i @ rest) = (i, rest)"
proof -
  assume "in_int64 i"
  then have "nat (i + 2 ^ 63) < 256 ^ 8" "0 \<le> i + 2 ^ 63"
    by (simp_all add: in_int64_def max_int64_def nat_less_iff)
  then show ?thesis
    by (simp add: get_int_def put_int_def be_value_bytes)
qed

lemma get_put_headers:
  "list_all (\<lambda>(k, v). fits (length k) \<and> fits (length v)) hs \<Longrightarrow> get_headers (length hs) (put_headers hs) = Some hs"
  by (induction hs rule: put_headers.induct) (auto simp: get_put_bytes)

lemma ref_proto_inverse:
  assumes "pm_Marshal ref_proto m = Inr b" "in_int64 (sm_offset m)" "in_int64 (sm_timestamp_nano m)"
  shows "pm_Unmarshal ref_proto b = Inr m"
proof -
  have f: "msg_fits m"
    and b: "b = put_int (sm_offset m) @ put_int (sm_timestamp_nano m) @ put_bytes (str_bytes (sm_topic m))
      @ put_bytes (sm_payload m) @ be_bytes 8 (length (sm_headers m)) @ put_headers (sm_headers m)"
    using assms(1) by (auto simp: ref_proto_def split: if_splits)
  then have "be_value (be_bytes 8 (length (sm_headers m))) = length (sm_headers m)"
    by (simp add: be_value_bytes msg_fits_def fits_def)
  with f assms(2,3) show ?thesis
    by (simp add: b ref_proto_def get_put_int get_put_bytes get_put_headers msg_fits_def)
qed

interpretation ref: faultless_store ref_db ref_proto map_of gm_wf
proof unfold_locales
  show "iter_ok (map_of d) (in_range lo hi s) items err" if "gm_wf d" "db_Iter ref_db lo hi s d = Inr (items, err)"
    for d lo hi s items err
    using that ref_iter [of d lo hi s] by (auto simp: ref_db_def)
qed (auto simp: ref_db_def fold_update_lookup fold_update_wf ref_proto_inverse list_all_iff)

subsection \<open>Sequences of appends\<close>

fun append_all :: "'l log_ops \<Rightarrow> (string \<times> event) list \<Rightarrow> 'l \<Rightarrow> 'l" where
  "append_all ops [] l = l"
| "append_all ops ((t, e) # rs) l = append_all ops rs (snd (op_AppendEvent ops False t (Some e) l))"

definition sent_to :: "string \<Rightarrow> (string \<times> event) list \<Rightarrow> event list" where
  "sent_to t rs = map snd (filter (\<lambda>(u, e). u = t) rs)"

lemma sent_to_simps [simp]:
  "sent_to t [] = []" "sent_to t ((u, e) # rs) = (if u = t then e # sent_to t rs else sent_to t rs)"
  by (simp_all add: sent_to_def)

text \<open>Any log that keeps the contract and has no faults stores a sequence of appends the same way.\<close>

context event_log
begin

lemma append_all_events:
  assumes "log_ok l" "log_open l" "list_all (\<lambda>(t, e). topic_ok t \<and> storable e) rs"
    and "\<And>t. int (length (topic_events l t) + length rs) \<le> max_int64"
  shows "log_ok (append_all ops rs l) \<and> log_open (append_all ops rs l)
    \<and> topic_events (append_all ops rs l) t =
       topic_events l t @ map stored (numbered (length (topic_events l t)) (sent_to t rs))"
  using assms
proof (induction rs arbitrary: l)
  case (Cons r rs)
  obtain u e where r: "r = (u, e)" by (cases r)
  have u: "topic_ok u" "storable e" "int (length (topic_events l u)) < max_int64"
    using Cons.prems(3) Cons.prems(4) [of u] r by auto
  obtain l' where l': "op_AppendEvent ops False u (Some e) l = (Inr (WithOffset e (int (length (topic_events l u)))), l')"
    "topic_events l' = (topic_events l)(u := topic_events l u @ [stored (WithOffset e (int (length (topic_events l u))))])"
    "log_ok l'" "log_open l'"
    using append_value [OF Cons.prems(1,2) u(1,3,2)] by blast
  have "int (length (topic_events l' t') + length rs) \<le> max_int64" for t'
    using Cons.prems(4) [of t'] by (auto simp: l'(2))
  then have IH: "log_ok (append_all ops rs l') \<and> log_open (append_all ops rs l')
    \<and> topic_events (append_all ops rs l') t =
       topic_events l' t @ map stored (numbered (length (topic_events l' t)) (sent_to t rs))"
    using Cons.IH [OF l'(3,4)] Cons.prems(3) by simp
  then show ?case
    by (simp add: r l'(1)) (simp add: l'(2))
qed simp

end

subsection \<open>Properties\<close>

lemma empty_log_ok: "peb_inv pm Map.empty" "peb_events pm Map.empty t = []"
  by (simp_all add: peb_inv_def topic_inv_def peb_count_def peb_events_def max_int64_def)

text \<open>
  C9. The Pebble log keeps the contract of the event log: for every store and encoder that obey the laws of
  \<open>pebble_store\<close>, whatever errors they return, an append that succeeds stores the event at the end of its topic under
  the next offset, a failed one changes no topic, the state stays well formed, offsets are indices, reads that succeed return the
  window of the stored events, the end offset is their number, and a replay sends them in order, all of them unless it
  reports an error.
\<close>

theorem pebble_keeps_contract:
  fixes l :: "'d pebble_log" and pm content
  defines "evs \<equiv> peb_log_events pm content"
  assumes store: "pebble_store db pm content db_ok" and ok: "peb_log_ok db_ok pm content l" "topic_storable t"
    and room: "int (length (evs l t)) < max_int64" "m \<le> max_page" "s + m \<le> max_int64" "s \<le> max_int64"
  shows "(case PebbleAppendEvent db pm c t (Some e) l of
       (Inr e', l') \<Rightarrow> e' = WithOffset e (int (length (evs l t))) \<and> evs l' = (evs l)(t := evs l t @ [stored_event e'])
     | (Inl err, l') \<Rightarrow> evs l' = evs l)
    \<and> peb_log_ok db_ok pm content (snd (PebbleAppendEvent db pm c t (Some e) l))
    \<and> map ev_offset (evs l t) = map int [0..<length (evs l t)]
    \<and> (case PebbleReadEvents db pm ctx t s m l of
         Inr es \<Rightarrow> 0 \<le> s \<and> 0 \<le> m \<and> es = take (nat m) (drop (nat s) (evs l t)) | Inl err \<Rightarrow> True)
    \<and> (case PebbleGetTopicEndOffset db c t l of Inr n \<Rightarrow> n = int (length (evs l t)) | Inl err \<Rightarrow> True)
    \<and> (case PebbleReplayEvents db pm ctx t s l of (es, err) \<Rightarrow>
         prefix es (drop (nat s) (evs l t)) \<and> (err = None \<longrightarrow> es = drop (nat s) (evs l t)))"
proof -
  note safe = pebble_store.log_contract [OF store]
  note room = room [unfolded evs_def]
  show ?thesis
    unfolding evs_def
    using event_log_safe.append_ok [OF safe ok room(1), of c "Some e"]
      event_log_safe.append_returns [OF safe ok room(1), of c e]
      event_log_safe.append_fails [OF safe ok, of c "Some e"]
      event_log_safe.offsets_are_indices [OF safe ok]
      event_log_safe.read_returns [OF safe ok room(2,3), of ctx]
      event_log_safe.end_returns [OF safe ok, of c]
      event_log_safe.replay_returns [OF safe ok room(4), of ctx]
    by (auto split: prod.splits sum.splits)
qed

theorem pebble_keeps_contract_witness:
  "case PebbleAppendEvent ref_db ref_proto False ''t'' (Some (NewEvent 5 ''t'' None)) \<lparr>pb_db = [], pb_closed = False\<rparr> of
     (Inr e', l') \<Rightarrow> e' = NewEvent 5 ''t'' None \<and> peb_log_events ref_proto map_of l' ''t'' = [stored_event e']
   | (Inl err, l') \<Rightarrow> peb_log_events ref_proto map_of l' ''t'' = []"
proof -
  have "peb_log_ok gm_wf ref_proto map_of \<lparr>pb_db = [], pb_closed = False\<rparr>"
    "peb_log_events ref_proto map_of \<lparr>pb_db = [], pb_closed = False\<rparr> ''t'' = []"
    using empty_log_ok by (simp_all add: peb_log_ok_def peb_log_events_def)
  then show ?thesis
    using pebble_keeps_contract [OF ref.pebble_store_axioms, where l = "\<lparr>pb_db = [], pb_closed = False\<rparr>"
        and t = "''t''" and m = 1 and s = 0 and c = False and e = "NewEvent 5 ''t'' None" and ctx = None]
    by (simp add: topic_storable_def max_int64_def max_page_def NewEvent_def WithOffset_def split: prod.splits sum.splits)
qed

text \<open>
  C33. The two logs agree. On a store without faults that starts empty, after any sequence of appends with topics and
  events that can be stored, reading any window of any topic gives the same from the Pebble log as from the in-memory log,
  up to the normal form in which events are stored (times within 64 bits, sorted headers, an empty payload as nil).
\<close>

theorem logs_agree:
  assumes store: "faultless_store db pm content db_ok" and disk: "db_ok disk" "content disk = Map.empty"
    and new: "NewPebbleEventLog db path disk = Inr p"
    and reqs: "list_all (\<lambda>(u, e). topic_storable u \<and> storable pm e) rs" "int (length rs) \<le> max_int64"
    and window: "topic_storable t" "0 \<le> s" "0 \<le> m" "m \<le> max_page" "s + m \<le> max_int64"
  shows "\<exists>es. ReadEvents None t s m (append_all mem_ops rs NewInMemoryEventLog) = Inr es
    \<and> PebbleReadEvents db pm None t s m (append_all (pebble_ops db pm) rs p) = Inr (map stored_event es)"
proof -
  have pb: "event_log (pebble_ops db pm) (peb_log_events pm content) stored_event topic_storable
      (peb_log_ok db_ok pm content) (\<lambda>l. \<not> pb_closed l) (storable pm)"
    by (rule faultless_store.log_contract_full [OF store])
  have ps: "pebble_store db pm content db_ok"
    using store by (rule faultless_store.axioms(1))
  obtain d where d: "p = \<lparr>pb_db = d, pb_closed = False\<rparr>" "db_Open db path disk = Inr d"
    using new by (auto simp: NewPebbleEventLog_def split: if_splits sum.splits)
  then have p: "p = \<lparr>pb_db = d, pb_closed = False\<rparr>" "db_ok d" "content d = Map.empty"
    using pebble_store.open_durable [OF ps disk(1) d(2)] disk(2) by auto
  have ok: "peb_log_ok db_ok pm content p" "\<not> pb_closed p" and ev: "peb_log_events pm content p u = []" for u
    using p empty_log_ok by (simp_all add: peb_log_ok_def peb_log_events_def)
  let ?es = "numbered 0 (sent_to t rs)"
  have P: "peb_log_ok db_ok pm content (append_all (pebble_ops db pm) rs p)" "\<not> pb_closed (append_all (pebble_ops db pm) rs p)"
    "peb_log_events pm content (append_all (pebble_ops db pm) rs p) t = map stored_event ?es"
    using event_log.append_all_events [OF pb ok reqs(1), of t] reqs(2) by (simp_all add: ev)
  have mem0: "mem_inv NewInMemoryEventLog" "\<not> ml_closed NewInMemoryEventLog" "mem_topic NewInMemoryEventLog u = []" for u
    by (simp_all add: mem_eval)
  have "list_all (\<lambda>(t, e). t \<noteq> [] \<and> True) rs"
    using reqs(1) by (auto simp: list_all_iff topic_storable_def)
  then have M: "mem_inv (append_all mem_ops rs NewInMemoryEventLog)" "\<not> ml_closed (append_all mem_ops rs NewInMemoryEventLog)"
    "mem_topic (append_all mem_ops rs NewInMemoryEventLog) t = ?es"
    using mem.append_all_events [OF mem0(1,2), of rs t] reqs(2) by (simp_all add: mem0(3))
  have "t \<noteq> []" using window(1) by (simp add: topic_storable_def)
  from mem.read_value [OF M(1,2) this window(2-5)] event_log.read_value [OF pb P(1,2) window]
  show ?thesis
    by (simp add: M(3) P(3) take_map drop_map)
qed

theorem logs_agree_witness:
  "\<exists>es. ReadEvents None ''t'' 0 9 (append_all mem_ops [(''t'', NewEvent 5 ''t'' None), (''u'', NewEvent 6 ''u'' None)]
        NewInMemoryEventLog) = Inr es
    \<and> PebbleReadEvents ref_db ref_proto None ''t'' 0 9 (append_all (pebble_ops ref_db ref_proto)
        [(''t'', NewEvent 5 ''t'' None), (''u'', NewEvent 6 ''u'' None)] \<lparr>pb_db = [], pb_closed = False\<rparr>)
      = Inr (map stored_event es)"
proof (rule logs_agree [OF ref.faultless_store_axioms, of "[]" "''p''"])
  show "NewPebbleEventLog ref_db ''p'' [] = Inr \<lparr>pb_db = [], pb_closed = False\<rparr>"
    by (simp add: NewPebbleEventLog_def ref_db_def)
  show "list_all (\<lambda>(u, e). topic_storable u \<and> storable ref_proto e) [(''t'', NewEvent 5 ''t'' None), (''u'', NewEvent 6 ''u'' None)]"
    by (simp add: topic_storable_def storable_def marshalPebbleStoredEvent_def stored_msg_of_def ref_proto_def
        msg_fits_def fits_def NewEvent_def Let_def)
qed (simp_all add: topic_storable_def max_int64_def max_page_def)

subsection \<open>Histories\<close>

text \<open>
  The life of a log on one store: appends, whose contexts may be cancelled, and restarts, a close followed by an opening of what is on
  disk. The result lists the events that were acknowledged, in order. When the log cannot be opened again the history ends.
\<close>

datatype log_call = AppendCall bool string event | RestartCall string

fun pebble_run :: "'d db_ops \<Rightarrow> proto_ops \<Rightarrow> log_call list \<Rightarrow> 'd pebble_log \<Rightarrow> (string \<times> event) list \<times> 'd pebble_log" where
  "pebble_run db pm [] l = ([], l)"
| "pebble_run db pm (AppendCall cancelled t e # cs) l =
     (case PebbleAppendEvent db pm cancelled t (Some e) l of
        (Inl err, l1) \<Rightarrow> pebble_run db pm cs l1
      | (Inr e', l1) \<Rightarrow> (case pebble_run db pm cs l1 of (acks, l2) \<Rightarrow> ((t, e') # acks, l2)))"
| "pebble_run db pm (RestartCall path # cs) l =
     (let l1 = snd (PebbleClose db l) in
      case NewPebbleEventLog db path (pb_db l1) of
        Inl err \<Rightarrow> ([], l1)
      | Inr l2 \<Rightarrow> pebble_run db pm cs l2)"

fun requested :: "log_call list \<Rightarrow> (string \<times> event) list" where
  "requested [] = []"
| "requested (AppendCall cancelled t e # cs) = (t, WithOffset e 0) # requested cs"
| "requested (RestartCall path # cs) = requested cs"

definition acked :: "string \<Rightarrow> (string \<times> event) list \<Rightarrow> event list" where
  "acked t acks = map snd (filter (\<lambda>(u, e). u = t) acks)"

lemma restart_durable:
  assumes store: "pebble_store db pm content db_ok" and ok: "peb_log_ok db_ok pm content l"
  shows "peb_log_ok db_ok pm content (snd (PebbleClose db l))"
    "peb_log_events pm content (snd (PebbleClose db l)) = peb_log_events pm content l"
    "NewPebbleEventLog db path (pb_db (snd (PebbleClose db l))) = Inr l2 \<Longrightarrow>
       peb_log_ok db_ok pm content l2 \<and> peb_log_events pm content l2 = peb_log_events pm content l"
proof -
  let ?l1 = "snd (PebbleClose db l)"
  have ok0: "db_ok (pb_db l)" using ok by (simp add: peb_log_ok_def)
  have l1: "db_ok (pb_db ?l1)" "content (pb_db ?l1) = content (pb_db l)"
    using ok0 pebble_store.close_durable [OF store ok0]
    by (auto simp: PebbleClose_def split: prod.splits)
  then show "peb_log_ok db_ok pm content ?l1" "peb_log_events pm content ?l1 = peb_log_events pm content l"
    using ok by (simp_all add: peb_log_ok_def peb_log_events_def)
  assume "NewPebbleEventLog db path (pb_db ?l1) = Inr l2"
  then obtain d where l2: "l2 = \<lparr>pb_db = d, pb_closed = False\<rparr>" "db_Open db path (pb_db ?l1) = Inr d"
    by (auto simp: NewPebbleEventLog_def split: if_splits sum.splits)
  with pebble_store.open_durable [OF store l1(1) l2(2)] l1(2) ok
  show "peb_log_ok db_ok pm content l2 \<and> peb_log_events pm content l2 = peb_log_events pm content l"
    by (simp add: peb_log_ok_def peb_log_events_def)
qed

lemma pebble_run_events:
  assumes store: "pebble_store db pm content db_ok"
    and "peb_log_ok db_ok pm content l" "list_all (\<lambda>(u, e). topic_storable u) (requested cs)"
    and "\<And>t. topic_storable t \<Longrightarrow> int (length (peb_log_events pm content l t) + length cs) \<le> max_int64"
    and "pebble_run db pm cs l = (acks, l')"
  shows "peb_log_ok db_ok pm content l' \<and> subseq (map (\<lambda>(u, e). (u, WithOffset e 0)) acks) (requested cs)
    \<and> (\<forall>t. topic_storable t \<longrightarrow> peb_log_events pm content l' t = peb_log_events pm content l t @ map stored_event (acked t acks))"
  using assms(2-)
proof (induction cs arbitrary: l acks rule: requested.induct)
  case 1
  then show ?case by (simp add: acked_def)
next
  case (2 cancelled u e cs)
  note safe = pebble_store.log_contract [OF store]
  have u: "topic_storable u" and room: "int (length (peb_log_events pm content l u)) < max_int64"
    using "2.prems"(2) "2.prems"(3) [of u] by auto
  obtain res l1 where app: "PebbleAppendEvent db pm cancelled u (Some e) l = (res, l1)"
    by (cases "PebbleAppendEvent db pm cancelled u (Some e) l")
  have ok1: "peb_log_ok db_ok pm content l1"
    using event_log_safe.append_ok [OF safe "2.prems"(1) u room, of cancelled "Some e"] app by simp
  obtain acks1 where rest: "pebble_run db pm cs l1 = (acks1, l')"
    and acks: "acks = (case res of Inl err \<Rightarrow> acks1 | Inr e' \<Rightarrow> (u, e') # acks1)"
    using "2.prems"(4) app by (cases res) (auto split: prod.splits)
  have ev: "peb_log_events pm content l1 t = peb_log_events pm content l t @
      (case res of Inl err \<Rightarrow> [] | Inr e' \<Rightarrow> if u = t then [stored_event e'] else [])" for t
    using event_log_safe.append_returns [OF safe "2.prems"(1) u room, of cancelled e]
      event_log_safe.append_fails [OF safe "2.prems"(1) u, of cancelled "Some e"] app
    by (cases res) auto
  have "WithOffset e' 0 = WithOffset e 0" if "res = Inr e'" for e'
    using event_log_safe.append_returns [OF safe "2.prems"(1) u room, of cancelled e] app that
    by (auto simp: WithOffset_def)
  moreover have "int (length (peb_log_events pm content l1 t) + length cs) \<le> max_int64" if "topic_storable t" for t
    using "2.prems"(3) [OF that] by (auto simp: ev split: sum.splits)
  note IH = "2.IH" [OF ok1 _ this rest]
  ultimately show ?case
    using IH "2.prems"(2) by (cases res) (auto simp: acks ev acked_def)
next
  case (3 path cs)
  note dur = restart_durable [OF store "3.prems"(1)]
  show ?case
  proof (cases "NewPebbleEventLog db path (pb_db (snd (PebbleClose db l)))")
    case (Inl err)
    with "3.prems"(4) dur(1,2) show ?thesis by (auto simp: Let_def acked_def)
  next
    case (Inr l2)
    then have l2: "peb_log_ok db_ok pm content l2" "peb_log_events pm content l2 = peb_log_events pm content l"
      using dur(3) by auto
    have "pebble_run db pm cs l2 = (acks, l')"
      using "3.prems"(4) Inr by (simp add: Let_def)
    from "3.IH" [OF l2(1) _ _ this] "3.prems"(2,3) show ?thesis
      unfolding l2(2) by force
  qed
qed

text \<open>
  C34. The history of a durable log. Take any sequence of appends and restarts on a store that starts empty, with errors of the store, of
  the encoder and of contexts anywhere. The acknowledged events are requested ones, in the order of the requests; those of a topic are
  numbered from zero without gap or repetition, across errors and restarts; and whatever window of the topic a later read returns,
  it returns exactly the acknowledged events of that window, in the form in which events are stored.
\<close>

theorem pebble_history:
  assumes store: "pebble_store db pm content db_ok" and disk: "db_ok disk" "content disk = Map.empty"
    and new: "NewPebbleEventLog db path disk = Inr l"
    and calls: "list_all (\<lambda>(u, e). topic_storable u) (requested cs)" "int (length cs) \<le> max_int64"
    and run: "pebble_run db pm cs l = (acks, l')"
    and t: "topic_storable t" "m \<le> max_page" "s + m \<le> max_int64"
  shows "subseq (map (\<lambda>(u, e). (u, WithOffset e 0)) acks) (requested cs)
    \<and> map ev_offset (acked t acks) = map int [0..<length (acked t acks)]
    \<and> (case PebbleReadEvents db pm ctx t s m l' of
         Inl err \<Rightarrow> True
       | Inr es \<Rightarrow> es = map stored_event (take (nat m) (drop (nat s) (acked t acks))))"
proof -
  obtain d where d: "l = \<lparr>pb_db = d, pb_closed = False\<rparr>" "db_Open db path disk = Inr d"
    using new by (auto simp: NewPebbleEventLog_def split: if_splits sum.splits)
  then have "db_ok d" "content d = Map.empty"
    using pebble_store.open_durable [OF store disk(1) d(2)] disk(2) by auto
  then have ok: "peb_log_ok db_ok pm content l" and ev: "peb_log_events pm content l u = []" for u
    using d(1) empty_log_ok by (simp_all add: peb_log_ok_def peb_log_events_def)
  have fin: "peb_log_ok db_ok pm content l'" "subseq (map (\<lambda>(u, e). (u, WithOffset e 0)) acks) (requested cs)"
    "peb_log_events pm content l' t = map stored_event (acked t acks)"
    using pebble_run_events [OF store ok calls(1) _ run] calls(2) t(1) by (auto simp: ev)
  note safe = pebble_store.log_contract [OF store]
  have "map ev_offset (acked t acks) = map int [0..<length (acked t acks)]"
    using event_log_safe.offsets_are_indices [OF safe fin(1) t(1)] by (simp add: fin(3) comp_def)
  with event_log_safe.read_returns [OF safe fin(1) t, of ctx] fin(2) show ?thesis
    by (auto simp: fin(3) take_map drop_map split: sum.splits)
qed

lemma ref_append:
  assumes "peb_log_ok gm_wf ref_proto map_of l" "\<not> pb_closed l" "int (length (peb_log_events ref_proto map_of l ''t'')) < max_int64"
  obtains l' where "PebbleAppendEvent ref_db ref_proto False ''t'' (Some (NewEvent k ''t'' None)) l =
      (Inr (WithOffset (NewEvent k ''t'' None) (int (length (peb_log_events ref_proto map_of l ''t'')))), l')"
    "peb_log_ok gm_wf ref_proto map_of l'" "\<not> pb_closed l'"
    "length (peb_log_events ref_proto map_of l' ''t'') = Suc (length (peb_log_events ref_proto map_of l ''t''))"
proof -
  have "topic_storable ''t''" "storable ref_proto (NewEvent k ''t'' None)"
    by (simp_all add: topic_storable_def storable_def marshalPebbleStoredEvent_def stored_msg_of_def ref_proto_def
        msg_fits_def fits_def NewEvent_def Let_def)
  then obtain e' l' where app: "PebbleAppendEvent ref_db ref_proto False ''t'' (Some (NewEvent k ''t'' None)) l = (Inr e', l')" "\<not> pb_closed l'"
    using ref.append_succeeds [OF assms(1,2) _ assms(3)] unfolding pebble_ops_simps by blast
  have t: "topic_storable ''t''" by (simp add: topic_storable_def)
  have "e' = WithOffset (NewEvent k ''t'' None) (int (length (peb_log_events ref_proto map_of l ''t'')))"
    "length (peb_log_events ref_proto map_of l' ''t'') = Suc (length (peb_log_events ref_proto map_of l ''t''))"
    using ref.append_returns [OF assms(1) t assms(3), unfolded pebble_ops_simps, OF app(1)] by simp_all
  moreover have "peb_log_ok gm_wf ref_proto map_of l'"
    using ref.append_ok [OF assms(1) t assms(3), unfolded pebble_ops_simps, of False "Some (NewEvent k ''t'' None)"] app(1) by simp
  ultimately show ?thesis
    using that app by blast
qed

theorem pebble_history_witness:
  "\<exists>acks l'. pebble_run ref_db ref_proto [AppendCall False ''t'' (NewEvent 5 ''t'' None), AppendCall True ''t'' (NewEvent 6 ''t'' None),
      RestartCall ''p'', AppendCall False ''t'' (NewEvent 7 ''t'' None)] \<lparr>pb_db = [], pb_closed = False\<rparr> = (acks, l')
    \<and> map ev_offset (acked ''t'' acks) = [0, 1]"
proof -
  let ?cs = "[AppendCall False ''t'' (NewEvent 5 ''t'' None), AppendCall True ''t'' (NewEvent 6 ''t'' None),
    RestartCall ''p'', AppendCall False ''t'' (NewEvent 7 ''t'' None)]"
  let ?l = "\<lparr>pb_db = [], pb_closed = False\<rparr> :: (byte list, byte list) gomap pebble_log"
  have new: "NewPebbleEventLog ref_db ''p'' d = Inr \<lparr>pb_db = d, pb_closed = False\<rparr>" for d
    by (simp add: NewPebbleEventLog_def ref_db_def)
  have l0: "peb_log_ok gm_wf ref_proto map_of ?l" "length (peb_log_events ref_proto map_of ?l ''t'') = 0"
    using empty_log_ok by (simp_all add: peb_log_ok_def peb_log_events_def)
  have len: "int n < max_int64" if "n \<le> 1" for n
    using that by (simp add: max_int64_def)
  obtain l1 where l1: "PebbleAppendEvent ref_db ref_proto False ''t'' (Some (NewEvent 5 ''t'' None)) ?l =
      (Inr (WithOffset (NewEvent 5 ''t'' None) (int (length (peb_log_events ref_proto map_of ?l ''t'')))), l1)"
    "peb_log_ok gm_wf ref_proto map_of l1" "\<not> pb_closed l1"
    "length (peb_log_events ref_proto map_of l1 ''t'') = Suc (length (peb_log_events ref_proto map_of ?l ''t''))"
  proof (rule ref_append [OF l0(1), of 5])
    show "int (length (peb_log_events ref_proto map_of ?l ''t'')) < max_int64"
      unfolding l0(2) by (rule len) simp
  qed (simp, rule that)
  let ?l2 = "\<lparr>pb_db = pb_db l1, pb_closed = False\<rparr>"
  have close: "snd (PebbleClose ref_db l1) = \<lparr>pb_db = pb_db l1, pb_closed = True\<rparr>"
    using l1(3) by (simp add: PebbleClose_def ref_db_def)
  have l2: "peb_log_ok gm_wf ref_proto map_of ?l2" "length (peb_log_events ref_proto map_of ?l2 ''t'') = 1"
    using l1(2,4) l0(2) by (simp_all add: peb_log_ok_def peb_log_events_def)
  obtain l3 where l3: "PebbleAppendEvent ref_db ref_proto False ''t'' (Some (NewEvent 7 ''t'' None)) ?l2 =
      (Inr (WithOffset (NewEvent 7 ''t'' None) (int (length (peb_log_events ref_proto map_of ?l2 ''t'')))), l3)"
  proof (rule ref_append [OF l2(1), of 7])
    show "int (length (peb_log_events ref_proto map_of ?l2 ''t'')) < max_int64"
      unfolding l2(2) by (rule len) simp
  qed (simp, rule that)
  have cancelled: "\<exists>err. PebbleAppendEvent ref_db ref_proto True ''t'' (Some (NewEvent 6 ''t'' None)) l1 = (Inl err, l1)"
    by (simp add: PebbleAppendEvent_def)
  then obtain err where err: "PebbleAppendEvent ref_db ref_proto True ''t'' (Some (NewEvent 6 ''t'' None)) l1 = (Inl err, l1)" ..
  let ?acks = "[(''t'', WithOffset (NewEvent 5 ''t'' None) 0), (''t'', WithOffset (NewEvent 7 ''t'' None) 1)]"
  have run: "pebble_run ref_db ref_proto ?cs ?l = (?acks, l3)"
    by (simp add: l1(1) err l3 Let_def close new l0(2) l2(2))
  have "acked ''t'' ?acks = map snd ?acks"
    by (simp add: acked_def)
  moreover have "map ev_offset (acked ''t'' ?acks) = map int [0..<length (acked ''t'' ?acks)]"
    using pebble_history [OF ref.pebble_store_axioms _ _ new _ _ run, of "''t''" 0 0 None]
    by (simp add: topic_storable_def max_int64_def max_page_def gm_wf_def del: pebble_run.simps)
  ultimately show ?thesis
    using run by (simp add: numeral_2_eq_2 del: pebble_run.simps)
qed

end
