(* ===== verification/Log_Contract.thy ===== *)
theory Log_Contract
  imports Pebble_Store "HOL-Library.Monad_Syntax"
begin

text \<open>
  The contract tests of \<open>internal/eventlog/eventlogtest/contract.go\<close>, as programs over the interface of the log, and the
  proof that every implementation of the interface passes them. A subtest is a computation in the option monad:
  \<open>t.Fatalf\<close> is \<open>None\<close>. The deferred close is its last step (a failed subtest stays failed whatever the
  close returns). \<open>clk n\<close> is the time at which the subtest creates its event number \<open>n\<close>.
\<close>

subsection \<open>Helpers of the tests\<close>

definition fatal_if :: "bool \<Rightarrow> unit option" where
  "fatal_if b = (if b then None else Some ())"

definition must :: "log_error + 'a \<Rightarrow> 'a option" where
  "must r = (case r of Inl err \<Rightarrow> None | Inr x \<Rightarrow> Some x)"

definition appendEvent :: "'l log_ops \<Rightarrow> int \<Rightarrow> string \<Rightarrow> string \<Rightarrow> 'l \<Rightarrow> (event \<times> 'l) option" where
  "appendEvent ops now topic payload log =
     (case op_AppendEvent ops False topic (Some (NewEvent now topic (Some (str_bytes payload)))) log of
        (Inl err, _) \<Rightarrow> None
      | (Inr event, log') \<Rightarrow> Some (event, log'))"

definition collectReplay :: "'l log_ops \<Rightarrow> ctx \<Rightarrow> string \<Rightarrow> int \<Rightarrow> 'l \<Rightarrow> event list option" where
  "collectReplay ops ctx topic startOffset log =
     (case op_ReplayEvents ops ctx topic startOffset log of
        (events, None) \<Rightarrow> Some events
      | (events, Some err) \<Rightarrow> None)"

definition firstReplayError :: "'l log_ops \<Rightarrow> ctx \<Rightarrow> string \<Rightarrow> int \<Rightarrow> 'l \<Rightarrow> log_error option" where
  "firstReplayError ops ctx topic startOffset log = snd (op_ReplayEvents ops ctx topic startOffset log)"

definition assertOffsets :: "event list \<Rightarrow> int list \<Rightarrow> unit option" where
  "assertOffsets events want = do {
     fatal_if (length events \<noteq> length want);
     fatal_if (list_ex (\<lambda>(event, w). ev_offset event \<noteq> w) (zip events want))
   }"

definition closeLog :: "'l log_ops \<Rightarrow> 'l \<Rightarrow> 'l option" where
  "closeLog ops log = (case op_Close ops log of (None, log') \<Rightarrow> Some log' | (Some err, _) \<Rightarrow> None)"

abbreviation orders :: string where
  "orders \<equiv> ''orders.created''"

abbreviation users :: string where
  "users \<equiv> ''users.created''"

definition order_payload :: "nat \<Rightarrow> string" where
  "order_payload i = ''order-'' @ show_int (int i)"

text \<open>The loop that appends \<open>order-i\<close> for the given \<open>i\<close>.\<close>

fun append_orders :: "'l log_ops \<Rightarrow> (nat \<Rightarrow> int) \<Rightarrow> nat list \<Rightarrow> 'l \<Rightarrow> 'l option" where
  "append_orders ops clk [] log = Some log"
| "append_orders ops clk (i # is) log = do {
     (_, log) \<leftarrow> appendEvent ops (clk i) orders (order_payload i) log;
     append_orders ops clk is log
   }"

subsection \<open>The subtests\<close>

definition append_assigns_per_topic_offsets :: "'l log_ops \<Rightarrow> (nat \<Rightarrow> int) \<Rightarrow> 'l \<Rightarrow> 'l option" where
  "append_assigns_per_topic_offsets ops clk log = do {
     (first, log) \<leftarrow> appendEvent ops (clk 0) orders ''order-1'' log;
     (second, log) \<leftarrow> appendEvent ops (clk 1) orders ''order-2'' log;
     (otherTopic, log) \<leftarrow> appendEvent ops (clk 2) users ''user-1'' log;
     fatal_if (ev_offset first \<noteq> 0);
     fatal_if (ev_offset second \<noteq> 1);
     fatal_if (ev_offset otherTopic \<noteq> 0);
     closeLog ops log
   }"

definition read_events_by_offset_and_limit :: "'l log_ops \<Rightarrow> (nat \<Rightarrow> int) \<Rightarrow> 'l \<Rightarrow> 'l option" where
  "read_events_by_offset_and_limit ops clk log = do {
     log \<leftarrow> append_orders ops clk [0..<5] log;
     events \<leftarrow> must (op_ReadEvents ops None orders 2 2 log);
     assertOffsets events [2, 3];
     events \<leftarrow> must (op_ReadEvents ops None orders 10 5 log);
     fatal_if (length events \<noteq> 0);
     events \<leftarrow> must (op_ReadEvents ops None orders 0 0 log);
     fatal_if (length events \<noteq> 0);
     closeLog ops log
   }"

definition replay_events_from_offset :: "'l log_ops \<Rightarrow> (nat \<Rightarrow> int) \<Rightarrow> 'l \<Rightarrow> 'l option" where
  "replay_events_from_offset ops clk log = do {
     log \<leftarrow> append_orders ops clk [0..<4] log;
     events \<leftarrow> collectReplay ops None orders 1 log;
     assertOffsets events [1, 2, 3];
     closeLog ops log
   }"

definition statistics_report_topic_counts :: "'l log_ops \<Rightarrow> (nat \<Rightarrow> int) \<Rightarrow> 'l \<Rightarrow> 'l option" where
  "statistics_report_topic_counts ops clk log = do {
     (_, log) \<leftarrow> appendEvent ops (clk 0) orders ''order-1'' log;
     (_, log) \<leftarrow> appendEvent ops (clk 1) orders ''order-2'' log;
     (_, log) \<leftarrow> appendEvent ops (clk 2) users ''user-1'' log;
     stats \<leftarrow> must (op_GetStatistics ops None log);
     fatal_if (TotalEvents stats \<noteq> 3);
     fatal_if (TopicCount stats \<noteq> 2);
     fatal_if (gm_get 0 (TopicCounts stats) orders \<noteq> 2);
     fatal_if (gm_get 0 (TopicCounts stats) users \<noteq> 1);
     closeLog ops log
   }"

definition invalid_inputs_return_errors :: "'l log_ops \<Rightarrow> (nat \<Rightarrow> int) \<Rightarrow> 'l \<Rightarrow> 'l option" where
  "invalid_inputs_return_errors ops clk log = do {
     let validEvent = NewEvent (clk 0) orders (Some (str_bytes ''order-1''));
     let (r, log) = op_AppendEvent ops False [] (Some validEvent) log;
     fatal_if (\<not> isl r);
     let (r, log) = op_AppendEvent ops False orders None log;
     fatal_if (\<not> isl r);
     fatal_if (\<not> isl (op_ReadEvents ops None [] 0 1 log));
     fatal_if (\<not> isl (op_ReadEvents ops None orders (- 1) 1 log));
     fatal_if (\<not> isl (op_ReadEvents ops None orders 0 (- 1) log));
     fatal_if (\<not> isl (op_GetTopicEndOffset ops False [] log));
     fatal_if (firstReplayError ops None [] 0 log = None);
     fatal_if (firstReplayError ops None orders (- 1) log = None);
     closeLog ops log
   }"

definition context_cancellation_returns_error :: "'l log_ops \<Rightarrow> (nat \<Rightarrow> int) \<Rightarrow> 'l \<Rightarrow> 'l option" where
  "context_cancellation_returns_error ops clk log = do {
     let ctx = Some 0;
     let (r, log) = op_AppendEvent ops True orders (Some (NewEvent (clk 0) orders (Some (str_bytes ''order-1'')))) log;
     fatal_if (r \<noteq> Inl CtxErr);
     fatal_if (op_ReadEvents ops ctx orders 0 1 log \<noteq> Inl CtxErr);
     fatal_if (op_GetTopicEndOffset ops True orders log \<noteq> Inl CtxErr);
     fatal_if (op_GetStatistics ops ctx log \<noteq> Inl CtxErr);
     closeLog ops log
   }"

text \<open>
  The goroutines of the concurrent subtest: each makes one append, which holds the log's lock throughout, so that a run is
  an order of the appends. The errors are received in some order; the subtest fails if one of them is not nil.
\<close>

fun append_goroutines :: "'l log_ops \<Rightarrow> (nat \<Rightarrow> int) \<Rightarrow> nat list \<Rightarrow> 'l \<Rightarrow> log_error option list \<times> 'l" where
  "append_goroutines ops clk [] log = ([], log)"
| "append_goroutines ops clk (i # is) log =
     (case op_AppendEvent ops False orders (Some (NewEvent (clk i) orders (Some (str_bytes (order_payload i))))) log of
        (r, log1) \<Rightarrow>
         (case append_goroutines ops clk is log1 of
            (errs, log2) \<Rightarrow> ((case r of Inl err \<Rightarrow> Some err | Inr _ \<Rightarrow> None) # errs, log2)))"

definition totalEvents :: nat where
  "totalEvents = 200"

definition concurrent_appends_keep_unique_offsets :: "'l log_ops \<Rightarrow> (nat \<Rightarrow> int) \<Rightarrow> nat list \<Rightarrow> 'l \<Rightarrow> 'l option" where
  "concurrent_appends_keep_unique_offsets ops clk schedule log = do {
     let (errs, log) = append_goroutines ops clk schedule log;
     fatal_if (list_ex (\<lambda>err. err \<noteq> None) errs);
     events \<leftarrow> must (op_ReadEvents ops None orders 0 (int totalEvents) log);
     fatal_if (length events \<noteq> totalEvents);
     let offsets = sort (map ev_offset events);
     fatal_if (list_ex (\<lambda>(i, offset). offset \<noteq> int i) (enumerate 0 offsets));
     closeLog ops log
   }"

definition closed_log_rejects_operations :: "'l log_ops \<Rightarrow> (nat \<Rightarrow> int) \<Rightarrow> 'l \<Rightarrow> 'l option" where
  "closed_log_rejects_operations ops clk log = do {
     (_, log) \<leftarrow> appendEvent ops (clk 0) orders ''order-1'' log;
     log \<leftarrow> closeLog ops log;
     let (r, log) = op_AppendEvent ops False orders (Some (NewEvent (clk 1) orders (Some (str_bytes ''order-2'')))) log;
     fatal_if (\<not> isl r);
     fatal_if (\<not> isl (op_ReadEvents ops None orders 0 1 log));
     fatal_if (\<not> isl (op_GetTopicEndOffset ops False orders log));
     fatal_if (\<not> isl (op_GetStatistics ops None log));
     fatal_if (firstReplayError ops None orders 0 log = None);
     fatal_if (op_Compact ops False log = None);
     Some log
   }"

text \<open>\<open>RunContract\<close> runs every subtest on a log of its own; a failed subtest does not stop the others.\<close>

definition RunContract :: "'l log_ops \<Rightarrow> (nat \<Rightarrow> int) \<Rightarrow> nat list \<Rightarrow> (string \<Rightarrow> 'l) \<Rightarrow> (string \<times> bool) list" where
  "RunContract ops clk schedule factory =
     map (\<lambda>(name, body). (name, body (factory name) \<noteq> None))
      [(''append_assigns_per_topic_offsets'', append_assigns_per_topic_offsets ops clk),
       (''read_events_by_offset_and_limit'', read_events_by_offset_and_limit ops clk),
       (''replay_events_from_offset'', replay_events_from_offset ops clk),
       (''statistics_report_topic_counts'', statistics_report_topic_counts ops clk),
       (''invalid_inputs_return_errors'', invalid_inputs_return_errors ops clk),
       (''context_cancellation_returns_error'', context_cancellation_returns_error ops clk),
       (''concurrent_appends_keep_unique_offsets'', concurrent_appends_keep_unique_offsets ops clk schedule),
       (''closed_log_rejects_operations'', closed_log_rejects_operations ops clk)]"

definition RunDurabilityContract :: "'l log_ops \<Rightarrow> (nat \<Rightarrow> int) \<Rightarrow> 'l \<Rightarrow> ('l \<Rightarrow> 'l option) \<Rightarrow> 'l option" where
  "RunDurabilityContract ops clk log reopen = do {
     (_, log) \<leftarrow> appendEvent ops (clk 0) orders ''order-1'' log;
     (_, log) \<leftarrow> appendEvent ops (clk 1) orders ''order-2'' log;
     (_, log) \<leftarrow> appendEvent ops (clk 2) users ''user-1'' log;
     log \<leftarrow> closeLog ops log;
     reopened \<leftarrow> reopen log;
     events \<leftarrow> must (op_ReadEvents ops None orders 0 10 reopened);
     assertOffsets events [0, 1];
     (event, reopened) \<leftarrow> appendEvent ops (clk 3) orders ''order-3'' reopened;
     fatal_if (ev_offset event \<noteq> 2);
     userEvents \<leftarrow> must (op_ReadEvents ops None users 0 10 reopened);
     assertOffsets userEvents [0];
     closeLog ops reopened
   }"

subsection \<open>What the tests rely on\<close>

text \<open>The statistics of a log with the given events in each topic.\<close>

definition stats_of :: "(string \<Rightarrow> event list) \<Rightarrow> log_stats \<Rightarrow> bool" where
  "stats_of evs st \<longleftrightarrow> finite {t. evs t \<noteq> []}
     \<and> (\<forall>t. gm_get 0 (TopicCounts st) t = int (length (evs t)))
     \<and> TopicCount st = int (card {t. evs t \<noteq> []})
     \<and> TotalEvents st = wrap64 (\<Sum>t | evs t \<noteq> []. int (length (evs t)))"

text \<open>
  The rest of the interface: replay, statistics and close succeed on an open log, a closed log refuses everything, invalid
  arguments are refused, and so is every call whose context is done.
\<close>

locale event_log_full = event_log +
  fixes log_closed :: "'a \<Rightarrow> bool"
  assumes replay_succeeds:
      "log_ok l \<Longrightarrow> log_open l \<Longrightarrow> topic_ok t \<Longrightarrow> 0 \<le> s \<Longrightarrow> s \<le> max_int64 \<Longrightarrow> snd (op_ReplayEvents ops None t s l) = None"
    and stats_succeed: "log_ok l \<Longrightarrow> log_open l \<Longrightarrow> \<exists>st. op_GetStatistics ops None l = Inr st \<and> stats_of (topic_events l) st"
    and close_succeeds: "log_ok l \<Longrightarrow> log_open l \<Longrightarrow> \<exists>l'. op_Close ops l = (None, l') \<and> log_closed l'"
    and closed_refuses:
      "log_closed l \<Longrightarrow> (\<exists>err. op_AppendEvent ops c t oe l = (Inl err, l)) \<and> isl (op_ReadEvents ops ctx t s m l)
         \<and> isl (op_GetTopicEndOffset ops c t l) \<and> snd (op_ReplayEvents ops ctx t s l) \<noteq> None
         \<and> op_Compact ops c l \<noteq> None \<and> isl (op_GetStatistics ops ctx l)"
    and empty_topic_refused:
      "(\<exists>err. op_AppendEvent ops c [] oe l = (Inl err, l)) \<and> isl (op_ReadEvents ops ctx [] s m l)
         \<and> isl (op_GetTopicEndOffset ops c [] l) \<and> snd (op_ReplayEvents ops ctx [] s l) \<noteq> None"
    and negative_refused:
      "s < 0 \<or> m < 0 \<Longrightarrow> isl (op_ReadEvents ops ctx t s m l)" "s < 0 \<Longrightarrow> snd (op_ReplayEvents ops ctx t s l) \<noteq> None"
    and cancelled_refused:
      "op_AppendEvent ops True t oe l = (Inl CtxErr, l) \<and> op_ReadEvents ops (Some 0) t s m l = Inl CtxErr
         \<and> op_GetTopicEndOffset ops True t l = Inl CtxErr \<and> op_GetStatistics ops (Some 0) l = Inl CtxErr"

lemma fatal_if_bind [simp]: "Option.bind (fatal_if b) f = Some x \<longleftrightarrow> \<not> b \<and> f () = Some x"
  by (simp add: fatal_if_def)

lemma fatal_if_pass [simp]: "\<not> b \<Longrightarrow> Option.bind (fatal_if b) f = f ()" "\<not> b \<Longrightarrow> fatal_if b = Some ()"
  by (simp_all add: fatal_if_def)

lemma must_Inr [simp]: "must (Inr x) = Some x"
  by (simp add: must_def)

lemma assertOffsets_iff: "assertOffsets events want = Some () \<longleftrightarrow> map ev_offset events = want"
proof -
  have "\<not> list_ex (\<lambda>(e, w). ev_offset e \<noteq> w) (zip events want) \<longleftrightarrow> map ev_offset events = want"
    if "length events = length want"
    using that by (induction rule: list_induct2) auto
  then show ?thesis
    by (auto simp: assertOffsets_def fatal_if_def)
qed

definition suite_payloads :: "string list" where
  "suite_payloads = ''user-1'' # map order_payload [0..<totalEvents]"

lemma suite_payloads_mem [simp]:
  "''user-1'' \<in> set suite_payloads" "''order-1'' \<in> set suite_payloads" "''order-2'' \<in> set suite_payloads"
  "''order-3'' \<in> set suite_payloads" "i < totalEvents \<Longrightarrow> order_payload i \<in> set suite_payloads"
proof -
  have "''order-1'' = order_payload 1" "''order-2'' = order_payload 2" "''order-3'' = order_payload 3"
    by code_simp+
  then show "''user-1'' \<in> set suite_payloads" "''order-1'' \<in> set suite_payloads" "''order-2'' \<in> set suite_payloads"
    "''order-3'' \<in> set suite_payloads" "i < totalEvents \<Longrightarrow> order_payload i \<in> set suite_payloads"
    by (auto simp: suite_payloads_def totalEvents_def)
qed

text \<open>A log that can store what the tests append.\<close>

locale contract_subject = event_log_full +
  assumes suite_topics: "topic_ok orders" "topic_ok users"
    and suite_events: "p \<in> set suite_payloads \<Longrightarrow> t \<in> {orders, users} \<Longrightarrow> storable (NewEvent now t (Some (str_bytes p)))"
begin

text \<open>\<open>holds l f\<close>: the log is open and well formed and has \<open>f t\<close> events in topic \<open>t\<close>.\<close>

definition holds :: "'a \<Rightarrow> (string \<Rightarrow> nat) \<Rightarrow> bool" where
  "holds l f \<longleftrightarrow> log_ok l \<and> log_open l \<and> (\<forall>t. length (topic_events l t) = f t)"

lemma holds_cong: "holds l f \<Longrightarrow> (\<And>t. f t = g t) \<Longrightarrow> holds l g"
  by (simp add: holds_def)

lemma fresh_holds: "log_ok l \<and> log_open l \<Longrightarrow> (\<And>t. topic_events l t = []) \<Longrightarrow> holds l (\<lambda>_. 0)"
  by (simp add: holds_def)

lemma append_step:
  assumes "holds l f" "t \<in> {orders, users}" "p \<in> set suite_payloads" "int (f t) < max_int64"
  obtains e l' where "appendEvent ops now t p l = Some (e, l')" "ev_offset e = int (f t)" "holds l' (f(t := Suc (f t)))"
    "op_AppendEvent ops False t (Some (NewEvent now t (Some (str_bytes p)))) l = (Inr e, l')"
proof -
  have t: "topic_ok t" and st: "storable (NewEvent now t (Some (str_bytes p)))"
    using assms suite_topics suite_events by auto
  have l: "log_ok l" "log_open l" "\<And>t. length (topic_events l t) = f t"
    using assms(1) by (auto simp: holds_def)
  show ?thesis
    by (rule append_value [OF l(1,2) t _ st])
      (use assms(4) that in \<open>auto simp: l(3) appendEvent_def holds_def\<close>)
qed

lemma read_offsets:
  assumes "holds l f" "t \<in> {orders, users}" "0 \<le> s" "0 \<le> m" "m \<le> max_page" "s + m \<le> max_int64"
  obtains es where "op_ReadEvents ops None t s m l = Inr es" "map ev_offset es = map int (take (nat m) (drop (nat s) [0..<f t]))"
proof -
  have t: "topic_ok t" using assms(2) suite_topics by auto
  have l: "log_ok l" "log_open l" "length (topic_events l t) = f t"
    using assms(1) by (auto simp: holds_def)
  show ?thesis
    by (rule that [OF read_value [OF l(1,2) t assms(3-6)]])
      (simp only: take_map [symmetric] drop_map [symmetric] offsets_are_indices [OF l(1) t] l(3))
qed

lemma close_step:
  assumes "holds l f"
  obtains l' where "closeLog ops l = Some l'" "log_closed l'"
  using assms close_succeeds [of l] that by (auto simp: holds_def closeLog_def)

lemma append_orders_step:
  "holds l f \<Longrightarrow> set is \<subseteq> {..<totalEvents} \<Longrightarrow> int (f orders + length is) \<le> max_int64 \<Longrightarrow>
   \<exists>l'. append_orders ops clk is l = Some l' \<and> holds l' (f(orders := f orders + length is))"
proof (induction "is" arbitrary: l f)
  case (Cons i "is")
  obtain e l' where s: "appendEvent ops (clk i) orders (order_payload i) l = Some (e, l')" "holds l' (f(orders := Suc (f orders)))"
    by (rule append_step [OF Cons.prems(1), of orders "order_payload i" "clk i"]) (use Cons.prems in auto)
  with Cons.IH [OF s(2)] Cons.prems(2,3) show ?case by (auto elim!: holds_cong)
qed simp

lemma total_small: "int totalEvents \<le> max_page" "int totalEvents \<le> max_int64"
  by (simp_all add: totalEvents_def max_page_def max_int64_def)

lemma order_loop:
  assumes "holds l (\<lambda>_. 0)" "n \<le> totalEvents"
  shows "\<exists>l'. append_orders ops clk [0..<n] l = Some l' \<and> holds l' (\<lambda>t. if t = orders then n else 0)"
  using append_orders_step [OF assms(1), of "[0..<n]" clk] assms(2) total_small by (fastforce elim: holds_cong)

lemma append_goroutines_step:
  "holds l f \<Longrightarrow> set is \<subseteq> {..<totalEvents} \<Longrightarrow> int (f orders + length is) \<le> max_int64 \<Longrightarrow>
   \<exists>l' errs. append_goroutines ops clk is l = (errs, l') \<and> \<not> list_ex (\<lambda>err. err \<noteq> None) errs
     \<and> holds l' (f(orders := f orders + length is))"
proof (induction "is" arbitrary: l f)
  case (Cons i "is")
  obtain e l' where s: "holds l' (f(orders := Suc (f orders)))"
    "op_AppendEvent ops False orders (Some (NewEvent (clk i) orders (Some (str_bytes (order_payload i))))) l = (Inr e, l')"
    by (rule append_step [OF Cons.prems(1), of orders "order_payload i" "clk i"]) (use Cons.prems in auto)
  with Cons.IH [OF s(1)] Cons.prems(2,3) show ?case by (auto elim!: holds_cong)
qed simp

text \<open>The three appends with which several subtests begin.\<close>

lemma three_appends:
  assumes "holds l (\<lambda>_. 0)"
  obtains e1 l1 e2 l2 e3 l3 where
    "appendEvent ops (clk 0) orders ''order-1'' l = Some (e1, l1)" "ev_offset e1 = 0"
    "appendEvent ops (clk 1) orders ''order-2'' l1 = Some (e2, l2)" "ev_offset e2 = 1"
    "appendEvent ops (clk 2) users ''user-1'' l2 = Some (e3, l3)" "ev_offset e3 = 0"
    "holds l3 (\<lambda>t. if t = orders then 2 else if t = users then 1 else 0)"
proof -
  obtain e1 l1 where 1: "appendEvent ops (clk 0) orders ''order-1'' l = Some (e1, l1)" "ev_offset e1 = 0"
    "holds l1 ((\<lambda>_. 0)(orders := Suc 0))"
    by (rule append_step [OF assms, of orders "''order-1''" "clk 0"]) (auto simp: max_int64_def)
  obtain e2 l2 where 2: "appendEvent ops (clk 1) orders ''order-2'' l1 = Some (e2, l2)" "ev_offset e2 = 1"
    "holds l2 ((\<lambda>_. 0)(orders := Suc 0, orders := Suc (Suc 0)))"
    by (rule append_step [OF 1(3), of orders "''order-2''" "clk 1"]) (auto simp: max_int64_def)
  obtain e3 l3 where 3: "appendEvent ops (clk 2) users ''user-1'' l2 = Some (e3, l3)" "ev_offset e3 = 0"
    "holds l3 ((\<lambda>_. 0)(orders := Suc 0, orders := Suc (Suc 0), users := Suc 0))"
    by (rule append_step [OF 2(3), of users "''user-1''" "clk 2"]) (auto simp: max_int64_def)
  show ?thesis
    by (rule that [OF 1(1,2) 2(1,2) 3(1,2) holds_cong [OF 3(3)]]) simp
qed

lemma offsets_pass: "holds l (\<lambda>_. 0) \<Longrightarrow> append_assigns_per_topic_offsets ops clk l \<noteq> None"
  by (erule three_appends [where clk = clk], erule close_step)
    (simp add: append_assigns_per_topic_offsets_def)

lemma read_pass:
  assumes "holds l (\<lambda>_. 0)"
  shows "read_events_by_offset_and_limit ops clk l \<noteq> None"
proof -
  obtain l1 where l1: "append_orders ops clk [0..<5] l = Some l1" "holds l1 (\<lambda>t. if t = orders then 5 else 0)"
    using order_loop [OF assms, of 5 clk] by (auto simp: totalEvents_def)
  obtain a where a: "op_ReadEvents ops None orders 2 2 l1 = Inr a" "map ev_offset a = [2, 3]"
    by (rule read_offsets [OF l1(2), of orders 2 2]) (auto simp: max_page_def max_int64_def upt_rec)
  obtain b where b: "op_ReadEvents ops None orders 10 5 l1 = Inr b" "map ev_offset b = []"
    by (rule read_offsets [OF l1(2), of orders 10 5]) (auto simp: max_page_def max_int64_def)
  obtain c where c: "op_ReadEvents ops None orders 0 0 l1 = Inr c" "map ev_offset c = []"
    by (rule read_offsets [OF l1(2), of orders 0 0]) (auto simp: max_page_def max_int64_def)
  obtain l2 where "closeLog ops l1 = Some l2"
    using close_step [OF l1(2)] .
  moreover have "assertOffsets a [2, 3] = Some ()"
    using a(2) by (simp add: assertOffsets_iff)
  ultimately show ?thesis
    using l1(1) a(1) b c by (simp add: read_events_by_offset_and_limit_def)
qed

lemma replay_pass:
  assumes "holds l (\<lambda>_. 0)"
  shows "replay_events_from_offset ops clk l \<noteq> None"
proof -
  obtain l1 where l1: "append_orders ops clk [0..<4] l = Some l1" "holds l1 (\<lambda>t. if t = orders then 4 else 0)"
    using order_loop [OF assms, of 4 clk] by (auto simp: totalEvents_def)
  then have ok: "log_ok l1" "log_open l1" "length (topic_events l1 orders) = 4"
    by (auto simp: holds_def)
  obtain es where es: "op_ReplayEvents ops None orders 1 l1 = (es, None)"
    using replay_succeeds [OF ok(1,2) suite_topics(1), of 1]
    by (cases "op_ReplayEvents ops None orders 1 l1") (simp add: max_int64_def)
  have "es = drop 1 (topic_events l1 orders)"
    using replay_returns [OF ok(1) suite_topics(1) _ es] by (simp add: max_int64_def)
  then have "map ev_offset es = drop 1 (map int [0..<4])"
    using offsets_are_indices [OF ok(1) suite_topics(1)] ok(3) by (simp add: drop_map [symmetric])
  then have "assertOffsets es [1, 2, 3] = Some ()"
    by (simp add: assertOffsets_iff upt_rec)
  with l1(1) es close_step [OF l1(2)] show ?thesis
    by (auto simp: replay_events_from_offset_def collectReplay_def)
qed

lemma statistics_pass:
  assumes "holds l (\<lambda>_. 0)"
  shows "statistics_report_topic_counts ops clk l \<noteq> None"
proof -
  obtain e1 l1 e2 l2 e3 l3 where app: "appendEvent ops (clk 0) orders ''order-1'' l = Some (e1, l1)"
    "appendEvent ops (clk 1) orders ''order-2'' l1 = Some (e2, l2)" "appendEvent ops (clk 2) users ''user-1'' l2 = Some (e3, l3)"
    and l3: "holds l3 (\<lambda>t. if t = orders then 2 else if t = users then 1 else 0)"
    by (rule three_appends [OF assms, of clk])
  then obtain st where st: "op_GetStatistics ops None l3 = Inr st" "stats_of (topic_events l3) st"
    using stats_succeed [of l3] by (auto simp: holds_def)
  have len: "length (topic_events l3 t) = (if t = orders then 2 else if t = users then 1 else 0)" for t
    using l3 by (simp add: holds_def)
  then have "{t. topic_events l3 t \<noteq> []} = {orders, users}"
    by (auto simp: length_0_conv [symmetric] split: if_splits simp del: length_0_conv)
  with st(2) len have "TotalEvents st = 3" "TopicCount st = 2"
    "gm_get 0 (TopicCounts st) orders = 2" "gm_get 0 (TopicCounts st) users = 1"
    by (auto simp: stats_of_def wrap64_def)
  with app st(1) close_step [OF l3] show ?thesis
    by (auto simp: statistics_report_topic_counts_def)
qed

lemma invalid_pass:
  assumes "holds l (\<lambda>_. 0)"
  shows "invalid_inputs_return_errors ops clk l \<noteq> None"
proof -
  obtain x y where "op_AppendEvent ops False [] (Some (NewEvent (clk 0) orders (Some (str_bytes ''order-1'')))) l = (Inl x, l)"
    "op_AppendEvent ops False orders None l = (Inl y, l)"
    using empty_topic_refused append_nil by metis
  moreover obtain l' where "closeLog ops l = Some l'"
    using close_step [OF assms] .
  ultimately show ?thesis
    using empty_topic_refused negative_refused by (simp add: invalid_inputs_return_errors_def firstReplayError_def)
qed

lemma cancelled_pass: "holds l (\<lambda>_. 0) \<Longrightarrow> context_cancellation_returns_error ops clk l \<noteq> None"
  by (erule close_step) (simp add: context_cancellation_returns_error_def cancelled_refused)

lemma concurrent_pass:
  assumes "holds l (\<lambda>_. 0)" and schedule: "mset schedule = mset [0..<totalEvents]"
  shows "concurrent_appends_keep_unique_offsets ops clk schedule l \<noteq> None"
proof -
  have len: "length schedule = totalEvents" "set schedule = {..<totalEvents}"
    using mset_eq_length [OF schedule] mset_eq_setD [OF schedule] by (simp_all add: atLeast0LessThan)
  then obtain errs l1 where l1: "append_goroutines ops clk schedule l = (errs, l1)" "\<not> list_ex (\<lambda>err. err \<noteq> None) errs"
    "holds l1 ((\<lambda>_. 0)(orders := totalEvents))"
    using append_goroutines_step [OF assms(1), of schedule clk] total_small(2) by (simp del: fun_upd_apply) blast
  obtain l2 where l2: "closeLog ops l1 = Some l2"
    using close_step [OF l1(3)] .
  obtain es where es: "op_ReadEvents ops None orders 0 (int totalEvents) l1 = Inr es" "map ev_offset es = map int [0..<totalEvents]"
    by (rule read_offsets [OF l1(3), of orders 0 "int totalEvents"]) (use total_small in auto)
  have "length es = totalEvents"
    using arg_cong [OF es(2), of length] by simp
  moreover have "sort (map ev_offset es) = map int [0..<totalEvents]"
    unfolding es(2) by (rule sort_key_id_if_sorted) (simp add: sorted_iff_nth_mono)
  moreover have "\<not> list_ex (\<lambda>(i, offset). offset \<noteq> int i) (enumerate 0 (map int [0..<totalEvents]))"
    by (auto simp: list_ex_iff in_set_enumerate_eq)
  ultimately show ?thesis
    using l1(1,2) es(1) l2
    by (simp only: concurrent_appends_keep_unique_offsets_def Let_def prod.case fatal_if_pass must_Inr bind.simps) simp
qed

lemma closed_pass:
  assumes "holds l (\<lambda>_. 0)"
  shows "closed_log_rejects_operations ops clk l \<noteq> None"
proof -
  obtain e1 l1 where l1: "appendEvent ops (clk 0) orders ''order-1'' l = Some (e1, l1)" "holds l1 ((\<lambda>_. 0)(orders := Suc 0))"
    by (rule append_step [OF assms, of orders "''order-1''" "clk 0"]) (auto simp: max_int64_def)
  obtain l2 where l2: "closeLog ops l1 = Some l2" "log_closed l2"
    using close_step [OF l1(2)] .
  obtain x where "op_AppendEvent ops False orders (Some (NewEvent (clk 1) orders (Some (str_bytes ''order-2'')))) l2 = (Inl x, l2)"
    using closed_refuses [OF l2(2)] by blast
  with l1(1) l2(1) closed_refuses [OF l2(2)] show ?thesis
    by (simp add: closed_log_rejects_operations_def firstReplayError_def)
qed

lemma suite_passes:
  assumes "\<And>name. log_ok (factory name) \<and> log_open (factory name)" "\<And>name t. topic_events (factory name) t = []"
    "mset schedule = mset [0..<totalEvents]"
  shows "list_all snd (RunContract ops clk schedule factory)"
  using fresh_holds [OF assms(1,2)] assms(3) by (simp add: RunContract_def offsets_pass read_pass replay_pass statistics_pass invalid_pass cancelled_pass
      concurrent_pass closed_pass del: not_None_eq)

end

text \<open>A log that is opened again from what it left.\<close>

locale durable_log = contract_subject +
  fixes reopen :: "'a \<Rightarrow> 'a option"
  assumes reopened: "log_ok l \<Longrightarrow> op_Close ops l = (None, l1) \<Longrightarrow>
    \<exists>l2. reopen l1 = Some l2 \<and> log_ok l2 \<and> log_open l2 \<and> topic_events l2 = topic_events l"
begin

lemma durability_passes:
  assumes "log_ok l \<and> log_open l" "\<And>t. topic_events l t = []"
  shows "RunDurabilityContract ops clk l reopen \<noteq> None"
proof -
  have fresh: "holds l (\<lambda>_. 0)"
    using fresh_holds [OF assms] .
  obtain e1 l1 e2 l2 e3 l3 where app: "appendEvent ops (clk 0) orders ''order-1'' l = Some (e1, l1)"
    "appendEvent ops (clk 1) orders ''order-2'' l1 = Some (e2, l2)" "appendEvent ops (clk 2) users ''user-1'' l2 = Some (e3, l3)"
    and l3: "holds l3 (\<lambda>t. if t = orders then 2 else if t = users then 1 else 0)"
    by (rule three_appends [OF fresh, of clk])
  obtain l4 where l4: "op_Close ops l3 = (None, l4)" "closeLog ops l3 = Some l4"
    using close_succeeds [of l3] l3 by (auto simp: holds_def closeLog_def)
  then obtain l5 where l5: "reopen l4 = Some l5" "holds l5 (\<lambda>t. if t = orders then 2 else if t = users then 1 else 0)"
    using reopened [OF _ l4(1)] l3 by (auto simp: holds_def)
  obtain a where a: "op_ReadEvents ops None orders 0 10 l5 = Inr a" "map ev_offset a = [0, 1]"
    by (rule read_offsets [OF l5(2), of orders 0 10]) (auto simp: max_page_def max_int64_def upt_rec)
  obtain e6 l6 where l6: "appendEvent ops (clk 3) orders ''order-3'' l5 = Some (e6, l6)" "ev_offset e6 = 2"
    "holds l6 ((\<lambda>t. if t = orders then 2 else if t = users then 1 else 0)(orders := Suc 2))"
    by (rule append_step [OF l5(2), of orders "''order-3''" "clk 3"]) (auto simp: max_int64_def)
  obtain b where b: "op_ReadEvents ops None users 0 10 l6 = Inr b" "map ev_offset b = [0]"
    by (rule read_offsets [OF l6(3), of users 0 10]) (auto simp: max_page_def max_int64_def upt_rec)
  obtain l7 where "closeLog ops l6 = Some l7"
    using close_step [OF l6(3)] .
  moreover have "assertOffsets a [0, 1] = Some ()" "assertOffsets b [0] = Some ()"
    using a(2) b(2) by (simp_all add: assertOffsets_iff)
  ultimately show ?thesis
    using app l4(2) l5(1) a(1) l6(1,2) b(1) by (simp add: RunDurabilityContract_def)
qed

end

end
