(* ===== verification/Log_Conformance.thy ===== *)
theory Log_Conformance
  imports Log_Contract
begin

text \<open>
  Both logs implement the whole interface of the event log, so both pass its contract tests. Most of the work is the statistics of
  the Pebble log, which are read from its counter keys.
\<close>

subsection \<open>The statistics of both logs\<close>

lemma stats_ofI:
  assumes "gm_wf (TopicCounts st)" "TotalEvents st = wrap64 (\<Sum>(t, n) \<leftarrow> TopicCounts st. n)"
    "TopicCount st = int (length (TopicCounts st))"
    "\<And>t. map_of (TopicCounts st) t = (if evs t = [] then None else Some (int (length (evs t))))"
  shows "stats_of evs st"
proof -
  let ?m = "TopicCounts st"
  have dom: "{t. evs t \<noteq> []} = dom (map_of ?m)"
    using assms(4) by (auto simp: dom_def split: if_splits)
  have "(\<Sum>(t, n) \<leftarrow> ?m. n) = (\<Sum>(t, n) \<in> set ?m. n)"
    using assms(1) by (simp add: gm_wf_def sum_list_distinct_conv_sum_set distinct_map)
  also have "\<dots> = (\<Sum>t \<in> dom (map_of ?m). int (length (evs t)))"
  proof (rule sum.reindex_cong [symmetric, of fst])
    show "inj_on fst (set ?m)" using assms(1) by (simp add: gm_wf_def distinct_map)
    show "dom (map_of ?m) = fst ` set ?m" by (simp add: dom_map_of_conv_image_fst)
    show "int (length (evs (fst p))) = (case p of (t, n) \<Rightarrow> n)" if "p \<in> set ?m" for p
      using that assms(4) [of "fst p"] gm_mem_iff [OF assms(1), of "fst p" "snd p"] by (auto simp: case_prod_unfold split: if_splits)
  qed
  finally have "TotalEvents st = wrap64 (\<Sum>t | evs t \<noteq> []. int (length (evs t)))"
    by (simp add: assms(2) dom)
  moreover have "gm_get 0 ?m t = int (length (evs t))" for t
    using assms(4) [of t] by (simp add: gm_get_def)
  ultimately show ?thesis
    using assms(3) gm_card_dom [OF assms(1)] by (simp add: stats_of_def dom finite_dom_map_of)
qed

lemma mem_statistics:
  assumes "mem_inv log" "\<not> ml_closed log"
  shows "\<exists>st. GetStatistics None log = Inr st \<and> stats_of (mem_topic log) st"
proof -
  let ?m = "map (\<lambda>(t, es). (t, int (length es))) (eventsByTopic log)"
  have wf: "gm_wf (eventsByTopic log)"
    using assms(1) by (simp add: mem_inv_def)
  have "stats_loop \<lparr>TotalEvents = 0, TopicCounts = [], TopicCount = 0\<rparr> (eventsByTopic log) =
      \<lparr>TotalEvents = wrap64 (\<Sum>(t, es) \<leftarrow> eventsByTopic log. int (length es)), TopicCounts = ?m, TopicCount = 0\<rparr>"
    using stats_loop_value [OF wf, of "\<lparr>TotalEvents = 0, TopicCounts = [], TopicCount = 0\<rparr>"] by (simp add: wrap64_small)
  then have st: "GetStatistics None log = Inr \<lparr>TotalEvents = wrap64 (\<Sum>(t, es) \<leftarrow> eventsByTopic log. int (length es)),
      TopicCounts = ?m, TopicCount = int (length ?m)\<rparr>"
    using assms(2) by (simp add: GetStatistics_def ctx_done_def Let_def)
  have "stats_of (mem_topic log) \<lparr>TotalEvents = wrap64 (\<Sum>(t, es) \<leftarrow> eventsByTopic log. int (length es)),
      TopicCounts = ?m, TopicCount = int (length ?m)\<rparr>"
  proof (rule stats_ofI)
    show "map_of (TopicCounts \<lparr>TotalEvents = wrap64 (\<Sum>(t, es) \<leftarrow> eventsByTopic log. int (length es)),
        TopicCounts = ?m, TopicCount = int (length ?m)\<rparr>) t =
        (if mem_topic log t = [] then None else Some (int (length (mem_topic log t))))" for t
      using mem_inv_topic(1) [OF assms(1), of t] by (simp add: map_of_map)
  qed (use wf in \<open>auto simp: gm_wf_def comp_def case_prod_unfold\<close>)
  with st show ?thesis by blast
qed

lemma map_witnesses: "(\<And>y. y \<in> set ys \<Longrightarrow> \<exists>x. y = f x \<and> P x) \<Longrightarrow> \<exists>xs. ys = map f xs \<and> list_all P xs"
proof (induction ys)
  case (Cons y ys)
  obtain x where "y = f x" "P x" using Cons.prems [of y] by auto
  moreover obtain xs where "ys = map f xs" "list_all P xs" using Cons.IH Cons.prems by auto
  ultimately have "y # ys = map f (x # xs) \<and> list_all P (x # xs)" by simp
  then show ?case by (rule exI)
qed simp

definition counter_ok :: "string \<times> byte list \<Rightarrow> bool" where
  "counter_ok = (\<lambda>(t, v). topic_storable t \<and> length v = 8 \<and> int (unat (decodePebbleOffset v)) \<le> max_int64)"

definition counter_value :: "string \<times> byte list \<Rightarrow> string \<times> int" where
  "counter_value = (\<lambda>(t, v). (t, int (unat (decodePebbleOffset v))))"

lemma peb_stats_value:
  "list_all counter_ok cs \<Longrightarrow> distinct (map fst cs) \<Longrightarrow> (\<And>k. k \<in> fst ` set cs \<Longrightarrow> map_of (TopicCounts st) k = None) \<Longrightarrow>
   wrap64 (TotalEvents st) = TotalEvents st \<Longrightarrow>
   peb_stats_loop None (map (\<lambda>(t, v). (pebbleOffsetKey t, Inr v)) cs) None st =
     Inr (st\<lparr>TopicCounts := TopicCounts st @ map counter_value cs,
        TotalEvents := wrap64 (TotalEvents st + (\<Sum>(t, n) \<leftarrow> map counter_value cs. n))\<rparr>)"
proof (induction cs arbitrary: st)
  case (Cons p cs)
  obtain t v where p: "p = (t, v)" by (cases p)
  let ?n = "int (unat (decodePebbleOffset v))"
  let ?st = "st\<lparr>TopicCounts := AList.update t ?n (TopicCounts st), TotalEvents := wrap64 (TotalEvents st + ?n)\<rparr>"
  have ok: "topic_storable t" "length v = 8" "\<not> ?n > max_int64"
    using Cons.prems(1) p by (auto simp: counter_ok_def)
  have fresh: "map_of (TopicCounts st) t = None"
    using Cons.prems(3) p by simp
  have "peb_stats_loop None (map (\<lambda>(t, v). (pebbleOffsetKey t, Inr v)) cs) None ?st =
     Inr (?st\<lparr>TopicCounts := TopicCounts ?st @ map counter_value cs,
        TotalEvents := wrap64 (TotalEvents ?st + (\<Sum>(t, n) \<leftarrow> map counter_value cs. n))\<rparr>)"
  proof (rule Cons.IH)
    show "list_all counter_ok cs" "distinct (map fst cs)"
      using Cons.prems(1,2) by simp_all
    show "map_of (TopicCounts ?st) k = None" if k: "k \<in> fst ` set cs" for k
    proof -
      have "k \<noteq> t" "map_of (TopicCounts st) k = None"
        using k Cons.prems(2) Cons.prems(3) [of k] p by auto
      then show ?thesis by simp
    qed
  qed (simp add: wrap64_id [OF wrap64_range])
  then show ?case
    using ok
    by (simp add: p decode_offset_key Let_def update_fresh [OF fresh] wrap64_add_wrap add.assoc counter_value_def del: of_nat_unat)
qed simp

lemma counter_range:
  "in_range [pebbleOffsetKeyPrefix] (Some [pebbleOffsetKeyPrefix + 1]) [pebbleOffsetKeyPrefix] k \<longleftrightarrow> prefix [pebbleOffsetKeyPrefix] k"
proof -
  have "pebblePrefixUpperBound [pebbleOffsetKeyPrefix] = Some [pebbleOffsetKeyPrefix + 1]"
    by (simp add: pebblePrefixUpperBound_def pebbleOffsetKeyPrefix_def)
  with prefix_range [of "[pebbleOffsetKeyPrefix]" k] show ?thesis
    by (auto simp: in_range_def)
qed

lemma counter_keys:
  assumes "peb_inv pm c" "c k \<noteq> None"
  shows "prefix [pebbleOffsetKeyPrefix] k \<longleftrightarrow> (\<exists>t. topic_storable t \<and> k = pebbleOffsetKey t)"
proof -
  obtain t where "topic_storable t" "k = pebbleOffsetKey t \<or> (\<exists>i. k = pebbleEventKey t i)"
    using assms unfolding peb_inv_def by blast
  then show ?thesis
    using prefixes_differ by (auto simp: pebbleOffsetKey_def pebbleEventKey_def pebbleEventTopicPrefix_def pebbleTopicPrefix_def)
qed

lemma counter_items:
  assumes inv: "peb_inv pm c" and vals: "list_all (\<lambda>(k, v). \<not> isl v) items"
    and it: "iter_ok c (in_range [pebbleOffsetKeyPrefix] (Some [pebbleOffsetKeyPrefix + 1]) [pebbleOffsetKeyPrefix]) items None"
  obtains cs where "items = map (\<lambda>(t, v). (pebbleOffsetKey t, Inr v)) cs" "list_all counter_ok cs" "distinct (map fst cs)"
    "\<forall>t. topic_storable t \<longrightarrow> map_of cs t = c (pebbleOffsetKey t)"
proof -
  have "\<exists>p. y = (case p of (t, v) \<Rightarrow> (pebbleOffsetKey t, Inr v)) \<and> counter_ok p \<and> c (pebbleOffsetKey (fst p)) = Some (snd p)"
    if y: "y \<in> set items" for y
  proof -
    obtain k b where k: "y = (k, Inr b)" using y vals by (cases y) (auto simp: list_all_iff is_Inr)
    then have "c k = Some b" "prefix [pebbleOffsetKeyPrefix] k"
      using it y by (auto simp: iter_ok_def counter_range split: sum.splits)
    moreover then obtain t where t: "topic_storable t" "k = pebbleOffsetKey t"
      using counter_keys [OF inv, of k] by auto
    moreover have "topic_inv pm c t"
      using inv t(1) by (simp add: peb_inv_def)
    ultimately show ?thesis
      using k by (intro exI [of _ "(t, b)"]) (simp add: counter_ok_def topic_inv_def peb_count_def)
  qed
  then obtain cs where cs: "items = map (\<lambda>(t, v). (pebbleOffsetKey t, Inr v)) cs" "list_all counter_ok cs"
    "list_all (\<lambda>p. c (pebbleOffsetKey (fst p)) = Some (snd p)) cs"
    using map_witnesses [of items "\<lambda>(t, v). (pebbleOffsetKey t, Inr v)"
        "\<lambda>p. counter_ok p \<and> c (pebbleOffsetKey (fst p)) = Some (snd p)"] by (auto simp: list_all_iff)
  have keys: "map fst items = map pebbleOffsetKey (map fst cs)"
    by (simp add: cs(1) comp_def case_prod_unfold)
  have "distinct (map fst items)"
    using it by (simp add: iter_ok_def strict_sorted_iff)
  then have d: "distinct (map fst cs)"
    unfolding keys by (rule distinct_map [THEN iffD1, THEN conjunct1])
  have "map_of cs t = c (pebbleOffsetKey t)" if t: "topic_storable t" for t
  proof (cases "c (pebbleOffsetKey t)")
    case None
    then have "t \<notin> fst ` set cs"
      using cs(3) by (auto simp: list_all_iff)
    with None show ?thesis by (simp add: map_of_eq_None_iff)
  next
    case (Some v)
    then have "pebbleOffsetKey t \<in> fst ` set items"
      using it counter_keys [OF inv, of "pebbleOffsetKey t"] t by (auto simp: iter_ok_def counter_range)
    then obtain u where u: "u \<in> set cs" "pebbleOffsetKey t = pebbleOffsetKey (fst u)"
      by (auto simp: cs(1))
    then have "fst u = t" "snd u = v"
      using cs(2,3) t offset_key_inject [of t "fst u"] Some by (auto simp: list_all_iff counter_ok_def)
    then have "(t, v) \<in> set cs"
      using u(1) by (metis prod.collapse)
    with d Some show ?thesis by simp
  qed
  with cs(1,2) d show ?thesis using that by blast
qed

context faultless_store
begin

lemma pebble_statistics:
  assumes ok: "peb_log_ok db_ok pm content l" and opn: "\<not> pb_closed l"
  shows "\<exists>st. PebbleGetStatistics db None l = Inr st \<and> stats_of (peb_log_events pm content l) st"
proof -
  let ?c = "content (pb_db l)"
  have d: "db_ok (pb_db l)" and inv: "peb_inv pm ?c"
    using ok by (simp_all add: peb_log_ok_def)
  obtain items where it: "db_Iter db [pebbleOffsetKeyPrefix] (Some [pebbleOffsetKeyPrefix + 1]) [pebbleOffsetKeyPrefix] (pb_db l)
      = Inr (items, None)" and vals: "list_all (\<lambda>(k, v). \<not> isl v) items"
    using iter_succeeds [OF d] by blast
  obtain cs where cs: "items = map (\<lambda>(t, v). (pebbleOffsetKey t, Inr v)) cs" "list_all counter_ok cs" "distinct (map fst cs)"
    "\<forall>t. topic_storable t \<longrightarrow> map_of cs t = ?c (pebbleOffsetKey t)"
    by (rule counter_items [OF inv vals iter_yields [OF d it]])
  let ?m = "map counter_value cs"
  let ?st = "\<lparr>TotalEvents = wrap64 (\<Sum>(t, n) \<leftarrow> ?m. n), TopicCounts = ?m, TopicCount = int (length ?m)\<rparr>"
  have "PebbleGetStatistics db None l = Inr ?st"
    using opn it cs(1) peb_stats_value [OF cs(2,3), of "\<lparr>TotalEvents = 0, TopicCounts = [], TopicCount = 0\<rparr>"]
    by (simp add: PebbleGetStatistics_def wrap64_small)
  moreover have "stats_of (peb_log_events pm content l) ?st"
  proof (rule stats_ofI)
    show "map_of (TopicCounts ?st) t = (if peb_log_events pm content l t = [] then None
        else Some (int (length (peb_log_events pm content l t))))" for t
    proof (cases "topic_storable t")
      case False
      then have "t \<notin> fst ` set cs"
        using cs(2) by (auto simp: list_all_iff counter_ok_def)
      then have "map_of ?m t = None"
        by (force simp: map_of_eq_None_iff counter_value_def case_prod_unfold)
      with False show ?thesis by (simp add: peb_log_events_def peb_events_def)
    next
      case True
      have "map_of ?m t = map_option (\<lambda>v. int (unat (decodePebbleOffset v))) (map_of cs t)"
        by (simp add: counter_value_def map_of_map)
      with cs(4) inv True show ?thesis
        by (auto simp: peb_log_events_def peb_events_def peb_count_def peb_inv_def topic_inv_def unat_eq_0 split: option.splits)
    qed
  qed (use cs(3) in \<open>auto simp: gm_wf_def counter_value_def comp_def case_prod_unfold\<close>)
  ultimately show ?thesis by blast
qed

lemma replay_loop_succeeds:
  "list_all (\<lambda>it. \<not> isl (eventFromIteratorValue pm (snd it))) items \<Longrightarrow> snd (peb_replay_loop pm None items None) = None"
  by (induction items) (auto simp: is_Inr split: prod.splits)

lemma replay_succeeds_pebble:
  assumes ok: "peb_log_ok db_ok pm content l" and opn: "\<not> pb_closed l" and t: "topic_storable t"
    and s: "0 \<le> s" "s \<le> max_int64"
  shows "snd (PebbleReplayEvents db pm None t s l) = None"
proof -
  have ok0: "db_ok (pb_db l)"
    using ok by (simp add: peb_log_ok_def)
  obtain items where it: "newTopicIterator db t (pebbleEventKey t (word_of_int s)) l = Inr (items, None)"
    and vals: "list_all (\<lambda>(k, v). \<not> isl v) items"
    using iter_succeeds [OF ok0] unfolding newTopicIterator_def Let_def by blast
  have "list_all (\<lambda>it. \<not> isl (eventFromIteratorValue pm (snd it))) items"
    by (rule iter_items_decode [OF topic_items(1) [OF ok s it] t topic_items(2) [OF ok s it] topic_items(3) [OF ok s it] vals])
  then show ?thesis
    using replay_loop_succeeds it s opn t by (simp add: PebbleReplayEvents_def topic_storable_def)
qed

end

subsection \<open>Both logs implement the whole interface\<close>

interpretation mem_subject: contract_subject mem_ops mem_topic "\<lambda>e. e" "\<lambda>t. t \<noteq> []" mem_inv
  "\<lambda>log. \<not> ml_closed log" "\<lambda>_. True" ml_closed
proof (unfold_locales, unfold mem_ops_simps)
  show "\<exists>st. GetStatistics None l = Inr st \<and> stats_of (mem_topic l) st" if "mem_inv l" "\<not> ml_closed l" for l
    using mem_statistics [OF that] .
  show "snd (ReplayEvents None t s l) = None" if "mem_inv l" "\<not> ml_closed l" "t \<noteq> []" "0 \<le> s" for l t s
    using that by (simp add: ReplayEvents_value ctx_done_def replay_send_live)
qed (auto simp: AppendEvent_def ReadEvents_def GetTopicEndOffset_def ReplayEvents_def GetStatistics_def Compact_def Close_def
    ctx_done_def split: option.splits prod.splits bool.splits)

lemma pebble_subject:
  assumes store: "faultless_store db pm content db_ok"
    and events: "\<And>p t now. p \<in> set suite_payloads \<Longrightarrow> t \<in> {orders, users} \<Longrightarrow>
      storable pm (NewEvent now t (Some (str_bytes p)))"
    and path: "path \<noteq> []"
  shows "durable_log (pebble_ops db pm) (peb_log_events pm content) stored_event topic_storable (peb_log_ok db_ok pm content)
    (\<lambda>l. \<not> pb_closed l) (storable pm) pb_closed (\<lambda>l. case NewPebbleEventLog db path (pb_db l) of Inl _ \<Rightarrow> None | Inr l' \<Rightarrow> Some l')"
proof -
  have ps: "pebble_store db pm content db_ok"
    using store by (rule faultless_store.axioms(1))
  have reopen: "\<exists>l2. (case NewPebbleEventLog db path (pb_db l1) of Inl _ \<Rightarrow> None | Inr l' \<Rightarrow> Some l') = Some l2
      \<and> peb_log_ok db_ok pm content l2 \<and> \<not> pb_closed l2 \<and> peb_log_events pm content l2 = peb_log_events pm content l"
    if ok: "peb_log_ok db_ok pm content l" and close: "PebbleClose db l = (None, l1)" for l l1
  proof -
    have ok0: "db_ok (pb_db l)" using ok by (simp add: peb_log_ok_def)
    have l1: "db_ok (pb_db l1)" "content (pb_db l1) = content (pb_db l)"
      using close ok0 pebble_store.close_durable [OF ps ok0] by (auto simp: PebbleClose_def split: if_splits prod.splits)
    obtain d where d: "db_Open db path (pb_db l1) = Inr d"
      using faultless_store.open_succeeds [OF store l1(1)] by blast
    show ?thesis
      using pebble_store.open_durable [OF ps l1(1) d] d path ok l1(2)
      by (simp add: NewPebbleEventLog_def peb_log_ok_def peb_log_events_def)
  qed
  note full = faultless_store.log_contract_full [OF store]
  have "event_log_full_axioms (pebble_ops db pm) (peb_log_events pm content) topic_storable (peb_log_ok db_ok pm content)
      (\<lambda>l. \<not> pb_closed l) pb_closed"
  proof (unfold_locales, unfold pebble_ops_simps)
    show "\<exists>l'. PebbleClose db l = (None, l') \<and> pb_closed l'" if "peb_log_ok db_ok pm content l" "\<not> pb_closed l" for l
      using that faultless_store.close_succeeds [OF store, of "pb_db l"] by (auto simp: PebbleClose_def peb_log_ok_def)
    show "snd (PebbleReplayEvents db pm None t s l) = None"
      if "peb_log_ok db_ok pm content l" "\<not> pb_closed l" "topic_storable t" "0 \<le> s" "s \<le> max_int64" for l t s
      using faultless_store.replay_succeeds_pebble [OF store that] .
    show "\<exists>st. PebbleGetStatistics db None l = Inr st \<and> stats_of (peb_log_events pm content l) st"
      if "peb_log_ok db_ok pm content l" "\<not> pb_closed l" for l
      using faultless_store.pebble_statistics [OF store that] .
  qed (auto simp: PebbleAppendEvent_def PebbleReadEvents_def PebbleGetTopicEndOffset_def PebbleReplayEvents_def
      PebbleGetStatistics_def PebbleCompact_def split: option.splits prod.splits bool.splits)
  then show ?thesis
    using full reopen events by (auto intro!: durable_log.intro contract_subject.intro event_log_full.intro
        contract_subject_axioms.intro durable_log_axioms.intro simp: topic_storable_def)
qed

lemma length_nat_digits: "length (nat_digits n) \<le> Suc n"
  by (induction n rule: nat_digits.induct) (subst nat_digits.simps, force)

lemma suite_payload_length: "p \<in> set suite_payloads \<Longrightarrow> length p < 300"
proof -
  have "length (order_payload i) < 300" if "i < totalEvents" for i
    using that length_nat_digits [of i] by (simp add: order_payload_def show_int_def totalEvents_def)
  then show "p \<in> set suite_payloads \<Longrightarrow> length p < 300"
    by (auto simp: suite_payloads_def)
qed

lemma ref_storable: "p \<in> set suite_payloads \<Longrightarrow> t \<in> {orders, users} \<Longrightarrow> storable ref_proto (NewEvent now t (Some (str_bytes p)))"
  using suite_payload_length [of p]
  by (auto simp: storable_def marshalPebbleStoredEvent_def stored_msg_of_def ref_proto_def msg_fits_def fits_def NewEvent_def Let_def)

interpretation ref_subject: durable_log "pebble_ops ref_db ref_proto" "peb_log_events ref_proto map_of" stored_event topic_storable
  "peb_log_ok gm_wf ref_proto map_of" "\<lambda>l. \<not> pb_closed l" "storable ref_proto" pb_closed
  "\<lambda>l. case NewPebbleEventLog ref_db ''data'' (pb_db l) of Inl _ \<Rightarrow> None | Inr l' \<Rightarrow> Some l'"
  by (rule pebble_subject [OF ref.faultless_store_axioms ref_storable]) simp_all

subsection \<open>Properties\<close>

text \<open>
  C10. Both logs pass the contract tests, whatever the times of the events and the order in which the two hundred goroutines of
  the concurrent test run: the in-memory log, and the Pebble log on every store that is empty at the start, has no
  faults, and encodes what the tests append. The Pebble log also passes the durability test: reopened from what it left on disk it has
  the same events and goes on with the next offset.
\<close>

theorem contract_tests_pass:
  assumes schedule: "mset schedule = mset [0..<totalEvents]"
    and store: "faultless_store db pm content db_ok"
    and events: "\<And>p t now. p \<in> set suite_payloads \<Longrightarrow> t \<in> {orders, users} \<Longrightarrow>
      storable pm (NewEvent now t (Some (str_bytes p)))"
    and disks: "\<And>name. db_ok (disk name)" "\<And>name. content (disk name) = Map.empty"
    and new: "\<And>name. NewPebbleEventLog db path (disk name) = Inr (factory name)"
  shows "list_all snd (RunContract mem_ops clk schedule (\<lambda>_. NewInMemoryEventLog))
    \<and> list_all snd (RunContract (pebble_ops db pm) clk schedule factory)
    \<and> RunDurabilityContract (pebble_ops db pm) clk (factory name)
        (\<lambda>l. case NewPebbleEventLog db path (pb_db l) of Inl _ \<Rightarrow> None | Inr l' \<Rightarrow> Some l') \<noteq> None"
proof -
  have path: "path \<noteq> []" and opened: "db_Open db path (disk u) = Inr (pb_db (factory u))" "\<not> pb_closed (factory u)" for u
    using new [of u] by (auto simp: NewPebbleEventLog_def dest!: sym [of _ "factory u"] split: if_splits sum.splits)
  have subject: "durable_log (pebble_ops db pm) (peb_log_events pm content) stored_event topic_storable (peb_log_ok db_ok pm content)
    (\<lambda>l. \<not> pb_closed l) (storable pm) pb_closed (\<lambda>l. case NewPebbleEventLog db path (pb_db l) of Inl _ \<Rightarrow> None | Inr l' \<Rightarrow> Some l')"
    by (rule pebble_subject [OF store _ path]) (rule events)
  note contract = durable_log.axioms(1) [OF subject]
  have "db_ok (pb_db (factory u))" "content (pb_db (factory u)) = Map.empty" for u
    using pebble_store.open_durable [OF faultless_store.axioms(1) [OF store] disks(1) opened(1)] disks(2) by auto
  then have fresh: "peb_log_ok db_ok pm content (factory u) \<and> \<not> pb_closed (factory u)"
    "peb_log_events pm content (factory u) t = []" for u t
    using opened(2) empty_log_ok by (simp_all add: peb_log_ok_def peb_log_events_def)
  show ?thesis
  proof (intro conjI)
    show "list_all snd (RunContract mem_ops clk schedule (\<lambda>_. NewInMemoryEventLog))"
      by (rule mem_subject.suite_passes [OF _ _ schedule]) (simp_all add: mem_eval)
    show "list_all snd (RunContract (pebble_ops db pm) clk schedule factory)"
      by (rule contract_subject.suite_passes [OF contract fresh schedule])
  qed (rule durable_log.durability_passes [OF subject fresh])
qed

theorem contract_tests_pass_witness:
  "list_all snd (RunContract (pebble_ops ref_db ref_proto) int [0..<totalEvents] (\<lambda>_. \<lparr>pb_db = [], pb_closed = False\<rparr>))"
proof -
  have "NewPebbleEventLog ref_db ''data'' [] = Inr \<lparr>pb_db = [], pb_closed = False\<rparr>"
    by (simp add: NewPebbleEventLog_def ref_db_def)
  then show ?thesis
    using contract_tests_pass [OF refl ref.faultless_store_axioms ref_storable, of "\<lambda>_. []" "''data''"
        "\<lambda>_. \<lparr>pb_db = [], pb_closed = False\<rparr>" int] by simp
qed

text \<open>
  C39. Statistics count what a log holds: on an open well-formed log, in memory or on a Pebble store without faults, they
  succeed; the count of every topic is its number of events, no empty topic is counted as one, and the sum is that of all
  topics, as a 64-bit number.
\<close>

theorem statistics_count:
  assumes "mem_inv m" "\<not> ml_closed m"
    and "faultless_store db pm content db_ok" "peb_log_ok db_ok pm content l" "\<not> pb_closed l"
  shows "(\<exists>st. GetStatistics None m = Inr st \<and> stats_of (mem_topic m) st)
    \<and> (\<exists>st. PebbleGetStatistics db None l = Inr st \<and> stats_of (peb_log_events pm content l) st)"
  using mem_statistics [OF assms(1,2)] faultless_store.pebble_statistics [OF assms(3-5)] by blast

theorem statistics_count_witness:
  "\<exists>st. PebbleGetStatistics ref_db None \<lparr>pb_db = [], pb_closed = False\<rparr> = Inr st \<and> stats_of (\<lambda>_. []) st"
proof -
  have "peb_log_ok gm_wf ref_proto map_of \<lparr>pb_db = [], pb_closed = False\<rparr>"
    "peb_log_events ref_proto map_of \<lparr>pb_db = [], pb_closed = False\<rparr> = (\<lambda>_. [])"
    using empty_log_ok by (simp_all add: peb_log_ok_def peb_log_events_def fun_eq_iff)
  then show ?thesis
    using statistics_count [OF _ _ ref.faultless_store_axioms, of NewInMemoryEventLog "\<lparr>pb_db = [], pb_closed = False\<rparr>"]
    by (simp add: mem_eval)
qed

end
