(* ===== verification/Go_Text.thy ===== *)
theory Go_Text
  imports Go_Prelude
begin

text \<open>
  Text encodings of Go's standard library, as far as the HTTP API and its client use them: UTF-8 (\<open>unicode/utf8\<close>),
  base64 without padding in the URL alphabet (\<open>base64.RawURLEncoding\<close>) and the string functions
  \<open>HasPrefix\<close>, \<open>TrimPrefix\<close>, \<open>TrimSuffix\<close> and \<open>TrimSpace\<close>.
\<close>

abbreviation byte_of :: "char \<Rightarrow> nat" where
  "byte_of c \<equiv> of_char c"

lemma code_less [simp]: "byte_of c < 256"
  by (rule nat_of_char_less_256)

lemma code_char [simp]: "n < 256 \<Longrightarrow> byte_of (char_of n) = n"
  by (simp add: of_char_of)

lemma code_inject: "byte_of c = byte_of d \<longleftrightarrow> c = d"
  by simp

subsection \<open>Strings\<close>

definition HasPrefix :: "string \<Rightarrow> string \<Rightarrow> bool" where
  "HasPrefix s p \<longleftrightarrow> take (length p) s = p"

definition HasSuffix :: "string \<Rightarrow> string \<Rightarrow> bool" where
  "HasSuffix s p \<longleftrightarrow> length p \<le> length s \<and> drop (length s - length p) s = p"

definition TrimPrefix :: "string \<Rightarrow> string \<Rightarrow> string" where
  "TrimPrefix s p = (if HasPrefix s p then drop (length p) s else s)"

definition TrimSuffix :: "string \<Rightarrow> string \<Rightarrow> string" where
  "TrimSuffix s p = (if HasSuffix s p then take (length s - length p) s else s)"

lemma HasPrefix_append [simp]: "HasPrefix (p @ s) p"
  by (simp add: HasPrefix_def)

lemma HasPrefix_iff: "HasPrefix s p \<longleftrightarrow> (\<exists>r. s = p @ r)"
  by (metis HasPrefix_append HasPrefix_def append_take_drop_id)

lemma TrimPrefix_append [simp]: "TrimPrefix (p @ s) p = s"
  by (simp add: TrimPrefix_def)

lemma HasSuffix_append [simp]: "HasSuffix (s @ p) p"
  by (simp add: HasSuffix_def)

lemma TrimSuffix_append [simp]: "TrimSuffix (s @ p) p = s"
  by (simp add: TrimSuffix_def)

text \<open>
  \<open>TrimSpace\<close> removes white space at both ends: the ASCII space characters and, in UTF-8, U+0085, U+00A0, U+1680,
  U+2000 to U+200A, U+2028, U+2029, U+202F, U+205F and U+3000.
\<close>

definition ascii_space :: "char \<Rightarrow> bool" where
  "ascii_space c \<longleftrightarrow> byte_of c \<in> {9, 10, 11, 12, 13, 32}"

definition wide_spaces :: "nat list list" where
  "wide_spaces = [[194, 133], [194, 160], [225, 154, 128]] @ map (\<lambda>k. [226, 128, 128 + k]) [0..<11]
     @ [[226, 128, 168], [226, 128, 169], [226, 128, 175], [226, 129, 159], [227, 128, 128]]"

definition space_len :: "nat list list \<Rightarrow> string \<Rightarrow> nat" where
  "space_len spaces s =
     (case s of
        [] \<Rightarrow> 0
      | c # _ \<Rightarrow>
          if ascii_space c then 1
          else case find (\<lambda>w. take (length w) (map byte_of s) = w) spaces of None \<Rightarrow> 0 | Some w \<Rightarrow> length w)"

function trim_left :: "nat list list \<Rightarrow> string \<Rightarrow> string" where
  "trim_left spaces s = (if space_len spaces s = 0 then s else trim_left spaces (drop (space_len spaces s) s))"
  by pat_completeness auto
termination
  by (relation "measure (length \<circ> snd)") (auto simp: space_len_def split: list.splits)

declare trim_left.simps [simp del]

definition TrimSpace :: "string \<Rightarrow> string" where
  "TrimSpace s = rev (trim_left (map rev wide_spaces) (rev (trim_left wide_spaces s)))"

text \<open>Graphic ASCII text has no space at its ends.\<close>

definition graphic :: "char \<Rightarrow> bool" where
  "graphic c \<longleftrightarrow> 33 \<le> byte_of c \<and> byte_of c \<le> 126"

lemma graphic_not_space: "graphic c \<Longrightarrow> \<not> ascii_space c"
  by (auto simp: graphic_def ascii_space_def)

lemma trim_left_graphic:
  assumes "graphic c" "\<forall>w \<in> set spaces. w \<noteq> [] \<and> hd w > 126"
  shows "trim_left spaces (c # s) = c # s"
proof -
  have "take (length w) (map byte_of (c # s)) \<noteq> w" if "w \<in> set spaces" for w
  proof
    assume eq: "take (length w) (map byte_of (c # s)) = w"
    have "hd w = byte_of c"
      using eq that assms(2) by (cases w) auto
    with that assms show False by (auto simp: graphic_def)
  qed
  then have "find (\<lambda>w. take (length w) (map byte_of (c # s)) = w) spaces = None"
    by (auto simp: find_None_iff)
  then show ?thesis
    using graphic_not_space [OF assms(1)] by (subst trim_left.simps) (simp add: space_len_def)
qed

lemma wide_spaces_heads:
  "\<forall>w \<in> set wide_spaces. w \<noteq> [] \<and> hd w > 126" "\<forall>w \<in> set (map rev wide_spaces). w \<noteq> [] \<and> hd w > 126"
  by (auto simp: wide_spaces_def)

lemma trim_left_Nil [simp]: "trim_left spaces [] = []"
  by (subst trim_left.simps) (simp add: space_len_def)

lemma TrimSpace_graphic:
  assumes "list_all graphic s"
  shows "TrimSpace s = s"
proof (cases s rule: rev_cases)
  case Nil
  then show ?thesis by (simp add: TrimSpace_def)
next
  case (snoc us c)
  obtain d ds where s: "s = d # ds" using snoc by (metis neq_Nil_conv snoc_eq_iff_butlast)
  have "trim_left wide_spaces s = s"
    using trim_left_graphic [OF _ wide_spaces_heads(1)] assms s by simp
  moreover have "trim_left (map rev wide_spaces) (rev s) = rev s"
    using trim_left_graphic [OF _ wide_spaces_heads(2), of c "rev us"] assms snoc by simp
  ultimately show ?thesis by (simp add: TrimSpace_def)
qed

subsection \<open>UTF-8\<close>

definition between :: "nat \<Rightarrow> nat \<Rightarrow> char \<Rightarrow> bool" where
  "between a b c \<longleftrightarrow> a \<le> byte_of c \<and> byte_of c \<le> b"

text \<open>The number of bytes of the valid encoding at the head of a string, 0 when there is none (\<open>utf8.DecodeRune\<close>).\<close>

definition rune_lead :: "char \<Rightarrow> (nat \<times> nat \<times> nat) option" where
  "rune_lead c =
     (if between 0 127 c then Some (0, 0, 0)
      else if between 194 223 c then Some (1, 128, 191)
      else if between 224 239 c then Some (2, if byte_of c = 224 then 160 else 128, if byte_of c = 237 then 159 else 191)
      else if between 240 244 c then Some (3, if byte_of c = 240 then 144 else 128, if byte_of c = 244 then 143 else 191)
      else None)"

definition rune_len :: "string \<Rightarrow> nat" where
  "rune_len s =
     (case s of
        [] \<Rightarrow> 0
      | c # s1 \<Rightarrow>
         (case rune_lead c of
            None \<Rightarrow> 0
          | Some (n, lo, hi) \<Rightarrow>
              if n = 0 then 1
              else if n \<le> length s1 \<and> between lo hi (hd s1) \<and> list_all (between 128 191) (take n s1) then n + 1
              else 0))"

lemma rune_len_le: "rune_len s \<le> length s"
  by (auto simp: rune_len_def split: list.splits option.splits)

lemma rune_len_append: "rune_len s \<noteq> 0 \<Longrightarrow> rune_len (s @ t) = rune_len s"
  by (cases s) (auto simp: rune_len_def hd_append split: option.splits if_splits)

lemma rune_len_ascii: "byte_of c < 128 \<Longrightarrow> rune_len (c # s) = 1"
  by (simp add: rune_len_def rune_lead_def between_def)

function utf8_valid :: "string \<Rightarrow> bool" where
  "utf8_valid s = (if s = [] then True else if rune_len s = 0 then False else utf8_valid (drop (rune_len s) s))"
  by pat_completeness auto
termination
  by (relation "measure length") auto

declare utf8_valid.simps [simp del]

lemma utf8_Nil [simp]: "utf8_valid []"
  by (simp add: utf8_valid.simps)

lemma utf8_ascii: "byte_of c < 128 \<Longrightarrow> utf8_valid (c # s) = utf8_valid s"
  by (subst utf8_valid.simps) (simp add: rune_len_ascii)

lemma utf8_all_ascii: "list_all (\<lambda>c. byte_of c < 128) s \<Longrightarrow> utf8_valid s"
  by (induction s) (auto simp: utf8_ascii)

definition utf8_fffd :: string where
  "utf8_fffd = [CHR 0xEF, CHR 0xBF, CHR 0xBD]"

text \<open>\<open>utf8.AppendRune\<close>.\<close>

definition encode_rune :: "nat \<Rightarrow> string" where
  "encode_rune r =
     (if r < 128 then [char_of r]
      else if r < 2048 then [char_of (192 + r div 64), char_of (128 + r mod 64)]
      else if 55296 \<le> r \<and> r < 57344 then utf8_fffd
      else if r < 65536 then [char_of (224 + r div 4096), char_of (128 + r div 64 mod 64), char_of (128 + r mod 64)]
      else if r < 1114112 then
        [char_of (240 + r div 262144), char_of (128 + r div 4096 mod 64), char_of (128 + r div 64 mod 64),
         char_of (128 + r mod 64)]
      else utf8_fffd)"

subsection \<open>Base64\<close>

definition b64_char :: "nat \<Rightarrow> char" where
  "b64_char n =
     (if n < 26 then char_of (65 + n) else if n < 52 then char_of (71 + n) else if n < 62 then char_of (n - 4)
      else if n = 62 then CHR ''-'' else CHR ''_'')"

definition b64_val :: "char \<Rightarrow> nat option" where
  "b64_val c =
     (if between 65 90 c then Some (byte_of c - 65) else if between 97 122 c then Some (byte_of c - 71)
      else if between 48 57 c then Some (byte_of c + 4) else if c = CHR ''-'' then Some 62
      else if c = CHR ''_'' then Some 63 else None)"

fun b64_encode :: "nat list \<Rightarrow> string" where
  "b64_encode [] = []"
| "b64_encode [x] = [b64_char (x div 4), b64_char (x mod 4 * 16)]"
| "b64_encode [x, y] = [b64_char (x div 4), b64_char (x mod 4 * 16 + y div 16), b64_char (y mod 16 * 4)]"
| "b64_encode (x # y # z # s) =
     b64_char (x div 4) # b64_char (x mod 4 * 16 + y div 16) # b64_char (y mod 16 * 4 + z div 64)
       # b64_char (z mod 64) # b64_encode s"

fun b64_decode :: "nat list \<Rightarrow> nat list option" where
  "b64_decode [] = Some []"
| "b64_decode [a] = None"
| "b64_decode [a, b] = Some [a * 4 + b div 16]"
| "b64_decode [a, b, c] = Some [a * 4 + b div 16, b mod 16 * 16 + c div 4]"
| "b64_decode (a # b # c # d # s) =
     map_option (\<lambda>r. (a * 4 + b div 16) # (b mod 16 * 16 + c div 4) # (c mod 4 * 64 + d) # r) (b64_decode s)"

definition EncodeToString :: "string \<Rightarrow> string" where
  "EncodeToString data = b64_encode (map byte_of data)"

text \<open>The decoder skips line breaks and does not look at the unused low bits of the last character.\<close>

definition DecodeString :: "string \<Rightarrow> string option" where
  "DecodeString s =
     (case those (map b64_val (filter (\<lambda>c. c \<noteq> CHR 0x0A \<and> c \<noteq> CHR 0x0D) s)) of
        None \<Rightarrow> None
      | Some ns \<Rightarrow> map_option (map char_of) (b64_decode ns))"

lemma b64_val_char: "n < 64 \<Longrightarrow> b64_val (b64_char n) = Some n"
proof -
  assume n: "n < 64"
  consider "n < 26" | "26 \<le> n" "n < 52" | "52 \<le> n" "n < 62" | "n = 62" | "n = 63"
    using n by linarith
  then show ?thesis
    by cases (auto simp: b64_char_def b64_val_def between_def)
qed

lemma b64_char_graphic: "n < 64 \<Longrightarrow> graphic (b64_char n)"
proof -
  assume n: "n < 64"
  consider "n < 26" | "26 \<le> n" "n < 52" | "52 \<le> n" "n < 62" | "n = 62" | "n = 63"
    using n by linarith
  then show ?thesis
    by cases (auto simp: b64_char_def graphic_def)
qed

definition b64_nums :: "nat list \<Rightarrow> nat list" where
  "b64_nums ns = map (the \<circ> b64_val) (b64_encode ns)"

definition b64_ok :: "char \<Rightarrow> bool" where
  "b64_ok c \<longleftrightarrow> graphic c \<and> (\<exists>n < 64. c = b64_char n)"

lemma b64_char_ok: "n < 64 \<Longrightarrow> b64_ok (b64_char n)"
  by (auto simp: b64_ok_def b64_char_graphic)

lemma b64_encode_val:
  "list_all (\<lambda>n. n < 256) ns \<Longrightarrow> list_all b64_ok (b64_encode ns)"
proof (induction ns rule: b64_encode.induct)
  case (2 x)
  then have "x div 4 < 64" "x mod 4 * 16 < 64" by auto
  then show ?case by (simp add: b64_char_ok)
next
  case (3 x y)
  then have "x div 4 < 64" "x mod 4 * 16 + y div 16 < 64" "y mod 16 * 4 < 64" by auto
  then show ?case by (simp add: b64_char_ok)
next
  case (4 x y z s)
  then have "x div 4 < 64" "x mod 4 * 16 + y div 16 < 64" "y mod 16 * 4 + z div 64 < 64" "z mod 64 < 64" by auto
  then show ?case using 4 by (simp add: b64_char_ok)
qed simp

lemma those_some: "list_all b64_ok s \<Longrightarrow> those (map b64_val s) = Some (map (the \<circ> b64_val) s)"
  by (induction s) (auto simp: b64_val_char b64_ok_def)

lemma b64_decode_encode: "list_all (\<lambda>n. n < 256) ns \<Longrightarrow> b64_decode (b64_nums ns) = Some ns"
proof (induction ns rule: b64_encode.induct)
  case (2 x)
  then have "x div 4 < 64" "x mod 4 * 16 < 64" by auto
  then show ?case by (simp add: b64_nums_def b64_val_char)
next
  case (3 x y)
  then have "x div 4 < 64" "x mod 4 * 16 + y div 16 < 64" "y mod 16 * 4 < 64" "y div 16 < 16" by auto
  then show ?case by (simp add: b64_nums_def b64_val_char mod_mult_self2)
next
  case (4 x y z s)
  then have "x div 4 < 64" "x mod 4 * 16 + y div 16 < 64" "y mod 16 * 4 + z div 64 < 64" "z mod 64 < 64" "y div 16 < 16"
    "z div 64 < 4" by auto
  then show ?case using 4 by (simp add: b64_nums_def b64_val_char)
qed (simp add: b64_nums_def)

lemma graphic_no_break: "graphic c \<Longrightarrow> c \<noteq> CHR 0x0A \<and> c \<noteq> CHR 0x0D"
  by (auto simp: graphic_def)

lemma code_bytes: "list_all (\<lambda>n. n < 256) (map byte_of s)"
  by (simp add: list_all_iff)

theorem base64_inverse: "DecodeString (EncodeToString s) = Some s"
proof -
  let ?e = "b64_encode (map byte_of s)"
  have g: "list_all b64_ok ?e"
    by (rule b64_encode_val [OF code_bytes])
  then have "filter (\<lambda>c. c \<noteq> CHR 0x0A \<and> c \<noteq> CHR 0x0D) ?e = ?e"
    using graphic_no_break by (auto simp: list_all_iff filter_id_conv b64_ok_def)
  moreover have "those (map b64_val ?e) = Some (b64_nums (map byte_of s))"
    using g by (simp add: b64_nums_def those_some)
  ultimately show ?thesis
    using b64_decode_encode [OF code_bytes, of s]
    by (simp add: DecodeString_def EncodeToString_def comp_def)
qed

lemma EncodeToString_graphic: "list_all graphic (EncodeToString s)"
  using b64_encode_val [OF code_bytes, of s] by (auto simp: EncodeToString_def list_all_iff b64_ok_def)

lemma EncodeToString_Nil [simp]: "EncodeToString s = [] \<longleftrightarrow> s = []"
proof (cases s)
  case (Cons c t)
  then show ?thesis
    by (cases t rule: list.exhaust; cases "tl t" rule: list.exhaust) (auto simp: EncodeToString_def)
qed (simp add: EncodeToString_def)

end
