(* ===== verification/Go_Json.thy ===== *)
theory Go_Json
  imports Go_Text
begin

text \<open>
  JSON as \<open>encoding/json\<close> reads and writes it: the text of a value as \<open>json.Marshal\<close> prints it, the parser behind
  \<open>json.Unmarshal\<close> and \<open>Decoder.Decode\<close>, and how a parsed object is stored into a struct (keys match fields exactly or
  up to case, later keys win, \<open>null\<close> leaves a field alone, a value of the wrong kind is an error). Numbers stay literals;
  where the source decodes into \<open>interface{}\<close> they pass through \<open>float64\<close>, which the users of this theory take as a parameter.
\<close>

subsection \<open>Values and their text\<close>

datatype json = JNull | JBool bool | JNum string | JStr string | JArr "json list" | JObj "(string \<times> json) list"

definition quote_char :: char where
  "quote_char = CHR 0x22"

definition backslash :: char where
  "backslash = CHR 0x5C"

definition hex_digit :: "nat \<Rightarrow> char" where
  "hex_digit n = (if n < 10 then char_of (48 + n) else char_of (87 + n))"

definition u_escape :: "nat \<Rightarrow> nat \<Rightarrow> nat \<Rightarrow> nat \<Rightarrow> string" where
  "u_escape a b c d = [backslash, CHR ''u'', hex_digit a, hex_digit b, hex_digit c, hex_digit d]"

definition escape_ascii :: "char \<Rightarrow> string" where
  "escape_ascii c =
     (if c = quote_char \<or> c = backslash then [backslash, c]
      else if byte_of c = 8 then [backslash, CHR ''b'']
      else if byte_of c = 12 then [backslash, CHR ''f'']
      else if byte_of c = 10 then [backslash, CHR ''n'']
      else if byte_of c = 13 then [backslash, CHR ''r'']
      else if byte_of c = 9 then [backslash, CHR ''t'']
      else if byte_of c < 32 \<or> c = CHR ''<'' \<or> c = CHR ''>'' \<or> c = CHR ''&''
      then u_escape 0 0 (byte_of c div 16) (byte_of c mod 16)
      else [c])"

definition line_sep :: "nat \<Rightarrow> string" where
  "line_sep k = [char_of (226 :: nat), char_of (128 :: nat), char_of (168 + k)]"

function json_quote :: "string \<Rightarrow> string" where
  "json_quote s =
     (if s = [] then []
      else if byte_of (hd s) < 128 then escape_ascii (hd s) @ json_quote (tl s)
      else if rune_len s = 0 then u_escape 15 15 15 13 @ json_quote (tl s)
      else if take 3 s = line_sep 0 then u_escape 2 0 2 8 @ json_quote (drop (rune_len s) s)
      else if take 3 s = line_sep 1 then u_escape 2 0 2 9 @ json_quote (drop (rune_len s) s)
      else take (rune_len s) s @ json_quote (drop (rune_len s) s))"
  by pat_completeness auto
termination
  by (relation "measure length") auto

declare json_quote.simps [simp del]

definition print_str :: "string \<Rightarrow> string" where
  "print_str s = quote_char # json_quote s @ [quote_char]"

fun print_json :: "json \<Rightarrow> string" where
  "print_json JNull = ''null''"
| "print_json (JBool b) = (if b then ''true'' else ''false'')"
| "print_json (JNum lit) = lit"
| "print_json (JStr s) = print_str s"
| "print_json (JArr vs) = ''['' @ join_with CHR '','' (map print_json vs) @ '']''"
| "print_json (JObj ms) =
     ''{'' @ join_with CHR '','' (map (\<lambda>(k, v). print_str k @ '':'' @ print_json v) ms) @ ''}''"

subsection \<open>Parsing\<close>

definition hex_val :: "char \<Rightarrow> nat option" where
  "hex_val c =
     (if between 48 57 c then Some (byte_of c - 48) else if between 97 102 c then Some (byte_of c - 87)
      else if between 65 70 c then Some (byte_of c - 55) else None)"

fun hex4 :: "string \<Rightarrow> (nat \<times> string) option" where
  "hex4 (a # b # c # d # s) =
     (case (hex_val a, hex_val b, hex_val c, hex_val d) of
        (Some w, Some x, Some y, Some z) \<Rightarrow> Some (((w * 16 + x) * 16 + y) * 16 + z, s)
      | _ \<Rightarrow> None)"
| "hex4 _ = None"

text \<open>The second half of a surrogate pair, and the rune the two make.\<close>

fun low_half :: "nat \<Rightarrow> string \<Rightarrow> (nat \<times> string) option" where
  "low_half r (b # u # s) =
     (if b = backslash \<and> u = CHR ''u'' \<and> r < 56320 then
        (case hex4 s of
           Some (l, s') \<Rightarrow>
             if 56320 \<le> l \<and> l < 57344 then Some ((r - 55296) * 1024 + (l - 56320) + 65536, s') else None
         | None \<Rightarrow> None)
      else None)"
| "low_half r _ = None"

definition simple_escape :: "char \<Rightarrow> char option" where
  "simple_escape c =
     (if c = quote_char \<or> c = backslash \<or> c = CHR ''/'' then Some c
      else if c = CHR ''b'' then Some CHR 0x08 else if c = CHR ''f'' then Some CHR 0x0C
      else if c = CHR ''n'' then Some CHR 0x0A else if c = CHR ''r'' then Some CHR 0x0D
      else if c = CHR ''t'' then Some CHR 0x09 else None)"

definition cons_str :: "string \<Rightarrow> (string \<times> string) option \<Rightarrow> (string \<times> string) option" where
  "cons_str x = map_option (\<lambda>(y, rest). (x @ y, rest))"

lemma hex4_length: "hex4 s = Some (r, s') \<Longrightarrow> length s' < length s"
  by (cases s rule: hex4.cases) (auto split: option.splits)

lemma low_half_length: "low_half r s = Some (r', s') \<Longrightarrow> length s' < length s"
  by (cases "(r, s)" rule: low_half.cases) (auto split: option.splits if_splits dest!: hex4_length)

text \<open>The text after an opening quote, up to the closing one.\<close>

function parse_str :: "string \<Rightarrow> (string \<times> string) option" where
  "parse_str s =
     (if s = [] then None
      else if hd s = quote_char then Some ([], tl s)
      else if hd s = backslash then
        (if tl s = [] then None
         else if hd (tl s) = CHR ''u'' then
           (case hex4 (tl (tl s)) of
              None \<Rightarrow> None
            | Some (r, s1) \<Rightarrow>
                if 55296 \<le> r \<and> r < 57344 then
                  (case low_half r s1 of
                     Some (r', s2) \<Rightarrow> cons_str (encode_rune r') (parse_str s2)
                   | None \<Rightarrow> cons_str utf8_fffd (parse_str s1))
                else cons_str (encode_rune r) (parse_str s1))
         else
           (case simple_escape (hd (tl s)) of
              None \<Rightarrow> None
            | Some c \<Rightarrow> cons_str [c] (parse_str (tl (tl s)))))
      else if byte_of (hd s) < 32 then None
      else if rune_len s = 0 then cons_str utf8_fffd (parse_str (tl s))
      else cons_str (take (rune_len s) s) (parse_str (drop (rune_len s) s)))"
  by pat_completeness auto
termination
  by (relation "measure length") (auto dest!: hex4_length low_half_length)

declare parse_str.simps [simp del]

definition is_digit :: "char \<Rightarrow> bool" where
  "is_digit c \<longleftrightarrow> between 48 57 c"

definition int_part :: "string \<Rightarrow> (string \<times> string) option" where
  "int_part s =
     (case s of
        [] \<Rightarrow> None
      | d # r \<Rightarrow>
          if d = CHR ''0'' then Some ([d], r)
          else if is_digit d then Some (takeWhile is_digit s, dropWhile is_digit s)
          else None)"

definition frac_part :: "string \<Rightarrow> (string \<times> string) option" where
  "frac_part s =
     (case s of
        [] \<Rightarrow> Some ([], s)
      | d # r \<Rightarrow>
          if d \<noteq> CHR ''.'' then Some ([], s)
          else if takeWhile is_digit r = [] then None
          else Some (d # takeWhile is_digit r, dropWhile is_digit r))"

definition sign_part :: "char set \<Rightarrow> string \<Rightarrow> string \<times> string" where
  "sign_part signs s = (case s of [] \<Rightarrow> ([], s) | d # r \<Rightarrow> if d \<in> signs then ([d], r) else ([], s))"

definition exp_part :: "string \<Rightarrow> (string \<times> string) option" where
  "exp_part s =
     (case s of
        [] \<Rightarrow> Some ([], s)
      | d # r \<Rightarrow>
          if d \<noteq> CHR ''e'' \<and> d \<noteq> CHR ''E'' then Some ([], s)
          else (case sign_part {CHR ''+'', CHR ''-''} r of (sg, r1) \<Rightarrow>
            if takeWhile is_digit r1 = [] then None
            else Some (d # sg @ takeWhile is_digit r1, dropWhile is_digit r1)))"

definition parse_num :: "string \<Rightarrow> (string \<times> string) option" where
  "parse_num s =
     (case sign_part {CHR ''-''} s of (sg, s1) \<Rightarrow>
        (case int_part s1 of
           None \<Rightarrow> None
         | Some (i, s2) \<Rightarrow>
            (case frac_part s2 of
               None \<Rightarrow> None
             | Some (f, s3) \<Rightarrow>
                (case exp_part s3 of None \<Rightarrow> None | Some (e, s4) \<Rightarrow> Some (sg @ i @ f @ e, s4)))))"

definition json_space :: "char \<Rightarrow> bool" where
  "json_space c \<longleftrightarrow> byte_of c \<in> {32, 9, 13, 10}"

definition skip_ws :: "string \<Rightarrow> string" where
  "skip_ws s = dropWhile json_space s"

text \<open>
  The recursive descent has fuel: a step consumes a character or is followed by one that does, so twice the length of the
  text suffices. \<open>d\<close> is the nesting that is still allowed; Go stops at 10000.
\<close>

fun parse_value :: "nat \<Rightarrow> nat \<Rightarrow> string \<Rightarrow> (json \<times> string) option"
  and parse_elems :: "nat \<Rightarrow> nat \<Rightarrow> string \<Rightarrow> (json list \<times> string) option"
  and parse_members :: "nat \<Rightarrow> nat \<Rightarrow> string \<Rightarrow> ((string \<times> json) list \<times> string) option" where
  "parse_value 0 d s = None"
| "parse_value (Suc f) d s =
     (case skip_ws s of
        [] \<Rightarrow> None
      | c # s1 \<Rightarrow>
          if c = CHR ''{'' then
            (if d = 0 then None
             else if skip_ws s1 \<noteq> [] \<and> hd (skip_ws s1) = CHR ''}'' then Some (JObj [], tl (skip_ws s1))
             else map_option (\<lambda>(ms, r). (JObj ms, r)) (parse_members f (d - 1) s1))
          else if c = CHR ''['' then
            (if d = 0 then None
             else if skip_ws s1 \<noteq> [] \<and> hd (skip_ws s1) = CHR '']'' then Some (JArr [], tl (skip_ws s1))
             else map_option (\<lambda>(vs, r). (JArr vs, r)) (parse_elems f (d - 1) s1))
          else if c = quote_char then map_option (\<lambda>(x, r). (JStr x, r)) (parse_str s1)
          else if HasPrefix (c # s1) ''true'' then Some (JBool True, drop 4 (c # s1))
          else if HasPrefix (c # s1) ''false'' then Some (JBool False, drop 5 (c # s1))
          else if HasPrefix (c # s1) ''null'' then Some (JNull, drop 4 (c # s1))
          else map_option (\<lambda>(x, r). (JNum x, r)) (parse_num (c # s1)))"
| "parse_elems 0 d s = None"
| "parse_elems (Suc f) d s =
     (case parse_value f d s of
        None \<Rightarrow> None
      | Some (v, r) \<Rightarrow>
         (case skip_ws r of
            [] \<Rightarrow> None
          | c # r1 \<Rightarrow>
              if c = CHR '']'' then Some ([v], r1)
              else if c = CHR '','' then map_option (\<lambda>(vs, r2). (v # vs, r2)) (parse_elems f d r1)
              else None))"
| "parse_members 0 d s = None"
| "parse_members (Suc f) d s =
     (case skip_ws s of
        [] \<Rightarrow> None
      | q # s1 \<Rightarrow>
          if q \<noteq> quote_char then None
          else case parse_str s1 of
            None \<Rightarrow> None
          | Some (k, r) \<Rightarrow>
             (case skip_ws r of
                [] \<Rightarrow> None
              | c # r1 \<Rightarrow>
                  if c \<noteq> CHR '':'' then None
                  else case parse_value f d r1 of
                    None \<Rightarrow> None
                  | Some (v, r2) \<Rightarrow>
                     (case skip_ws r2 of
                        [] \<Rightarrow> None
                      | e # r3 \<Rightarrow>
                          if e = CHR ''}'' then Some ([(k, v)], r3)
                          else if e = CHR '','' then map_option (\<lambda>(ms, r4). ((k, v) # ms, r4)) (parse_members f d r3)
                          else None)))"

definition decode_json :: "string \<Rightarrow> (json \<times> string) option" where
  "decode_json s = parse_value (2 * length s + 2) 10000 s"

definition parse_json :: "string \<Rightarrow> json option" where
  "parse_json s = (case decode_json s of Some (v, r) \<Rightarrow> if skip_ws r = [] then Some v else None | None \<Rightarrow> None)"

subsection \<open>Storing into structs\<close>

text \<open>Field names are compared after folding case; U+017F and U+212A fold to \<open>s\<close> and \<open>k\<close>.\<close>

fun fold_name :: "string \<Rightarrow> string" where
  "fold_name (a # b # c # s) =
     (if a = CHR 0xE2 \<and> b = CHR 0x84 \<and> c = CHR 0xAA then CHR ''k'' # fold_name s
      else if a = CHR 0xC5 \<and> b = CHR 0xBF then CHR ''s'' # fold_name (c # s)
      else (if between 65 90 a then char_of (byte_of a + 32) else a) # fold_name (b # c # s))"
| "fold_name [a, b] =
     (if a = CHR 0xC5 \<and> b = CHR 0xBF then ''s''
      else (if between 65 90 a then char_of (byte_of a + 32) else a) # fold_name [b])"
| "fold_name [a] = [if between 65 90 a then char_of (byte_of a + 32) else a]"
| "fold_name [] = []"

definition struct_field :: "string list \<Rightarrow> string \<Rightarrow> string option" where
  "struct_field names key =
     (if key \<in> set names then Some key else find (\<lambda>f. fold_name f = fold_name key) names)"

text \<open>Decoding into a \<open>string\<close> and into an \<open>int\<close> or \<open>int64\<close> field that holds \<open>old\<close>; None is a type error.\<close>

fun into_string :: "string \<Rightarrow> json \<Rightarrow> string option" where
  "into_string old JNull = Some old"
| "into_string old (JStr s) = Some s"
| "into_string old _ = None"

definition parse_int64 :: "string \<Rightarrow> int option" where
  "parse_int64 lit =
     (case sign_part {CHR ''-'', CHR ''+''} lit of (sg, ds) \<Rightarrow>
        if ds = [] \<or> \<not> list_all is_digit ds then None
        else let v = (if sg = ''-'' then - int (digits_value ds) else int (digits_value ds))
             in if in_int64 v then Some v else None)"

fun into_int :: "int \<Rightarrow> json \<Rightarrow> int option" where
  "into_int old JNull = Some old"
| "into_int old (JNum lit) = parse_int64 lit"
| "into_int old _ = None"

fun int_entries :: "(string, int) gomap \<Rightarrow> (string \<times> json) list \<Rightarrow> (string, int) gomap option" where
  "int_entries m [] = Some m"
| "int_entries m ((k, v) # ms) =
     (case into_int 0 v of None \<Rightarrow> None | Some i \<Rightarrow> int_entries (AList.update k i m) ms)"

fun into_int_map :: "(string, int) gomap \<Rightarrow> json \<Rightarrow> (string, int) gomap option" where
  "into_int_map old JNull = Some []"
| "into_int_map old (JObj ms) = int_entries old ms"
| "into_int_map old _ = None"

text \<open>A struct: each member goes to its field's decoder in turn, unknown members are skipped.\<close>

fun into_struct :: "string list \<Rightarrow> (string \<Rightarrow> json \<Rightarrow> 's \<Rightarrow> 's option) \<Rightarrow> (string \<times> json) list \<Rightarrow> 's \<Rightarrow> 's option" where
  "into_struct names set_field [] s = Some s"
| "into_struct names set_field ((k, v) # ms) s =
     (case struct_field names k of
        None \<Rightarrow> into_struct names set_field ms s
      | Some f \<Rightarrow> (case set_field f v s of None \<Rightarrow> None | Some s' \<Rightarrow> into_struct names set_field ms s'))"

fun unmarshal_struct :: "string list \<Rightarrow> (string \<Rightarrow> json \<Rightarrow> 's \<Rightarrow> 's option) \<Rightarrow> json \<Rightarrow> 's \<Rightarrow> 's option" where
  "unmarshal_struct names set_field JNull s = Some s"
| "unmarshal_struct names set_field (JObj ms) s = into_struct names set_field ms s"
| "unmarshal_struct names set_field _ s = None"

subsection \<open>Reading back what was printed\<close>

lemma cons_str_Some [simp]: "cons_str x (Some (y, r)) = Some (x @ y, r)"
  by (simp add: cons_str_def)

lemma hex_val_digit: "n < 16 \<Longrightarrow> hex_val (hex_digit n) = Some n"
  by (cases "n < 10") (auto simp: hex_val_def hex_digit_def between_def)

lemma hex4_digits:
  "a < 16 \<Longrightarrow> b < 16 \<Longrightarrow> c < 16 \<Longrightarrow> d < 16 \<Longrightarrow>
   hex4 (hex_digit a # hex_digit b # hex_digit c # hex_digit d # s) = Some (((a * 16 + b) * 16 + c) * 16 + d, s)"
  by (simp add: hex_val_digit)

lemma quote_neq [simp]: "backslash \<noteq> quote_char" "quote_char \<noteq> backslash"
  by (simp_all add: quote_char_def backslash_def)

lemma parse_u_escape:
  assumes "a < 16" "b < 16" "c < 16" "d < 16" "r = ((a * 16 + b) * 16 + c) * 16 + d" "r < 55296 \<or> 57344 \<le> r"
  shows "parse_str (u_escape a b c d @ s) = cons_str (encode_rune r) (parse_str s)"
  using assms by (subst parse_str.simps) (auto simp: u_escape_def hex4_digits simp del: hex4.simps)

lemma escape_u: "escape_ascii c = u_escape 0 0 (byte_of c div 16) (byte_of c mod 16)"
  if "byte_of c < 32 \<or> c = CHR ''<'' \<or> c = CHR ''>'' \<or> c = CHR ''&''" "byte_of c \<notin> {8, 9, 10, 12, 13}"
  using that by (auto simp: escape_ascii_def quote_char_def backslash_def)

lemma parse_simple:
  "simple_escape e = Some c \<Longrightarrow> parse_str (backslash # e # s) = cons_str [c] (parse_str s)"
  by (subst parse_str.simps) (auto simp: simple_escape_def quote_char_def backslash_def split: if_splits)

lemma parse_escape:
  assumes "byte_of c < 128"
  shows "parse_str (escape_ascii c @ s) = cons_str [c] (parse_str s)"
proof -
  consider "c = quote_char \<or> c = backslash" | "byte_of c \<in> {8, 9, 10, 12, 13}"
    | "byte_of c < 32 \<or> c = CHR ''<'' \<or> c = CHR ''>'' \<or> c = CHR ''&''" "byte_of c \<notin> {8, 9, 10, 12, 13}"
    | "c \<noteq> quote_char" "c \<noteq> backslash" "32 \<le> byte_of c" "escape_ascii c = [c]"
    by (cases "byte_of c < 32 \<or> c = CHR ''<'' \<or> c = CHR ''>'' \<or> c = CHR ''&''") (auto simp: escape_ascii_def)
  then show ?thesis
  proof cases
    case 1
    then have "escape_ascii c = [backslash, c]" "simple_escape c = Some c"
      by (auto simp: escape_ascii_def simple_escape_def)
    with parse_simple [of c c s] show ?thesis by simp
  next
    case 2
    then have "c \<in> {CHR 0x08, CHR 0x09, CHR 0x0A, CHR 0x0C, CHR 0x0D}"
      using code_inject [of c "CHR 0x08"] code_inject [of c "CHR 0x09"] code_inject [of c "CHR 0x0A"]
        code_inject [of c "CHR 0x0C"] code_inject [of c "CHR 0x0D"] by auto
    then obtain e where "escape_ascii c = [backslash, e]" "simple_escape e = Some c"
      by (auto simp: escape_ascii_def simple_escape_def quote_char_def backslash_def)
    with parse_simple [of e c s] show ?thesis by simp
  next
    case 3
    have "byte_of c div 16 < 16" "byte_of c = byte_of c div 16 * 16 + byte_of c mod 16"
      using assms by auto
    with assms show ?thesis
      using parse_u_escape [of 0 0 "byte_of c div 16" "byte_of c mod 16" "byte_of c" s] escape_u [OF 3]
      by (simp add: encode_rune_def)
  next
    case 4
    then show ?thesis
      using assms by (simp, subst parse_str.simps) (simp add: rune_len_ascii)
  qed
qed

lemma rune_len_take: "rune_len s \<noteq> 0 \<Longrightarrow> rune_len (take (rune_len s) s) = rune_len s"
  by (cases s) (auto simp: rune_len_def hd_take split: option.splits if_splits)

lemma parse_rune:
  assumes "128 \<le> byte_of (hd s)" "s \<noteq> []" "rune_len s \<noteq> 0"
  shows "parse_str (take (rune_len s) s @ t) = cons_str (take (rune_len s) s) (parse_str t)"
proof -
  let ?r = "take (rune_len s) s"
  have n: "rune_len s \<le> length s" by (rule rune_len_le)
  have "rune_len (?r @ t) = rune_len s"
    using rune_len_append [of ?r t] rune_len_take [OF assms(3)] assms(3) by simp
  moreover have "hd (?r @ t) = hd s" "?r \<noteq> []"
    using assms n by (cases s; simp)+
  moreover have "hd s \<noteq> quote_char" "hd s \<noteq> backslash"
    using assms(1) by (auto simp: quote_char_def backslash_def)
  ultimately show ?thesis
    using assms n by (subst parse_str.simps) simp
qed

lemma parse_quote: "utf8_valid s \<Longrightarrow> parse_str (json_quote s @ quote_char # rest) = Some (s, rest)"
proof (induction s rule: utf8_valid.induct)
  case (1 s)
  show ?case
  proof (cases "s = []")
    case True
    then show ?thesis by (simp add: json_quote.simps parse_str.simps)
  next
    case False
    then have len: "rune_len s \<noteq> 0" "utf8_valid (drop (rune_len s) s)"
      using "1.prems" by (auto simp: utf8_valid.simps [of s] split: if_splits)
    have IH: "parse_str (json_quote (drop (rune_len s) s) @ quote_char # rest) = Some (drop (rune_len s) s, rest)"
      using "1.IH" [OF False len] .
    show ?thesis
    proof (cases "byte_of (hd s) < 128")
      case True
      obtain c t where s: "s = c # t" using False by (cases s) auto
      with True have "rune_len s = 1" by (simp add: rune_len_ascii)
      with IH s True show ?thesis
        by (simp add: json_quote.simps [of "c # t"] parse_escape)
    next
      case high: False
      have sep: "rune_len s = 3" "encode_rune (8232 + k) = take 3 s" if "take 3 s = line_sep k" "k < 2" for k
      proof -
        have "s = line_sep k @ drop 3 s"
          using that(1) by (metis append_take_drop_id)
        moreover have "rune_len (line_sep k) = 3" "encode_rune (8232 + k) = line_sep k"
          using that(2)
          by (auto simp: less_2_cases_iff line_sep_def rune_len_def rune_lead_def between_def encode_rune_def)
        ultimately show "rune_len s = 3" "encode_rune (8232 + k) = take 3 s"
          using rune_len_append [of "line_sep k" "drop 3 s"] that(1) by simp_all
      qed
      consider "take 3 s = line_sep 0" | "take 3 s \<noteq> line_sep 0" "take 3 s = line_sep 1"
        | "take 3 s \<noteq> line_sep 0" "take 3 s \<noteq> line_sep 1" by blast
      then show ?thesis
      proof cases
        case 1
        then show ?thesis
          using IH False high len sep [of 0] append_take_drop_id [of 3 s] parse_u_escape [of 2 0 2 8 8232 "json_quote (drop 3 s) @ quote_char # rest"]
          by (simp add: json_quote.simps [of s])
      next
        case 2
        then show ?thesis
          using IH False high len sep [of 1] append_take_drop_id [of 3 s] parse_u_escape [of 2 0 2 9 8233 "json_quote (drop 3 s) @ quote_char # rest"]
          by (simp add: json_quote.simps [of s])
      next
        case 3
        then show ?thesis
          using IH False high len parse_rune [of s "json_quote (drop (rune_len s) s) @ quote_char # rest"]
          by (simp add: json_quote.simps [of s])
      qed
    qed
  qed
qed

subsection \<open>Numbers\<close>

definition num_ok :: "string \<Rightarrow> bool" where
  "num_ok lit \<longleftrightarrow> parse_num lit = Some (lit, [])"

text \<open>What may follow a number without being read as a part of it.\<close>

definition num_end :: "string \<Rightarrow> bool" where
  "num_end r \<longleftrightarrow> r = [] \<or> \<not> is_digit (hd r) \<and> hd r \<noteq> CHR ''.'' \<and> hd r \<noteq> CHR ''e'' \<and> hd r \<noteq> CHR ''E''"

lemma span_append:
  "r = [] \<or> \<not> P (hd r) \<Longrightarrow> takeWhile P (s @ r) = takeWhile P s \<and> dropWhile P (s @ r) = dropWhile P s @ r"
  by (induction s) (cases r; auto)+

lemma num_end_digits: "num_end r \<Longrightarrow> takeWhile is_digit (s @ r) = takeWhile is_digit s"
  "num_end r \<Longrightarrow> dropWhile is_digit (s @ r) = dropWhile is_digit s @ r"
  using span_append [of r is_digit s] by (auto simp: num_end_def)

lemma int_part_append: "num_end r \<Longrightarrow> int_part s = Some (x, s') \<Longrightarrow> int_part (s @ r) = Some (x, s' @ r)"
  using num_end_digits [of r s] by (auto simp: int_part_def split: list.splits if_splits)

lemma frac_part_append: "num_end r \<Longrightarrow> frac_part s = Some (x, s') \<Longrightarrow> frac_part (s @ r) = Some (x, s' @ r)"
  using num_end_digits [of r "tl s"] by (auto simp: frac_part_def num_end_def split: list.splits if_splits)

lemma sign_part_append: "sign_part S s = (x, s') \<Longrightarrow> s' \<noteq> [] \<Longrightarrow> sign_part S (s @ r) = (x, s' @ r)"
  by (auto simp: sign_part_def split: list.splits if_splits)

lemma exp_part_append:
  assumes "num_end r" "exp_part s = Some (x, s')"
  shows "exp_part (s @ r) = Some (x, s' @ r)"
proof (cases s)
  case Nil
  with assms show ?thesis by (auto simp: exp_part_def num_end_def split: list.splits)
next
  case (Cons d t)
  obtain sg t1 where sg: "sign_part {CHR ''+'', CHR ''-''} t = (sg, t1)" by (cases "sign_part {CHR ''+'', CHR ''-''} t")
  show ?thesis
  proof (cases "d \<noteq> CHR ''e'' \<and> d \<noteq> CHR ''E''")
    case True
    with assms Cons show ?thesis by (auto simp: exp_part_def)
  next
    case False
    with assms(2) Cons sg have t1: "takeWhile is_digit t1 \<noteq> []" "x = d # sg @ takeWhile is_digit t1" "s' = dropWhile is_digit t1"
      by (auto simp: exp_part_def split: if_splits)
    then have "sign_part {CHR ''+'', CHR ''-''} (t @ r) = (sg, t1 @ r)"
      by (intro sign_part_append [OF sg]) auto
    with False Cons t1 num_end_digits [OF assms(1), of t1] show ?thesis by (simp add: exp_part_def)
  qed
qed

lemma parse_num_append:
  assumes "num_ok lit" "num_end r"
  shows "parse_num (lit @ r) = Some (lit, r)"
proof -
  obtain sg s1 i s2 f s3 e where p: "sign_part {CHR ''-''} lit = (sg, s1)" "int_part s1 = Some (i, s2)"
      "frac_part s2 = Some (f, s3)" "exp_part s3 = Some (e, [])" "lit = sg @ i @ f @ e"
    using assms(1) by (auto simp: num_ok_def parse_num_def split: prod.splits option.splits)
  then have "s1 \<noteq> []" by (auto simp: int_part_def)
  with p show ?thesis
    using sign_part_append [OF p(1)] int_part_append [OF assms(2) p(2)] frac_part_append [OF assms(2) p(3)]
      exp_part_append [OF assms(2) p(4)] by (simp add: parse_num_def)
qed

lemma num_first: "num_ok lit \<Longrightarrow> lit \<noteq> [] \<and> (is_digit (hd lit) \<or> hd lit = CHR ''-'')"
  by (auto simp: num_ok_def parse_num_def sign_part_def int_part_def is_digit_def between_def
      split: list.splits option.splits if_splits)

lemma nat_digits_all: "list_all is_digit (nat_digits n)"
proof (induction n rule: less_induct)
  case (less n)
  have "is_digit (char_of (48 + d))" if "d < 10" for d :: nat
    using that by (simp add: is_digit_def between_def)
  with less [of "n div 10"] show ?case
    by (cases "n < 10") (simp_all add: nat_digits.simps [of n])
qed

lemma nat_digits_zero: "nat_digits n = CHR ''0'' # s \<Longrightarrow> s = []"
proof (induction n arbitrary: s rule: less_induct)
  case (less n)
  show ?case
  proof (cases "n < 10")
    case True
    with less.prems show ?thesis by (simp add: nat_digits.simps [of n])
  next
    case False
    obtain c t where t: "nat_digits (n div 10) = c # t"
      using nat_digits_head(2) by (cases "nat_digits (n div 10)") auto
    with False less.prems have "c = CHR ''0''" by (simp add: nat_digits.simps [of n])
    with t less.IH [of "n div 10" t] False have "nat_digits (n div 10) = ''0''" by simp
    then have "n div 10 = 0"
      using digits_value_nat [of "n div 10"] by (simp add: digits_value_def)
    with False show ?thesis by simp
  qed
qed

lemma digits_ok: "list_all is_digit s \<Longrightarrow> s \<noteq> [] \<Longrightarrow> (\<And>t. s = CHR ''0'' # t \<Longrightarrow> t = []) \<Longrightarrow> int_part s = Some (s, [])"
  by (cases s) (auto simp: int_part_def list_all_iff)

lemma show_int_ok: "num_ok (show_int i)"
proof -
  have d: "int_part (nat_digits n) = Some (nat_digits n, [])" for n
    using digits_ok [OF nat_digits_all nat_digits_head(2)] nat_digits_zero by metis
  have "sign_part {CHR ''-''} (nat_digits n) = ([], nat_digits n)" for n
    using nat_digits_head [of n] by (cases "nat_digits n") (auto simp: sign_part_def)
  with d show ?thesis
    by (auto simp: num_ok_def parse_num_def show_int_def frac_part_def exp_part_def sign_part_def)
qed

lemma parse_int64_show: "in_int64 i \<Longrightarrow> parse_int64 (show_int i) = Some i"
proof -
  assume i: "in_int64 i"
  have "sign_part {CHR ''-'', CHR ''+''} (nat_digits n) = ([], nat_digits n)" for n
  proof -
    have "hd (nat_digits n) \<noteq> CHR ''+''"
      using nat_digits_all [of n] nat_digits_head(2) [of n] by (cases "nat_digits n") (auto simp: is_digit_def between_def)
    then show ?thesis
      using nat_digits_head [of n] by (cases "nat_digits n") (auto simp: sign_part_def)
  qed
  with i show ?thesis
    using nat_digits_head(2) nat_digits_all
    by (auto simp: parse_int64_def show_int_def sign_part_def digits_value_nat Let_def)
qed

subsection \<open>Values\<close>

text \<open>Values that can be printed and read back: strings in UTF-8, numbers that are literals, limited nesting.\<close>

fun json_ok :: "nat \<Rightarrow> json \<Rightarrow> bool" where
  "json_ok d (JNum lit) = num_ok lit"
| "json_ok d (JStr s) = utf8_valid s"
| "json_ok d (JArr vs) = (0 < d \<and> list_all (json_ok (d - 1)) vs)"
| "json_ok d (JObj ms) = (0 < d \<and> list_all (\<lambda>(k, v). utf8_valid k \<and> json_ok (d - 1) v) ms)"
| "json_ok d _ = True"

fun json_size :: "json \<Rightarrow> nat" where
  "json_size (JArr vs) = Suc (sum_list (map (\<lambda>v. Suc (json_size v)) vs))"
| "json_size (JObj ms) = Suc (sum_list (map (\<lambda>(k, v). Suc (json_size v)) ms))"
| "json_size _ = 1"

definition first_ok :: "char \<Rightarrow> bool" where
  "first_ok c \<longleftrightarrow> c = CHR ''{'' \<or> c = CHR ''['' \<or> c = quote_char \<or> c = CHR ''t'' \<or> c = CHR ''f'' \<or> c = CHR ''n''
     \<or> is_digit c \<or> c = CHR ''-''"

lemma print_first: "json_ok d v \<Longrightarrow> \<exists>c s. print_json v = c # s \<and> first_ok c"
proof (cases v)
  case (JNum lit)
  assume "json_ok d v"
  with JNum show ?thesis
    using num_first [of lit] by (cases lit) (auto simp: first_ok_def)
qed (auto simp: first_ok_def print_str_def)

lemma first_not_space: "first_ok c \<Longrightarrow> \<not> json_space c"
  by (auto simp: first_ok_def json_space_def is_digit_def between_def quote_char_def)

lemma skip_first [simp]: "\<not> json_space c \<Longrightarrow> skip_ws (c # s) = c # s"
  by (simp add: skip_ws_def)

lemma not_space [simp]:
  "\<not> json_space CHR '',''" "\<not> json_space CHR '']''" "\<not> json_space CHR ''}''" "\<not> json_space CHR '':''"
  "\<not> json_space quote_char"
  by (simp_all add: json_space_def quote_char_def)

lemma quote_neqs: "quote_char \<noteq> CHR ''{''" "quote_char \<noteq> CHR ''[''"
  by (simp_all add: quote_char_def)

lemma delim_end [simp]: "num_end (CHR '','' # s)" "num_end (CHR '']'' # s)" "num_end (CHR ''}'' # s)" "num_end []"
  by (simp_all add: num_end_def is_digit_def between_def)

lemma parse_num_value:
  assumes "num_ok lit" "num_end r"
  shows "parse_value (Suc f) d (lit @ r) = Some (JNum lit, r)"
proof -
  obtain c s where lit: "lit = c # s" "is_digit c \<or> c = CHR ''-''"
    using num_first [OF assms(1)] by (cases lit) auto
  then have "c \<noteq> CHR ''{'' \<and> c \<noteq> CHR ''['' \<and> c \<noteq> quote_char \<and> c \<noteq> CHR ''t'' \<and> c \<noteq> CHR ''f'' \<and> c \<noteq> CHR ''n'' \<and> \<not> json_space c"
    by (auto simp: is_digit_def between_def quote_char_def json_space_def)
  then show ?thesis
    using parse_num_append [OF assms] lit by (simp add: HasPrefix_def)
qed

lemma parse_elems_print:
  assumes "\<And>v f r. v \<in> set vs \<Longrightarrow> json_size v \<le> f \<Longrightarrow> num_end r \<Longrightarrow> parse_value f d (print_json v @ r) = Some (v, r)"
    and "vs \<noteq> []" "sum_list (map (\<lambda>v. Suc (json_size v)) vs) \<le> f"
  shows "parse_elems f d (join_with CHR '','' (map print_json vs) @ CHR '']'' # r) = Some (vs, r)"
  using assms
proof (induction vs arbitrary: f)
  case (Cons v vs)
  then obtain f' where f: "f = Suc f'" "json_size v \<le> f'" "sum_list (map (\<lambda>v. Suc (json_size v)) vs) \<le> f'"
    by (cases f) auto
  show ?case
  proof (cases vs)
    case Nil
    with f Cons.prems(1) [of v f'] show ?thesis by simp
  next
    case (Cons w ws)
    have "parse_elems f' d (join_with CHR '','' (map print_json vs) @ CHR '']'' # r) = Some (vs, r)"
      using Cons.IH [of f'] Cons.prems(1) f(3) Cons by simp
    with Cons f Cons.prems(1) [of v f'] show ?thesis by simp
  qed
qed simp

lemma parse_members_print:
  assumes "\<And>k v f r. (k, v) \<in> set ms \<Longrightarrow> json_size v \<le> f \<Longrightarrow> num_end r \<Longrightarrow> parse_value f d (print_json v @ r) = Some (v, r)"
    and "\<And>k v. (k, v) \<in> set ms \<Longrightarrow> utf8_valid k" "ms \<noteq> []" "sum_list (map (\<lambda>(k, v). Suc (json_size v)) ms) \<le> f"
  shows "parse_members f d (join_with CHR '','' (map (\<lambda>(k, v). print_str k @ '':'' @ print_json v) ms) @ CHR ''}'' # r)
    = Some (ms, r)"
  using assms
proof (induction ms arbitrary: f)
  case (Cons m ms)
  obtain k v where m: "m = (k, v)" by (cases m)
  with Cons.prems obtain f' where f: "f = Suc f'" "json_size v \<le> f'" "sum_list (map (\<lambda>(k, v). Suc (json_size v)) ms) \<le> f'"
    by (cases f) auto
  have k: "utf8_valid k" using Cons.prems(2) [of k v] m by simp
  show ?case
  proof (cases ms)
    case Nil
    with f m k Cons.prems(1) [of k v f'] show ?thesis by (simp add: print_str_def parse_quote)
  next
    case (Cons w ws)
    have "parse_members f' d (join_with CHR '','' (map (\<lambda>(k, v). print_str k @ '':'' @ print_json v) ms) @ CHR ''}'' # r)
        = Some (ms, r)"
    proof (rule Cons.IH)
      show "parse_value f d (print_json v @ r) = Some (v, r)" if "(k, v) \<in> set ms" "json_size v \<le> f" "num_end r" for k v f r
        using Cons.prems(1) [of k v f r] that by simp
      show "utf8_valid k" if "(k, v) \<in> set ms" for k v
        using Cons.prems(2) [of k v] that by simp
    qed (use Cons f(3) in simp_all)
    with Cons f m k Cons.prems(1) [of k v f'] show ?thesis by (simp add: print_str_def parse_quote)
  qed
qed simp

lemma join_first:
  "ps \<noteq> [] \<Longrightarrow> hd ps \<noteq> [] \<Longrightarrow> \<exists>s. join_with c ps @ r = hd (hd ps) # s"
  by (cases "(c, ps)" rule: join_with.cases) (auto simp: neq_Nil_conv)

lemma parse_print_value:
  "json_ok d v \<Longrightarrow> json_size v \<le> f \<Longrightarrow> num_end r \<Longrightarrow> parse_value f d (print_json v @ r) = Some (v, r)"
proof (induction v arbitrary: d f r rule: print_json.induct)
  case 1
  then show ?case by (cases f) (simp_all add: HasPrefix_def quote_char_def json_space_def)
next
  case (2 b)
  then show ?case by (cases f) (simp_all add: HasPrefix_def quote_char_def json_space_def)
next
  case (3 lit)
  then show ?case by (cases f) (simp_all add: parse_num_value del: parse_value.simps(2))
next
  case (4 s)
  then show ?case by (cases f) (simp_all add: print_str_def parse_quote quote_neqs)
next
  case (5 vs)
  obtain f' where f: "f = Suc f'" "sum_list (map (\<lambda>v. Suc (json_size v)) vs) \<le> f'"
    using "5.prems"(2) by (cases f) auto
  have d: "0 < d" "\<And>v. v \<in> set vs \<Longrightarrow> json_ok (d - 1) v"
    using "5.prems"(1) by (auto simp: list_all_iff)
  show ?case
  proof (cases "vs = []")
    case True
    with f d show ?thesis by (simp add: json_space_def)
  next
    case False
    have e: "parse_elems f' (d - 1) (join_with CHR '','' (map print_json vs) @ CHR '']'' # r) = Some (vs, r)"
      using "5.IH" d(2) False f(2) by (intro parse_elems_print) auto
    obtain c s where c: "print_json (hd vs) = c # s" "first_ok c"
      using print_first [OF d(2)] False by (metis list.set_sel(1))
    then obtain t where "join_with CHR '','' (map print_json vs) @ CHR '']'' # r = c # t"
      using join_first [of "map print_json vs" "CHR '',''" "CHR '']'' # r"] False by (auto simp: hd_map)
    moreover have "c \<noteq> CHR '']''" using c(2) by (auto simp: first_ok_def is_digit_def between_def quote_char_def)
    ultimately show ?thesis
      using e f(1) d(1) first_not_space [OF c(2)] by (simp add: json_space_def)
  qed
next
  case (6 ms)
  obtain f' where f: "f = Suc f'" "sum_list (map (\<lambda>(k, v). Suc (json_size v)) ms) \<le> f'"
    using "6.prems"(2) by (cases f) auto
  have d: "0 < d" "\<And>k v. (k, v) \<in> set ms \<Longrightarrow> json_ok (d - 1) v \<and> utf8_valid k"
    using "6.prems"(1) by (auto simp: list_all_iff)
  let ?t = "join_with CHR '','' (map (\<lambda>(k, v). print_str k @ '':'' @ print_json v) ms) @ CHR ''}'' # r"
  show ?case
  proof (cases "ms = []")
    case True
    with f d show ?thesis by (simp add: json_space_def)
  next
    case False
    have e: "parse_members f' (d - 1) ?t = Some (ms, r)"
      using "6.IH" d(2) False f(2) by (intro parse_members_print) (auto split: prod.splits)
    obtain k v where "hd ms = (k, v)" by (cases "hd ms")
    then obtain s where "?t = quote_char # s"
      using join_first [of "map (\<lambda>(k, v). print_str k @ '':'' @ print_json v) ms" "CHR '',''" "CHR ''}'' # r"] False
      by (auto simp: hd_map print_str_def)
    then show ?thesis
      using e f(1) d(1) by (simp add: json_space_def quote_char_def)
  qed
qed

lemma length_join: "sum_list (map length ps) \<le> length (join_with c ps)"
  by (induction c ps rule: join_with.induct) auto

lemma json_size_length: "json_ok d v \<Longrightarrow> json_size v < 2 * length (print_json v)"
proof (induction v arbitrary: d rule: print_json.induct)
  case (3 lit)
  then show ?case using num_first [of lit] by (cases lit) auto
next
  case (5 vs)
  have "sum_list (map (\<lambda>v. Suc (json_size v)) vs) \<le> sum_list (map (\<lambda>v. 2 * length (print_json v)) vs)"
    using 5 by (intro sum_list_mono) (fastforce simp: list_all_iff Suc_le_eq)
  also have "\<dots> = 2 * sum_list (map length (map print_json vs))"
    by (simp add: sum_list_const_mult comp_def)
  also have "\<dots> \<le> 2 * length (join_with CHR '','' (map print_json vs))"
    using length_join by (rule mult_le_mono2)
  finally show ?case by simp
next
  case (6 ms)
  let ?p = "\<lambda>(k, v). print_str k @ '':'' @ print_json v"
  have "sum_list (map (\<lambda>(k, v). Suc (json_size v)) ms) \<le> sum_list (map (\<lambda>m. 2 * length (?p m)) ms)"
  proof (intro sum_list_mono)
    fix m assume m: "m \<in> set ms"
    obtain k v where kv: "m = (k, v)" by (cases m)
    with m 6 have "json_size v < 2 * length (print_json v)" by (fastforce simp: list_all_iff)
    with kv show "(case m of (k, v) \<Rightarrow> Suc (json_size v)) \<le> 2 * length (?p m)" by simp
  qed
  also have "\<dots> = 2 * sum_list (map length (map ?p ms))"
    by (simp add: sum_list_const_mult comp_def)
  also have "\<dots> \<le> 2 * length (join_with CHR '','' (map ?p ms))"
    using length_join by (rule mult_le_mono2)
  finally show ?case by simp
qed (auto simp: print_str_def)

lemma parse_print: "json_ok 10000 v \<Longrightarrow> parse_json (print_json v) = Some v"
proof -
  assume v: "json_ok 10000 v"
  have "decode_json (print_json v) = Some (v, [])"
    using parse_print_value [OF v, of "2 * length (print_json v) + 2" "[]"] json_size_length [OF v]
    by (simp add: decode_json_def)
  then show ?thesis
    by (simp add: parse_json_def skip_ws_def)
qed

subsection \<open>Printed text has no control characters\<close>

definition no_ctl :: "string \<Rightarrow> bool" where
  "no_ctl s \<longleftrightarrow> list_all (\<lambda>c. 32 \<le> byte_of c) s"

lemma no_ctl_simps [simp]:
  "no_ctl []" "no_ctl (c # s) \<longleftrightarrow> 32 \<le> byte_of c \<and> no_ctl s" "no_ctl (s @ t) \<longleftrightarrow> no_ctl s \<and> no_ctl t"
  by (simp_all add: no_ctl_def)

lemma hex_digit_ctl: "n < 16 \<Longrightarrow> 32 \<le> byte_of (hex_digit n)"
  by (simp add: hex_digit_def)

lemma u_escape_ctl: "a < 16 \<Longrightarrow> b < 16 \<Longrightarrow> c < 16 \<Longrightarrow> d < 16 \<Longrightarrow> no_ctl (u_escape a b c d)"
  by (simp add: u_escape_def hex_digit_ctl backslash_def)

lemma escape_ascii_ctl: "byte_of c < 128 \<Longrightarrow> no_ctl (escape_ascii c)"
  by (auto simp: escape_ascii_def u_escape_ctl backslash_def quote_char_def)

lemma rune_ctl: "128 \<le> byte_of (hd s) \<Longrightarrow> no_ctl (take (rune_len s) s)"
proof (cases s)
  case (Cons c t)
  assume c: "128 \<le> byte_of (hd s)"
  show ?thesis
  proof (cases "rune_len s = 0")
    case False
    then obtain n lo hi where n: "rune_lead c = Some (n, lo, hi)" "n \<noteq> 0" "rune_len s = n + 1" "list_all (between 128 191) (take n t)"
      using Cons c by (auto simp: rune_len_def rune_lead_def between_def split: option.splits if_splits)
    then have "list_all (\<lambda>c. 32 \<le> byte_of c) (take n t)"
      by (auto simp: list_all_iff between_def)
    with n c Cons show ?thesis by (simp add: no_ctl_def)
  qed simp
qed simp

lemma json_quote_ctl: "no_ctl (json_quote s)"
proof (induction s rule: json_quote.induct)
  case (1 s)
  show ?case
    using 1 rune_ctl [of s] by (subst json_quote.simps) (simp add: escape_ascii_ctl u_escape_ctl)
qed

lemma digits_ctl: "no_ctl (takeWhile is_digit s)"
  by (auto simp: no_ctl_def list_all_iff is_digit_def between_def dest!: set_takeWhileD)

lemma digit_ctl: "is_digit c \<Longrightarrow> 32 \<le> byte_of c"
  by (simp add: is_digit_def between_def)

lemma num_ctl: "num_ok lit \<Longrightarrow> no_ctl lit"
proof -
  assume "num_ok lit"
  then obtain sg s1 i s2 f s3 e where p: "sign_part {CHR ''-''} lit = (sg, s1)" "int_part s1 = Some (i, s2)"
      "frac_part s2 = Some (f, s3)" "exp_part s3 = Some (e, [])" "lit = sg @ i @ f @ e"
    by (auto simp: num_ok_def parse_num_def split: prod.splits option.splits)
  have "no_ctl sg" using p(1) by (auto simp: sign_part_def split: list.splits if_splits)
  moreover have "no_ctl i" using p(2) digits_ctl [of s1] by (auto simp: int_part_def split: list.splits if_splits)
  moreover have "no_ctl f" using p(3) digits_ctl [of "tl s2"] by (auto simp: frac_part_def split: list.splits if_splits)
  moreover have "no_ctl e"
    using p(4) digits_ctl by (auto simp: exp_part_def sign_part_def digit_ctl split: list.splits if_splits)
  ultimately show ?thesis using p(5) by simp
qed

lemma join_ctl: "32 \<le> byte_of c \<Longrightarrow> no_ctl (join_with c ps) \<longleftrightarrow> list_all no_ctl ps"
  by (induction c ps rule: join_with.induct) auto

lemma print_ctl: "json_ok d v \<Longrightarrow> no_ctl (print_json v)"
proof (induction v arbitrary: d rule: print_json.induct)
  case (5 vs)
  then show ?case by (auto simp: join_ctl list_all_iff)
next
  case (6 ms)
  then show ?case by (fastforce simp: join_ctl list_all_iff print_str_def json_quote_ctl quote_char_def)
qed (auto simp: num_ctl print_str_def json_quote_ctl quote_char_def)

end
