(* ===== verification/Http_Cursor.thy ===== *)
theory Http_Cursor
  imports Go_Json
begin

text \<open>
  Resume cursors of the event stream: the server's \<open>internal/httpapi/sse_cursor.go\<close> and the client library's
  \<open>pkg/httpclient/sse_cursor.go\<close>. A cursor is the base64 text of a JSON object. \<open>json.Marshal\<close> does not fail on these
  structs, so the encoders return the text itself.
\<close>

subsection \<open>Definitions\<close>

definition sseCursorVersion :: int where
  "sseCursorVersion = 1"

record event_cursor =
  ec_Version :: int
  ec_NodeID :: string
  ec_Topic :: string
  ec_Offset :: int

record multi_cursor =
  mc_Version :: int
  mc_Node :: string
  mc_Topics :: "(string, int) gomap"

datatype cursor_error =
    CursorRequired | CursorBase64 | CursorJson | CursorVersion int | CursorNodeRequired
  | CursorTopicRequired | CursorNegativeOffset

definition event_cursor_json :: "event_cursor \<Rightarrow> json" where
  "event_cursor_json c =
     JObj [(''v'', JNum (show_int (ec_Version c))), (''nodeId'', JStr (ec_NodeID c)), (''topic'', JStr (ec_Topic c)),
           (''offset'', JNum (show_int (ec_Offset c)))]"

text \<open>A map is printed with its keys in order.\<close>

definition multi_cursor_json :: "multi_cursor \<Rightarrow> json" where
  "multi_cursor_json c =
     JObj [(''v'', JNum (show_int (mc_Version c))), (''nodeId'', JStr (mc_Node c)),
           (''topics'', JObj (map (\<lambda>t. (t, JNum (show_int (gm_get 0 (mc_Topics c) t)))) (sort (map fst (mc_Topics c)))))]"

definition encodeSSECursor :: "json \<Rightarrow> string" where
  "encodeSSECursor cursor = EncodeToString (print_json cursor)"

definition encodeSSEEventCursor :: "string \<Rightarrow> string \<Rightarrow> int \<Rightarrow> string" where
  "encodeSSEEventCursor nodeID topic offset =
     encodeSSECursor (event_cursor_json
       \<lparr>ec_Version = sseCursorVersion, ec_NodeID = nodeID, ec_Topic = topic, ec_Offset = offset\<rparr>)"

fun validateSSECursorTopics :: "(string, int) gomap \<Rightarrow> cursor_error option" where
  "validateSSECursorTopics [] = None"
| "validateSSECursorTopics ((topic, offset) # m) =
     (if topic = [] then Some CursorTopicRequired
      else if offset < 0 then Some CursorNegativeOffset
      else validateSSECursorTopics m)"

record cursor_envelope =
  en_v :: int
  en_nodeId :: string
  en_topic :: string
  en_offset :: int
  en_topics :: "(string, int) gomap"

definition set_envelope :: "string \<Rightarrow> json \<Rightarrow> cursor_envelope \<Rightarrow> cursor_envelope option" where
  "set_envelope f v e =
     (if f = ''v'' then map_option (\<lambda>x. e\<lparr>en_v := x\<rparr>) (into_int (en_v e) v)
      else if f = ''nodeId'' then map_option (\<lambda>x. e\<lparr>en_nodeId := x\<rparr>) (into_string (en_nodeId e) v)
      else if f = ''topic'' then map_option (\<lambda>x. e\<lparr>en_topic := x\<rparr>) (into_string (en_topic e) v)
      else if f = ''offset'' then map_option (\<lambda>x. e\<lparr>en_offset := x\<rparr>) (into_int (en_offset e) v)
      else map_option (\<lambda>x. e\<lparr>en_topics := x\<rparr>) (into_int_map (en_topics e) v))"

definition decodeSSECursor :: "string \<Rightarrow> cursor_error + multi_cursor" where
  "decodeSSECursor raw =
     (if raw = [] then Inl CursorRequired
      else case DecodeString raw of
        None \<Rightarrow> Inl CursorBase64
      | Some data \<Rightarrow>
         (case Option.bind (parse_json data) (\<lambda>v. unmarshal_struct [''v'', ''nodeId'', ''topic'', ''offset'', ''topics''] set_envelope v
                 \<lparr>en_v = 0, en_nodeId = [], en_topic = [], en_offset = 0, en_topics = []\<rparr>) of
            None \<Rightarrow> Inl CursorJson
          | Some envelope \<Rightarrow>
              if en_v envelope \<noteq> sseCursorVersion then Inl (CursorVersion (en_v envelope))
              else if en_nodeId envelope = [] then Inl CursorNodeRequired
              else if en_topics envelope \<noteq> [] then
                (case validateSSECursorTopics (en_topics envelope) of
                   Some err \<Rightarrow> Inl err
                 | None \<Rightarrow> Inr \<lparr>mc_Version = en_v envelope, mc_Node = en_nodeId envelope, mc_Topics = en_topics envelope\<rparr>)
              else if en_topic envelope = [] then Inl CursorTopicRequired
              else if en_offset envelope < 0 then Inl CursorNegativeOffset
              else Inr \<lparr>mc_Version = en_v envelope, mc_Node = en_nodeId envelope,
                        mc_Topics = [(en_topic envelope, en_offset envelope)]\<rparr>))"

text \<open>The client's side.\<close>

definition client_encodeSSECursor :: "json \<Rightarrow> string" where
  "client_encodeSSECursor cursor = EncodeToString (print_json cursor)"

definition set_event_cursor :: "string \<Rightarrow> json \<Rightarrow> event_cursor \<Rightarrow> event_cursor option" where
  "set_event_cursor f v c =
     (if f = ''v'' then map_option (\<lambda>x. c\<lparr>ec_Version := x\<rparr>) (into_int (ec_Version c) v)
      else if f = ''nodeId'' then map_option (\<lambda>x. c\<lparr>ec_NodeID := x\<rparr>) (into_string (ec_NodeID c) v)
      else if f = ''topic'' then map_option (\<lambda>x. c\<lparr>ec_Topic := x\<rparr>) (into_string (ec_Topic c) v)
      else map_option (\<lambda>x. c\<lparr>ec_Offset := x\<rparr>) (into_int (ec_Offset c) v))"

definition decodeSSEEventCursor :: "string \<Rightarrow> cursor_error + event_cursor" where
  "decodeSSEEventCursor raw =
     (case DecodeString raw of
        None \<Rightarrow> Inl CursorBase64
      | Some data \<Rightarrow>
         (case Option.bind (parse_json data) (\<lambda>v. unmarshal_struct [''v'', ''nodeId'', ''topic'', ''offset''] set_event_cursor v
                 \<lparr>ec_Version = 0, ec_NodeID = [], ec_Topic = [], ec_Offset = 0\<rparr>) of
            None \<Rightarrow> Inl CursorJson
          | Some cursor \<Rightarrow>
              if ec_Version cursor \<noteq> sseCursorVersion then Inl (CursorVersion (ec_Version cursor))
              else if ec_NodeID cursor = [] then Inl CursorNodeRequired
              else if ec_Topic cursor = [] then Inl CursorTopicRequired
              else if ec_Offset cursor < 0 then Inl CursorNegativeOffset
              else Inr cursor))"

definition encodeSSEMultiTopicCursor :: "string \<Rightarrow> (string, int) gomap \<Rightarrow> string" where
  "encodeSSEMultiTopicCursor nodeID topics =
     (if nodeID = [] \<or> topics = [] then []
      else client_encodeSSECursor (multi_cursor_json
        \<lparr>mc_Version = sseCursorVersion, mc_Node = nodeID, mc_Topics = topics\<rparr>))"

subsection \<open>Lemmas\<close>

definition cursor_ok :: "multi_cursor \<Rightarrow> bool" where
  "cursor_ok c \<longleftrightarrow> mc_Version c = sseCursorVersion \<and> mc_Node c \<noteq> [] \<and> mc_Topics c \<noteq> []
     \<and> list_all (\<lambda>(t, i). t \<noteq> [] \<and> 0 \<le> i) (mc_Topics c)"

lemma validate_iff: "validateSSECursorTopics m = None \<longleftrightarrow> list_all (\<lambda>(t, i). t \<noteq> [] \<and> 0 \<le> i) m"
  by (induction m rule: validateSSECursorTopics.induct) auto

lemma decode_ok: "decodeSSECursor raw = Inr c \<Longrightarrow> cursor_ok c"
  by (auto simp: decodeSSECursor_def cursor_ok_def validate_iff list_all_iff split: option.splits if_splits)

definition name_ok :: "string \<Rightarrow> bool" where
  "name_ok s \<longleftrightarrow> s \<noteq> [] \<and> utf8_valid s"

definition offset_ok :: "int \<Rightarrow> bool" where
  "offset_ok i \<longleftrightarrow> 0 \<le> i \<and> i \<le> max_int64"

lemma offset_int64: "offset_ok i \<Longrightarrow> in_int64 i"
  by (simp add: offset_ok_def in_int64_def max_int64_def)

lemma ascii_names: "utf8_valid ''v''" "utf8_valid ''nodeId''" "utf8_valid ''topic''" "utf8_valid ''offset''" "utf8_valid ''topics''"
  by (simp_all add: utf8_ascii)

lemma event_cursor_text:
  assumes "name_ok n" "name_ok t" "offset_ok i"
  defines "c \<equiv> event_cursor_json \<lparr>ec_Version = 1, ec_NodeID = n, ec_Topic = t, ec_Offset = i\<rparr>"
  shows "DecodeString (encodeSSEEventCursor n t i) = Some (print_json c)" "parse_json (print_json c) = Some c"
    "encodeSSEEventCursor n t i \<noteq> []"
proof -
  have "json_ok 10000 c"
    using assms(1,2) by (simp add: c_def event_cursor_json_def show_int_ok name_ok_def ascii_names)
  then show "parse_json (print_json c) = Some c"
    by (rule parse_print)
  show "DecodeString (encodeSSEEventCursor n t i) = Some (print_json c)" "encodeSSEEventCursor n t i \<noteq> []"
    by (simp_all add: c_def encodeSSEEventCursor_def encodeSSECursor_def base64_inverse sseCursorVersion_def event_cursor_json_def)
qed

lemma decode_event_cursor:
  assumes "name_ok n" "name_ok t" "offset_ok i"
  shows "decodeSSECursor (encodeSSEEventCursor n t i) = Inr \<lparr>mc_Version = 1, mc_Node = n, mc_Topics = [(t, i)]\<rparr>"
    and "decodeSSEEventCursor (encodeSSEEventCursor n t i) = Inr \<lparr>ec_Version = 1, ec_NodeID = n, ec_Topic = t, ec_Offset = i\<rparr>"
proof -
  have one: "parse_int64 (show_int 1) = Some 1"
    by (rule parse_int64_show) (simp add: in_int64_def max_int64_def)
  have off: "parse_int64 (show_int i) = Some i"
    using assms(3) by (intro parse_int64_show offset_int64)
  show "decodeSSECursor (encodeSSEEventCursor n t i) = Inr \<lparr>mc_Version = 1, mc_Node = n, mc_Topics = [(t, i)]\<rparr>"
    using event_cursor_text [OF assms] assms
    by (simp add: decodeSSECursor_def event_cursor_json_def one off struct_field_def set_envelope_def sseCursorVersion_def
        name_ok_def offset_ok_def)
  show "decodeSSEEventCursor (encodeSSEEventCursor n t i) = Inr \<lparr>ec_Version = 1, ec_NodeID = n, ec_Topic = t, ec_Offset = i\<rparr>"
    using event_cursor_text [OF assms] assms
    by (simp add: decodeSSEEventCursor_def event_cursor_json_def one off struct_field_def set_event_cursor_def sseCursorVersion_def
        name_ok_def offset_ok_def)
qed

lemma int_entries_show:
  "\<forall>t \<in> set ts. in_int64 (f t) \<Longrightarrow>
   int_entries acc (map (\<lambda>t. (t, JNum (show_int (f t)))) ts) = Some (gm_copy_into acc (map (\<lambda>t. (t, f t)) ts))"
  by (induction ts arbitrary: acc) (simp_all add: parse_int64_show)

lemma map_of_keys: "map_of (map (\<lambda>t. (t, f t)) ts) t = (if t \<in> set ts then Some (f t) else None)"
  by (induction ts) auto

lemma decode_multi_cursor:
  assumes n: "name_ok n" and m: "gm_wf m" "m \<noteq> []" "list_all (\<lambda>(t, i). name_ok t \<and> offset_ok i) m"
  obtains m' where "decodeSSECursor (encodeSSEMultiTopicCursor n m) = Inr \<lparr>mc_Version = 1, mc_Node = n, mc_Topics = m'\<rparr>"
    "gm_wf m'" "map_of m' = map_of m"
proof -
  let ?ts = "sort (map fst m)" and ?f = "gm_get 0 m"
  let ?c = "\<lparr>mc_Version = 1, mc_Node = n, mc_Topics = m\<rparr>" and ?m' = "map (\<lambda>t. (t, gm_get 0 m t)) (sort (map fst m))"
  have get: "name_ok t \<and> offset_ok (?f t) \<and> map_of m t = Some (?f t)" if "t \<in> set ?ts" for t
  proof -
    have "map_of m t \<noteq> None" using that by (simp add: map_of_eq_None_iff)
    then obtain i where i: "map_of m t = Some i" by blast
    with m(3) show ?thesis by (auto simp: list_all_iff gm_get_def dest: map_of_SomeD)
  qed
  have ok: "json_ok 10000 (multi_cursor_json ?c)"
    using n get by (auto simp: multi_cursor_json_def show_int_ok name_ok_def list_all_iff ascii_names)
  have one: "parse_int64 (show_int 1) = Some 1"
    by (rule parse_int64_show) (simp add: in_int64_def max_int64_def)
  have wf: "gm_wf ?m'" using m(1) by (simp add: gm_wf_def comp_def)
  have entries: "int_entries [] (map (\<lambda>t. (t, JNum (show_int (?f t)))) ?ts) = Some ?m'"
    using int_entries_show [of ?ts ?f "[]"] get gm_copy [OF wf] by (simp add: offset_int64)
  have valid: "validateSSECursorTopics ?m' = None"
    using get by (auto simp: validate_iff list_all_iff name_ok_def offset_ok_def)
  have enc: "encodeSSEMultiTopicCursor n m = EncodeToString (print_json (multi_cursor_json ?c))"
    using n m(2) by (simp add: encodeSSEMultiTopicCursor_def client_encodeSSECursor_def name_ok_def sseCursorVersion_def)
  have ts: "?ts \<noteq> []"
    using m(2) by (metis length_0_conv length_map length_sort)
  have "print_json (multi_cursor_json ?c) \<noteq> []"
    by (simp add: multi_cursor_json_def)
  then have "decodeSSECursor (encodeSSEMultiTopicCursor n m) = Inr \<lparr>mc_Version = 1, mc_Node = n, mc_Topics = ?m'\<rparr>"
    using parse_print [OF ok] n valid ts
    by (simp add: enc decodeSSECursor_def base64_inverse)
      (simp add: multi_cursor_json_def one entries struct_field_def set_envelope_def sseCursorVersion_def name_ok_def)
  moreover have "map_of ?m' = map_of m"
    using get by (auto simp: fun_eq_iff map_of_keys map_of_eq_None_iff) (metis map_of_eq_None_iff not_None_eq)
  ultimately show ?thesis using that wf by blast
qed

text \<open>
  C37. Cursors survive the trip. The cursor the server writes for an event is read by the client and by the server as the node,
  topic and offset it was made of; the cursor of several topics that the client sends back is read by the server as the same map
  from topics to offsets; and whatever text the server accepts as a cursor has the current version, a node, and only
  non-empty topics with non-negative offsets.
\<close>

theorem cursor_roundtrip:
  assumes "name_ok n" "name_ok t" "offset_ok i" and "gm_wf m" "m \<noteq> []" "list_all (\<lambda>(t, i). name_ok t \<and> offset_ok i) m"
  shows "decodeSSEEventCursor (encodeSSEEventCursor n t i) = Inr \<lparr>ec_Version = 1, ec_NodeID = n, ec_Topic = t, ec_Offset = i\<rparr>
    \<and> decodeSSECursor (encodeSSEEventCursor n t i) = Inr \<lparr>mc_Version = 1, mc_Node = n, mc_Topics = [(t, i)]\<rparr>
    \<and> (\<exists>m'. decodeSSECursor (encodeSSEMultiTopicCursor n m) = Inr \<lparr>mc_Version = 1, mc_Node = n, mc_Topics = m'\<rparr>
          \<and> gm_wf m' \<and> map_of m' = map_of m)
    \<and> (case decodeSSECursor raw of Inl err \<Rightarrow> True | Inr c \<Rightarrow> cursor_ok c)"
  using decode_event_cursor [OF assms(1-3)] decode_multi_cursor [OF assms(1,4-6)] decode_ok [of raw]
  by (auto split: sum.splits)

theorem cursor_roundtrip_witness:
  "decodeSSEEventCursor (encodeSSEEventCursor ''node-1'' ''orders'' 41) =
     Inr \<lparr>ec_Version = 1, ec_NodeID = ''node-1'', ec_Topic = ''orders'', ec_Offset = 41\<rparr>"
proof -
  have "name_ok ''node-1''" "name_ok ''orders''" "offset_ok 41"
    by (simp_all add: name_ok_def offset_ok_def utf8_ascii max_int64_def)
  then show ?thesis
    using cursor_roundtrip [of "''node-1''" "''orders''" 41 "[(''orders'', 41)]" "[]"] by simp
qed

end
