(* ===== verification/Http_Core.thy ===== *)
theory Http_Core
  imports Mesh_Lifecycle Http_Cursor
begin

text \<open>
  The frame of the HTTP API: requests and responses, tokens (\<open>internal/httpapi/auth.go\<close>), the middleware
  (\<open>middleware.go\<close>) and the validation and response helpers of \<open>handlers.go\<close> and \<open>server.go\<close>. The JWT library is
  third-party code: the record \<open>jwt_ops\<close> has the operations the source calls, and the locale \<open>jwt_library\<close> says what it
  promises. Log lines are left out, and so is the part of an error message that is formatted from an error or a number: a message
  here is the constant text up to the first such part.
\<close>

subsection \<open>Requests\<close>

record claims =
  cl_ClientID :: string
  cl_IsAdmin :: bool
  cl_IssuedAt :: "int option"
  cl_ExpiresAt :: "int option"

text \<open>
  The headers and the query hold the first value of each key; \<open>Get\<close> of a missing key is empty. The last fields are the values the
  middleware and the router add to the request's context. \<open>rq_ctx\<close> is the context as each successive call of a
  handler finds it.
\<close>

record request =
  rq_Method :: string
  rq_Path :: string
  rq_Header :: "(string, string) gomap"
  rq_Query :: "(string, string) gomap"
  rq_Body :: string
  rq_ctx :: "nat \<Rightarrow> ctx"
  rq_clientID :: "string option"
  rq_isAdmin :: "bool option"
  rq_claims :: "claims option"
  rq_subscriptionID :: "string option"
  rq_topic :: "string option"

definition hdr :: "request \<Rightarrow> string \<Rightarrow> string" where
  "hdr r k = gm_get [] (rq_Header r) k"

definition query :: "request \<Rightarrow> string \<Rightarrow> string" where
  "query r k = gm_get [] (rq_Query r) k"

definition GetClientID :: "request \<Rightarrow> string" where
  "GetClientID r = (case rq_clientID r of Some c \<Rightarrow> c | None \<Rightarrow> [])"

definition IsAdmin :: "request \<Rightarrow> bool" where
  "IsAdmin r = (case rq_isAdmin r of Some b \<Rightarrow> b | None \<Rightarrow> False)"

definition GetClaims :: "request \<Rightarrow> claims option" where
  "GetClaims r = rq_claims r"

definition GetSubscriptionID :: "request \<Rightarrow> string" where
  "GetSubscriptionID r = (case rq_subscriptionID r of Some s \<Rightarrow> s | None \<Rightarrow> [])"

definition GetTopicFromPath :: "request \<Rightarrow> string" where
  "GetTopicFromPath r = (case rq_topic r of Some t \<Rightarrow> t | None \<Rightarrow> [])"

subsection \<open>Responses\<close>

record error_response =
  er_Error :: string
  er_Message :: string
  er_Code :: nat

record auth_response =
  ar_Token :: string
  ar_ClientID :: string
  ar_ExpiresAt :: int

record publish_response =
  pr_EventID :: string
  pr_Offset :: int
  pr_Timestamp :: int

record stream_message =
  sm_EventID :: string
  sm_Topic :: string
  sm_Payload :: json
  sm_Timestamp :: int
  sm_Offset :: int

record read_response =
  rr_Events :: "stream_message list"
  rr_Topic :: string
  rr_StartOffset :: int
  rr_Count :: nat

record subscription_response =
  sr_ID :: string
  sr_Topic :: string
  sr_ClientID :: string
  sr_CreatedAt :: int

record client_info =
  ci_ID :: string
  ci_Authenticated :: bool
  ci_ConnectedAt :: int
  ci_Subscriptions :: "string list"

record admin_stats =
  st_ConnectedClients :: nat
  st_ConnectedPeers :: nat
  st_TotalSubscriptions :: nat
  st_TotalTopics :: nat
  st_EventsPublished :: int
  st_EventLog :: "int \<times> int"
  st_LocalSubscriptions :: nat
  st_LocalClientsWithSubscriptions :: nat
  st_LocalInterestTopicCount :: nat
  st_LocalInterestTopics :: "string list"
  st_PeerCountWithInterest :: nat
  st_PeerTopicCount :: nat
  st_Peers :: "(string, string list) gomap"
  st_InterestGossip :: "nat list"
  st_SSEResume :: "nat list"

record health_response =
  hr_Healthy :: bool
  hr_EventLogHealthy :: bool
  hr_RoutingTableHealthy :: bool
  hr_PeerLinkHealthy :: bool
  hr_ConnectedClients :: nat
  hr_ConnectedPeers :: nat
  hr_Message :: "health_issue list"

text \<open>What is written to a response: a value that is encoded as JSON, or text.\<close>

datatype chunk =
    ErrorBody error_response | AuthBody auth_response | PublishBody publish_response | ReadBody read_response
  | RawSubscriptions "client_subscription list" | SubscriptionBody subscription_response
  | SubscriptionsBody "subscription_response list" | ClientsBody "client_info list"
  | AdminSubscriptionsBody "subscription_response list" | StatsBody admin_stats | HealthBody health_response
  | InfoBody | TextBody string

text \<open>
  The response writer: the first \<open>WriteHeader\<close> (or the first write, with 200) sends the status and the headers set so far;
  later ones are ignored. \<open>wr_live\<close> counts the writes that still reach the client.
\<close>

record writer =
  wr_Header :: "(string, string) gomap"
  wr_Status :: "nat option"
  wr_Sent :: "(string, string) gomap"
  wr_Chunks :: "chunk list"
  wr_live :: ctx

definition SetHeader :: "string \<Rightarrow> string \<Rightarrow> writer \<Rightarrow> writer" where
  "SetHeader k v w = w\<lparr>wr_Header := AList.update k v (wr_Header w)\<rparr>"

definition WriteHeader :: "nat \<Rightarrow> writer \<Rightarrow> writer" where
  "WriteHeader code w =
     (case wr_Status w of None \<Rightarrow> w\<lparr>wr_Status := Some code, wr_Sent := wr_Header w\<rparr> | Some _ \<Rightarrow> w)"

definition Write :: "chunk \<Rightarrow> writer \<Rightarrow> bool \<times> writer" where
  "Write c w =
     (let w = WriteHeader 200 w in
      case poll (wr_live w) of
        (True, l) \<Rightarrow> (False, w\<lparr>wr_live := l\<rparr>)
      | (False, l) \<Rightarrow> (True, w\<lparr>wr_Chunks := wr_Chunks w @ [c], wr_live := l\<rparr>))"

definition new_writer :: "ctx \<Rightarrow> writer" where
  "new_writer live = \<lparr>wr_Header = [], wr_Status = None, wr_Sent = [], wr_Chunks = [], wr_live = live\<rparr>"

definition StatusText :: "nat \<Rightarrow> string" where
  "StatusText code =
     (if code = 400 then ''Bad Request'' else if code = 401 then ''Unauthorized''
      else if code = 403 then ''Forbidden'' else if code = 404 then ''Not Found''
      else if code = 405 then ''Method Not Allowed'' else if code = 409 then ''Conflict''
      else if code = 413 then ''Request Entity Too Large'' else if code = 500 then ''Internal Server Error'' else [])"

text \<open>\<open>writeError\<close> and \<open>writeJSON\<close> of the middleware, the handlers and the server; the server's error goes through its \<open>writeJSON\<close>.
  Where the code adds the text of an error to a message, the model has the fixed part.\<close>

definition writeJSON :: "chunk \<Rightarrow> nat \<Rightarrow> writer \<Rightarrow> writer" where
  "writeJSON body code w = snd (Write body (WriteHeader code (SetHeader ''Content-Type'' ''application/json'' w)))"

definition writeError :: "string \<Rightarrow> nat \<Rightarrow> writer \<Rightarrow> writer" where
  "writeError message code w =
     snd (Write (ErrorBody \<lparr>er_Error = StatusText code, er_Message = message, er_Code = code\<rparr>)
       (WriteHeader code (SetHeader ''Content-Type'' ''application/json'' w)))"

definition middleware_writeError :: "string \<Rightarrow> nat \<Rightarrow> writer \<Rightarrow> writer" where
  "middleware_writeError message code w =
     snd (Write (ErrorBody \<lparr>er_Error = StatusText code, er_Message = message, er_Code = code\<rparr>)
       (WriteHeader code (SetHeader ''Content-Type'' ''application/json'' w)))"

lemma middleware_writeError_eq [simp]: "middleware_writeError = writeError"
  by (simp add: fun_eq_iff middleware_writeError_def writeError_def)

definition server_writeError :: "string \<Rightarrow> nat \<Rightarrow> writer \<Rightarrow> writer" where
  "server_writeError message code w =
     writeJSON (ErrorBody \<lparr>er_Error = StatusText code, er_Message = message, er_Code = code\<rparr>) code
       (WriteHeader code (SetHeader ''Content-Type'' ''application/json'' w))"

subsection \<open>Tokens\<close>

text \<open>
  \<open>jw_Sign key claims\<close> is \<open>NewWithClaims(HS256, claims).SignedString(key)\<close>, \<open>jw_Parse keyfunc now token\<close> is \<open>ParseWithClaims\<close> at
  the time \<open>now\<close>: \<open>keyfunc\<close> gets whether the token's method is HMAC and answers the key or an error; the result is an
  error or the token's valid flag with its claims. \<open>jw_NumericDate\<close> is \<open>NewNumericDate\<close>.
\<close>

record jwt_ops =
  jw_NumericDate :: "int \<Rightarrow> int"
  jw_Sign :: "string \<Rightarrow> claims \<Rightarrow> string + string"
  jw_Parse :: "(bool \<Rightarrow> string + string) \<Rightarrow> int \<Rightarrow> string \<Rightarrow> string + bool \<times> claims"

datatype auth_error = EmptyClientID | SignFailed string | EmptyToken | InvalidToken string | TokenNotValid

definition token_lifetime :: int where
  "token_lifetime = 24 * 60 * 60 * 1000000000"

definition GenerateToken :: "jwt_ops \<Rightarrow> string \<Rightarrow> int \<Rightarrow> string \<Rightarrow> bool \<Rightarrow> auth_error + string \<times> int" where
  "GenerateToken jw secretKey now clientID isAdmin =
     (if clientID = [] then Inl EmptyClientID
      else
        let expiresAt = now + token_lifetime;
            claims = \<lparr>cl_ClientID = clientID, cl_IsAdmin = isAdmin, cl_IssuedAt = Some (jw_NumericDate jw now),
                      cl_ExpiresAt = Some (jw_NumericDate jw expiresAt)\<rparr>
        in case jw_Sign jw secretKey claims of
             Inl err \<Rightarrow> Inl (SignFailed err)
           | Inr token \<Rightarrow> Inr (token, expiresAt))"

definition ValidateToken :: "jwt_ops \<Rightarrow> string \<Rightarrow> int \<Rightarrow> string \<Rightarrow> auth_error + claims" where
  "ValidateToken jw secretKey now tokenString =
     (if tokenString = [] then Inl EmptyToken
      else
        let tokenString = TrimPrefix tokenString ''Bearer '';
            keyfunc = (\<lambda>hmac. if \<not> hmac then Inl ''unexpected signing method'' else Inr secretKey)
        in case jw_Parse jw keyfunc now tokenString of
             Inl err \<Rightarrow> Inl (InvalidToken err)
           | Inr (valid, claims) \<Rightarrow> if \<not> valid then Inl TokenNotValid else Inr claims)"

subsection \<open>The API's state and the middleware\<close>

record 'l api =
  ap_node :: "'l mesh_node"
  ap_secretKey :: string
  ap_noAuth :: bool
  sseResumeRequests :: nat
  sseResumeEventsReplayed :: nat
  sseResumeInvalidCursor :: nat
  sseResumeNodeMismatch :: nat
  sseResumeReplayLimitExceeded :: nat

definition NewServer :: "'l mesh_node \<Rightarrow> string \<Rightarrow> bool \<Rightarrow> 'l api" where
  "NewServer node secretKey noAuth =
     \<lparr>ap_node = node,
      ap_secretKey = (if secretKey = [] then ''eventmesh-mvp-secret-key-change-in-production'' else secretKey),
      ap_noAuth = noAuth, sseResumeRequests = 0, sseResumeEventsReplayed = 0, sseResumeInvalidCursor = 0,
      sseResumeNodeMismatch = 0, sseResumeReplayLimitExceeded = 0\<rparr>"

text \<open>
  A handler answers whether it panicked, the response and the state it leaves. Only the event stream has a loop that
  may not end: the handlers that are routed answer an option, the others are actions, which always answer.
\<close>

type_synonym 'l action = "request \<Rightarrow> writer \<Rightarrow> 'l api \<Rightarrow> bool \<times> writer \<times> 'l api"
type_synonym 'l handler = "request \<Rightarrow> writer \<Rightarrow> 'l api \<Rightarrow> (bool \<times> writer \<times> 'l api) option"

definition answer :: "'l action \<Rightarrow> 'l handler" where
  "answer act r w a = Some (act r w a)"

definition extractToken :: "request \<Rightarrow> string" where
  "extractToken r =
     (let authHeader = hdr r ''Authorization'' in
      if authHeader = [] then []
      else if HasPrefix authHeader ''Bearer '' then TrimPrefix authHeader ''Bearer ''
      else authHeader)"

definition with_claims :: "claims \<Rightarrow> request \<Rightarrow> request" where
  "with_claims c r = r\<lparr>rq_clientID := Some (cl_ClientID c), rq_isAdmin := Some (cl_IsAdmin c), rq_claims := Some c\<rparr>"

definition dev_claims :: claims where
  "dev_claims = \<lparr>cl_ClientID = ''dev-client'', cl_IsAdmin = False, cl_IssuedAt = None, cl_ExpiresAt = None\<rparr>"

definition AuthRequired :: "jwt_ops \<Rightarrow> int \<Rightarrow> 'l handler \<Rightarrow> 'l handler" where
  "AuthRequired jw now next r w a =
     (if ap_noAuth a then next (with_claims dev_claims r) w a
      else
        let token = extractToken r in
        if token = [] then Some (False, middleware_writeError ''Authorization header required'' 401 w, a)
        else case ValidateToken jw (ap_secretKey a) now token of
          Inl err \<Rightarrow> Some (False, middleware_writeError ''Invalid token: '' 401 w, a)
        | Inr claims \<Rightarrow> next (with_claims claims r) w a)"

definition AdminRequired :: "jwt_ops \<Rightarrow> int \<Rightarrow> 'l handler \<Rightarrow> 'l handler" where
  "AdminRequired jw now next r w a =
     (let token = extractToken r in
      if token = [] then Some (False, middleware_writeError ''Authorization header required for admin access'' 401 w, a)
      else case ValidateToken jw (ap_secretKey a) now token of
        Inl err \<Rightarrow> Some (False, middleware_writeError ''Invalid token for admin access: '' 401 w, a)
      | Inr claims \<Rightarrow>
          if \<not> cl_IsAdmin claims then Some (False, middleware_writeError ''Admin privileges required'' 403 w, a)
          else next (with_claims claims r) w a)"

definition CORS :: "'l handler \<Rightarrow> 'l handler" where
  "CORS next r w a =
     (let w = SetHeader ''Access-Control-Allow-Origin'' ''*'' w;
          w = SetHeader ''Access-Control-Allow-Methods'' ''GET, POST, PUT, DELETE, OPTIONS'' w;
          w = SetHeader ''Access-Control-Allow-Headers'' ''Content-Type, Authorization'' w;
          w = SetHeader ''Access-Control-Max-Age'' ''86400'' w
      in if rq_Method r = ''OPTIONS'' then Some (False, WriteHeader 200 w, a) else next r w a)"

definition ContentType :: "'l handler \<Rightarrow> 'l handler" where
  "ContentType next r w a = next r (SetHeader ''Content-Type'' ''application/json'' w) a"

definition Recovery :: "'l handler \<Rightarrow> 'l handler" where
  "Recovery next r w a =
     (case next r w a of
        None \<Rightarrow> None
      | Some (panicked, w', a') \<Rightarrow>
          Some (False, if panicked then middleware_writeError ''Internal server error'' 500 w' else w', a'))"

text \<open>\<open>Logging\<close> passes the request on through a recorder of the status, which it logs.\<close>

definition withMiddleware :: "'l handler \<Rightarrow> 'l handler" where
  "withMiddleware handler = Recovery (CORS (ContentType handler))"

subsection \<open>Validation\<close>

definition validateJSON :: "request \<Rightarrow> bool" where
  "validateJSON r \<longleftrightarrow> hdr r ''Content-Type'' = ''application/json''"

definition validateAuthRequest :: "string \<Rightarrow> string option" where
  "validateAuthRequest clientID =
     (if clientID = [] then Some ''clientId is required''
      else if length clientID < 2 then Some ''clientId must be at least 2 characters''
      else None)"

text \<open>The loop over the runes of the topic rejects every rune outside ASCII, so it can be read byte by byte.\<close>

definition topic_char :: "char \<Rightarrow> bool" where
  "topic_char c \<longleftrightarrow> between 97 122 c \<or> between 65 90 c \<or> between 48 57 c \<or> c = CHR ''.'' \<or> c = CHR ''-'' \<or> c = CHR ''_''"

definition validateTopic :: "string \<Rightarrow> string option" where
  "validateTopic topic =
     (if topic = [] then Some ''topic is required''
      else if length topic < 2 then Some ''topic must be at least 2 characters''
      else if \<not> list_all topic_char topic
      then Some ''topic contains invalid characters (allowed: letters, numbers, ., -, _)''
      else None)"

definition validatePublishBody :: "string \<Rightarrow> string option" where
  "validatePublishBody topic = validateTopic topic"

subsection \<open>What the JWT library promises\<close>

text \<open>
  \<open>signed_with key claims token\<close> says that the token carries these claims under an HMAC signature with this key. A signed
  token is accepted until it expires, with the claims it was made of; an accepted token has been signed with the key the
  key function answers, and has not expired.
\<close>

locale jwt_library =
  fixes jw :: jwt_ops
    and signed_with :: "string \<Rightarrow> claims \<Rightarrow> string \<Rightarrow> bool"
  assumes sign_signed: "jw_Sign jw key c = Inr token \<Longrightarrow> signed_with key c token \<and> token \<noteq> [] \<and> \<not> HasPrefix token ''Bearer ''"
    and parse_signed: "signed_with key c token \<Longrightarrow> kf True = Inr key \<Longrightarrow> (\<forall>e. cl_ExpiresAt c = Some e \<longrightarrow> now < e) \<Longrightarrow>
      jw_Parse jw kf now token = Inr (True, c)"
    and parse_only_signed: "jw_Parse jw kf now token = Inr (True, c) \<Longrightarrow>
      \<exists>key. kf True = Inr key \<and> signed_with key c token \<and> (\<forall>e. cl_ExpiresAt c = Some e \<longrightarrow> now < e)"
    and numeric_date: "jw_NumericDate jw t \<le> t" "t < jw_NumericDate jw t + 1000000000"

end
