(* ===== verification/Http_Handlers.thy ===== *)
theory Http_Handlers
  imports Http_Core
begin

text \<open>
  The request handlers of \<open>internal/httpapi/handlers.go\<close> apart from the event stream: login, publishing, reading a topic,
  subscriptions, the admin views and health. A request body is text that is decoded here; a payload is any JSON value,
  whose numbers pass through \<open>float64\<close> when it is decoded into \<open>interface{}\<close>: \<open>cd_float\<close> gives, for a number literal, the literal
  that \<open>json.Marshal\<close> prints for the float read from it, or nothing when it is out of range. \<open>cd_time\<close> and \<open>cd_parse_time\<close> are
  the JSON form of a \<open>time.Time\<close> and its reading.
\<close>

subsection \<open>Payloads\<close>

record codec =
  cd_float :: "string \<Rightarrow> string option"
  cd_time :: "int \<Rightarrow> string"
  cd_parse_time :: "string \<Rightarrow> int option"

text \<open>Decoding into \<open>interface{}\<close>: an object becomes a map, in which a later key replaces an earlier one and which is printed with its keys sorted.\<close>

fun into_any :: "codec \<Rightarrow> json \<Rightarrow> json option" where
  "into_any cd (JNum lit) = map_option JNum (cd_float cd lit)"
| "into_any cd (JArr vs) = map_option JArr (those (map (into_any cd) vs))"
| "into_any cd (JObj ms) =
     map_option (\<lambda>vs. JObj (sort_key fst (gm_copy_into [] (zip (map fst ms) vs)))) (those (map (\<lambda>(k, v). into_any cd v) ms))"
| "into_any cd v = Some v"

definition message_payload :: "codec \<Rightarrow> event \<Rightarrow> json" where
  "message_payload cd event =
     (case ev_payload event of
        None \<Rightarrow> JNull
      | Some bs \<Rightarrow>
         (case Option.bind (parse_json (bytes_str bs)) (into_any cd) of
            Some v \<Rightarrow> v
          | None \<Rightarrow> JStr (bytes_str bs)))"

definition decode_body :: "string list \<Rightarrow> (string \<Rightarrow> json \<Rightarrow> 's \<Rightarrow> 's option) \<Rightarrow> 's \<Rightarrow> request \<Rightarrow> 's option" where
  "decode_body names set_field zero r =
     (case decode_json (rq_Body r) of None \<Rightarrow> None | Some (v, _) \<Rightarrow> unmarshal_struct names set_field v zero)"

record publish_request =
  pq_Topic :: string
  pq_Payload :: json

definition set_publish_request :: "codec \<Rightarrow> string \<Rightarrow> json \<Rightarrow> publish_request \<Rightarrow> publish_request option" where
  "set_publish_request cd f v q =
     (if f = ''topic'' then map_option (\<lambda>t. q\<lparr>pq_Topic := t\<rparr>) (into_string (pq_Topic q) v)
      else map_option (\<lambda>p. q\<lparr>pq_Payload := p\<rparr>) (into_any cd v))"

subsection \<open>Clients\<close>

definition NewHTTPClient :: "int \<Rightarrow> claims \<Rightarrow> 'l mesh_node \<Rightarrow> subscriber \<times> 'l mesh_node" where
  "NewHTTPClient now claims n =
     (HTTPClient (cl_ClientID claims) (length (clientHeap n)), n\<lparr>clientHeap := clientHeap n @ [new_client_obj now]\<rparr>)"

subsection \<open>Login\<close>

definition Login :: "jwt_ops \<Rightarrow> int \<Rightarrow> 'l action" where
  "Login jw now r w a =
     (if \<not> validateJSON r then (False, writeError ''Content-Type must be application/json'' 400 w, a)
      else case decode_body [''clientId''] (\<lambda>f v s. into_string s v) [] r of
        None \<Rightarrow> (False, writeError ''Invalid request body'' 400 w, a)
      | Some clientID \<Rightarrow>
         (case validateAuthRequest clientID of
            Some msg \<Rightarrow> (False, writeError msg 400 w, a)
          | None \<Rightarrow>
              let isAdmin = (clientID = ''admin'') in
              (case GenerateToken jw (ap_secretKey a) now clientID isAdmin of
                 Inl err \<Rightarrow> (False, writeError ''Failed to generate token'' 500 w, a)
               | Inr (token, expiresAt) \<Rightarrow>
                   (False, snd (Write (AuthBody \<lparr>ar_Token = token, ar_ClientID = clientID, ar_ExpiresAt = expiresAt\<rparr>)
                      (WriteHeader 200 w)), a))))"

subsection \<open>Events\<close>

definition event_id :: "event \<Rightarrow> string" where
  "event_id e = ev_topic e @ ''-'' @ show_int (ev_offset e)"

definition ApiPublishEvent :: "'l log_ops \<Rightarrow> codec \<Rightarrow> int \<Rightarrow> 'l action" where
  "ApiPublishEvent ops cd now r w a =
     (if \<not> validateJSON r then (False, writeError ''Content-Type must be application/json'' 400 w, a)
      else case decode_body [''topic'', ''payload''] (set_publish_request cd) \<lparr>pq_Topic = [], pq_Payload = JNull\<rparr> r of
        None \<Rightarrow> (False, writeError ''Invalid request body'' 400 w, a)
      | Some req \<Rightarrow>
         (case validatePublishBody (pq_Topic req) of
            Some msg \<Rightarrow> (False, writeError msg 400 w, a)
          | None \<Rightarrow>
             (case GetClaims r of
                None \<Rightarrow> (False, writeError ''Authentication required'' 401 w, a)
              | Some claims \<Rightarrow>
                 (case NewHTTPClient now claims (ap_node a) of (client, n) \<Rightarrow>
                    let payload = (if pq_Payload req = JNull then None else Some (str_bytes (print_json (pq_Payload req))));
                        eventRecord = NewEvent now (pq_Topic req) payload
                    in (case PublishEventWithResult ops now (rq_ctx r 0) (Some client) (Some eventRecord) n of
                          (Inl err, n') \<Rightarrow> (False, writeError ''Failed to publish event: '' 500 w, a\<lparr>ap_node := n'\<rparr>)
                        | (Inr persistedEvent, n') \<Rightarrow>
                            (False, writeJSON (PublishBody \<lparr>pr_EventID = event_id persistedEvent,
                               pr_Offset = ev_offset persistedEvent, pr_Timestamp = ev_timestamp persistedEvent\<rparr>) 201 w,
                             a\<lparr>ap_node := n'\<rparr>))))))"

definition read_message :: "codec \<Rightarrow> event \<Rightarrow> stream_message" where
  "read_message cd event =
     \<lparr>sm_EventID = event_id event, sm_Topic = ev_topic event, sm_Payload = message_payload cd event,
      sm_Timestamp = ev_timestamp event, sm_Offset = ev_offset event\<rparr>"

definition parse_offset :: "string \<Rightarrow> string + int" where
  "parse_offset s =
     (if s = [] then Inr 0
      else case parse_int64 s of
        None \<Rightarrow> Inl ''Invalid offset parameter''
      | Some v \<Rightarrow> if v < 0 then Inl ''Offset must be non-negative'' else Inr v)"

definition parse_limit :: "string \<Rightarrow> string + int" where
  "parse_limit s =
     (if s = [] then Inr 100
      else case parse_int64 s of
        None \<Rightarrow> Inl ''Invalid limit parameter''
      | Some v \<Rightarrow> if v \<le> 0 \<or> v > 1000 then Inl ''Limit must be between 1 and 1000'' else Inr v)"

definition ReadTopicEvents :: "'l log_ops \<Rightarrow> codec \<Rightarrow> 'l action" where
  "ReadTopicEvents ops cd r w a =
     (case GetClaims r of
        None \<Rightarrow> (False, writeError ''Authentication required'' 401 w, a)
      | Some claims \<Rightarrow>
          let topic = GetTopicFromPath r in
          if topic = [] then (False, writeError ''Topic is required'' 400 w, a)
          else case validateTopic topic of
            Some msg \<Rightarrow> (False, writeError ''Invalid topic: '' 400 w, a)
          | None \<Rightarrow>
             (case parse_offset (query r ''offset'') of
                Inl msg \<Rightarrow> (False, writeError msg 400 w, a)
              | Inr startOffset \<Rightarrow>
                 (case parse_limit (query r ''limit'') of
                    Inl msg \<Rightarrow> (False, writeError msg 400 w, a)
                  | Inr limit \<Rightarrow>
                     (case op_ReadEvents ops (rq_ctx r 0) topic startOffset limit (eventLog (ap_node a)) of
                        Inl err \<Rightarrow>
                          if err = LogPanic then (True, w, a) else (False, writeError ''Failed to read events: '' 500 w, a)
                      | Inr events \<Rightarrow>
                          (False, writeJSON (ReadBody \<lparr>rr_Events = map (read_message cd) events, rr_Topic = topic,
                             rr_StartOffset = startOffset, rr_Count = length events\<rparr>) 200 w, a)))))"

subsection \<open>Subscriptions\<close>

definition subscription_response_of :: "client_subscription \<Rightarrow> subscription_response" where
  "subscription_response_of s =
     \<lparr>sr_ID = cs_ID s, sr_Topic = cs_Topic s, sr_ClientID = cs_ClientID s, sr_CreatedAt = cs_CreatedAt s\<rparr>"

definition ListSubscriptions :: "'l action" where
  "ListSubscriptions r w a =
     (case GetClaims r of
        None \<Rightarrow> (False, writeError ''Authentication required'' 401 w, a)
      | Some claims \<Rightarrow>
          (False, writeJSON (RawSubscriptions (GetClientSubscriptions (cl_ClientID claims) (ap_node a))) 200 w, a))"

fun latest_subscription ::
  "string \<Rightarrow> client_subscription option \<Rightarrow> client_subscription list \<Rightarrow> client_subscription option" where
  "latest_subscription topic created [] = created"
| "latest_subscription topic created (sub # subs) =
     (if cs_Topic sub = topic \<and> (case created of None \<Rightarrow> True | Some c \<Rightarrow> cs_CreatedAt c < cs_CreatedAt sub)
      then latest_subscription topic (Some sub) subs
      else latest_subscription topic created subs)"

definition CreateSubscription :: "int \<Rightarrow> 'l action" where
  "CreateSubscription now r w a =
     (if \<not> validateJSON r then (False, writeError ''Content-Type must be application/json'' 400 w, a)
      else case decode_body [''topic''] (\<lambda>f v s. into_string s v) [] r of
        None \<Rightarrow> (False, writeError ''Invalid request body'' 400 w, a)
      | Some topic \<Rightarrow>
          if topic = [] then (False, writeError ''Topic is required'' 400 w, a)
          else case GetClaims r of
            None \<Rightarrow> (False, writeError ''Authentication required'' 401 w, a)
          | Some claims \<Rightarrow>
             (case NewHTTPClient now claims (ap_node a) of (client, n) \<Rightarrow>
                (case NodeSubscribe now (rq_ctx r 0) (Some client) topic n of
                   (Some err, n') \<Rightarrow> (False, writeError ''Failed to subscribe: '' 500 w, a\<lparr>ap_node := n'\<rparr>)
                 | (None, n') \<Rightarrow>
                    (case latest_subscription topic None (GetClientSubscriptions (cl_ClientID claims) n') of
                       None \<Rightarrow> (False, writeError ''Failed to find created subscription'' 500 w, a\<lparr>ap_node := n'\<rparr>)
                     | Some created \<Rightarrow>
                         (False, writeJSON (SubscriptionBody (subscription_response_of created)) 201 w,
                          a\<lparr>ap_node := n'\<rparr>)))))"

definition GetSubscriptions :: "'l action" where
  "GetSubscriptions r w a =
     (case GetClaims r of
        None \<Rightarrow> (False, writeError ''Authentication required'' 401 w, a)
      | Some claims \<Rightarrow>
          (False, writeJSON (SubscriptionsBody (map subscription_response_of
             (GetClientSubscriptions (cl_ClientID claims) (ap_node a)))) 200 w, a))"

definition DeleteSubscription :: "int \<Rightarrow> 'l action" where
  "DeleteSubscription now r w a =
     (case GetClaims r of
        None \<Rightarrow> (False, writeError ''Authentication required'' 401 w, a)
      | Some claims \<Rightarrow>
          let subscriptionID = GetSubscriptionID r in
          if subscriptionID = [] then (False, writeError ''Subscription ID required'' 400 w, a)
          else case UnsubscribeByID now (rq_ctx r 0) (cl_ClientID claims) subscriptionID (ap_node a) of
            (Some MSubscriptionNotFound, n') \<Rightarrow>
              (False, writeError (''Subscription not found: '' @ subscriptionID) 404 w, a\<lparr>ap_node := n'\<rparr>)
          | (Some err, n') \<Rightarrow> (False, writeError ''Failed to delete subscription: '' 500 w, a\<lparr>ap_node := n'\<rparr>)
          | (None, n') \<Rightarrow> (False, WriteHeader 204 w, a\<lparr>ap_node := n'\<rparr>))"

subsection \<open>Admin views\<close>

definition client_connectedAt :: "'l mesh_node \<Rightarrow> subscriber \<Rightarrow> int" where
  "client_connectedAt n c =
     (case client_addr c of Some i \<Rightarrow> co_connectedAt (client_at (clientHeap n) i) | None \<Rightarrow> 0)"

definition client_info_of :: "'l mesh_node \<Rightarrow> subscriber \<Rightarrow> client_info" where
  "client_info_of n client =
     \<lparr>ci_ID = ID client, ci_Authenticated = IsAuthenticated (clientHeap n) client, ci_ConnectedAt = client_connectedAt n client,
      ci_Subscriptions = map cs_Topic (GetClientSubscriptions (ID client) n)\<rparr>"

text \<open>The admin handlers test the claims again.\<close>

definition admin_only :: "'l action \<Rightarrow> 'l action" where
  "admin_only next r w a =
     (case GetClaims r of
        None \<Rightarrow> (False, writeError ''Authentication required'' 401 w, a)
      | Some claims \<Rightarrow>
          if \<not> cl_IsAdmin claims then (False, writeError ''Admin privileges required'' 403 w, a) else next r w a)"

definition AdminListClients :: "'l action" where
  "AdminListClients = admin_only (\<lambda>r w a.
     (False, writeJSON (ClientsBody (map (client_info_of (ap_node a)) (GetConnectedClients (ap_node a)))) 200 w, a))"

definition AdminListSubscriptions :: "'l action" where
  "AdminListSubscriptions = admin_only (\<lambda>r w a.
     (False, writeJSON (AdminSubscriptionsBody (concat (map
        (\<lambda>client. map subscription_response_of (GetClientSubscriptions (ID client) (ap_node a)))
        (GetConnectedClients (ap_node a))))) 200 w, a))"

definition AdminGetStats :: "'l log_ops \<Rightarrow> 'l action" where
  "AdminGetStats ops = admin_only (\<lambda>r w a.
     let n = ap_node a; health = GetHealth ops (rq_ctx r 0) n in
     (case GetTopicCount (routingTable n) of
        Inl err \<Rightarrow> (False, writeError ''Failed to get topic count: '' 500 w, a)
      | Inr topicCount \<Rightarrow>
         (case GetSubscriberCount (routingTable n) of
            Inl err \<Rightarrow> (False, writeError ''Failed to get subscriber count: '' 500 w, a)
          | Inr subscriberCount \<Rightarrow>
             (case op_GetStatistics ops (rq_ctx r 1) (eventLog n) of
                Inl err \<Rightarrow> (False, writeError ''Failed to get event statistics: '' 500 w, a)
              | Inr eventStats \<Rightarrow>
                  let s = GetRoutingStats n in
                  (False, writeJSON (StatsBody
                     \<lparr>st_ConnectedClients = ConnectedClients health, st_ConnectedPeers = ConnectedPeers health,
                      st_TotalSubscriptions = subscriberCount, st_TotalTopics = topicCount,
                      st_EventsPublished = TotalEvents eventStats,
                      st_EventLog = (TotalEvents eventStats, TopicCount eventStats),
                      st_LocalSubscriptions = LocalSubscriptions s,
                      st_LocalClientsWithSubscriptions = LocalClientsWithSubscriptions s,
                      st_LocalInterestTopicCount = length (LocalInterestTopics s),
                      st_LocalInterestTopics = LocalInterestTopics s,
                      st_PeerCountWithInterest = length (PeerInterest s),
                      st_PeerTopicCount = sum_list (map (\<lambda>(_, topics). length topics) (PeerInterest s)),
                      st_Peers = PeerInterest s,
                      st_InterestGossip = [InterestUpdatesSent s, InterestUpdatesReceived s, InterestSnapshotsSent s,
                        InterestSnapshotsReceived s, EmptySnapshotsReceived s, SnapshotTopicsReceived s],
                      st_SSEResume = [sseResumeRequests a, sseResumeEventsReplayed a, sseResumeInvalidCursor a,
                        sseResumeNodeMismatch a, sseResumeReplayLimitExceeded a]\<rparr>) 200 w, a)))))"

subsection \<open>Health\<close>

definition ApiHealth :: "'l log_ops \<Rightarrow> 'l action" where
  "ApiHealth ops r w a =
     (let health = GetHealth ops (rq_ctx r 0) (ap_node a);
          resp = \<lparr>hr_Healthy = hs_Healthy health, hr_EventLogHealthy = EventLogHealthy health,
                  hr_RoutingTableHealthy = RoutingTableHealthy health, hr_PeerLinkHealthy = PeerLinkHealthy health,
                  hr_ConnectedClients = ConnectedClients health, hr_ConnectedPeers = ConnectedPeers health,
                  hr_Message = hs_Message health\<rparr>
      in (False, snd (Write (HealthBody resp) (WriteHeader (if hs_Healthy health then 200 else 503) w)), a))"

end
