(* ===== verification/Http_Stream.thy ===== *)
theory Http_Stream
  imports Http_Handlers Topics
begin

text \<open>
  The event stream, \<open>StreamEvents\<close> of \<open>internal/httpapi/handlers.go\<close> and its helpers: resume cursors, the limits on a replay, the
  replay in batches, and the loop that sends events and keepalives. Other requests run while a stream is open: the
  loop takes the list of its \<open>select\<close> choices, with what the rest of the node does in between. The
  replay itself runs without interruption, and its inner loop has fuel, since a log may in principle never stop
  answering full batches.
\<close>

subsection \<open>Resume cursors\<close>

definition maxSSEResumeTopics :: nat where
  "maxSSEResumeTopics = 64"

definition maxSSEResumeReplayEvents :: int where
  "maxSSEResumeReplayEvents = 10000"

definition sseReplayBatchSize :: int where
  "sseReplayBatchSize = 1000"

definition resumeCursorFromRequest :: "request \<Rightarrow> cursor_error + multi_cursor option" where
  "resumeCursorFromRequest r =
     (let raw = TrimSpace (hdr r ''Last-Event-ID'');
          raw = (if raw = [] then TrimSpace (query r ''since'') else raw)
      in if raw = [] then Inr None
         else case decodeSSECursor raw of Inl err \<Rightarrow> Inl err | Inr cursor \<Rightarrow> Inr (Some cursor))"

datatype replay_error = SSETopicLimit | SSEReplayLimit | PlanLogError log_error | PlanBadOffset

definition limit_text :: "replay_error \<Rightarrow> string" where
  "limit_text err =
     (if err = SSEReplayLimit then ''SSE resume replay exceeds server event limit: ''
      else ''SSE resume cursor exceeds server topic limit: '')"

text \<open>A context for each call; \<open>later_calls\<close> drops the one that has been used.\<close>

definition later_calls :: "(nat \<Rightarrow> ctx) \<Rightarrow> nat \<Rightarrow> ctx" where
  "later_calls cx = (\<lambda>k. cx (Suc k))"

text \<open>The contexts of the calls that check a replay and of those that make it.\<close>

definition plan_ctx :: "request \<Rightarrow> nat \<Rightarrow> ctx" where
  "plan_ctx r = (\<lambda>k. rq_ctx r (2 * k))"

definition replay_ctx :: "request \<Rightarrow> nat \<Rightarrow> ctx" where
  "replay_ctx r = (\<lambda>k. rq_ctx r (2 * k + 1))"

fun plan_loop ::
  "'l log_ops \<Rightarrow> (nat \<Rightarrow> ctx) \<Rightarrow> string list \<Rightarrow> int \<Rightarrow> int \<Rightarrow> (string, int) gomap \<Rightarrow> 'l \<Rightarrow> replay_error option" where
  "plan_loop ops cx topics maxEvents totalReplayEvents [] l = None"
| "plan_loop ops cx topics maxEvents totalReplayEvents ((topic, offset) # m) l =
     (if \<not> topicCoveredBySubscriptions topic topics then plan_loop ops cx topics maxEvents totalReplayEvents m l
      else case op_GetTopicEndOffset ops (ctx_done (cx 0)) topic l of
        Inl err \<Rightarrow> Some (PlanLogError err)
      | Inr endOffset \<Rightarrow>
          let nextOffset = wrap64 (offset + 1) in
          if nextOffset < 0 then Some PlanBadOffset
          else if nextOffset \<ge> endOffset then plan_loop ops (later_calls cx) topics maxEvents totalReplayEvents m l
          else
            let totalReplayEvents = wrap64 (totalReplayEvents + wrap64 (endOffset - nextOffset)) in
            if totalReplayEvents > maxEvents then Some SSEReplayLimit
            else plan_loop ops (later_calls cx) topics maxEvents totalReplayEvents m l)"

definition validateSSEReplayPlan ::
  "'l log_ops \<Rightarrow> (nat \<Rightarrow> ctx) \<Rightarrow> multi_cursor \<Rightarrow> string list \<Rightarrow> int \<Rightarrow> nat \<Rightarrow> 'l \<Rightarrow> replay_error option" where
  "validateSSEReplayPlan ops cx cursor topics maxEvents maxTopics l =
     (if length (mc_Topics cursor) > maxTopics then Some SSETopicLimit
      else plan_loop ops cx topics maxEvents 0 (mc_Topics cursor) l)"

subsection \<open>Messages\<close>

definition eventToSSEMessage :: "codec \<Rightarrow> string \<Rightarrow> event \<Rightarrow> stream_message" where
  "eventToSSEMessage cd nodeID event =
     \<lparr>sm_EventID = encodeSSEEventCursor nodeID (ev_topic event) (ev_offset event), sm_Topic = ev_topic event,
      sm_Payload = message_payload cd event, sm_Timestamp = ev_timestamp event, sm_Offset = ev_offset event\<rparr>"

definition message_json :: "codec \<Rightarrow> stream_message \<Rightarrow> json" where
  "message_json cd m =
     JObj [(''eventId'', JStr (sm_EventID m)), (''topic'', JStr (sm_Topic m)), (''payload'', sm_Payload m),
           (''timestamp'', JStr (cd_time cd (sm_Timestamp m))), (''offset'', JNum (show_int (sm_Offset m)))]"

definition newline :: char where
  "newline = CHR 0x0A"

definition sse_text :: "codec \<Rightarrow> stream_message \<Rightarrow> string" where
  "sse_text cd m = ''id: '' @ sm_EventID m @ [newline] @ ''data: '' @ print_json (message_json cd m) @ [newline, newline]"

definition writeSSEMessage :: "codec \<Rightarrow> stream_message \<Rightarrow> writer \<Rightarrow> bool \<times> writer" where
  "writeSSEMessage cd m w = (if sm_EventID m = [] then (False, w) else Write (TextBody (sse_text cd m)) w)"

subsection \<open>Replay\<close>

fun send_events :: "codec \<Rightarrow> string \<Rightarrow> event list \<Rightarrow> int \<Rightarrow> writer \<Rightarrow> bool \<times> int \<times> writer" where
  "send_events cd nodeID [] nextOffset w = (True, nextOffset, w)"
| "send_events cd nodeID (e # es) nextOffset w =
     (case writeSSEMessage cd (eventToSSEMessage cd nodeID e) w of
        (False, w') \<Rightarrow> (False, nextOffset, w')
      | (True, w') \<Rightarrow> send_events cd nodeID es (wrap64 (ev_offset e + 1)) w')"

datatype replay_end = ReplayDone | ReplayFailed | ReplayPanic

fun replay_topic ::
  "'l log_ops \<Rightarrow> codec \<Rightarrow> string \<Rightarrow> nat \<Rightarrow> (nat \<Rightarrow> ctx) \<Rightarrow> string \<Rightarrow> int \<Rightarrow> nat \<times> writer \<Rightarrow> 'l \<Rightarrow>
   (replay_end \<times> (nat \<Rightarrow> ctx) \<times> nat \<times> writer) option" where
  "replay_topic ops cd nodeID 0 cx topic nextOffset (sent, w) l = None"
| "replay_topic ops cd nodeID (Suc fuel) cx topic nextOffset (sent, w) l =
     (case op_ReadEvents ops (cx 0) topic nextOffset sseReplayBatchSize l of
        Inl err \<Rightarrow> Some (if err = LogPanic then ReplayPanic else ReplayFailed, later_calls cx, sent, w)
      | Inr events \<Rightarrow>
          if events = [] then Some (ReplayDone, later_calls cx, sent, w)
          else case send_events cd nodeID events nextOffset w of
            (False, _, w') \<Rightarrow> Some (ReplayFailed, later_calls cx, sent, w')
          | (True, nextOffset', w') \<Rightarrow>
              let sent' = sent + length events in
              if int (length events) < sseReplayBatchSize then Some (ReplayDone, later_calls cx, sent', w')
              else replay_topic ops cd nodeID fuel (later_calls cx) topic nextOffset' (sent', w') l)"

fun replay_loop ::
  "'l log_ops \<Rightarrow> codec \<Rightarrow> string \<Rightarrow> nat \<Rightarrow> (nat \<Rightarrow> ctx) \<Rightarrow> string list \<Rightarrow> (string, int) gomap \<Rightarrow> nat \<times> writer \<Rightarrow> 'l \<Rightarrow>
   (replay_end \<times> nat \<times> writer) option" where
  "replay_loop ops cd nodeID fuel cx topics [] (sent, w) l = Some (ReplayDone, sent, w)"
| "replay_loop ops cd nodeID fuel cx topics ((topic, offset) # m) (sent, w) l =
     (if \<not> topicCoveredBySubscriptions topic topics then replay_loop ops cd nodeID fuel cx topics m (sent, w) l
      else case replay_topic ops cd nodeID fuel cx topic (wrap64 (offset + 1)) (sent, w) l of
        None \<Rightarrow> None
      | Some (ReplayDone, cx', sent', w') \<Rightarrow> replay_loop ops cd nodeID fuel cx' topics m (sent', w') l
      | Some (e, cx', sent', w') \<Rightarrow> Some (e, sent', w'))"

definition replaySSECursor ::
  "'l log_ops \<Rightarrow> codec \<Rightarrow> nat \<Rightarrow> (nat \<Rightarrow> ctx) \<Rightarrow> multi_cursor \<Rightarrow> string list \<Rightarrow> writer \<Rightarrow> 'l api \<Rightarrow>
   (replay_end \<times> writer \<times> 'l api) option" where
  "replaySSECursor ops cd fuel cx cursor topics w a =
     (case replay_loop ops cd (GetNodeID (ap_node a)) fuel cx topics (mc_Topics cursor) (0, w) (eventLog (ap_node a)) of
        None \<Rightarrow> None
      | Some (e, sent, w') \<Rightarrow> Some (e, w', a\<lparr>sseResumeEventsReplayed := sseResumeEventsReplayed a + sent\<rparr>))"

subsection \<open>Registration\<close>

fun register_loop ::
  "subscriber \<Rightarrow> string list \<Rightarrow> client_subscription list \<Rightarrow> rtable \<Rightarrow> (rt_error + string list) \<times> rtable" where
  "register_loop client topics [] rt = (Inr topics, rt)"
| "register_loop client topics (s # subs) rt =
     (if cs_Topic s \<in> set topics then register_loop client topics subs rt
      else case Subscribe (cs_Topic s) (Some client) rt of
        (Some err, rt') \<Rightarrow> (Inl err, rt')
      | (None, rt') \<Rightarrow> register_loop client (topics @ [cs_Topic s]) subs rt')"

definition registerSSEClient ::
  "subscriber \<Rightarrow> client_subscription list \<Rightarrow> 'l mesh_node \<Rightarrow> (rt_error + string list) \<times> 'l mesh_node" where
  "registerSSEClient client subs n =
     (case register_loop client [] subs (routingTable n) of (res, rt) \<Rightarrow> (res, n\<lparr>routingTable := rt\<rparr>))"

fun unregister_loop :: "string \<Rightarrow> string list \<Rightarrow> rtable \<Rightarrow> rtable" where
  "unregister_loop clientID [] rt = rt"
| "unregister_loop clientID (t # ts) rt = unregister_loop clientID ts (snd (Unsubscribe t clientID rt))"

definition unregisterSSEClient :: "subscriber \<Rightarrow> string list \<Rightarrow> 'l mesh_node \<Rightarrow> 'l mesh_node" where
  "unregisterSSEClient client topics n = n\<lparr>routingTable := unregister_loop (ID client) topics (routingTable n)\<rparr>"

subsection \<open>Streaming\<close>

text \<open>
  One choice of the loop's \<open>select\<close>, or a step of the rest of the node in between. An event case with nothing in the
  channel is not ready.
\<close>

datatype 'l choice = CtxDone | Ticker | EventReady | Others "'l mesh_node \<Rightarrow> 'l mesh_node"

definition ping :: string where
  "ping = '': ping'' @ [newline, newline]"

fun streamWithKeepalive :: "codec \<Rightarrow> nat \<Rightarrow> 'l choice list \<Rightarrow> writer \<Rightarrow> 'l api \<Rightarrow> writer \<times> 'l api" where
  "streamWithKeepalive cd addr [] w a = (w, a)"
| "streamWithKeepalive cd addr (CtxDone # cs) w a = (w, a)"
| "streamWithKeepalive cd addr (Ticker # cs) w a =
     (case Write (TextBody ping) w of
        (False, w') \<Rightarrow> (w', a)
      | (True, w') \<Rightarrow> streamWithKeepalive cd addr cs w' a)"
| "streamWithKeepalive cd addr (EventReady # cs) w a =
     (let n = ap_node a; obj = client_at (clientHeap n) addr; ch = co_chan obj in
      case ch_items ch of
        [] \<Rightarrow> if ch_closed ch then (w, a) else streamWithKeepalive cd addr cs w a
      | e # es \<Rightarrow>
          let a' = a\<lparr>ap_node := n\<lparr>clientHeap := (clientHeap n)[addr := obj\<lparr>co_chan := ch\<lparr>ch_items := es\<rparr>\<rparr>]\<rparr>\<rparr> in
          (case writeSSEMessage cd (eventToSSEMessage cd (GetNodeID n) e) w of
             (False, w') \<Rightarrow> (w', a')
           | (True, w') \<Rightarrow> streamWithKeepalive cd addr cs w' a'))"
| "streamWithKeepalive cd addr (Others f # cs) w a = streamWithKeepalive cd addr cs w (a\<lparr>ap_node := f (ap_node a)\<rparr>)"

definition sse_headers :: "writer \<Rightarrow> writer" where
  "sse_headers w = SetHeader ''Access-Control-Allow-Origin'' ''*'' (SetHeader ''Connection'' ''keep-alive''
     (SetHeader ''Cache-Control'' ''no-cache'' (SetHeader ''Content-Type'' ''text/event-stream'' w)))"

definition established :: chunk where
  "established = TextBody ('': SSE connection established for all topics'' @ [newline, newline])"

definition shouldStream :: "request \<Rightarrow> bool" where
  "shouldStream r \<longleftrightarrow> hdr r ''Accept'' = ''text/event-stream'' \<or> query r ''stream'' = ''true''"

text \<open>The part after the headers; the result is whether it panicked.\<close>

definition stream_body ::
  "'l log_ops \<Rightarrow> codec \<Rightarrow> nat \<Rightarrow> 'l choice list \<Rightarrow> request \<Rightarrow> multi_cursor option \<Rightarrow> nat \<Rightarrow> string list \<Rightarrow> writer \<Rightarrow> 'l api \<Rightarrow>
   (bool \<times> writer \<times> 'l api) option" where
  "stream_body ops cd fuel cs r resumeCursor addr topics w a =
     (case Write established (WriteHeader 200 (sse_headers w)) of
        (False, w) \<Rightarrow> Some (False, w, a)
      | (True, w) \<Rightarrow>
         (case resumeCursor of
            None \<Rightarrow> (case streamWithKeepalive cd addr cs w a of (w, a) \<Rightarrow> Some (False, w, a))
          | Some cursor \<Rightarrow>
             (case replaySSECursor ops cd fuel (replay_ctx r) cursor topics w a of
                None \<Rightarrow> None
              | Some (ReplayPanic, w, a) \<Rightarrow> Some (True, w, a)
              | Some (ReplayFailed, w, a) \<Rightarrow> Some (False, w, a)
              | Some (ReplayDone, w, a) \<Rightarrow>
                  (case streamWithKeepalive cd addr cs w a of (w, a) \<Rightarrow> Some (False, w, a)))))"

text \<open>The part for a client that streams, from its registration on; it is unregistered whatever happens after that.\<close>

definition client_stream ::
  "'l log_ops \<Rightarrow> codec \<Rightarrow> nat \<Rightarrow> 'l choice list \<Rightarrow> int \<Rightarrow> request \<Rightarrow> claims \<Rightarrow> multi_cursor option \<Rightarrow> writer \<Rightarrow> 'l api \<Rightarrow>
   (bool \<times> writer \<times> 'l api) option" where
  "client_stream ops cd fuel cs now r claims resumeCursor w a =
     (case NewHTTPClient now claims (ap_node a) of (client, n) \<Rightarrow>
        (case registerSSEClient client (GetClientSubscriptions (cl_ClientID claims) n) n of
           (Inl err, n) \<Rightarrow> Some (False, writeError ''Failed to register SSE client: '' 500 w, a\<lparr>ap_node := n\<rparr>)
         | (Inr topics, n) \<Rightarrow>
            let a = a\<lparr>ap_node := n\<rparr>;
                addr = length (clientHeap (ap_node a)) - 1;
                unregister = (\<lambda>(p, w, a). (p, w, a\<lparr>ap_node := unregisterSSEClient client topics (ap_node a)\<rparr>));
                plan = (case resumeCursor of
                          None \<Rightarrow> None
                        | Some cursor \<Rightarrow> validateSSEReplayPlan ops (plan_ctx r) cursor topics maxSSEResumeReplayEvents
                            maxSSEResumeTopics (eventLog (ap_node a)))
            in (case plan of
                  Some err \<Rightarrow>
                    if err = SSEReplayLimit \<or> err = SSETopicLimit
                    then Some (unregister (False, writeError (limit_text err) 413 w,
                           a\<lparr>sseResumeReplayLimitExceeded := sseResumeReplayLimitExceeded a + 1\<rparr>))
                    else Some (unregister (False, writeError ''Failed to validate SSE replay: '' 500 w, a))
                | None \<Rightarrow> map_option unregister (stream_body ops cd fuel cs r resumeCursor addr topics w a))))"

definition StreamEvents :: "'l log_ops \<Rightarrow> codec \<Rightarrow> nat \<Rightarrow> 'l choice list \<Rightarrow> int \<Rightarrow> 'l handler" where
  "StreamEvents ops cd fuel cs now r w a =
     (case GetClaims r of
        None \<Rightarrow> Some (False, writeError ''Authentication required'' 401 w, a)
      | Some claims \<Rightarrow>
          if TrimSpace (query r ''topic'') \<noteq> []
          then Some (False, writeError ''topic query parameter is not supported for SSE streaming; create a subscription with POST /api/v1/subscriptions, then connect to /api/v1/events/stream'' 400 w, a)
          else case resumeCursorFromRequest r of
            Inl err \<Rightarrow> Some (False, writeError ''Invalid SSE resume cursor: '' 400 w,
              a\<lparr>sseResumeInvalidCursor := sseResumeInvalidCursor a + 1\<rparr>)
          | Inr resumeCursor \<Rightarrow>
              let a = (if resumeCursor \<noteq> None then a\<lparr>sseResumeRequests := sseResumeRequests a + 1\<rparr> else a) in
              if (case resumeCursor of None \<Rightarrow> False | Some cursor \<Rightarrow> mc_Node cursor \<noteq> GetNodeID (ap_node a))
              then Some (False, writeError ''SSE resume cursor belongs to a different node '' 409 w,
                a\<lparr>sseResumeNodeMismatch := sseResumeNodeMismatch a + 1\<rparr>)
              else if shouldStream r then client_stream ops cd fuel cs now r claims resumeCursor w a
              else Some (False, snd (Write established (WriteHeader 200 (sse_headers w))), a))"

end
