(* ===== verification/Http_Server.thy ===== *)
theory Http_Server
  imports Http_Stream
begin

text \<open>
  The routes of \<open>internal/httpapi/server.go\<close>, with the middleware around each handler, and what the response writer holds after it.
\<close>

subsection \<open>Routes\<close>

text \<open>
  What one request finds: the log's operations, the JWT library, the codecs, the clock, the fuel of a replay and the
  choices of its stream.
\<close>

record 'l server_env =
  se_ops :: "'l log_ops"
  se_jwt :: jwt_ops
  se_codec :: codec
  se_now :: int
  se_fuel :: nat
  se_choices :: "'l choice list"

definition handleEvents :: "'l server_env \<Rightarrow> 'l action" where
  "handleEvents env r w a =
     (if rq_Method r = ''POST'' then ApiPublishEvent (se_ops env) (se_codec env) (se_now env) r w a
      else if rq_Method r = ''GET'' then (False, WriteHeader 307 (SetHeader ''Location'' ''/api/v1/events/stream'' w), a)
      else (False, server_writeError ''Method not allowed'' 405 w, a))"

definition handleSubscriptions :: "'l server_env \<Rightarrow> 'l action" where
  "handleSubscriptions env r w a =
     (if rq_Method r = ''GET'' then ListSubscriptions r w a
      else if rq_Method r = ''POST'' then CreateSubscription (se_now env) r w a
      else (False, server_writeError ''Method not allowed'' 405 w, a))"

definition handleSubscriptionByID :: "'l server_env \<Rightarrow> 'l action" where
  "handleSubscriptionByID env r w a =
     (let path = rq_Path r in
      if \<not> HasPrefix path ''/api/v1/subscriptions/'' then (False, server_writeError ''Invalid subscription path'' 404 w, a)
      else
        let subscriptionID = TrimPrefix path ''/api/v1/subscriptions/'' in
        if subscriptionID = [] then (False, server_writeError ''Subscription ID required'' 400 w, a)
        else if rq_Method r = ''DELETE'' then DeleteSubscription (se_now env) (r\<lparr>rq_subscriptionID := Some subscriptionID\<rparr>) w a
        else (False, server_writeError ''Method not allowed'' 405 w, a))"

definition handleTopicEvents :: "'l server_env \<Rightarrow> 'l action" where
  "handleTopicEvents env r w a =
     (let path = rq_Path r in
      if \<not> HasPrefix path ''/api/v1/topics/'' then (False, server_writeError ''Invalid topic path'' 404 w, a)
      else
        let pathAfterTopics = TrimPrefix path ''/api/v1/topics/'' in
        if pathAfterTopics = [] then (False, server_writeError ''Topic name required'' 400 w, a)
        else if \<not> HasSuffix pathAfterTopics ''/events''
        then (False, server_writeError ''Invalid path, expected /events'' 404 w, a)
        else
          let topic = TrimSuffix pathAfterTopics ''/events'' in
          if topic = [] then (False, server_writeError ''Topic name required'' 400 w, a)
          else if rq_Method r = ''GET''
          then ReadTopicEvents (se_ops env) (se_codec env) (r\<lparr>rq_topic := Some topic\<rparr>) w a
          else (False, server_writeError ''Method not allowed'' 405 w, a))"

definition handleRoot :: "'l action" where
  "handleRoot r w a =
     (if rq_Path r \<noteq> ''/'' then (False, server_writeError ''Not found'' 404 w, a)
      else (False, writeJSON InfoBody 200 w, a))"

definition auth :: "'l server_env \<Rightarrow> 'l action \<Rightarrow> 'l handler" where
  "auth env act = withMiddleware (AuthRequired (se_jwt env) (se_now env) (answer act))"

definition admin :: "'l server_env \<Rightarrow> 'l action \<Rightarrow> 'l handler" where
  "admin env act = withMiddleware (AdminRequired (se_jwt env) (se_now env) (answer act))"

text \<open>The multiplexer: an exact path first, then the longest registered prefix.\<close>

definition setupRoutes :: "'l server_env \<Rightarrow> string \<Rightarrow> 'l handler" where
  "setupRoutes env path =
     (if path = ''/api/v1/auth/login'' then withMiddleware (answer (Login (se_jwt env) (se_now env)))
      else if path = ''/api/v1/events'' then auth env (handleEvents env)
      else if path = ''/api/v1/events/stream'' then
        withMiddleware (AuthRequired (se_jwt env) (se_now env)
          (StreamEvents (se_ops env) (se_codec env) (se_fuel env) (se_choices env) (se_now env)))
      else if path = ''/api/v1/subscriptions'' then auth env (handleSubscriptions env)
      else if HasPrefix path ''/api/v1/subscriptions/'' then auth env (handleSubscriptionByID env)
      else if HasPrefix path ''/api/v1/topics/'' then auth env (handleTopicEvents env)
      else if path = ''/api/v1/admin/clients'' then admin env AdminListClients
      else if path = ''/api/v1/admin/subscriptions'' then admin env AdminListSubscriptions
      else if path = ''/api/v1/admin/stats'' then admin env (AdminGetStats (se_ops env))
      else if path = ''/api/v1/health'' then withMiddleware (answer (ApiHealth (se_ops env)))
      else withMiddleware (answer handleRoot))"

text \<open>
  The multiplexer redirects a path that is not clean (an empty segment, a dot or two dots), and a path to which only the slash
  of a registered prefix is missing. Requests come with their path already decoded, and it is this path that is routed on: an escaped
  slash counts as a slash. The \<open>Location\<close> header of the redirection is left out.
\<close>

definition clean_path :: "string \<Rightarrow> bool" where
  "clean_path p \<longleftrightarrow>
     (case split_on CHR ''/'' p of
        [] \<Rightarrow> False
      | s # ss \<Rightarrow> s = [] \<and> ss \<noteq> [] \<and> [] \<notin> set (butlast ss) \<and> ''.'' \<notin> set ss \<and> ''..'' \<notin> set ss)"

definition ServeHTTP :: "'l server_env \<Rightarrow> 'l handler" where
  "ServeHTTP env r w a =
     (if rq_Method r \<noteq> ''CONNECT'' \<and> (\<not> clean_path (rq_Path r) \<or> rq_Path r = ''/api/v1/topics'')
      then Some (False, WriteHeader 301 w, a)
      else setupRoutes env (rq_Path r) r w a)"

definition formatAddress :: "string \<Rightarrow> string" where
  "formatAddress addr =
     (if addr = [] then []
      else if HasPrefix addr ''[::]:'' then ''localhost:'' @ TrimPrefix addr ''[::]:''
      else addr)"

subsection \<open>The writer\<close>

lemma WriteHeader_status: "wr_Status (WriteHeader k w) = Some (case wr_Status w of None \<Rightarrow> k | Some s \<Rightarrow> s)"
  by (simp add: WriteHeader_def split: option.splits)

lemma Write_status: "wr_Status (snd (Write c w)) = Some (case wr_Status w of None \<Rightarrow> 200 | Some s \<Rightarrow> s)"
  by (simp add: Write_def Let_def WriteHeader_status split: prod.splits bool.splits)

lemma SetHeader_fields [simp]:
  "wr_Status (SetHeader k v w) = wr_Status w" "wr_Chunks (SetHeader k v w) = wr_Chunks w" "wr_live (SetHeader k v w) = wr_live w"
  by (simp_all add: SetHeader_def)

lemma WriteHeader_fields [simp]: "wr_Chunks (WriteHeader k w) = wr_Chunks w" "wr_live (WriteHeader k w) = wr_live w"
  by (simp_all add: WriteHeader_def split: option.splits)

lemma status_simps [simp]:
  "wr_Status (writeJSON b k w) = Some (case wr_Status w of None \<Rightarrow> k | Some s \<Rightarrow> s)"
  "wr_Status (writeError m k w) = Some (case wr_Status w of None \<Rightarrow> k | Some s \<Rightarrow> s)"
  "wr_Status (server_writeError m k w) = Some (case wr_Status w of None \<Rightarrow> k | Some s \<Rightarrow> s)"
  by (auto simp: writeJSON_def writeError_def server_writeError_def Write_status WriteHeader_status split: option.splits)

lemma Write_live: "wr_live w = None \<Longrightarrow> Write c w = (True, WriteHeader 200 w\<lparr>wr_Chunks := wr_Chunks w @ [c], wr_live := None\<rparr>)"
  by (simp add: Write_def Let_def WriteHeader_def split: option.splits)

text \<open>What reaches the handler through the common middleware.\<close>

definition common_headers :: "writer \<Rightarrow> writer" where
  "common_headers w = SetHeader ''Content-Type'' ''application/json'' (SetHeader ''Access-Control-Max-Age'' ''86400''
     (SetHeader ''Access-Control-Allow-Headers'' ''Content-Type, Authorization''
       (SetHeader ''Access-Control-Allow-Methods'' ''GET, POST, PUT, DELETE, OPTIONS''
         (SetHeader ''Access-Control-Allow-Origin'' ''*'' w))))"

lemma common_headers_fields [simp]:
  "wr_Status (common_headers w) = wr_Status w" "wr_Chunks (common_headers w) = wr_Chunks w" "wr_live (common_headers w) = wr_live w"
  by (simp_all add: common_headers_def)

lemma withMiddleware_eq:
  "rq_Method r \<noteq> ''OPTIONS'' \<Longrightarrow> withMiddleware h r w a =
     (case h r (common_headers w) a of
        None \<Rightarrow> None
      | Some (p, w', a') \<Rightarrow> Some (False, if p then writeError ''Internal server error'' 500 w' else w', a'))"
  unfolding withMiddleware_def Recovery_def middleware_writeError_eq
  by (simp add: CORS_def ContentType_def common_headers_def Let_def)

lemma new_writer_fields [simp]:
  "wr_Status (new_writer l) = None" "wr_Chunks (new_writer l) = []" "wr_live (new_writer l) = l" "wr_Header (new_writer l) = []"
  by (simp_all add: new_writer_def)

end
