(* ===== verification/Http_Gate.thy ===== *)
theory Http_Gate
  imports Http_Server Mesh_Safety
begin

text \<open>
  Who gets past the middleware, what a token from the login is good for, and that no request breaks the node's
  invariant.
\<close>

subsection \<open>Tokens\<close>

context jwt_library
begin

lemma generated_token_accepted:
  assumes "GenerateToken jw key now c adm = Inr (token, expires)" "now \<le> now'" "now' + 1000000000 \<le> now + token_lifetime"
  shows "\<exists>claims. ValidateToken jw key now' token = Inr claims \<and> cl_ClientID claims = c \<and> cl_IsAdmin claims = adm"
    and "token \<noteq> [] \<and> \<not> HasPrefix token ''Bearer ''"
proof -
  let ?c = "\<lparr>cl_ClientID = c, cl_IsAdmin = adm, cl_IssuedAt = Some (jw_NumericDate jw now),
    cl_ExpiresAt = Some (jw_NumericDate jw (now + token_lifetime))\<rparr>"
  have sign: "jw_Sign jw key ?c = Inr token"
    using assms(1) by (auto simp: GenerateToken_def Let_def split: if_splits sum.splits)
  then have s: "signed_with key ?c token" "token \<noteq> []" "\<not> HasPrefix token ''Bearer ''"
    using sign_signed by blast+
  then show "token \<noteq> [] \<and> \<not> HasPrefix token ''Bearer ''" by simp
  have "now' < jw_NumericDate jw (now + token_lifetime)"
    using numeric_date(2) [of "now + token_lifetime"] assms(3) by linarith
  then have "jw_Parse jw (\<lambda>hmac. if \<not> hmac then Inl ''unexpected signing method'' else Inr key) now' token = Inr (True, ?c)"
    using parse_signed [OF s(1)] by simp
  then have "ValidateToken jw key now' token = Inr ?c"
    using s(2,3) by (simp add: ValidateToken_def TrimPrefix_def Let_def)
  then show "\<exists>claims. ValidateToken jw key now' token = Inr claims \<and> cl_ClientID claims = c \<and> cl_IsAdmin claims = adm"
    by simp
qed

text \<open>Nobody is let in without a signature made with the server's key.\<close>

lemma accepted_token_signed:
  assumes "ValidateToken jw key now token = Inr claims"
  shows "signed_with key claims (TrimPrefix token ''Bearer '')"
proof -
  let ?kf = "\<lambda>hmac. if \<not> hmac then Inl ''unexpected signing method'' else Inr key"
  have "jw_Parse jw ?kf now (TrimPrefix token ''Bearer '') = Inr (True, claims)"
    using assms by (auto simp: ValidateToken_def Let_def split: if_splits sum.splits prod.splits)
  from parse_only_signed [OF this] show ?thesis by simp
qed

end

text \<open>
  A concrete library for the witnesses: a token spells out the key and the claims. It has the interface and the laws of a JWT library,
  though of course no secrecy.
\<close>

fun put_field :: "string \<Rightarrow> string" where
  "put_field [] = ''.''"
| "put_field (c # s) = CHR ''x'' # c # put_field s"

fun get_field :: "string \<Rightarrow> (string \<times> string) option" where
  "get_field (c # s) =
     (if c = CHR ''.'' then Some ([], s)
      else (case s of [] \<Rightarrow> None | d # s' \<Rightarrow> map_option (\<lambda>(f, r). (d # f, r)) (get_field s')))"
| "get_field [] = None"

lemma get_put_field: "get_field (put_field s @ r) = Some (s, r)"
  by (induction s rule: put_field.induct) auto

definition put_date :: "int option \<Rightarrow> string" where
  "put_date d = (case d of None \<Rightarrow> [] | Some t \<Rightarrow> (if t < 0 then CHR ''-'' else CHR ''+'') # replicate (nat \<bar>t\<bar>) CHR ''1'')"

definition get_date :: "string \<Rightarrow> int option" where
  "get_date s = (case s of [] \<Rightarrow> None | c # r \<Rightarrow> Some (if c = CHR ''-'' then - int (length r) else int (length r)))"

lemma get_put_date: "get_date (put_date d) = d"
  by (auto simp: get_date_def put_date_def split: option.splits)

definition plain_token :: "string \<Rightarrow> claims \<Rightarrow> string" where
  "plain_token key c = put_field key @ put_field (cl_ClientID c) @ put_field (if cl_IsAdmin c then ''a'' else [])
     @ put_field (put_date (cl_IssuedAt c)) @ put_field (put_date (cl_ExpiresAt c))"

fun get_fields :: "nat \<Rightarrow> string \<Rightarrow> string list" where
  "get_fields 0 s = []"
| "get_fields (Suc n) s = (case get_field s of None \<Rightarrow> [] | Some (f, r) \<Rightarrow> f # get_fields n r)"

definition read_token :: "string \<Rightarrow> (string \<times> claims) option" where
  "read_token s =
     (case get_fields 5 s of
        [key, i, adm, iat, ex] \<Rightarrow>
          let c = \<lparr>cl_ClientID = i, cl_IsAdmin = (adm \<noteq> []), cl_IssuedAt = get_date iat, cl_ExpiresAt = get_date ex\<rparr>
          in if plain_token key c = s then Some (key, c) else None
      | _ \<Rightarrow> None)"

lemma read_plain_token: "read_token (plain_token key c) = Some (key, c)"
proof -
  have "get_fields 5 (plain_token key c) =
      [key, cl_ClientID c, if cl_IsAdmin c then ''a'' else [], put_date (cl_IssuedAt c), put_date (cl_ExpiresAt c)]"
    using get_put_field [of "put_date (cl_ExpiresAt c)" "[]"]
    by (simp add: plain_token_def get_put_field eval_nat_numeral)
  then show ?thesis
    by (cases c) (simp add: read_token_def get_put_date Let_def)
qed

lemma read_token_plain: "read_token s = Some (key, c) \<Longrightarrow> s = plain_token key c"
  by (auto simp: read_token_def Let_def split: list.splits if_splits)

definition plain_jwt :: jwt_ops where
  "plain_jwt = \<lparr>
     jw_NumericDate = (\<lambda>t. t - t mod 1000000000),
     jw_Sign = (\<lambda>key c. Inr (plain_token key c)),
     jw_Parse = (\<lambda>kf now token.
       case read_token token of
         None \<Rightarrow> Inl ''malformed''
       | Some (key, c) \<Rightarrow>
          (case kf True of
             Inl err \<Rightarrow> Inl err
           | Inr k \<Rightarrow>
               if k \<noteq> key then Inl ''signature is invalid''
               else if (case cl_ExpiresAt c of None \<Rightarrow> False | Some e \<Rightarrow> e \<le> now) then Inl ''token is expired''
               else Inr (True, c)))\<rparr>"

lemma plain_token_start: "plain_token key c \<noteq> [] \<and> \<not> HasPrefix (plain_token key c) ''Bearer ''"
  by (cases key) (simp_all add: plain_token_def HasPrefix_def)

interpretation plain: jwt_library plain_jwt "\<lambda>key c token. token = plain_token key c"
proof (unfold_locales, goal_cases)
  case (1 key c token)
  then show ?case using plain_token_start by (auto simp: plain_jwt_def)
next
  case (2 key c token kf now)
  then show ?case by (force simp: plain_jwt_def read_plain_token split: option.splits)
next
  case (3 kf now token c)
  then show ?case
    by (auto simp: plain_jwt_def dest!: read_token_plain split: option.splits sum.splits if_splits prod.splits)
next
  case (4 t)
  then show ?case by (simp add: plain_jwt_def)
next
  case (5 t)
  have "t mod 1000000000 < 1000000000" by simp
  then show ?case by (simp add: plain_jwt_def)
qed

definition demo_request :: "string \<Rightarrow> string \<Rightarrow> (string, string) gomap \<Rightarrow> string \<Rightarrow> request" where
  "demo_request method path headers body =
     \<lparr>rq_Method = method, rq_Path = path, rq_Header = headers, rq_Query = [], rq_Body = body, rq_ctx = (\<lambda>k. None),
      rq_clientID = None, rq_isAdmin = None, rq_claims = None, rq_subscriptionID = None, rq_topic = None\<rparr>"

subsection \<open>The gates\<close>

definition admin_path :: "string \<Rightarrow> bool" where
  "admin_path p \<longleftrightarrow> p \<in> {''/api/v1/admin/clients'', ''/api/v1/admin/subscriptions'', ''/api/v1/admin/stats''}"

definition client_path :: "string \<Rightarrow> bool" where
  "client_path p \<longleftrightarrow> p \<in> {''/api/v1/events'', ''/api/v1/events/stream'', ''/api/v1/subscriptions''}
     \<or> HasPrefix p ''/api/v1/subscriptions/'' \<or> HasPrefix p ''/api/v1/topics/''"

definition only_errors :: "writer \<Rightarrow> bool" where
  "only_errors w \<longleftrightarrow> list_all (\<lambda>c. \<exists>e. c = ErrorBody e) (wr_Chunks w)"

lemma writeError_only: "only_errors w \<Longrightarrow> only_errors (writeError m k w)"
  by (auto simp: only_errors_def writeError_def Write_def Let_def list_all_iff split: prod.splits bool.splits)

lemma stats_answer:
  assumes "rq_claims r = Some c" "cl_IsAdmin c" "wr_Status w = None"
  shows "\<exists>w'. AdminGetStats ops r w a = (False, w', a) \<and> wr_Status w' \<in> {Some 200, Some 500}"
  using assms
  by (cases "GetTopicCount (routingTable (ap_node a))"; cases "GetSubscriberCount (routingTable (ap_node a))";
      cases "op_GetStatistics ops (rq_ctx r 1) (eventLog (ap_node a))")
    (simp_all add: AdminGetStats_def admin_only_def GetClaims_def Let_def)

lemma admin_actions:
  assumes "act \<in> {AdminListClients, AdminListSubscriptions, AdminGetStats ops}" "rq_claims r = Some c" "cl_IsAdmin c"
    and "wr_Status w = None"
  shows "\<exists>w'. act r w a = (False, w', a) \<and> wr_Status w' \<in> {Some 200, Some 500}"
  using assms stats_answer [OF assms(2-4)]
  by (auto simp: AdminListClients_def AdminListSubscriptions_def admin_only_def GetClaims_def)

lemma admin_clean: "admin_path p \<Longrightarrow> clean_path p \<and> p \<noteq> ''/api/v1/topics''"
  by (auto simp: admin_path_def clean_path_def)

lemma admin_routes:
  assumes "admin_path p"
  obtains act where "setupRoutes env p = admin env act" "act \<in> {AdminListClients, AdminListSubscriptions, AdminGetStats (se_ops env)}"
  using assms by (auto simp: admin_path_def setupRoutes_def HasPrefix_def)

lemma admin_answer:
  assumes path: "admin_path (rq_Path r)" and verb: "rq_Method r \<noteq> ''OPTIONS''"
  shows "\<exists>w'. ServeHTTP env r (new_writer live) a = Some (False, w', a)
    \<and> (case ValidateToken (se_jwt env) (ap_secretKey a) (se_now env) (extractToken r) of
         Inl err \<Rightarrow> wr_Status w' = Some 401 \<and> only_errors w'
       | Inr c \<Rightarrow> if cl_IsAdmin c then wr_Status w' \<in> {Some 200, Some 500} else wr_Status w' = Some 403 \<and> only_errors w')"
proof -
  obtain act where act: "setupRoutes env (rq_Path r) = admin env act"
    "act \<in> {AdminListClients, AdminListSubscriptions, AdminGetStats (se_ops env)}"
    using admin_routes [OF path] .
  let ?w = "common_headers (new_writer live)"
  have serve: "ServeHTTP env r (new_writer live) a =
      (case AdminRequired (se_jwt env) (se_now env) (answer act) r ?w a of
         None \<Rightarrow> None
       | Some (p, w', a') \<Rightarrow> Some (False, if p then writeError ''Internal server error'' 500 w' else w', a'))"
    using admin_clean [OF path] verb by (simp add: ServeHTTP_def act(1) admin_def withMiddleware_eq)
  have errs: "only_errors ?w" by (simp add: only_errors_def)
  consider err where "ValidateToken (se_jwt env) (ap_secretKey a) (se_now env) (extractToken r) = Inl err"
    | c where "ValidateToken (se_jwt env) (ap_secretKey a) (se_now env) (extractToken r) = Inr c" "\<not> cl_IsAdmin c"
    | c where "ValidateToken (se_jwt env) (ap_secretKey a) (se_now env) (extractToken r) = Inr c" "cl_IsAdmin c"
    by (cases "ValidateToken (se_jwt env) (ap_secretKey a) (se_now env) (extractToken r)") auto
  then show ?thesis
  proof cases
    case 1
    then show ?thesis
      using errs by (cases "extractToken r = []") (simp_all add: serve AdminRequired_def writeError_only)
  next
    case 2
    then have "extractToken r \<noteq> []" by (auto simp: ValidateToken_def)
    with 2 show ?thesis using errs by (simp add: serve AdminRequired_def writeError_only)
  next
    case 3
    then have t: "extractToken r \<noteq> []" by (auto simp: ValidateToken_def)
    obtain w' where "act (with_claims c r) ?w a = (False, w', a)" "wr_Status w' \<in> {Some 200, Some 500}"
      using admin_actions [OF act(2), of "with_claims c r" c ?w a] 3(2) by (auto simp: with_claims_def)
    with 3 t show ?thesis by (simp add: serve AdminRequired_def answer_def)
  qed
qed

lemma client_routes:
  assumes "client_path p"
  shows "\<exists>h. setupRoutes env p = withMiddleware (AuthRequired (se_jwt env) (se_now env) h)"
proof -
  have login: "p \<noteq> ''/api/v1/auth/login''"
    using assms by (auto simp: client_path_def HasPrefix_def)
  consider "p = ''/api/v1/events''" | "p = ''/api/v1/events/stream''" | "p = ''/api/v1/subscriptions''"
    | "p \<notin> {''/api/v1/events'', ''/api/v1/events/stream'', ''/api/v1/subscriptions''}"
      "HasPrefix p ''/api/v1/subscriptions/'' \<or> HasPrefix p ''/api/v1/topics/''"
    using assms unfolding client_path_def by blast
  then show ?thesis
  proof cases
    case 4
    with login show ?thesis
      by (cases "HasPrefix p ''/api/v1/subscriptions/''") (simp_all add: setupRoutes_def auth_def, blast+)
  qed (simp_all add: setupRoutes_def auth_def, blast+)
qed

lemma client_refused:
  assumes path: "client_path (rq_Path r)" and verb: "rq_Method r \<noteq> ''OPTIONS''" and auth: "\<not> ap_noAuth a"
    and bad: "ValidateToken (se_jwt env) (ap_secretKey a) (se_now env) (extractToken r) = Inl err"
  shows "\<exists>w'. ServeHTTP env r (new_writer live) a = Some (False, w', a) \<and> only_errors w'
    \<and> wr_Status w' = Some (if rq_Method r \<noteq> ''CONNECT'' \<and> \<not> clean_path (rq_Path r) then 301 else 401)"
proof -
  obtain h where h: "setupRoutes env (rq_Path r) = withMiddleware (AuthRequired (se_jwt env) (se_now env) h)"
    using client_routes [OF path] by blast
  have "rq_Path r \<noteq> ''/api/v1/topics''"
    using path by (auto simp: client_path_def HasPrefix_def)
  moreover have "only_errors (common_headers (new_writer live))" "only_errors (WriteHeader 301 (new_writer live))"
    by (simp_all add: only_errors_def)
  ultimately show ?thesis
    using auth bad
    by (cases "extractToken r = []")
      (auto simp: ServeHTTP_def h withMiddleware_eq [OF verb] AuthRequired_def writeError_only WriteHeader_status)
qed


definition gate_env :: "mem_log server_env" where
  "gate_env = \<lparr>se_ops = mem_ops, se_jwt = plain_jwt,
     se_codec = \<lparr>cd_float = Some, cd_time = show_int, cd_parse_time = parse_int64\<rparr>, se_now = 9, se_fuel = 1, se_choices = []\<rparr>"


subsection \<open>Requests keep the node's invariant\<close>

definition keeps :: "'l handler \<Rightarrow> bool" where
  "keeps h \<longleftrightarrow> (\<forall>r w a p w' a'. node_inv (ap_node a) \<longrightarrow> h r w a = Some (p, w', a') \<longrightarrow> node_inv (ap_node a'))"

lemma keepsI: "(\<And>r w a p w' a'. node_inv (ap_node a) \<Longrightarrow> h r w a = Some (p, w', a') \<Longrightarrow> node_inv (ap_node a')) \<Longrightarrow> keeps h"
  by (auto simp: keeps_def)

lemma answer_keeps: "(\<And>r w a. node_inv (ap_node a) \<Longrightarrow> node_inv (ap_node (snd (snd (act r w a))))) \<Longrightarrow> keeps (answer act)"
  by (auto simp: keeps_def answer_def) (metis snd_conv)

lemma AuthRequired_keeps: "keeps h \<Longrightarrow> keeps (AuthRequired jw now h)"
  by (auto simp: keeps_def AuthRequired_def Let_def split: if_splits sum.splits)

lemma AdminRequired_keeps: "keeps h \<Longrightarrow> keeps (AdminRequired jw now h)"
  by (auto simp: keeps_def AdminRequired_def Let_def split: if_splits sum.splits)

lemma withMiddleware_keeps: "keeps h \<Longrightarrow> keeps (withMiddleware h)"
  by (auto simp: keeps_def withMiddleware_def Recovery_def CORS_def ContentType_def Let_def split: if_splits option.splits)

lemma new_client_inv:
  assumes "node_inv n" "NewHTTPClient now c n = (s, n')"
  shows "node_inv n'" "client_live (clientHeap n') s" "clientHeap n' = clientHeap n @ [new_client_obj now]"
    "s = HTTPClient (cl_ClientID c) (length (clientHeap n))" "routingTable n' = routingTable n"
proof -
  have "node_inv (n\<lparr>clientHeap := clientHeap n @ [new_client_obj now]\<rparr>)"
    by (rule mesh_step_inv [OF step_client assms(1)])
  then show "node_inv n'" "client_live (clientHeap n') s" "clientHeap n' = clientHeap n @ [new_client_obj now]"
    "s = HTTPClient (cl_ClientID c) (length (clientHeap n))" "routingTable n' = routingTable n"
    using assms(2) by (auto simp: NewHTTPClient_def client_live_def)
qed

lemma ApiPublishEvent_inv: "node_inv (ap_node a) \<Longrightarrow> node_inv (ap_node (snd (snd (ApiPublishEvent ops cd now r w a))))"
proof -
  assume inv: "node_inv (ap_node a)"
  have pub: "node_inv (snd (PublishEventWithResult ops now ctx (Some s) e n'))" if "NewHTTPClient now c (ap_node a) = (s, n')" for s n' c ctx e
    by (rule mesh_step_inv [OF step_publish new_client_inv(1) [OF inv that]])
  show ?thesis
    using inv pub
    by (auto simp: ApiPublishEvent_def Let_def split: option.splits prod.splits sum.splits) (metis snd_conv)+
qed

lemma CreateSubscription_inv: "node_inv (ap_node a) \<Longrightarrow> node_inv (ap_node (snd (snd (CreateSubscription now r w a))))"
proof -
  assume inv: "node_inv (ap_node a)"
  have sub: "node_inv (snd (NodeSubscribe now ctx (Some s) t n'))" if "NewHTTPClient now c (ap_node a) = (s, n')" for s n' c ctx t
    using NodeSubscribe_inv new_client_inv(1,2) [OF inv that] by blast
  show ?thesis
    using inv sub
    by (auto simp: CreateSubscription_def Let_def split: option.splits prod.splits sum.splits) (metis snd_conv)+
qed

lemma DeleteSubscription_inv: "node_inv (ap_node a) \<Longrightarrow> node_inv (ap_node (snd (snd (DeleteSubscription now r w a))))"
proof -
  assume inv: "node_inv (ap_node a)"
  have "node_inv (snd (UnsubscribeByID now ctx c s (ap_node a)))" for ctx c s
    by (rule mesh_step_inv [OF step_unsubscribe_id inv])
  with inv show ?thesis
    by (auto simp: DeleteSubscription_def Let_def split: option.splits prod.splits mesh_error.splits) (metis snd_conv)+
qed

lemma register_inv:
  assumes "node_inv n" "client_live (clientHeap n) s"
  shows "node_inv (n\<lparr>routingTable := snd (register_loop s topics subs (routingTable n))\<rparr>)"
  using assms
proof (induction subs arbitrary: topics n)
  case (Cons sub subs)
  obtain res rt where sub: "Subscribe (cs_Topic sub) (Some s) (routingTable n) = (res, rt)"
    by (cases "Subscribe (cs_Topic sub) (Some s) (routingTable n)")
  have inv: "node_inv (n\<lparr>routingTable := rt\<rparr>)"
    by (rule Subscribe_inv [OF Cons.prems sub])
  show ?case
    using Cons.IH [OF Cons.prems, of topics] Cons.IH [OF inv, of "topics @ [cs_Topic sub]"] inv Cons.prems sub
    by (cases res) auto
qed simp

lemma unregister_inv: "node_inv n \<Longrightarrow> node_inv (n\<lparr>routingTable := unregister_loop i ts (routingTable n)\<rparr>)"
proof (induction ts arbitrary: n)
  case (Cons t ts)
  from Cons.IH [OF Unsubscribe_keeps [OF Cons.prems, of t i]] show ?case by simp
qed simp

definition others_keep :: "'l choice list \<Rightarrow> bool" where
  "others_keep cs \<longleftrightarrow> (\<forall>f n. Others f \<in> set cs \<longrightarrow> node_inv n \<longrightarrow> node_inv (f n))"

lemma stream_inv:
  "others_keep cs \<Longrightarrow> node_inv (ap_node a) \<Longrightarrow> node_inv (ap_node (snd (streamWithKeepalive cd addr cs w a)))"
proof (induction cd addr cs w a rule: streamWithKeepalive.induct)
  case (4 cd addr cs w a)
  let ?n = "ap_node a" and ?o = "client_at (clientHeap (ap_node a)) addr"
  have read: "node_inv (?n\<lparr>clientHeap := (clientHeap ?n)[addr := ?o\<lparr>co_chan := (co_chan ?o)\<lparr>ch_items := es\<rparr>\<rparr>]\<rparr>)"
    if "ch_items (co_chan ?o) = e # es" for e es
  proof -
    have "node_inv (?n\<lparr>clientHeap := (clientHeap ?n)[addr := ?o\<lparr>co_chan := (chan_of (clientHeap ?n) addr)
        \<lparr>ch_items := tl (ch_items (chan_of (clientHeap ?n) addr))\<rparr>\<rparr>]\<rparr>)"
      by (rule mesh_step_inv [OF step_read "4.prems"(2)])
    with that show ?thesis by (simp add: chan_of_def)
  qed
  show ?case
    using 4 read by (auto simp: others_keep_def Let_def split: list.splits prod.splits bool.splits)
qed (auto simp: others_keep_def split: prod.splits bool.splits)

lemma replay_node: "replaySSECursor ops cd fuel cx cur ts w a = Some (e, w', a') \<Longrightarrow> ap_node a' = ap_node a"
  by (auto simp: replaySSECursor_def split: option.splits prod.splits)

lemma stream_body_inv:
  assumes "others_keep cs" "node_inv (ap_node a)" "stream_body ops cd fuel cs r cur addr ts w a = Some (p, w', a')"
  shows "node_inv (ap_node a')"
proof -
  have s: "node_inv (ap_node a2)" if "streamWithKeepalive cd addr cs w1 a1 = (w2, a2)" "ap_node a1 = ap_node a" for w1 a1 w2 a2
    using stream_inv [OF assms(1), of a1 cd addr w1] that assms(2) by simp
  show ?thesis
    using assms(2,3)
    by (auto simp: stream_body_def dest: replay_node intro: s split: prod.splits bool.splits option.splits replay_end.splits)
qed

lemma client_stream_inv:
  assumes "others_keep cs" "node_inv (ap_node a)" "client_stream ops cd fuel cs now r c cur w a = Some (p, w', a')"
  shows "node_inv (ap_node a')"
proof -
  obtain s n where new: "NewHTTPClient now c (ap_node a) = (s, n)" by (cases "NewHTTPClient now c (ap_node a)")
  note n = new_client_inv [OF assms(2) new]
  obtain res n1 where reg: "registerSSEClient s (GetClientSubscriptions (cl_ClientID c) n) n = (res, n1)"
    by (cases "registerSSEClient s (GetClientSubscriptions (cl_ClientID c) n) n")
  have n1: "node_inv n1"
    using register_inv [OF n(1,2), of "[]" "GetClientSubscriptions (cl_ClientID c) n"] reg
    by (auto simp: registerSSEClient_def split: prod.splits)
  have un: "node_inv (unregisterSSEClient s ts m)" if "node_inv m" for ts m
    using unregister_inv [OF that] by (simp add: unregisterSSEClient_def)
  show ?thesis
    using assms(3) n1 stream_body_inv [OF assms(1), of "a\<lparr>ap_node := n1\<rparr>"]
    by (auto simp: client_stream_def new reg Let_def intro!: un split: sum.splits option.splits if_splits)
qed

lemma StreamEvents_keeps: "others_keep cs \<Longrightarrow> keeps (StreamEvents ops cd fuel cs now)"
proof (rule keepsI)
  fix r w a p w' a'
  assume cs: "others_keep cs" and inv: "node_inv (ap_node a)"
    and st: "StreamEvents ops cd fuel cs now r w a = Some (p, w', a')"
  have "node_inv (ap_node a')" if "client_stream ops cd fuel cs now r c cur w a1 = Some (p, w', a')" "ap_node a1 = ap_node a" for c cur a1
    using client_stream_inv [OF cs, of a1] that inv by simp
  then show "node_inv (ap_node a')"
    using st inv by (auto simp: StreamEvents_def Let_def split: option.splits if_splits sum.splits)
qed

lemma handleEvents_inv: "node_inv (ap_node a) \<Longrightarrow> node_inv (ap_node (snd (snd (handleEvents env r w a))))"
  using ApiPublishEvent_inv by (auto simp: handleEvents_def)

lemma handleSubscriptions_inv: "node_inv (ap_node a) \<Longrightarrow> node_inv (ap_node (snd (snd (handleSubscriptions env r w a))))"
  using CreateSubscription_inv by (auto simp: handleSubscriptions_def ListSubscriptions_def split: option.splits)

lemma handleSubscriptionByID_inv:
  "node_inv (ap_node a) \<Longrightarrow> node_inv (ap_node (snd (snd (handleSubscriptionByID env r w a))))"
  using DeleteSubscription_inv by (auto simp: handleSubscriptionByID_def Let_def)

lemma ReadTopicEvents_read_only: "snd (snd (ReadTopicEvents ops cd r w a)) = a"
  by (simp add: ReadTopicEvents_def Let_def split: option.split sum.split)

lemma handleTopicEvents_inv: "snd (snd (handleTopicEvents env r w a)) = a"
  by (simp add: handleTopicEvents_def Let_def ReadTopicEvents_read_only)

lemma Login_read_only: "snd (snd (Login jw now r w a)) = a"
  by (auto simp: Login_def Let_def split: option.splits sum.splits)

lemma views_read_only:
  "snd (snd (AdminListClients r w a)) = a" "snd (snd (AdminListSubscriptions r w a)) = a"
  "snd (snd (ApiHealth ops r w a)) = a" "snd (snd (handleRoot r w a)) = a"
  by (simp_all add: AdminListClients_def AdminListSubscriptions_def admin_only_def ApiHealth_def handleRoot_def Let_def
      split: option.splits)

lemma stats_read_only: "snd (snd (AdminGetStats ops r w a)) = a"
  by (cases "GetTopicCount (routingTable (ap_node a))"; cases "GetSubscriberCount (routingTable (ap_node a))";
      cases "op_GetStatistics ops (rq_ctx r 1) (eventLog (ap_node a))")
    (simp_all add: AdminGetStats_def admin_only_def Let_def split: option.splits)

lemma keeps_if: "keeps x \<Longrightarrow> keeps y \<Longrightarrow> keeps (if b then x else y)"
  by simp

lemmas keeps_intros = keeps_if withMiddleware_keeps AuthRequired_keeps AdminRequired_keeps answer_keeps StreamEvents_keeps
lemmas action_invs = Login_read_only views_read_only stats_read_only handleTopicEvents_inv handleEvents_inv
  handleSubscriptions_inv handleSubscriptionByID_inv

lemma setupRoutes_keeps:
  assumes "others_keep (se_choices env)"
  shows "keeps (setupRoutes env p)"
  unfolding setupRoutes_def auth_def admin_def
  by (intro keeps_intros) (simp_all add: action_invs assms)

definition answers :: "'l handler \<Rightarrow> bool" where
  "answers h \<longleftrightarrow> (\<forall>r w a. h r w a \<noteq> None)"

lemma answers_if: "(b \<Longrightarrow> answers x) \<Longrightarrow> (\<not> b \<Longrightarrow> answers y) \<Longrightarrow> answers (if b then x else y)"
  by simp

lemma answers_answer: "answers (answer act)"
  by (simp add: answers_def answer_def)

lemma withMiddleware_answers: "answers h \<Longrightarrow> answers (withMiddleware h)"
  unfolding answers_def
proof (intro allI)
  fix r w a
  assume h: "\<forall>r w a. h r w a \<noteq> None"
  then obtain p w' a' where "h r (common_headers w) a = Some (p, w', a')"
    by (metis not_None_eq prod_cases3)
  then have "withMiddleware h r w a \<noteq> None" if "rq_Method r \<noteq> ''OPTIONS''"
    using that by (simp add: withMiddleware_eq)
  moreover have "withMiddleware h r w a \<noteq> None" if "rq_Method r = ''OPTIONS''"
    using that by (simp add: withMiddleware_def Recovery_def CORS_def Let_def)
  ultimately show "withMiddleware h r w a \<noteq> None" by blast
qed

lemma gate_answers: "answers h \<Longrightarrow> answers (AuthRequired jw now h)" "answers h \<Longrightarrow> answers (AdminRequired jw now h)"
  by (auto simp: answers_def AuthRequired_def AdminRequired_def Let_def split: sum.splits)

lemma routes_answer: "p \<noteq> ''/api/v1/events/stream'' \<Longrightarrow> answers (setupRoutes env p)"
  unfolding setupRoutes_def auth_def admin_def
  by (intro answers_if withMiddleware_answers gate_answers answers_answer) simp

definition calm :: "'l handler \<Rightarrow> bool" where
  "calm h \<longleftrightarrow> (\<forall>r w a p w' a'. h r w a = Some (p, w', a') \<longrightarrow> \<not> p)"

lemma calm_if: "calm x \<Longrightarrow> calm y \<Longrightarrow> calm (if b then x else y)"
  by simp

lemma withMiddleware_calm: "calm (withMiddleware h)"
  by (auto simp: calm_def withMiddleware_def Recovery_def split: option.splits)

text \<open>
  C14. No request breaks the node: whatever is requested, with or without a token, the invariant of the node holds in the state
  the answer leaves if it held before (and if the rest of the node keeps it while a stream is open); no panic leaves
  the server; and every request to a path other than the stream is answered.
\<close>

theorem api_keeps_node:
  assumes inv: "node_inv (ap_node a)" and others: "others_keep (se_choices env)"
  shows "case ServeHTTP env r w a of
      None \<Rightarrow> rq_Path r = ''/api/v1/events/stream''
    | Some (panicked, w', a') \<Rightarrow> \<not> panicked \<and> node_inv (ap_node a')"
proof (cases "ServeHTTP env r w a")
  case None
  then have "setupRoutes env (rq_Path r) r w a = None"
    by (simp add: ServeHTTP_def split: if_splits)
  then have "rq_Path r = ''/api/v1/events/stream''"
    using routes_answer [of "rq_Path r" env] unfolding answers_def by blast
  with None show ?thesis by simp
next
  case (Some res)
  obtain p w' a' where res: "res = (p, w', a')" by (cases res)
  have "node_inv (ap_node a')"
    using Some res inv setupRoutes_keeps [OF others, of "rq_Path r"] by (auto simp: ServeHTTP_def keeps_def split: if_splits)
  moreover have "\<not> p"
  proof -
    have "calm (setupRoutes env (rq_Path r))"
      unfolding setupRoutes_def auth_def admin_def by (intro calm_if withMiddleware_calm)
    then have "setupRoutes env (rq_Path r) r w a = Some (p, w', a') \<Longrightarrow> \<not> p"
      unfolding calm_def by blast
    with Some res show ?thesis
      by (auto simp: ServeHTTP_def split: if_splits)
  qed
  ultimately show ?thesis using Some res by simp
qed

theorem api_keeps_node_witness:
  "case ServeHTTP \<lparr>se_ops = mem_ops, se_jwt = plain_jwt, se_codec = \<lparr>cd_float = Some, cd_time = show_int, cd_parse_time = parse_int64\<rparr>,
       se_now = 9, se_fuel = 1, se_choices = [Ticker, CtxDone]\<rparr> (demo_request ''POST'' ''/api/v1/events'' [] []) (new_writer None) (NewServer demo_live ''k'' True) of
      None \<Rightarrow> False
    | Some (panicked, w', a') \<Rightarrow> \<not> panicked \<and> node_inv (ap_node a')"
  using api_keeps_node [of "NewServer demo_live ''k'' True" "\<lparr>se_ops = mem_ops, se_jwt = plain_jwt,
      se_codec = \<lparr>cd_float = Some, cd_time = show_int, cd_parse_time = parse_int64\<rparr>, se_now = 9, se_fuel = 1,
      se_choices = [Ticker, CtxDone]\<rparr>" "demo_request ''POST'' ''/api/v1/events'' [] []" "new_writer None"] reachable_inv [OF demo_live_reachable]
  by (auto simp: NewServer_def others_keep_def demo_request_def split: option.splits)

text \<open>
  C36. What a login gives. A login with a client id of at least two characters changes nothing and answers 200 with a token, unless the
  library fails to sign; for a day, less a second, a request that carries the token after the word Bearer is let in as that client, as an
  admin exactly when the id is admin. And no token is ever accepted that does not carry its claims under a signature with the server's key.
\<close>

theorem login_token:
  assumes lib: "jwt_library jw signed_with"
    and req: "validateJSON r" "decode_body [''clientId''] (\<lambda>f v s. into_string s v) [] r = Some c" "2 \<le> length c"
  shows "\<exists>w'. Login jw now r (new_writer None) a = (False, w', a)
    \<and> (wr_Status w' = Some 500 \<or>
       (\<exists>resp. wr_Status w' = Some 200 \<and> wr_Chunks w' = [AuthBody resp] \<and> ar_ClientID resp = c
          \<and> (\<forall>now' rq. now \<le> now' \<and> now' + 1000000000 \<le> now + token_lifetime
               \<and> hdr rq ''Authorization'' = ''Bearer '' @ ar_Token resp \<longrightarrow>
               (\<exists>cl. ValidateToken jw (ap_secretKey a) now' (extractToken rq) = Inr cl \<and> cl_ClientID cl = c
                  \<and> (cl_IsAdmin cl \<longleftrightarrow> c = ''admin'')))))
    \<and> (\<forall>key now' token cl. ValidateToken jw key now' token = Inr cl \<longrightarrow> signed_with key cl (TrimPrefix token ''Bearer ''))"
proof -
  have c: "validateAuthRequest c = None"
    using req(3) by (auto simp: validateAuthRequest_def)
  have sig: "\<forall>key now' token cl. ValidateToken jw key now' token = Inr cl \<longrightarrow> signed_with key cl (TrimPrefix token ''Bearer '')"
    using jwt_library.accepted_token_signed [OF lib] by blast
  show ?thesis
  proof (cases "GenerateToken jw (ap_secretKey a) now c (c = ''admin'')")
    case (Inl err)
    then show ?thesis
      using req c sig by (simp add: Login_def)
  next
    case (Inr te)
    obtain t e where te: "te = (t, e)" by (cases te)
    let ?resp = "\<lparr>ar_Token = t, ar_ClientID = c, ar_ExpiresAt = e\<rparr>"
    have login: "Login jw now r (new_writer None) a = (False, snd (Write (AuthBody ?resp) (WriteHeader 200 (new_writer None))), a)"
      using req c Inr te by (simp add: Login_def)
    have token: "extractToken rq = t" if "hdr rq ''Authorization'' = ''Bearer '' @ t" for rq
      using that HasPrefix_append [of "''Bearer ''" t] TrimPrefix_append [of "''Bearer ''" t] by (simp add: extractToken_def)
    have "\<exists>cl. ValidateToken jw (ap_secretKey a) now' (extractToken rq) = Inr cl \<and> cl_ClientID cl = c \<and> (cl_IsAdmin cl \<longleftrightarrow> c = ''admin'')"
      if "now \<le> now'" "now' + 1000000000 \<le> now + token_lifetime" "hdr rq ''Authorization'' = ''Bearer '' @ t" for now' rq
      using jwt_library.generated_token_accepted(1) [OF lib Inr [unfolded te] that(1,2)] token [OF that(3)] by simp
    then show ?thesis
      using sig unfolding login by (intro exI conjI) (auto simp: Write_status Write_live WriteHeader_status)
  qed
qed

theorem login_token_witness:
  "\<exists>w'. Login plain_jwt 0 (demo_request ''POST'' ''/api/v1/auth/login'' [(''Content-Type'', ''application/json'')]
      (print_json (JObj [(''clientId'', JStr ''admin'')]))) (new_writer None) (NewServer demo_live ''k'' False)
    = (False, w', NewServer demo_live ''k'' False)"
proof -
  let ?b = "print_json (JObj [(''clientId'', JStr ''admin'')])"
  let ?r = "demo_request ''POST'' ''/api/v1/auth/login'' [(''Content-Type'', ''application/json'')] ?b"
  have ok: "json_ok 10000 (JObj [(''clientId'', JStr ''admin'')])"
    by (simp add: utf8_ascii)
  have "decode_json ?b = Some (JObj [(''clientId'', JStr ''admin'')], [])"
    using parse_print_value [OF ok, of "2 * length ?b + 2" "[]"] json_size_length [OF ok] by (simp add: decode_json_def)
  then have "decode_body [''clientId''] (\<lambda>f v s. into_string s v) [] ?r = Some ''admin''" "validateJSON ?r"
    by (simp_all add: decode_body_def demo_request_def struct_field_def validateJSON_def hdr_def gm_get_def)
  then show ?thesis
    using login_token [OF plain.jwt_library_axioms, of ?r "''admin''" 0 "NewServer demo_live ''k'' False"] by auto
qed

end
