(* ===== verification/Http_Events.thy ===== *)
theory Http_Events
  imports Http_Gate
begin

text \<open>
  Events over HTTP: what is published with one request is read back with another.
\<close>

subsection \<open>Passing the gate\<close>

definition allowed :: "'l server_env \<Rightarrow> request \<Rightarrow> 'l api \<Rightarrow> claims \<Rightarrow> bool" where
  "allowed env r a c \<longleftrightarrow> rq_Method r \<noteq> ''OPTIONS'' \<and>
     (if ap_noAuth a then c = dev_claims
      else ValidateToken (se_jwt env) (ap_secretKey a) (se_now env) (extractToken r) = Inr c)"

lemma AuthRequired_allowed:
  "allowed env r a c \<Longrightarrow> AuthRequired (se_jwt env) (se_now env) h r w a = h (with_claims c r) w a"
  by (auto simp: allowed_def AuthRequired_def ValidateToken_def Let_def split: if_splits)

lemma auth_allowed:
  assumes "allowed env r a c" "act (with_claims c r) (common_headers w) a = (False, w', a')"
  shows "auth env act r w a = Some (False, w', a')"
  using assms AuthRequired_allowed [OF assms(1), of "answer act" "common_headers w"]
  by (simp add: auth_def withMiddleware_eq allowed_def answer_def)

lemma with_claims_fields [simp]:
  "rq_Method (with_claims c r) = rq_Method r" "rq_Path (with_claims c r) = rq_Path r" "rq_Body (with_claims c r) = rq_Body r"
  "rq_Header (with_claims c r) = rq_Header r" "rq_Query (with_claims c r) = rq_Query r" "rq_claims (with_claims c r) = Some c"
  "rq_ctx (with_claims c r) = rq_ctx r" "hdr (with_claims c r) k = hdr r k" "query (with_claims c r) k = query r k"
  "validateJSON (with_claims c r) = validateJSON r"
  by (simp_all add: with_claims_def hdr_def query_def validateJSON_def)

lemma decode_body_claims [simp]: "decode_body names f z (with_claims c r) = decode_body names f z r"
  by (simp add: decode_body_def)

subsection \<open>Publishing and reading\<close>

lemma json_ok_mono: "json_ok d v \<Longrightarrow> d \<le> d' \<Longrightarrow> json_ok d' v"
proof (induction v arbitrary: d d' rule: print_json.induct)
  case (5 vs)
  then show ?case by (fastforce simp: list_all_iff intro: diff_le_mono)
next
  case (6 ms)
  then show ?case by (fastforce simp: list_all_iff intro: diff_le_mono)
qed auto

lemma decode_print: "json_ok 10000 v \<Longrightarrow> decode_json (print_json v) = Some (v, [])"
  using parse_print_value [of 10000 v "2 * length (print_json v) + 2" "[]"] json_size_length [of 10000 v]
  by (simp add: decode_json_def)

text \<open>A payload in the form in which the server stores it.\<close>

definition canonical :: "codec \<Rightarrow> json \<Rightarrow> bool" where
  "canonical cd p \<longleftrightarrow> p \<noteq> JNull \<and> json_ok 9999 p \<and> into_any cd p = Some p"

lemma publish_body_decoded:
  assumes "utf8_valid t" "canonical cd p" "rq_Body r = print_json (JObj [(''topic'', JStr t), (''payload'', p)])"
  shows "decode_body [''topic'', ''payload''] (set_publish_request cd) \<lparr>pq_Topic = [], pq_Payload = JNull\<rparr> r =
    Some \<lparr>pq_Topic = t, pq_Payload = p\<rparr>"
proof -
  have "json_ok 10000 (JObj [(''topic'', JStr t), (''payload'', p)])"
    using assms(1,2) by (simp add: canonical_def utf8_ascii)
  from decode_print [OF this] show ?thesis
    using assms(2,3) by (simp add: decode_body_def struct_field_def set_publish_request_def canonical_def)
qed

lemma topic_char_ascii: "topic_char c \<Longrightarrow> byte_of c < 128 \<and> c \<noteq> CHR ''/''"
  by (auto simp: topic_char_def between_def)

lemma topic_ascii: "validateTopic t = None \<Longrightarrow> utf8_valid t \<and> t \<noteq> [] \<and> CHR ''/'' \<notin> set t"
  using topic_char_ascii
  by (auto simp: validateTopic_def list_all_iff intro!: utf8_all_ascii split: if_splits)

lemma api_publish:
  assumes "allowed env r a c" "rq_Path r = ''/api/v1/events''" "rq_Method r = ''POST''" "validateJSON r"
    and "validateTopic t = None" "canonical (se_codec env) p"
    and "rq_Body r = print_json (JObj [(''topic'', JStr t), (''payload'', p)])"
  shows "\<exists>n res n'. NewHTTPClient (se_now env) c (ap_node a) = (HTTPClient (cl_ClientID c) (length (clientHeap (ap_node a))), n)
    \<and> PublishEventWithResult (se_ops env) (se_now env) (rq_ctx r 0) (Some (HTTPClient (cl_ClientID c) (length (clientHeap (ap_node a)))))
        (Some (NewEvent (se_now env) t (Some (str_bytes (print_json p))))) n = (res, n')
    \<and> ServeHTTP env r w a = Some (False,
        (case res of
           Inl err \<Rightarrow> writeError ''Failed to publish event: '' 500 (common_headers w)
         | Inr e \<Rightarrow> writeJSON (PublishBody \<lparr>pr_EventID = event_id e, pr_Offset = ev_offset e, pr_Timestamp = ev_timestamp e\<rparr>) 201
             (common_headers w)), a\<lparr>ap_node := n'\<rparr>)"
proof -
  let ?s = "HTTPClient (cl_ClientID c) (length (clientHeap (ap_node a)))"
  let ?n = "(ap_node a)\<lparr>clientHeap := clientHeap (ap_node a) @ [new_client_obj (se_now env)]\<rparr>"
  let ?e = "NewEvent (se_now env) t (Some (str_bytes (print_json p)))"
  obtain res n' where pub: "PublishEventWithResult (se_ops env) (se_now env) (rq_ctx r 0) (Some ?s) (Some ?e) ?n = (res, n')"
    by (cases "PublishEventWithResult (se_ops env) (se_now env) (rq_ctx r 0) (Some ?s) (Some ?e) ?n")
  have dec: "decode_body [''topic'', ''payload''] (set_publish_request (se_codec env)) \<lparr>pq_Topic = [], pq_Payload = JNull\<rparr> r =
      Some \<lparr>pq_Topic = t, pq_Payload = p\<rparr>"
    using publish_body_decoded assms(5-7) topic_ascii by blast
  have "ApiPublishEvent (se_ops env) (se_codec env) (se_now env) (with_claims c r) (common_headers w) a =
      (False, (case res of
           Inl err \<Rightarrow> writeError ''Failed to publish event: '' 500 (common_headers w)
         | Inr e \<Rightarrow> writeJSON (PublishBody \<lparr>pr_EventID = event_id e, pr_Offset = ev_offset e, pr_Timestamp = ev_timestamp e\<rparr>) 201
             (common_headers w)), a\<lparr>ap_node := n'\<rparr>)"
    using assms(4-6) dec pub
    by (simp add: ApiPublishEvent_def validatePublishBody_def GetClaims_def NewHTTPClient_def Let_def canonical_def split: sum.splits)
  then have "auth env (handleEvents env) r w a = Some (False,
        (case res of
           Inl err \<Rightarrow> writeError ''Failed to publish event: '' 500 (common_headers w)
         | Inr e \<Rightarrow> writeJSON (PublishBody \<lparr>pr_EventID = event_id e, pr_Offset = ev_offset e, pr_Timestamp = ev_timestamp e\<rparr>) 201
             (common_headers w)), a\<lparr>ap_node := n'\<rparr>)"
    using assms(3) by (intro auth_allowed [OF assms(1)]) (simp add: handleEvents_def)
  moreover have "ServeHTTP env r w a = auth env (handleEvents env) r w a"
    using assms(2,3) by (simp add: ServeHTTP_def setupRoutes_def clean_path_def)
  ultimately show ?thesis
    using pub by (intro exI [of _ ?n] exI [of _ res] exI [of _ n']) (simp add: NewHTTPClient_def)
qed

lemma topic_path:
  assumes "validateTopic t = None" "t \<noteq> ''..''"
  shows "clean_path (''/api/v1/topics/'' @ t @ ''/events'')"
proof -
  have "split_on CHR ''/'' (t @ ''/events'') = [t, ''events'']"
    using split_segment [of "CHR ''/''" t "''events''"] topic_ascii [OF assms(1)] by simp
  then have "split_on CHR ''/'' (''/api/v1/topics/'' @ t @ ''/events'') = [[], ''api'', ''v1'', ''topics'', t, ''events'']"
    by simp
  moreover have "t \<noteq> []" "t \<noteq> ''.''"
    using assms(1) by (auto simp: validateTopic_def)
  ultimately show ?thesis
    using assms(2) by (simp only: clean_path_def) simp
qed

lemma api_read:
  assumes "allowed env r a c" "rq_Path r = ''/api/v1/topics/'' @ t @ ''/events''" "rq_Method r = ''GET''"
    and "validateTopic t = None" "t \<noteq> ''..''"
    and "parse_offset (query r ''offset'') = Inr s" "parse_limit (query r ''limit'') = Inr m"
    and "op_ReadEvents (se_ops env) (rq_ctx r 0) t s m (eventLog (ap_node a)) = Inr es"
  shows "ServeHTTP env r w a = Some (False, writeJSON (ReadBody \<lparr>rr_Events = map (read_message (se_codec env)) es, rr_Topic = t,
      rr_StartOffset = s, rr_Count = length es\<rparr>) 200 (common_headers w), a)"
proof -
  have path: "HasPrefix (''/api/v1/topics/'' @ t @ ''/events'') ''/api/v1/topics/''"
    "TrimPrefix (''/api/v1/topics/'' @ t @ ''/events'') ''/api/v1/topics/'' = t @ ''/events''"
    "HasSuffix (t @ ''/events'') ''/events''" "TrimSuffix (t @ ''/events'') ''/events'' = t"
    by (rule HasPrefix_append TrimPrefix_append HasSuffix_append TrimSuffix_append)+
  have "t \<noteq> []" using assms(4) by (auto simp: validateTopic_def)
  then have "handleTopicEvents env (with_claims c r) (common_headers w) a =
      (False, writeJSON (ReadBody \<lparr>rr_Events = map (read_message (se_codec env)) es, rr_Topic = t, rr_StartOffset = s,
        rr_Count = length es\<rparr>) 200 (common_headers w), a)"
    using assms(2-4,6-8) path
    by (simp add: handleTopicEvents_def Let_def ReadTopicEvents_def GetClaims_def GetTopicFromPath_def query_def)
  then have "auth env (handleTopicEvents env) r w a =
      Some (False, writeJSON (ReadBody \<lparr>rr_Events = map (read_message (se_codec env)) es, rr_Topic = t, rr_StartOffset = s,
        rr_Count = length es\<rparr>) 200 (common_headers w), a)"
    by (intro auth_allowed [OF assms(1)])
  moreover have "setupRoutes env (''/api/v1/topics/'' @ t @ ''/events'') = auth env (handleTopicEvents env)"
    using path(1) by (simp add: setupRoutes_def HasPrefix_def)
  moreover have "''/api/v1/topics/'' @ t @ ''/events'' \<noteq> ''/api/v1/topics''"
    by simp
  ultimately show ?thesis
    using topic_path [OF assms(4,5)] assms(2) by (simp only: ServeHTTP_def) simp
qed

text \<open>A request to publish a payload to a topic, and one to read a single event of the topic.\<close>

definition publish_request_ok :: "'l server_env \<Rightarrow> request \<Rightarrow> 'l api \<Rightarrow> claims \<Rightarrow> string \<Rightarrow> json \<Rightarrow> bool" where
  "publish_request_ok env r a c t p \<longleftrightarrow>
     allowed env r a c \<and> rq_Path r = ''/api/v1/events'' \<and> rq_Method r = ''POST'' \<and> validateJSON r
     \<and> rq_Body r = print_json (JObj [(''topic'', JStr t), (''payload'', p)]) \<and> canonical (se_codec env) p
     \<and> validateTopic t = None \<and> t \<noteq> ''..''"

definition read_request_ok :: "'l server_env \<Rightarrow> request \<Rightarrow> 'l api \<Rightarrow> claims \<Rightarrow> string \<Rightarrow> int \<Rightarrow> bool" where
  "read_request_ok env r a c t k \<longleftrightarrow>
     allowed env r a c \<and> rq_Path r = ''/api/v1/topics/'' @ t @ ''/events'' \<and> rq_Method r = ''GET'' \<and> rq_ctx r 0 = None
     \<and> query r ''offset'' = show_int k \<and> query r ''limit'' = ''1''"

lemma publish_read_answer:
  assumes "publish_request_ok env r a c t p" "read_request_ok env1 r1 a1 c1 t k"
    and "se_ops env = mem_ops" "mem_inv (eventLog (ap_node a))" "k = int (length (mem_topic (eventLog (ap_node a)) t))" "k < max_int64 - 1"
    and "ServeHTTP env r (new_writer None) a = Some (False, w, a1)" "wr_Status w = Some 201"
    and "se_ops env1 = mem_ops" "se_codec env1 = se_codec env" "\<not> ml_closed (eventLog (ap_node a1))"
  shows "wr_Chunks w = [PublishBody \<lparr>pr_EventID = t @ ''-'' @ show_int k, pr_Offset = k, pr_Timestamp = se_now env\<rparr>]
    \<and> (\<exists>w1. ServeHTTP env1 r1 (new_writer None) a1 = Some (False, w1, a1) \<and> wr_Status w1 = Some 200
        \<and> wr_Chunks w1 = [ReadBody \<lparr>rr_Events = [\<lparr>sm_EventID = t @ ''-'' @ show_int k, sm_Topic = t, sm_Payload = p,
            sm_Timestamp = se_now env, sm_Offset = k\<rparr>], rr_Topic = t, rr_StartOffset = k, rr_Count = 1\<rparr>])"
proof -
  have pub: "allowed env r a c" "rq_Path r = ''/api/v1/events''" "rq_Method r = ''POST''" "validateJSON r"
      "rq_Body r = print_json (JObj [(''topic'', JStr t), (''payload'', p)])" "canonical (se_codec env) p"
    and topic: "validateTopic t = None" "t \<noteq> ''..''"
    using assms(1) by (simp_all add: publish_request_ok_def)
  have get: "allowed env1 r1 a1 c1" "rq_Path r1 = ''/api/v1/topics/'' @ t @ ''/events''" "rq_Method r1 = ''GET''" "rq_ctx r1 0 = None"
      "query r1 ''offset'' = show_int k" "query r1 ''limit'' = ''1''"
    using assms(2) by (simp_all add: read_request_ok_def)
  note log = assms(3,4) and answer = assms(7,8)
  let ?e = "NewEvent (se_now env) t (Some (str_bytes (print_json p)))"
  let ?s = "HTTPClient (cl_ClientID c) (length (clientHeap (ap_node a)))"
  obtain n res n' where api: "NewHTTPClient (se_now env) c (ap_node a) = (?s, n)"
    "PublishEventWithResult mem_ops (se_now env) (rq_ctx r 0) (Some ?s) (Some ?e) n = (res, n')"
    "ServeHTTP env r (new_writer None) a = Some (False,
        (case res of
           Inl err \<Rightarrow> writeError ''Failed to publish event: '' 500 (common_headers (new_writer None))
         | Inr e \<Rightarrow> writeJSON (PublishBody \<lparr>pr_EventID = event_id e, pr_Offset = ev_offset e, pr_Timestamp = ev_timestamp e\<rparr>) 201
             (common_headers (new_writer None))), a\<lparr>ap_node := n'\<rparr>)"
    using api_publish [OF pub(1-4) topic(1) pub(6,5), of "new_writer None"] log(1) by auto
  then obtain e where e: "res = Inr e" "a1 = a\<lparr>ap_node := n'\<rparr>"
    "w = writeJSON (PublishBody \<lparr>pr_EventID = event_id e, pr_Offset = ev_offset e, pr_Timestamp = ev_timestamp e\<rparr>) 201
       (common_headers (new_writer None))"
    using answer by (auto split: sum.splits)
  have n: "eventLog n = eventLog (ap_node a)" "ev_topic ?e = t"
    using api(1) by (auto simp: NewHTTPClient_def NewEvent_def)
  have t: "t \<noteq> []" using topic_ascii [OF topic(1)] by blast
  let ?ev = "WithOffset ?e k"
  have stored: "mem_inv (eventLog n')" "mem_topic (eventLog n') t = mem_topic (eventLog (ap_node a)) t @ [?ev]" "e = ?ev"
    using mem.publish_logs [of n ?e "se_now env" "rq_ctx r 0" "Some ?s" res n'] log(2) assms(6) t n api(2) e(1) assms(5)
    by (auto simp: Let_def)
  have k: "0 \<le> k" "k + 1 \<le> max_int64" using assms(5,6) by linarith+
  have "ReadEvents None t k 1 (eventLog n') = Inr [?ev]"
    using mem.read_value [of "eventLog n'" t k 1] stored(1,2) t k assms(5,11) e(2) by (simp add: max_page_def)
  moreover have "parse_offset (query r1 ''offset'') = Inr k"
    using parse_int64_show [of k] k nat_digits_head(2) by (simp add: parse_offset_def get(5) in_int64_def show_int_def)
  moreover have "parse_limit (query r1 ''limit'') = Inr 1"
    by (simp add: parse_limit_def get(6) parse_int64_def sign_part_def is_digit_def between_def digits_value_def in_int64_def max_int64_def Let_def)
  ultimately have read: "ServeHTTP env1 r1 (new_writer None) a1 = Some (False, writeJSON (ReadBody \<lparr>rr_Events = [read_message (se_codec env) ?ev],
      rr_Topic = t, rr_StartOffset = k, rr_Count = 1\<rparr>) 200 (common_headers (new_writer None)), a1)"
    using api_read [OF get(1-3) topic, of k 1 "[?ev]" "new_writer None"] get(4) assms(9,10) e(2) by simp
  have "message_payload (se_codec env) ?ev = p"
    using pub(6) parse_print [of p] json_ok_mono [of 9999 p 10000]
    by (simp add: message_payload_def NewEvent_def canonical_def)
  with read show ?thesis
    by (simp add: e(3) stored(3) writeJSON_def Write_live read_message_def event_id_def NewEvent_def WriteHeader_def)
qed

text \<open>
  What is published can be read. When a request to publish a topic and a payload is answered with 201, the answer's offset is the
  number of events the topic had; and a later request to read one event of the topic from that offset, before anything else happens,
  is answered with 200 and that one event: its topic, its offset, its time and the payload as it was published.
\<close>

theorem publish_then_read:
  assumes "publish_request_ok env r a c t p" "read_request_ok env1 r1 a1 c1 t k"
    and "se_ops env = mem_ops" "mem_inv (eventLog (ap_node a))" "k = int (length (mem_topic (eventLog (ap_node a)) t))" "k < max_int64 - 1"
    and "ServeHTTP env r (new_writer None) a = Some (False, w, a1)" "wr_Status w = Some 201"
    and "se_ops env1 = mem_ops" "se_codec env1 = se_codec env" "\<not> ml_closed (eventLog (ap_node a1))"
  shows "wr_Chunks w = [PublishBody \<lparr>pr_EventID = t @ ''-'' @ show_int k, pr_Offset = k, pr_Timestamp = se_now env\<rparr>]
    \<and> (\<exists>w1. ServeHTTP env1 r1 (new_writer None) a1 = Some (False, w1, a1) \<and> wr_Status w1 = Some 200
        \<and> wr_Chunks w1 = [ReadBody \<lparr>rr_Events = [\<lparr>sm_EventID = t @ ''-'' @ show_int k, sm_Topic = t, sm_Payload = p,
            sm_Timestamp = se_now env, sm_Offset = k\<rparr>], rr_Topic = t, rr_StartOffset = k, rr_Count = 1\<rparr>])"
  using assms by (rule publish_read_answer)

text \<open>A concrete server for the witnesses: a started node without clients and peers, in development mode.\<close>

definition demo_codec :: codec where
  "demo_codec = \<lparr>cd_float = Some, cd_time = show_int, cd_parse_time = parse_int64\<rparr>"

definition demo_env :: "nat \<Rightarrow> mem_log choice list \<Rightarrow> mem_log server_env" where
  "demo_env fuel cs = \<lparr>se_ops = mem_ops, se_jwt = plain_jwt, se_codec = demo_codec, se_now = 5, se_fuel = fuel, se_choices = cs\<rparr>"

definition demo_api :: "mem_log api" where
  "demo_api = NewServer demo_started ''k'' True"

lemma demo_env_fields [simp]:
  "se_ops (demo_env f cs) = mem_ops" "se_jwt (demo_env f cs) = plain_jwt" "se_codec (demo_env f cs) = demo_codec"
  "se_now (demo_env f cs) = 5" "se_fuel (demo_env f cs) = f" "se_choices (demo_env f cs) = cs"
  by (simp_all add: demo_env_def)

lemma demo_api_fields [simp]: "ap_node demo_api = demo_started" "ap_noAuth demo_api"
  by (simp_all add: demo_api_def NewServer_def)

lemma demo_publish:
  "\<exists>n'. PublishEventWithResult mem_ops 5 None (Some (HTTPClient ''dev-client'' 0))
      (Some (NewEvent 5 ''orders'' (Some (str_bytes (print_json (JStr ''x'')))))) (demo_started\<lparr>clientHeap := [new_client_obj 5]\<rparr>)
    = (Inr (NewEvent 5 ''orders'' (Some (str_bytes (print_json (JStr ''x''))))), n') \<and> \<not> ml_closed (eventLog n')"
proof -
  have short: "length (print_json (JStr ''x'')) \<le> MaxEventPayloadSize"
    by (simp add: print_str_def json_quote.simps escape_ascii_def MaxEventPayloadSize_def quote_char_def backslash_def)
  show ?thesis
    using short
    by (simp add: PublishEventWithResult_def validatePublishRequest_def demo_started_fields client_at_def new_client_obj_def
        NewEvent_def mem_eval deliverToLocalSubscribers_def GetSubscribers_def NewInMemoryRoutingTable_def gm_get_def
        forwardToPeers_def GetConnectedPeers_def getInterestedPeers_def result_Error_def HasFailures_def no_result_def
        WithOffset_def Let_def)
qed

theorem publish_then_read_witness:
  "\<exists>w a1 w1. ServeHTTP (demo_env 0 []) (demo_request ''POST'' ''/api/v1/events'' [(''Content-Type'', ''application/json'')]
      (print_json (JObj [(''topic'', JStr ''orders''), (''payload'', JStr ''x'')]))) (new_writer None) demo_api = Some (False, w, a1)
    \<and> ServeHTTP (demo_env 0 []) ((demo_request ''GET'' ''/api/v1/topics/orders/events'' [] [])
         \<lparr>rq_Query := [(''offset'', show_int 0), (''limit'', ''1'')]\<rparr>) (new_writer None) a1 = Some (False, w1, a1)
    \<and> wr_Chunks w1 = [ReadBody \<lparr>rr_Events = [\<lparr>sm_EventID = ''orders-'' @ show_int 0, sm_Topic = ''orders'', sm_Payload = JStr ''x'',
          sm_Timestamp = 5, sm_Offset = 0\<rparr>], rr_Topic = ''orders'', rr_StartOffset = 0, rr_Count = 1\<rparr>]"
proof -
  let ?b = "print_json (JObj [(''topic'', JStr ''orders''), (''payload'', JStr ''x'')])"
  let ?r = "demo_request ''POST'' ''/api/v1/events'' [(''Content-Type'', ''application/json'')] ?b"
  let ?r1 = "(demo_request ''GET'' ''/api/v1/topics/orders/events'' [] [])\<lparr>rq_Query := [(''offset'', show_int 0), (''limit'', ''1'')]\<rparr>"
  let ?env = "demo_env 0 []"
  have pub: "allowed ?env ?r demo_api dev_claims" "rq_Path ?r = ''/api/v1/events''" "rq_Method ?r = ''POST''" "validateJSON ?r" "rq_Body ?r = ?b"
    "rq_ctx ?r 0 = None"
    by (simp_all add: demo_request_def allowed_def validateJSON_def hdr_def gm_get_def)
  have p: "canonical (se_codec ?env) (JStr ''x'')"
    by (simp add: canonical_def utf8_ascii)
  have topic: "validateTopic ''orders'' = None"
    by (simp add: validateTopic_def topic_char_def between_def)
  have log: "eventLog (ap_node demo_api) = NewInMemoryEventLog" "mem_inv NewInMemoryEventLog" "mem_topic NewInMemoryEventLog t = []" for t
    by (simp_all add: demo_started_fields mem_eval)
  obtain n' where n': "PublishEventWithResult mem_ops 5 None (Some (HTTPClient ''dev-client'' 0))
      (Some (NewEvent 5 ''orders'' (Some (str_bytes (print_json (JStr ''x'')))))) (demo_started\<lparr>clientHeap := [new_client_obj 5]\<rparr>)
    = (Inr (NewEvent 5 ''orders'' (Some (str_bytes (print_json (JStr ''x''))))), n')" "\<not> ml_closed (eventLog n')"
    using demo_publish by blast
  obtain w where w: "ServeHTTP ?env ?r (new_writer None) demo_api = Some (False, w, demo_api\<lparr>ap_node := n'\<rparr>)" "wr_Status w = Some 201"
    using api_publish [OF pub(1-4) topic p pub(5), of "new_writer None"] n'(1) pub(6)
    by (auto simp: NewHTTPClient_def demo_started_fields dev_claims_def)
  have get: "allowed ?env ?r1 (demo_api\<lparr>ap_node := n'\<rparr>) dev_claims" "rq_Path ?r1 = ''/api/v1/topics/'' @ ''orders'' @ ''/events''"
    "rq_Method ?r1 = ''GET''" "rq_ctx ?r1 0 = None" "query ?r1 ''offset'' = show_int 0" "query ?r1 ''limit'' = ''1''"
    "\<not> ml_closed (eventLog (ap_node (demo_api\<lparr>ap_node := n'\<rparr>)))"
    using n'(2) by (simp_all add: demo_request_def allowed_def query_def gm_get_def)
  show ?thesis
    using publish_then_read [of ?env ?r demo_api dev_claims "''orders''" "JStr ''x''" ?env ?r1 "demo_api\<lparr>ap_node := n'\<rparr>" dev_claims 0 w]
      pub p topic w get log
    by (auto simp: publish_request_ok_def read_request_ok_def max_int64_def)
qed

end
