(* ===== verification/Http_Replay.thy ===== *)
theory Http_Replay
  imports Http_Events
begin

text \<open>
  What a resumed stream replays: exactly the events after the cursor, of the topics the client is subscribed to, in
  the order of each topic, or nothing when the limits are exceeded.
\<close>

subsection \<open>Sending\<close>

definition sse_chunk :: "codec \<Rightarrow> string \<Rightarrow> event \<Rightarrow> chunk" where
  "sse_chunk cd nodeID e = TextBody (sse_text cd (eventToSSEMessage cd nodeID e))"

lemma event_cursor_nonempty: "encodeSSEEventCursor n t i \<noteq> []"
  by (simp add: encodeSSEEventCursor_def encodeSSECursor_def event_cursor_json_def)

lemma writeSSEMessage_live:
  assumes "wr_live w = None" "wr_Status w = Some s"
  shows "writeSSEMessage cd (eventToSSEMessage cd nodeID e) w = (True, w\<lparr>wr_Chunks := wr_Chunks w @ [sse_chunk cd nodeID e]\<rparr>)"
  using assms event_cursor_nonempty
  by (simp add: writeSSEMessage_def eventToSSEMessage_def Write_live sse_chunk_def WriteHeader_def)

lemma send_events_live:
  assumes "wr_live w = None" "wr_Status w = Some s"
  shows "send_events cd nodeID es nxt w =
    (True, if es = [] then nxt else wrap64 (ev_offset (last es) + 1), w\<lparr>wr_Chunks := wr_Chunks w @ map (sse_chunk cd nodeID) es\<rparr>)"
  using assms
proof (induction es arbitrary: nxt w)
  case (Cons e es)
  have "send_events cd nodeID es (wrap64 (ev_offset e + 1)) (w\<lparr>wr_Chunks := wr_Chunks w @ [sse_chunk cd nodeID e]\<rparr>) =
    (True, if es = [] then wrap64 (ev_offset e + 1) else wrap64 (ev_offset (last es) + 1),
      w\<lparr>wr_Chunks := wr_Chunks w @ sse_chunk cd nodeID e # map (sse_chunk cd nodeID) es\<rparr>)"
    by (subst Cons.IH) (use Cons.prems in simp_all)
  then show ?case
    by (simp add: writeSSEMessage_live [OF Cons.prems])
qed simp

subsection \<open>Replaying a topic\<close>

definition never :: "(nat \<Rightarrow> ctx) \<Rightarrow> bool" where
  "never cx \<longleftrightarrow> (\<forall>k. cx k = None)"

lemma never_at: "never cx \<Longrightarrow> cx k = None"
  by (simp add: never_def)

lemma never_later [simp]: "never cx \<Longrightarrow> never (later_calls cx)"
  by (simp add: never_def later_calls_def)

text \<open>What a client has missed of a topic, after the offset of its cursor.\<close>

definition to_replay :: "('l \<Rightarrow> string \<Rightarrow> event list) \<Rightarrow> string list \<Rightarrow> 'l \<Rightarrow> string \<times> int \<Rightarrow> event list" where
  "to_replay topic_events topics l =
     (\<lambda>(t, i). if topicCoveredBySubscriptions t topics then drop (nat (i + 1)) (topic_events l t) else [])"

context event_log
begin

lemma last_offset:
  assumes "log_ok l" "topic_ok t" "xs = take k (drop j (topic_events l t))" "xs \<noteq> []"
  shows "ev_offset (last xs) = int j + int (length xs) - 1"
proof -
  let ?E = "topic_events l t"
  have len: "j + length xs \<le> length ?E" "0 < length xs"
    using assms(3,4) by auto
  have "last xs = ?E ! (j + length xs - 1)"
    using assms(3,4) len by (simp add: last_conv_nth)
  moreover have "ev_offset (?E ! i) = int i" if "i < length ?E" for i
    using offsets_are_indices [OF assms(1,2)] that by (metis add_0 length_map length_upt minus_nat.diff_0 nth_map nth_upt)
  moreover have "j + length xs - 1 < length ?E" "int (j + length xs - 1) = int j + int (length xs) - 1"
    using len by linarith+
  ultimately show ?thesis
    by simp
qed

lemma replay_topic_all:
  assumes "log_ok l" "log_open l" "topic_ok t" "wr_live w = None" "wr_Status w = Some s" "never cx"
    and "int (length (topic_events l t)) + 1000 \<le> max_int64" "int j + 1000 \<le> max_int64"
    and "length (drop j (topic_events l t)) < 1000 * fuel"
  shows "\<exists>cx'. never cx' \<and> replay_topic ops cd nodeID fuel cx t (int j) (sent, w) l =
    Some (ReplayDone, cx', sent + length (drop j (topic_events l t)),
      w\<lparr>wr_Chunks := wr_Chunks w @ map (sse_chunk cd nodeID) (drop j (topic_events l t))\<rparr>)"
  using assms(4-9)
proof (induction fuel arbitrary: j cx sent w)
  case (Suc fuel)
  let ?R = "drop j (topic_events l t)"
  have read: "op_ReadEvents ops (cx 0) t (int j) 1000 l = Inr (take 1000 ?R)"
    using read_value [OF assms(1-3), of "int j" 1000] Suc.prems never_at [OF Suc.prems(3)] by (simp add: max_page_def)
  let ?w = "w\<lparr>wr_Chunks := wr_Chunks w @ map (sse_chunk cd nodeID) (take 1000 ?R)\<rparr>"
  show ?case
  proof (cases "length ?R < 1000")
    case True
    then have "take 1000 ?R = ?R" by simp
    with True show ?thesis
      using Suc.prems(3) by (auto simp: read send_events_live [OF Suc.prems(1,2)] sseReplayBatchSize_def Let_def)
  next
    case False
    then have len: "length (take 1000 ?R) = 1000" "take 1000 ?R \<noteq> []" "j + 1000 \<le> length (topic_events l t)" by auto
    have "ev_offset (last (take 1000 ?R)) = int j + 999"
      using last_offset [OF assms(1,3) refl, of 1000 j] len by simp
    then have nxt: "wrap64 (ev_offset (last (take 1000 ?R)) + 1) = int (j + 1000)"
      using wrap64_id [of "int j + 1000"] Suc.prems(5) by (simp add: in_int64_def add.commute)
    have dd: "drop (j + 1000) (topic_events l t) = drop 1000 ?R"
      by (simp add: add.commute)
    have "length (drop (j + 1000) (topic_events l t)) + 1000 = length ?R"
      using len(3) by simp
    then have fuel: "length (drop (j + 1000) (topic_events l t)) < 1000 * fuel"
      using Suc.prems(6) unfolding mult_Suc_right by linarith
    obtain cx' where cx': "never cx'" "replay_topic ops cd nodeID fuel (later_calls cx) t (int (j + 1000)) (sent + 1000, ?w) l =
      Some (ReplayDone, cx', sent + 1000 + length (drop 1000 ?R),
        ?w\<lparr>wr_Chunks := wr_Chunks ?w @ map (sse_chunk cd nodeID) (drop 1000 ?R)\<rparr>)"
      using Suc.IH [of ?w "later_calls cx" "j + 1000" "sent + 1000"] Suc.prems(1-4) len(3) fuel dd by auto
    have app: "map (sse_chunk cd nodeID) (take 1000 ?R) @ map (sse_chunk cd nodeID) (drop 1000 ?R) = map (sse_chunk cd nodeID) ?R"
      by (metis append_take_drop_id map_append)
    have "replay_topic ops cd nodeID (Suc fuel) cx t (int j) (sent, w) l =
        replay_topic ops cd nodeID fuel (later_calls cx) t (int (j + 1000)) (sent + 1000, ?w) l"
      using len nxt by (simp add: read send_events_live [OF Suc.prems(1,2)] sseReplayBatchSize_def Let_def)
    also have "\<dots> = Some (ReplayDone, cx', sent + length ?R, w\<lparr>wr_Chunks := wr_Chunks w @ map (sse_chunk cd nodeID) ?R\<rparr>)"
      using cx'(2) app len(3) False by (simp add: add.assoc)
    finally show ?thesis using cx'(1) by blast
  qed
qed simp

text \<open>Replaying a cursor.\<close>

lemma replay_loop_all:
  assumes "log_ok l" "log_open l" "\<And>t. int (length (topic_events l t)) + 10000 \<le> max_int64"
    and "list_all (\<lambda>(t, i). topic_ok t \<and> 0 \<le> i \<and> i + 1001 \<le> max_int64) m"
    and "wr_live w = None" "wr_Status w = Some s" "never cx" "\<And>x. x \<in> set m \<Longrightarrow> length (to_replay topic_events topics l x) < 1000 * fuel"
  shows "replay_loop ops cd nodeID fuel cx topics m (sent, w) l =
    Some (ReplayDone, sent + length (concat (map (to_replay topic_events topics l) m)),
      w\<lparr>wr_Chunks := wr_Chunks w @ map (sse_chunk cd nodeID) (concat (map (to_replay topic_events topics l) m))\<rparr>)"
  using assms(4-8)
proof (induction m arbitrary: cx sent w)
  case (Cons x m)
  obtain t i where x: "x = (t, i)" by (cases x)
  have IH: "replay_loop ops cd nodeID fuel cx' topics m (sent', w') l =
      Some (ReplayDone, sent' + length (concat (map (to_replay topic_events topics l) m)),
        w'\<lparr>wr_Chunks := wr_Chunks w' @ map (sse_chunk cd nodeID) (concat (map (to_replay topic_events topics l) m))\<rparr>)"
    if "wr_live w' = None" "wr_Status w' = Some s" "never cx'" for cx' sent' w'
    using Cons.IH [OF _ that] Cons.prems(1,5) by simp
  show ?case
  proof (cases "topicCoveredBySubscriptions t topics")
    case False
    with IH [OF Cons.prems(2-4)] x show ?thesis by (simp add: to_replay_def)
  next
    case True
    let ?R = "drop (nat (i + 1)) (topic_events l t)"
    let ?w = "w\<lparr>wr_Chunks := wr_Chunks w @ map (sse_chunk cd nodeID) ?R\<rparr>"
    have i: "topic_ok t" "0 \<le> i" "i + 1001 \<le> max_int64" using Cons.prems(1) x by auto
    have R: "to_replay topic_events topics l x = ?R" using True x by (simp add: to_replay_def)
    have "wrap64 (i + 1) = int (nat (i + 1))"
      using wrap64_id [of "i + 1"] i by (simp add: in_int64_def)
    moreover obtain cx' where cx': "never cx'" "replay_topic ops cd nodeID fuel cx t (int (nat (i + 1))) (sent, w) l =
        Some (ReplayDone, cx', sent + length ?R, ?w)"
      using replay_topic_all [OF assms(1,2) i(1) Cons.prems(2-4), of "nat (i + 1)" fuel cd nodeID sent]
        assms(3) [of t] i(2,3) Cons.prems(5) [of x] R by auto
    ultimately show ?thesis
      using IH [of ?w cx' "sent + length ?R"] Cons.prems(2,3) True x R by (simp add: add.assoc)
  qed
qed simp

text \<open>Checking the limits.\<close>

lemma plan_loop_value:
  assumes "log_ok l" "log_open l" "\<And>t. int (length (topic_events l t)) + 10000 \<le> max_int64"
    and "list_all (\<lambda>(t, i). topic_ok t \<and> 0 \<le> i \<and> i + 1001 \<le> max_int64) m" "never cx"
    and "0 \<le> tot" "tot \<le> mx" "mx \<le> 10000"
  shows "plan_loop ops cx topics mx tot m l =
    (if tot + int (length (concat (map (to_replay topic_events topics l) m))) \<le> mx then None else Some SSEReplayLimit)"
  using assms(4-8)
proof (induction m arbitrary: cx tot)
  case (Cons x m)
  obtain t i where x: "x = (t, i)" by (cases x)
  let ?n = "int (length (topic_events l t))"
  have i: "topic_ok t" "0 \<le> i" "i + 1001 \<le> max_int64" using Cons.prems(1) x by auto
  have m: "list_all (\<lambda>(t, i). topic_ok t \<and> 0 \<le> i \<and> i + 1001 \<le> max_int64) m" using Cons.prems(1) by simp
  show ?case
  proof (cases "topicCoveredBySubscriptions t topics")
    case False
    with Cons.IH [OF m Cons.prems(2-5)] x show ?thesis by (simp add: to_replay_def)
  next
    case True
    have e: "op_GetTopicEndOffset ops False t l = Inr ?n"
      using end_succeeds [OF assms(1,2) i(1)] end_returns [OF assms(1) i(1)] assms(3) [of t] by fastforce
    have w: "wrap64 (i + 1) = i + 1"
      using wrap64_id [of "i + 1"] i by (simp add: in_int64_def)
    have R: "int (length (to_replay topic_events topics l x)) = (if i + 1 \<ge> ?n then 0 else ?n - (i + 1))"
      using True x i(2) by (auto simp: to_replay_def)
    have cxf: "ctx_done (cx 0) = False" using never_at [OF Cons.prems(2)] by (simp add: ctx_done_def)
    show ?thesis
    proof (cases "i + 1 \<ge> ?n")
      case low: True
      with R have "to_replay topic_events topics l x = []" by simp
      with low Cons.IH [OF m never_later [OF Cons.prems(2)] Cons.prems(3-5)] x True e w i(2) cxf show ?thesis
        by simp
    next
      case False
      let ?d = "?n - (i + 1)"
      have d: "wrap64 ?d = ?d" "wrap64 (tot + ?d) = tot + ?d" "0 < ?d"
        using wrap64_id [of ?d] wrap64_id [of "tot + ?d"] False i Cons.prems(3-5) assms(3) [of t] by (auto simp: in_int64_def)
      have len: "int (length (concat (map (to_replay topic_events topics l) (x # m)))) = ?d + int (length (concat (map (to_replay topic_events topics l) m)))"
        using R False by simp
      have "plan_loop ops cx topics mx tot (x # m) l =
          (if tot + ?d > mx then Some SSEReplayLimit else plan_loop ops (later_calls cx) topics mx (tot + ?d) m l)"
        using x True False e w d i(2) cxf by (simp add: Let_def)
      also have "\<dots> = (if tot + int (length (concat (map (to_replay topic_events topics l) (x # m)))) \<le> mx then None else Some SSEReplayLimit)"
        using Cons.IH [OF m never_later [OF Cons.prems(2)], of "tot + ?d"] Cons.prems(3-5) d(3) len by auto
      finally show ?thesis .
    qed
  qed
qed simp

end

subsection \<open>Registration\<close>

lemma register_all:
  assumes "rt_inv rt" "\<not> rt_closed rt" "\<And>s. s \<in> set subs \<Longrightarrow> cs_Topic s \<noteq> []"
  shows "\<exists>ts rt'. register_loop client acc subs rt = (Inr ts, rt') \<and> set ts = set acc \<union> cs_Topic ` set subs"
  using assms
proof (induction subs arbitrary: acc rt)
  case (Cons s subs)
  obtain rt' where rt': "Subscribe (cs_Topic s) (Some client) rt = (None, rt')" "rt_inv rt'" "\<not> rt_closed rt'"
    using rt.sub_value [OF Cons.prems(1,2), of "cs_Topic s" client] Cons.prems(3) [of s] by auto
  have nonempty: "\<And>x. x \<in> set subs \<Longrightarrow> cs_Topic x \<noteq> []" using Cons.prems(3) by simp
  show ?case
    using Cons.IH [OF Cons.prems(1,2) nonempty, of acc] Cons.IH [OF rt'(2,3) nonempty, of "acc @ [cs_Topic s]"] rt'(1)
    by (cases "cs_Topic s \<in> set acc") auto
qed simp

lemma covered_cong: "set ts = set us \<Longrightarrow> topicCoveredBySubscriptions t ts = topicCoveredBySubscriptions t us"
proof -
  have "topicCoveredBySubscriptions t xs \<longleftrightarrow> (\<exists>s \<in> set xs. matchesTopicPattern s t)" for xs
    by (induction xs) auto
  then show "set ts = set us \<Longrightarrow> ?thesis" by simp
qed

lemma to_replay_cong: "set ts = set us \<Longrightarrow> to_replay te ts l = to_replay te us l"
  using covered_cong [of ts us] by (simp add: to_replay_def fun_eq_iff)

lemma same_map_mset:
  assumes "gm_wf m" "gm_wf m'" "map_of m' = map_of m"
  shows "mset m' = mset m"
proof -
  have "distinct x" if "gm_wf x" for x :: "('a, 'b) gomap"
    using that by (simp add: gm_wf_def distinct_map)
  moreover have "set m' = set m"
    using gm_mem_iff [OF assms(1)] gm_mem_iff [OF assms(2)] assms(3) by auto
  ultimately show ?thesis
    using assms(1,2) set_eq_iff_mset_eq_distinct by blast
qed

lemma length_concat_mset: "mset m' = mset m \<Longrightarrow> length (concat (map f m')) = length (concat (map f m))"
proof -
  assume "mset m' = mset m"
  then have "mset (map (length \<circ> f) m') = mset (map (length \<circ> f) m)"
    by (simp only: mset_map)
  then show ?thesis
    unfolding length_concat map_map by (metis sum_mset_sum_list)
qed

lemma list_all_mset: "mset m' = mset m \<Longrightarrow> list_all P m' \<longleftrightarrow> list_all P m"
  by (metis list_all_iff mset_eq_setD)

subsection \<open>The whole request\<close>

lemma encoded_graphic: "list_all graphic (EncodeToString s)"
proof -
  have "list_all (\<lambda>n. n < 256) (map byte_of s)" by (simp add: list_all_iff)
  from b64_encode_val [OF this] show ?thesis
    by (simp add: EncodeToString_def b64_ok_def list_all_iff)
qed

lemma resume_cursor_read:
  assumes "hdr r ''Last-Event-ID'' = encodeSSEMultiTopicCursor n m" "name_ok n" "gm_wf m" "m \<noteq> []"
    and "list_all (\<lambda>(t, i). name_ok t \<and> offset_ok i) m"
  obtains m' where "resumeCursorFromRequest r = Inr (Some \<lparr>mc_Version = 1, mc_Node = n, mc_Topics = m'\<rparr>)" "mset m' = mset m"
proof -
  obtain m' where m': "decodeSSECursor (encodeSSEMultiTopicCursor n m) = Inr \<lparr>mc_Version = 1, mc_Node = n, mc_Topics = m'\<rparr>"
    "gm_wf m'" "map_of m' = map_of m"
    using decode_multi_cursor [OF assms(2-5)] by blast
  have "n \<noteq> []" using assms(2) by (simp add: name_ok_def)
  then have "TrimSpace (encodeSSEMultiTopicCursor n m) = encodeSSEMultiTopicCursor n m"
    using assms(4) encoded_graphic by (simp add: encodeSSEMultiTopicCursor_def client_encodeSSECursor_def TrimSpace_graphic list_all_iff)
  moreover have "encodeSSEMultiTopicCursor n m \<noteq> []"
    using m'(1) by (auto simp: decodeSSECursor_def)
  ultimately have "resumeCursorFromRequest r = Inr (Some \<lparr>mc_Version = 1, mc_Node = n, mc_Topics = m'\<rparr>)"
    using assms(1) m'(1) by (simp add: resumeCursorFromRequest_def)
  then show ?thesis
    using that same_map_mset [OF assms(3) m'(2,3)] by blast
qed

lemma unregister_fields [simp]:
  "eventLog (unregisterSSEClient cl ts n) = eventLog n" "mn_config (unregisterSSEClient cl ts n) = mn_config n"
  by (simp_all add: unregisterSSEClient_def)

lemma register_fields:
  "registerSSEClient client subs n = (res, n') \<Longrightarrow> eventLog n' = eventLog n \<and> mn_config n' = mn_config n"
  by (auto simp: registerSSEClient_def split: prod.splits)

lemma stream_request:
  assumes "allowed env r a c" "rq_Path r = ''/api/v1/events/stream''"
    and "StreamEvents (se_ops env) (se_codec env) (se_fuel env) (se_choices env) (se_now env) (with_claims c r) (common_headers w) a =
      Some (False, w', a')"
  shows "ServeHTTP env r w a = Some (False, w', a')"
proof -
  have "rq_Method r \<noteq> ''OPTIONS''" using assms(1) by (simp add: allowed_def)
  then have "setupRoutes env (rq_Path r) r w a = Some (False, w', a')"
    using assms(2,3) AuthRequired_allowed [OF assms(1)] by (simp add: setupRoutes_def withMiddleware_eq)
  then show ?thesis
    using assms(2) by (simp add: ServeHTTP_def clean_path_def)
qed

text \<open>The topics that a client streams are those it is subscribed to.\<close>

lemma registered_topics:
  assumes "rt_inv (routingTable n)" "\<not> rt_closed (routingTable n)" "meta_inv n"
    and "NewHTTPClient now claims n = (client, n1)"
  obtains ts n2 where "registerSSEClient client (GetClientSubscriptions (cl_ClientID claims) n1) n1 = (Inr ts, n2)"
    "set ts = cs_Topic ` set (GetClientSubscriptions (cl_ClientID claims) n)" "eventLog n2 = eventLog n" "mn_config n2 = mn_config n"
proof -
  have n1: "routingTable n1 = routingTable n" "mn_subscriptions n1 = mn_subscriptions n" "eventLog n1 = eventLog n" "mn_config n1 = mn_config n"
    using assms(4) by (auto simp: NewHTTPClient_def)
  have ne: "cs_Topic s \<noteq> []" if "s \<in> set (GetClientSubscriptions (cl_ClientID claims) n)" for s
    using that meta_inv_client [OF assms(3), of "cl_ClientID claims"]
    by (auto simp: GetClientSubscriptions_def gm_get_def list_all_iff sub_ok_def split: option.splits)
  have same: "GetClientSubscriptions (cl_ClientID claims) n1 = GetClientSubscriptions (cl_ClientID claims) n"
    using n1 by (simp add: GetClientSubscriptions_def)
  obtain ts rt' where "register_loop client [] (GetClientSubscriptions (cl_ClientID claims) n) (routingTable n) = (Inr ts, rt')"
    "set ts = cs_Topic ` set (GetClientSubscriptions (cl_ClientID claims) n)"
    using register_all [OF assms(1,2), of "GetClientSubscriptions (cl_ClientID claims) n" client "[]"] ne by auto
  then show ?thesis
    using that [of ts "n1\<lparr>routingTable := rt'\<rparr>"] n1 same by (simp add: registerSSEClient_def)
qed

lemma stream_body_replays:
  assumes log: "mem_inv (eventLog (ap_node a))" "\<not> ml_closed (eventLog (ap_node a))"
      "\<And>t. int (length (mem_topic (eventLog (ap_node a)) t)) + 10000 \<le> max_int64"
    and cur: "list_all (\<lambda>(t, i). t \<noteq> [] \<and> 0 \<le> i \<and> i + 1001 \<le> max_int64) m" "never (rq_ctx r)" "11 \<le> fuel"
    and few: "length (concat (map (to_replay mem_topic ts (eventLog (ap_node a))) m)) \<le> 10000"
  shows "\<exists>w. stream_body mem_ops cd fuel [] r (Some \<lparr>mc_Version = 1, mc_Node = nd, mc_Topics = m\<rparr>) addr ts (common_headers (new_writer None)) a =
    Some (False, w, a\<lparr>sseResumeEventsReplayed := sseResumeEventsReplayed a
      + length (concat (map (to_replay mem_topic ts (eventLog (ap_node a))) m))\<rparr>)
    \<and> wr_Status w = Some 200
    \<and> wr_Chunks w = established # map (sse_chunk cd (GetNodeID (ap_node a))) (concat (map (to_replay mem_topic ts (eventLog (ap_node a))) m))"
proof -
  let ?R = "to_replay mem_topic ts (eventLog (ap_node a))"
  obtain w where w: "Write established (WriteHeader 200 (sse_headers (common_headers (new_writer None)))) = (True, w)"
    "wr_live w = None" "wr_Status w = Some 200" "wr_Chunks w = [established]"
    by (simp add: Write_live WriteHeader_def sse_headers_def)
  have each: "length (?R x) < 1000 * fuel" if "x \<in> set m" for x
  proof -
    have "length (?R x) \<le> length (concat (map ?R m))"
      using that by (induction m) auto
    with few cur(3) show ?thesis by linarith
  qed
  have cx: "never (replay_ctx r)"
    using cur(2) by (simp add: never_def replay_ctx_def)
  have "replay_loop mem_ops cd (GetNodeID (ap_node a)) fuel (replay_ctx r) ts m (0, w) (eventLog (ap_node a)) =
      Some (ReplayDone, length (concat (map ?R m)), w\<lparr>wr_Chunks := established # map (sse_chunk cd (GetNodeID (ap_node a))) (concat (map ?R m))\<rparr>)"
    by (simp add: mem.replay_loop_all [OF log cur(1) w(2,3) cx each, unfolded mem_ops_simps] w(4))
  with w show ?thesis
    by (simp add: stream_body_def replaySSECursor_def)
qed

text \<open>A request to resume a stream from the cursor \<open>m\<close>, at a server with an open in-memory log, which is not interrupted.\<close>

definition resuming :: "mem_log server_env \<Rightarrow> request \<Rightarrow> mem_log api \<Rightarrow> claims \<Rightarrow> (string, int) gomap \<Rightarrow> bool" where
  "resuming env r a c m \<longleftrightarrow>
     rt_inv (routingTable (ap_node a)) \<and> \<not> rt_closed (routingTable (ap_node a)) \<and> meta_inv (ap_node a)
     \<and> se_ops env = mem_ops \<and> mem_inv (eventLog (ap_node a)) \<and> \<not> ml_closed (eventLog (ap_node a))
     \<and> (\<forall>t. int (length (mem_topic (eventLog (ap_node a)) t)) + 10000 \<le> max_int64)
     \<and> allowed env r a c \<and> rq_Path r = ''/api/v1/events/stream'' \<and> hdr r ''Accept'' = ''text/event-stream'' \<and> query r ''topic'' = []
     \<and> never (rq_ctx r) \<and> se_choices env = [] \<and> 11 \<le> se_fuel env
     \<and> hdr r ''Last-Event-ID'' = encodeSSEMultiTopicCursor (GetNodeID (ap_node a)) m \<and> name_ok (GetNodeID (ap_node a))
     \<and> gm_wf m \<and> m \<noteq> [] \<and> list_all (\<lambda>(t, i). name_ok t \<and> 0 \<le> i \<and> i + 1001 \<le> max_int64) m"

text \<open>The request as far as the check of the limits.\<close>

lemma resume_start:
  assumes "resuming env r a c m"
  defines "missed \<equiv> to_replay mem_topic (map cs_Topic (GetClientSubscriptions (cl_ClientID c) (ap_node a))) (eventLog (ap_node a))"
  obtains m' client ts n2 where "mset m' = mset m" "list_all (\<lambda>(t, i). t \<noteq> [] \<and> 0 \<le> i \<and> i + 1001 \<le> max_int64) m'"
    "to_replay mem_topic ts (eventLog (ap_node a)) = missed" "eventLog n2 = eventLog (ap_node a)" "mn_config n2 = mn_config (ap_node a)"
    "StreamEvents mem_ops (se_codec env) (se_fuel env) [] (se_now env) (with_claims c r) (common_headers (new_writer None)) a =
      (let a = a\<lparr>sseResumeRequests := sseResumeRequests a + 1, ap_node := n2\<rparr>;
           unregister = (\<lambda>(p, w, a). (p, w, a\<lparr>ap_node := unregisterSSEClient client ts (ap_node a)\<rparr>))
       in if length m \<le> 64 \<and> length (concat (map missed m)) \<le> 10000
          then map_option unregister (stream_body mem_ops (se_codec env) (se_fuel env) [] (with_claims c r)
            (Some \<lparr>mc_Version = 1, mc_Node = GetNodeID (ap_node a), mc_Topics = m'\<rparr>) (length (clientHeap n2) - 1) ts
            (common_headers (new_writer None)) a)
          else Some (unregister (False, writeError (limit_text (if length m \<le> 64 then SSEReplayLimit else SSETopicLimit)) 413
            (common_headers (new_writer None)), a\<lparr>sseResumeReplayLimitExceeded := sseResumeReplayLimitExceeded a + 1\<rparr>)))"
proof -
  note req = assms(1) [unfolded resuming_def]
  let ?r = "with_claims c r" and ?n = "ap_node a" and ?W = "common_headers (new_writer None)"
  have ok: "list_all (\<lambda>(t, i). name_ok t \<and> offset_ok i) m"
    using req by (auto simp: list_all_iff offset_ok_def)
  obtain m' where m': "resumeCursorFromRequest ?r = Inr (Some \<lparr>mc_Version = 1, mc_Node = GetNodeID ?n, mc_Topics = m'\<rparr>)" "mset m' = mset m"
    using resume_cursor_read [of ?r, OF _ _ _ _ ok] req by auto
  obtain client n1 where cl: "NewHTTPClient (se_now env) c ?n = (client, n1)"
    by (cases "NewHTTPClient (se_now env) c ?n")
  obtain ts n2 where reg: "registerSSEClient client (GetClientSubscriptions (cl_ClientID c) n1) n1 = (Inr ts, n2)"
    "set ts = cs_Topic ` set (GetClientSubscriptions (cl_ClientID c) ?n)" "eventLog n2 = eventLog ?n" "mn_config n2 = mn_config ?n"
    using registered_topics [OF _ _ _ cl] req by blast
  have R: "to_replay mem_topic ts (eventLog ?n) = missed"
    using reg(2) unfolding missed_def by (intro to_replay_cong) simp
  have names: "list_all (\<lambda>(t, i). t \<noteq> [] \<and> 0 \<le> i \<and> i + 1001 \<le> max_int64) m'"
    using req mset_eq_setD [OF m'(2)] by (auto simp: list_all_iff name_ok_def)
  have len: "length m' = length m" "length (concat (map missed m')) = length (concat (map missed m))"
    using m'(2) mset_eq_length length_concat_mset by blast+
  have plan: "validateSSEReplayPlan mem_ops (plan_ctx ?r) \<lparr>mc_Version = 1, mc_Node = GetNodeID ?n, mc_Topics = m'\<rparr> ts 10000 64 (eventLog ?n) =
      (if length m > 64 then Some SSETopicLimit else if length (concat (map missed m)) \<le> 10000 then None else Some SSEReplayLimit)"
    using mem.plan_loop_value [OF _ _ _ names, of "eventLog ?n" "plan_ctx ?r" 0 10000 ts] req len R
    by (simp add: validateSSEReplayPlan_def never_def plan_ctx_def)
  have start: "StreamEvents mem_ops (se_codec env) (se_fuel env) [] (se_now env) ?r ?W a =
      client_stream mem_ops (se_codec env) (se_fuel env) [] (se_now env) ?r c (Some \<lparr>mc_Version = 1, mc_Node = GetNodeID ?n, mc_Topics = m'\<rparr>)
        ?W (a\<lparr>sseResumeRequests := sseResumeRequests a + 1\<rparr>)"
    using m'(1) req by (simp add: StreamEvents_def GetClaims_def shouldStream_def TrimSpace_graphic)
  have id: "GetNodeID n2 = GetNodeID ?n" using reg(4) by (simp add: GetNodeID_def)
  show ?thesis
    by (rule that [OF m'(2) names R reg(3,4), of client], unfold start)
      (use plan in \<open>simp add: client_stream_def cl reg(1,3) Let_def maxSSEResumeTopics_def maxSSEResumeReplayEvents_def id\<close>)
qed

lemma resume_answer:
  assumes "resuming env r a c m"
  shows "let missed = to_replay mem_topic (map cs_Topic (GetClientSubscriptions (cl_ClientID c) (ap_node a))) (eventLog (ap_node a)) in
    \<exists>w a' m'. ServeHTTP env r (new_writer None) a = Some (False, w, a') \<and> eventLog (ap_node a') = eventLog (ap_node a) \<and> mset m' = mset m
    \<and> (if length m \<le> 64 \<and> length (concat (map missed m)) \<le> 10000
       then wr_Status w = Some 200
         \<and> wr_Chunks w = established # map (sse_chunk (se_codec env) (GetNodeID (ap_node a))) (concat (map missed m'))
         \<and> sseResumeEventsReplayed a' = sseResumeEventsReplayed a + length (concat (map missed m))
       else wr_Status w = Some 413
         \<and> wr_Chunks w = [ErrorBody \<lparr>er_Error = StatusText 413, er_Message = (if length m \<le> 64 then ''SSE resume replay exceeds server event limit: ''
             else ''SSE resume cursor exceeds server topic limit: ''), er_Code = 413\<rparr>]
         \<and> sseResumeEventsReplayed a' = sseResumeEventsReplayed a)"
proof -
  note req = assms [unfolded resuming_def]
  define missed where "missed = to_replay mem_topic (map cs_Topic (GetClientSubscriptions (cl_ClientID c) (ap_node a))) (eventLog (ap_node a))"
  let ?W = "common_headers (new_writer None)" and ?n = "length (concat (map missed m))"
  obtain m' client ts n2 where m': "mset m' = mset m" "list_all (\<lambda>(t, i). t \<noteq> [] \<and> 0 \<le> i \<and> i + 1001 \<le> max_int64) m'"
    "to_replay mem_topic ts (eventLog (ap_node a)) = missed" "eventLog n2 = eventLog (ap_node a)" "mn_config n2 = mn_config (ap_node a)"
    and start: "StreamEvents mem_ops (se_codec env) (se_fuel env) [] (se_now env) (with_claims c r) ?W a =
      (let a = a\<lparr>sseResumeRequests := sseResumeRequests a + 1, ap_node := n2\<rparr>;
           unregister = (\<lambda>(p, w, a). (p, w, a\<lparr>ap_node := unregisterSSEClient client ts (ap_node a)\<rparr>))
       in if length m \<le> 64 \<and> ?n \<le> 10000
          then map_option unregister (stream_body mem_ops (se_codec env) (se_fuel env) [] (with_claims c r)
            (Some \<lparr>mc_Version = 1, mc_Node = GetNodeID (ap_node a), mc_Topics = m'\<rparr>) (length (clientHeap n2) - 1) ts ?W a)
          else Some (unregister (False, writeError (limit_text (if length m \<le> 64 then SSEReplayLimit else SSETopicLimit)) 413 ?W,
            a\<lparr>sseResumeReplayLimitExceeded := sseResumeReplayLimitExceeded a + 1\<rparr>)))"
    by (rule resume_start [OF assms, folded missed_def])
  let ?a = "a\<lparr>sseResumeRequests := sseResumeRequests a + 1, ap_node := n2\<rparr>" and ?n' = "unregisterSSEClient client ts n2"
  have serve: "ServeHTTP env r (new_writer None) a = Some (False, w, a')"
    if "StreamEvents mem_ops (se_codec env) (se_fuel env) [] (se_now env) (with_claims c r) ?W a = Some (False, w, a')" for w a'
    using stream_request [of env r a c] that req by simp
  show ?thesis
  proof (cases "length m \<le> 64 \<and> ?n \<le> 10000")
    case True
    obtain w where "stream_body mem_ops (se_codec env) (se_fuel env) [] (with_claims c r)
        (Some \<lparr>mc_Version = 1, mc_Node = GetNodeID (ap_node ?a), mc_Topics = m'\<rparr>)
        (length (clientHeap n2) - 1) ts ?W ?a = Some (False, w, ?a\<lparr>sseResumeEventsReplayed := sseResumeEventsReplayed a + ?n\<rparr>)"
      "wr_Status w = Some 200" "wr_Chunks w = established # map (sse_chunk (se_codec env) (GetNodeID (ap_node a))) (concat (map missed m'))"
      using stream_body_replays [OF _ _ _ m'(2), of ?a "with_claims c r" "se_fuel env" ts "se_codec env" "GetNodeID (ap_node ?a)"
          "length (clientHeap n2) - 1"] req True m'
        length_concat_mset [OF m'(1), of missed] by (auto simp: GetNodeID_def)
    then show ?thesis
      using serve [of w "?a\<lparr>sseResumeEventsReplayed := sseResumeEventsReplayed a + ?n, ap_node := ?n'\<rparr>"] start m'(1,4) True
      unfolding missed_def [symmetric] Let_def if_P [OF True]
      by (intro exI [of _ w] exI [of _ "?a\<lparr>sseResumeEventsReplayed := sseResumeEventsReplayed a + ?n, ap_node := ?n'\<rparr>"] exI [of _ m']) simp
  next
    case False
    then have "ServeHTTP env r (new_writer None) a = Some (False, writeError (limit_text (if length m \<le> 64 then SSEReplayLimit else SSETopicLimit)) 413 ?W,
        ?a\<lparr>sseResumeReplayLimitExceeded := sseResumeReplayLimitExceeded a + 1, ap_node := ?n'\<rparr>)"
      using start by (intro serve) (simp only: Let_def if_not_P [OF False], simp)
    then show ?thesis
      using m'(1,4) unfolding missed_def [symmetric] Let_def if_not_P [OF False]
      by (intro exI [of _ "writeError (limit_text (if length m \<le> 64 then SSEReplayLimit else SSETopicLimit)) 413 ?W"]
          exI [of _ "?a\<lparr>sseResumeReplayLimitExceeded := sseResumeReplayLimitExceeded a + 1, ap_node := ?n'\<rparr>"] exI [of _ m'])
        (simp add: writeError_def Write_live WriteHeader_def limit_text_def)
  qed
qed

text \<open>
  C11. Resuming a stream loses nothing and repeats nothing. A client that connects with a cursor of this node is first sent, for each topic
  of the cursor that its subscriptions cover, exactly the stored events after the cursor's offset, in order; the topics come in the
  order in which the map is walked. If the cursor has more than 64 topics or there are more than 10000 such events, the request is
  refused with 413 and nothing is sent. The log is not changed.
\<close>

theorem resume_replays:
  assumes "resuming env r a c m"
  shows "let missed = to_replay mem_topic (map cs_Topic (GetClientSubscriptions (cl_ClientID c) (ap_node a))) (eventLog (ap_node a)) in
    \<exists>w a' m'. ServeHTTP env r (new_writer None) a = Some (False, w, a') \<and> eventLog (ap_node a') = eventLog (ap_node a) \<and> mset m' = mset m
    \<and> (if length m \<le> 64 \<and> length (concat (map missed m)) \<le> 10000
       then wr_Status w = Some 200
         \<and> wr_Chunks w = established # map (sse_chunk (se_codec env) (GetNodeID (ap_node a))) (concat (map missed m'))
         \<and> sseResumeEventsReplayed a' = sseResumeEventsReplayed a + length (concat (map missed m))
       else wr_Status w = Some 413
         \<and> wr_Chunks w = [ErrorBody \<lparr>er_Error = StatusText 413, er_Message = (if length m \<le> 64 then ''SSE resume replay exceeds server event limit: ''
             else ''SSE resume cursor exceeds server topic limit: ''), er_Code = 413\<rparr>]
         \<and> sseResumeEventsReplayed a' = sseResumeEventsReplayed a)"
  using assms by (rule resume_answer)

text \<open>A server whose client is subscribed to a topic with two events.\<close>

definition demo_orders :: "event list" where
  "demo_orders = [WithOffset (NewEvent 5 ''orders'' (Some [])) 0, WithOffset (NewEvent 6 ''orders'' (Some [])) 1]"

definition demo_resume :: "mem_log api" where
  "demo_resume = demo_api\<lparr>ap_node := demo_started\<lparr>
     eventLog := \<lparr>eventsByTopic = [(''orders'', demo_orders)], nextOffsetByTopic = [(''orders'', 2)], ml_closed = False\<rparr>,
     mn_subscriptions := [(''dev-client'', [(subscription_id ''dev-client'' 4,
       \<lparr>cs_ID = subscription_id ''dev-client'' 4, cs_Topic = ''orders'', cs_ClientID = ''dev-client'', cs_CreatedAt = 4\<rparr>)])]\<rparr>\<rparr>"

definition demo_resume_request :: request where
  "demo_resume_request = demo_request ''GET'' ''/api/v1/events/stream'' [(''Accept'', ''text/event-stream''),
     (''Last-Event-ID'', encodeSSEMultiTopicCursor (GetNodeID demo_started) [(''orders'', 0)])] []"

lemma demo_resume_fields:
  "routingTable (ap_node demo_resume) = NewInMemoryRoutingTable" "mn_config (ap_node demo_resume) = demo_mesh_config"
  "GetClientSubscriptions ''dev-client'' (ap_node demo_resume) = [\<lparr>cs_ID = subscription_id ''dev-client'' 4, cs_Topic = ''orders'',
     cs_ClientID = ''dev-client'', cs_CreatedAt = 4\<rparr>]"
  "meta_inv (ap_node demo_resume)" "mem_inv (eventLog (ap_node demo_resume))" "\<not> ml_closed (eventLog (ap_node demo_resume))"
  "mem_topic (eventLog (ap_node demo_resume)) t = (if t = ''orders'' then demo_orders else [])"
  by (simp_all add: demo_resume_def demo_started_fields GetClientSubscriptions_def meta_inv_def sub_ok_def mem_inv_def
      topic_entry_ok_def mem_topic_def demo_orders_def WithOffset_def NewEvent_def gm_get_def max_int64_def gm_wf_def upt_rec)

theorem resume_replays_witness:
  "\<exists>w a'. ServeHTTP (demo_env 11 []) demo_resume_request (new_writer None) demo_resume = Some (False, w, a')
    \<and> wr_Status w = Some 200
    \<and> wr_Chunks w = [established, sse_chunk demo_codec (GetNodeID demo_started) (WithOffset (NewEvent 6 ''orders'' (Some [])) 1)]"
proof -
  have id: "GetNodeID (ap_node demo_resume) = GetNodeID demo_started" "name_ok (GetNodeID demo_started)"
    by (simp_all add: GetNodeID_def demo_resume_def demo_started_fields demo_mesh_config_def NewConfig_def name_ok_def utf8_ascii)
  have r: "allowed (demo_env 11 []) demo_resume_request demo_resume dev_claims" "rq_Path demo_resume_request = ''/api/v1/events/stream''"
    "hdr demo_resume_request ''Accept'' = ''text/event-stream''" "query demo_resume_request ''topic'' = []" "never (rq_ctx demo_resume_request)"
    "hdr demo_resume_request ''Last-Event-ID'' = encodeSSEMultiTopicCursor (GetNodeID (ap_node demo_resume)) [(''orders'', 0)]"
    by (simp_all add: demo_resume_request_def demo_request_def allowed_def demo_resume_def hdr_def query_def gm_get_def never_def id
        demo_api_def NewServer_def GetNodeID_def)
  have covered: "topicCoveredBySubscriptions ''orders'' [''orders'']"
    by (simp add: matchesTopicPattern_def)
  have m: "mset m' = mset [(''orders'', 0)] \<longleftrightarrow> m' = [(''orders'', 0 :: int)]" for m'
    by simp
  have miss: "to_replay mem_topic [''orders''] (eventLog (ap_node demo_resume)) (''orders'', 0) =
      [WithOffset (NewEvent 6 ''orders'' (Some [])) 1]"
    using covered by (simp add: to_replay_def demo_resume_fields demo_orders_def)
  have len: "int (length (mem_topic (eventLog (ap_node demo_resume)) t)) + 10000 \<le> max_int64" for t
    by (simp add: demo_resume_fields demo_orders_def max_int64_def)
  show ?thesis
    using resume_replays [of "demo_env 11 []" demo_resume_request demo_resume dev_claims "[(''orders'', 0)]"] r id miss len
    by (simp add: resuming_def demo_resume_fields m dev_claims_def demo_orders_def max_int64_def name_ok_def utf8_ascii
        NewInMemoryRoutingTable_def rt_inv_def gm_wf_def Let_def) blast
qed

end
