(* ===== verification/Client_Api.thy ===== *)
theory Client_Api
  imports Http_Handlers
begin

text \<open>
  The HTTP client library, \<open>pkg/httpclient/client.go\<close> and \<open>types.go\<close>: one operation per method. The network is a
  \<open>transport\<close>, a function from a request and the state of the other side to an answer; what the answers hold is decoded from
  their text. The server that stands behind a transport is put in its place in \<open>Client_Server\<close>. The wrapping of errors in
  messages is left out.
\<close>

subsection \<open>Configuration\<close>

record client_config =
  cc_ServerURL :: string
  cc_ClientID :: string
  cc_SecretKey :: string
  cc_Timeout :: int
  cc_MaxRetries :: int

definition ClientSetDefaults :: "client_config \<Rightarrow> client_config" where
  "ClientSetDefaults c =
     (let c = (if cc_Timeout c = 0 then c\<lparr>cc_Timeout := 30 * 1000000000\<rparr> else c)
      in if cc_MaxRetries c = 0 then c\<lparr>cc_MaxRetries := 3\<rparr> else c)"

record http_client =
  hc_config :: client_config
  hc_token :: string

datatype client_error =
    ServerURLRequired | ClientIDRequired | InvalidServerURL | NotAuthenticated
  | RequestFailed | ReadBodyFailed | APIErrorText nat string | APIError nat string | ResponseInvalid

text \<open>\<open>url_ok\<close> tells whether \<open>url.Parse\<close> accepts a text.\<close>

definition NewClient :: "(string \<Rightarrow> bool) \<Rightarrow> client_config \<Rightarrow> client_error + http_client" where
  "NewClient url_ok config =
     (let config = ClientSetDefaults config in
      if cc_ServerURL config = [] then Inl ServerURLRequired
      else if cc_ClientID config = [] then Inl ClientIDRequired
      else if \<not> url_ok (cc_ServerURL config) then Inl InvalidServerURL
      else Inr \<lparr>hc_config = config, hc_token = []\<rparr>)"

definition ClientIsAuthenticated :: "http_client \<Rightarrow> bool" where
  "ClientIsAuthenticated c \<longleftrightarrow> hc_token c \<noteq> []"

definition GetToken :: "http_client \<Rightarrow> string" where
  "GetToken c = hc_token c"

definition SetToken :: "string \<Rightarrow> http_client \<Rightarrow> http_client" where
  "SetToken token c = c\<lparr>hc_token := token\<rparr>"

subsection \<open>Answers\<close>

fun into_bool :: "bool \<Rightarrow> json \<Rightarrow> bool option" where
  "into_bool old JNull = Some old"
| "into_bool old (JBool b) = Some b"
| "into_bool old _ = None"

fun into_time :: "codec \<Rightarrow> int \<Rightarrow> json \<Rightarrow> int option" where
  "into_time cd old JNull = Some old"
| "into_time cd old (JStr s) = cd_parse_time cd s"
| "into_time cd old _ = None"

text \<open>A slice: null makes it empty, an array gives it one element per value.\<close>

fun into_slice :: "(json \<Rightarrow> 'a option) \<Rightarrow> json \<Rightarrow> 'a list option" where
  "into_slice f JNull = Some []"
| "into_slice f (JArr vs) = those (map f vs)"
| "into_slice f _ = None"

definition set_auth_response :: "codec \<Rightarrow> string \<Rightarrow> json \<Rightarrow> auth_response \<Rightarrow> auth_response option" where
  "set_auth_response cd f v r =
     (if f = ''token'' then map_option (\<lambda>x. r\<lparr>ar_Token := x\<rparr>) (into_string (ar_Token r) v)
      else if f = ''clientId'' then map_option (\<lambda>x. r\<lparr>ar_ClientID := x\<rparr>) (into_string (ar_ClientID r) v)
      else map_option (\<lambda>x. r\<lparr>ar_ExpiresAt := x\<rparr>) (into_time cd (ar_ExpiresAt r) v))"

definition set_publish_response :: "codec \<Rightarrow> string \<Rightarrow> json \<Rightarrow> publish_response \<Rightarrow> publish_response option" where
  "set_publish_response cd f v r =
     (if f = ''eventId'' then map_option (\<lambda>x. r\<lparr>pr_EventID := x\<rparr>) (into_string (pr_EventID r) v)
      else if f = ''offset'' then map_option (\<lambda>x. r\<lparr>pr_Offset := x\<rparr>) (into_int (pr_Offset r) v)
      else map_option (\<lambda>x. r\<lparr>pr_Timestamp := x\<rparr>) (into_time cd (pr_Timestamp r) v))"

definition set_subscription_response :: "codec \<Rightarrow> string \<Rightarrow> json \<Rightarrow> subscription_response \<Rightarrow> subscription_response option" where
  "set_subscription_response cd f v r =
     (if f = ''id'' then map_option (\<lambda>x. r\<lparr>sr_ID := x\<rparr>) (into_string (sr_ID r) v)
      else if f = ''topic'' then map_option (\<lambda>x. r\<lparr>sr_Topic := x\<rparr>) (into_string (sr_Topic r) v)
      else if f = ''clientId'' then map_option (\<lambda>x. r\<lparr>sr_ClientID := x\<rparr>) (into_string (sr_ClientID r) v)
      else map_option (\<lambda>x. r\<lparr>sr_CreatedAt := x\<rparr>) (into_time cd (sr_CreatedAt r) v))"

definition zero_subscription :: subscription_response where
  "zero_subscription = \<lparr>sr_ID = [], sr_Topic = [], sr_ClientID = [], sr_CreatedAt = zero_time\<rparr>"

definition into_subscription :: "codec \<Rightarrow> json \<Rightarrow> subscription_response option" where
  "into_subscription cd v = unmarshal_struct [''id'', ''topic'', ''clientId'', ''createdAt''] (set_subscription_response cd) v zero_subscription"

definition set_stream_message :: "codec \<Rightarrow> string \<Rightarrow> json \<Rightarrow> stream_message \<Rightarrow> stream_message option" where
  "set_stream_message cd f v m =
     (if f = ''eventId'' then map_option (\<lambda>x. m\<lparr>sm_EventID := x\<rparr>) (into_string (sm_EventID m) v)
      else if f = ''topic'' then map_option (\<lambda>x. m\<lparr>sm_Topic := x\<rparr>) (into_string (sm_Topic m) v)
      else if f = ''payload'' then map_option (\<lambda>x. m\<lparr>sm_Payload := x\<rparr>) (into_any cd v)
      else if f = ''timestamp'' then map_option (\<lambda>x. m\<lparr>sm_Timestamp := x\<rparr>) (into_time cd (sm_Timestamp m) v)
      else map_option (\<lambda>x. m\<lparr>sm_Offset := x\<rparr>) (into_int (sm_Offset m) v))"

definition into_message :: "codec \<Rightarrow> json \<Rightarrow> stream_message option" where
  "into_message cd v = unmarshal_struct [''eventId'', ''topic'', ''payload'', ''timestamp'', ''offset''] (set_stream_message cd) v
     \<lparr>sm_EventID = [], sm_Topic = [], sm_Payload = JNull, sm_Timestamp = zero_time, sm_Offset = 0\<rparr>"

text \<open>\<open>Count\<close> is an \<open>int\<close> on this side.\<close>

record client_read =
  cr_Events :: "stream_message list"
  cr_Topic :: string
  cr_StartOffset :: int
  cr_Count :: int

definition set_read_response :: "codec \<Rightarrow> string \<Rightarrow> json \<Rightarrow> client_read \<Rightarrow> client_read option" where
  "set_read_response cd f v r =
     (if f = ''events'' then map_option (\<lambda>x. r\<lparr>cr_Events := x\<rparr>) (into_slice (into_message cd) v)
      else if f = ''topic'' then map_option (\<lambda>x. r\<lparr>cr_Topic := x\<rparr>) (into_string (cr_Topic r) v)
      else if f = ''startOffset'' then map_option (\<lambda>x. r\<lparr>cr_StartOffset := x\<rparr>) (into_int (cr_StartOffset r) v)
      else map_option (\<lambda>x. r\<lparr>cr_Count := x\<rparr>) (into_int (cr_Count r) v))"

record client_health =
  ch_Healthy :: bool
  ch_EventLogHealthy :: bool
  ch_RoutingTableHealthy :: bool
  ch_PeerLinkHealthy :: bool
  ch_ConnectedClients :: int
  ch_ConnectedPeers :: int
  ch_Message :: string

definition set_health_response :: "string \<Rightarrow> json \<Rightarrow> client_health \<Rightarrow> client_health option" where
  "set_health_response f v r =
     (if f = ''healthy'' then map_option (\<lambda>x. r\<lparr>ch_Healthy := x\<rparr>) (into_bool (ch_Healthy r) v)
      else if f = ''eventLogHealthy'' then map_option (\<lambda>x. r\<lparr>ch_EventLogHealthy := x\<rparr>) (into_bool (ch_EventLogHealthy r) v)
      else if f = ''routingTableHealthy'' then map_option (\<lambda>x. r\<lparr>ch_RoutingTableHealthy := x\<rparr>) (into_bool (ch_RoutingTableHealthy r) v)
      else if f = ''peerLinkHealthy'' then map_option (\<lambda>x. r\<lparr>ch_PeerLinkHealthy := x\<rparr>) (into_bool (ch_PeerLinkHealthy r) v)
      else if f = ''connectedClients'' then map_option (\<lambda>x. r\<lparr>ch_ConnectedClients := x\<rparr>) (into_int (ch_ConnectedClients r) v)
      else if f = ''connectedPeers'' then map_option (\<lambda>x. r\<lparr>ch_ConnectedPeers := x\<rparr>) (into_int (ch_ConnectedPeers r) v)
      else map_option (\<lambda>x. r\<lparr>ch_Message := x\<rparr>) (into_string (ch_Message r) v))"

definition set_client_info :: "codec \<Rightarrow> string \<Rightarrow> json \<Rightarrow> client_info \<Rightarrow> client_info option" where
  "set_client_info cd f v r =
     (if f = ''id'' then map_option (\<lambda>x. r\<lparr>ci_ID := x\<rparr>) (into_string (ci_ID r) v)
      else if f = ''authenticated'' then map_option (\<lambda>x. r\<lparr>ci_Authenticated := x\<rparr>) (into_bool (ci_Authenticated r) v)
      else if f = ''connectedAt'' then map_option (\<lambda>x. r\<lparr>ci_ConnectedAt := x\<rparr>) (into_time cd (ci_ConnectedAt r) v)
      else map_option (\<lambda>x. r\<lparr>ci_Subscriptions := x\<rparr>) (into_slice (into_string []) v))"

definition into_client_info :: "codec \<Rightarrow> json \<Rightarrow> client_info option" where
  "into_client_info cd v = unmarshal_struct [''id'', ''authenticated'', ''connectedAt'', ''subscriptions''] (set_client_info cd) v
     \<lparr>ci_ID = [], ci_Authenticated = False, ci_ConnectedAt = zero_time, ci_Subscriptions = []\<rparr>"

record client_stats =
  cs_ConnectedClients :: int
  cs_TotalSubscriptions :: int
  cs_TotalTopics :: int
  cs_EventsPublished :: int

definition set_stats_response :: "string \<Rightarrow> json \<Rightarrow> client_stats \<Rightarrow> client_stats option" where
  "set_stats_response f v r =
     (if f = ''connectedClients'' then map_option (\<lambda>x. r\<lparr>cs_ConnectedClients := x\<rparr>) (into_int (cs_ConnectedClients r) v)
      else if f = ''totalSubscriptions'' then map_option (\<lambda>x. r\<lparr>cs_TotalSubscriptions := x\<rparr>) (into_int (cs_TotalSubscriptions r) v)
      else if f = ''totalTopics'' then map_option (\<lambda>x. r\<lparr>cs_TotalTopics := x\<rparr>) (into_int (cs_TotalTopics r) v)
      else map_option (\<lambda>x. r\<lparr>cs_EventsPublished := x\<rparr>) (into_int (cs_EventsPublished r) v))"

record client_failure =
  cf_Error :: string
  cf_Message :: string
  cf_Code :: int

definition set_error_response :: "string \<Rightarrow> json \<Rightarrow> client_failure \<Rightarrow> client_failure option" where
  "set_error_response f v r =
     (if f = ''error'' then map_option (\<lambda>x. r\<lparr>cf_Error := x\<rparr>) (into_string (cf_Error r) v)
      else if f = ''message'' then map_option (\<lambda>x. r\<lparr>cf_Message := x\<rparr>) (into_string (cf_Message r) v)
      else map_option (\<lambda>x. r\<lparr>cf_Code := x\<rparr>) (into_int (cf_Code r) v))"

text \<open>\<open>json.Unmarshal\<close> into a struct with its zero value.\<close>

definition unmarshal :: "string list \<Rightarrow> (string \<Rightarrow> json \<Rightarrow> 's \<Rightarrow> 's option) \<Rightarrow> 's \<Rightarrow> string \<Rightarrow> 's option" where
  "unmarshal names set_field zero s = Option.bind (parse_json s) (\<lambda>v. unmarshal_struct names set_field v zero)"

subsection \<open>Requests\<close>

text \<open>
  A request as it leaves the client: the path is the decoded one, which is what the other side gets, and the query holds the
  decoded parameters.
\<close>

record out_request =
  or_Method :: string
  or_Path :: string
  or_Query :: "(string, string) gomap"
  or_Header :: "(string, string) gomap"
  or_Body :: string

datatype transport_answer = DoFailed | ReadFailed | Answer nat string

type_synonym 'w transport = "out_request \<Rightarrow> 'w \<Rightarrow> transport_answer \<times> 'w"

definition doRequestWithQuery ::
  "'w transport \<Rightarrow> http_client \<Rightarrow> string \<Rightarrow> string \<Rightarrow> (string, string) gomap \<Rightarrow> json option \<Rightarrow> (string \<Rightarrow> 'r option) \<Rightarrow> bool \<Rightarrow> 'w \<Rightarrow>
   (client_error + 'r) \<times> 'w" where
  "doRequestWithQuery tr c verb path queryParams reqBody decode requireAuth w =
     (let hs = (if reqBody \<noteq> None then [(''Content-Type'', ''application/json'')] else []);
          hs = (if requireAuth \<and> hc_token c \<noteq> [] then AList.update ''Authorization'' (''Bearer '' @ hc_token c) hs else hs);
          req = \<lparr>or_Method = verb, or_Path = path, or_Query = queryParams, or_Header = hs,
                 or_Body = (case reqBody of None \<Rightarrow> [] | Some b \<Rightarrow> print_json b)\<rparr>
      in case tr req w of
           (DoFailed, w') \<Rightarrow> (Inl RequestFailed, w')
         | (ReadFailed, w') \<Rightarrow> (Inl ReadBodyFailed, w')
         | (Answer status body, w') \<Rightarrow>
             (if status \<ge> 400
              then case unmarshal [''error'', ''message'', ''code''] set_error_response \<lparr>cf_Error = [], cf_Message = [], cf_Code = 0\<rparr> body of
                     None \<Rightarrow> Inl (APIErrorText status body)
                   | Some errResp \<Rightarrow> Inl (APIError status (cf_Error errResp))
              else case decode body of None \<Rightarrow> Inl ResponseInvalid | Some resp \<Rightarrow> Inr resp, w'))"

definition doRequest ::
  "'w transport \<Rightarrow> http_client \<Rightarrow> string \<Rightarrow> string \<Rightarrow> json option \<Rightarrow> (string \<Rightarrow> 'r option) \<Rightarrow> bool \<Rightarrow> 'w \<Rightarrow> (client_error + 'r) \<times> 'w" where
  "doRequest tr c verb path reqBody decode requireAuth w = doRequestWithQuery tr c verb path [] reqBody decode requireAuth w"

subsection \<open>Methods\<close>

definition Authenticate :: "codec \<Rightarrow> 'w transport \<Rightarrow> http_client \<Rightarrow> 'w \<Rightarrow> client_error option \<times> http_client \<times> 'w" where
  "Authenticate cd tr c w =
     (case doRequest tr c ''POST'' ''/api/v1/auth/login'' (Some (JObj [(''clientId'', JStr (cc_ClientID (hc_config c)))]))
             (unmarshal [''token'', ''clientId'', ''expiresAt''] (set_auth_response cd)
                \<lparr>ar_Token = [], ar_ClientID = [], ar_ExpiresAt = zero_time\<rparr>) False w of
        (Inl err, w') \<Rightarrow> (Some err, c, w')
      | (Inr authResp, w') \<Rightarrow> (None, c\<lparr>hc_token := ar_Token authResp\<rparr>, w'))"

definition ClientPublishEvent ::
  "codec \<Rightarrow> 'w transport \<Rightarrow> string \<Rightarrow> json \<Rightarrow> http_client \<Rightarrow> 'w \<Rightarrow> (client_error + publish_response) \<times> 'w" where
  "ClientPublishEvent cd tr topic payload c w =
     (if hc_token c = [] then (Inl NotAuthenticated, w)
      else doRequest tr c ''POST'' ''/api/v1/events'' (Some (JObj [(''topic'', JStr topic), (''payload'', payload)]))
             (unmarshal [''eventId'', ''offset'', ''timestamp''] (set_publish_response cd)
                \<lparr>pr_EventID = [], pr_Offset = 0, pr_Timestamp = zero_time\<rparr>) True w)"

definition ClientCreateSubscription ::
  "codec \<Rightarrow> 'w transport \<Rightarrow> string \<Rightarrow> http_client \<Rightarrow> 'w \<Rightarrow> (client_error + subscription_response) \<times> 'w" where
  "ClientCreateSubscription cd tr topic c w =
     (if hc_token c = [] then (Inl NotAuthenticated, w)
      else doRequest tr c ''POST'' ''/api/v1/subscriptions'' (Some (JObj [(''topic'', JStr topic)]))
             (\<lambda>s. Option.bind (parse_json s) (into_subscription cd)) True w)"

definition ClientListSubscriptions ::
  "codec \<Rightarrow> 'w transport \<Rightarrow> http_client \<Rightarrow> 'w \<Rightarrow> (client_error + subscription_response list) \<times> 'w" where
  "ClientListSubscriptions cd tr c w =
     (if hc_token c = [] then (Inl NotAuthenticated, w)
      else doRequest tr c ''GET'' ''/api/v1/subscriptions'' None
             (\<lambda>s. Option.bind (parse_json s) (into_slice (into_subscription cd))) True w)"

definition ClientDeleteSubscription :: "'w transport \<Rightarrow> string \<Rightarrow> http_client \<Rightarrow> 'w \<Rightarrow> client_error option \<times> 'w" where
  "ClientDeleteSubscription tr subscriptionID c w =
     (if hc_token c = [] then (Some NotAuthenticated, w)
      else case doRequest tr c ''DELETE'' (''/api/v1/subscriptions/'' @ subscriptionID) None (\<lambda>s. Some ()) True w of
             (Inl err, w') \<Rightarrow> (Some err, w')
           | (Inr _, w') \<Rightarrow> (None, w'))"

definition ClientGetHealth :: "'w transport \<Rightarrow> http_client \<Rightarrow> 'w \<Rightarrow> (client_error + client_health) \<times> 'w" where
  "ClientGetHealth tr c w =
     doRequest tr c ''GET'' ''/api/v1/health'' None
       (unmarshal [''healthy'', ''eventLogHealthy'', ''routingTableHealthy'', ''peerLinkHealthy'', ''connectedClients'',
          ''connectedPeers'', ''message''] set_health_response
          \<lparr>ch_Healthy = False, ch_EventLogHealthy = False, ch_RoutingTableHealthy = False, ch_PeerLinkHealthy = False,
           ch_ConnectedClients = 0, ch_ConnectedPeers = 0, ch_Message = []\<rparr>) False w"

definition ClientAdminListClients ::
  "codec \<Rightarrow> 'w transport \<Rightarrow> http_client \<Rightarrow> 'w \<Rightarrow> (client_error + client_info list) \<times> 'w" where
  "ClientAdminListClients cd tr c w =
     (if hc_token c = [] then (Inl NotAuthenticated, w)
      else doRequest tr c ''GET'' ''/api/v1/admin/clients'' None
             (unmarshal [''clients''] (\<lambda>f v r. into_slice (into_client_info cd) v) []) True w)"

definition ClientAdminListSubscriptions ::
  "codec \<Rightarrow> 'w transport \<Rightarrow> http_client \<Rightarrow> 'w \<Rightarrow> (client_error + subscription_response list) \<times> 'w" where
  "ClientAdminListSubscriptions cd tr c w =
     (if hc_token c = [] then (Inl NotAuthenticated, w)
      else doRequest tr c ''GET'' ''/api/v1/admin/subscriptions'' None
             (unmarshal [''subscriptions''] (\<lambda>f v r. into_slice (into_subscription cd) v) []) True w)"

definition ClientAdminGetStats :: "'w transport \<Rightarrow> http_client \<Rightarrow> 'w \<Rightarrow> (client_error + client_stats) \<times> 'w" where
  "ClientAdminGetStats tr c w =
     (if hc_token c = [] then (Inl NotAuthenticated, w)
      else doRequest tr c ''GET'' ''/api/v1/admin/stats'' None
             (unmarshal [''connectedClients'', ''totalSubscriptions'', ''totalTopics'', ''eventsPublished''] set_stats_response
                \<lparr>cs_ConnectedClients = 0, cs_TotalSubscriptions = 0, cs_TotalTopics = 0, cs_EventsPublished = 0\<rparr>) True w)"

text \<open>
  The escaped topic is put into \<open>url.URL.Path\<close>, which is escaped again on the way: the other side gets the path with the first
  escaping still in it.
\<close>

definition upper_hex :: "nat \<Rightarrow> char" where
  "upper_hex n = (if n < 10 then char_of (48 + n) else char_of (55 + n))"

definition path_safe :: "char \<Rightarrow> bool" where
  "path_safe c \<longleftrightarrow> between 97 122 c \<or> between 65 90 c \<or> between 48 57 c \<or> c \<in> set ''-_.~$&+=:@''"

definition PathEscape :: "string \<Rightarrow> string" where
  "PathEscape s = concat (map (\<lambda>c. if path_safe c then [c] else [CHR ''%'', upper_hex (byte_of c div 16), upper_hex (byte_of c mod 16)]) s)"

definition ClientReadEvents ::
  "codec \<Rightarrow> 'w transport \<Rightarrow> string \<Rightarrow> int \<Rightarrow> int \<Rightarrow> http_client \<Rightarrow> 'w \<Rightarrow> (client_error + client_read) \<times> 'w" where
  "ClientReadEvents cd tr topic offset limit c w =
     (if hc_token c = [] then (Inl NotAuthenticated, w)
      else
        let path = ''/api/v1/topics/'' @ PathEscape topic @ ''/events'';
            q = (if offset \<ge> 0 then [(''offset'', show_int offset)] else []);
            q = (if limit > 0 then AList.update ''limit'' (show_int limit) q else q)
        in doRequestWithQuery tr c ''GET'' path q None
             (unmarshal [''events'', ''topic'', ''startOffset'', ''count''] (set_read_response cd)
                \<lparr>cr_Events = [], cr_Topic = [], cr_StartOffset = 0, cr_Count = 0\<rparr>) True w)"

end
