(* ===== verification/Client_Stream.thy ===== *)
theory Client_Stream
  imports Client_Api Http_Stream
begin

text \<open>
  The streaming client, \<open>pkg/httpclient/streaming.go\<close>: temporary subscriptions, the reader of server-sent events, the resume cursor
  and the reconnect loop. The program that uses the library takes events and errors from the two channels while the
  loop runs: the loop's environment says how many it has taken before each \<open>select\<close>, whether the context is done by
  then, and which ready case is picked. \<open>sc_received\<close> is what has been taken.
\<close>

subsection \<open>State\<close>

record stream_config =
  sg_Topics :: "string list"
  sg_BufferSize :: int
  sg_ReconnectDelay :: int
  sg_MaxReconnectAttempts :: int

definition StreamSetDefaults :: "stream_config \<Rightarrow> stream_config" where
  "StreamSetDefaults sc =
     (let sc = (if sg_BufferSize sc = 0 then sc\<lparr>sg_BufferSize := 100\<rparr> else sc)
      in if sg_ReconnectDelay sc = 0 then sc\<lparr>sg_ReconnectDelay := 2 * 1000000000\<rparr> else sc)"

datatype stream_error = ConnectError | BadStatus nat string | ScanError | ContextDone

datatype stream_report = SubscriptionReport client_error | StreamingReport stream_error | ParseReport | MaxAttemptsReport

record stream_client =
  sc_events :: "stream_message chan"
  sc_received :: "stream_message list"
  sc_errors :: "stream_report chan"
  sc_seen :: "stream_report list"
  sc_done :: bool
  temporarySubscriptions :: "(string, string) gomap"
  resumeNodeID :: string
  resumeOffsets :: "(string, int) gomap"

subsection \<open>Temporary subscriptions\<close>

fun unique_loop :: "string list \<Rightarrow> string list \<Rightarrow> string list \<Rightarrow> string list" where
  "unique_loop seen unique [] = unique"
| "unique_loop seen unique (t # ts) =
     (let topic = TrimSpace t in
      if topic = [] then unique_loop seen unique ts
      else if topic \<in> set seen then unique_loop seen unique ts
      else unique_loop (topic # seen) (unique @ [topic]) ts)"

definition uniqueStreamTopics :: "string list \<Rightarrow> string list" where
  "uniqueStreamTopics topics = unique_loop [] [] topics"

definition ensureStreamSubscription ::
  "codec \<Rightarrow> 'w transport \<Rightarrow> string \<Rightarrow> http_client \<Rightarrow> 'w \<Rightarrow> (client_error + string) \<times> 'w" where
  "ensureStreamSubscription cd tr topic c w =
     (case ClientListSubscriptions cd tr c w of
        (Inl err, w') \<Rightarrow> (Inl err, w')
      | (Inr subs, w') \<Rightarrow>
          if list_ex (\<lambda>s. sr_Topic s = topic) subs then (Inr [], w')
          else case ClientCreateSubscription cd tr topic c w' of
            (Inl err, w'') \<Rightarrow> (Inl err, w'')
          | (Inr s, w'') \<Rightarrow> (Inr (sr_ID s), w''))"

fun ensure_loop ::
  "codec \<Rightarrow> 'w transport \<Rightarrow> http_client \<Rightarrow> string list \<Rightarrow> (string, string) gomap \<Rightarrow> 'w \<Rightarrow> (client_error + (string, string) gomap) \<times> 'w" where
  "ensure_loop cd tr c [] created w = (Inr created, w)"
| "ensure_loop cd tr c (topic # ts) created w =
     (case ensureStreamSubscription cd tr topic c w of
        (Inl err, w') \<Rightarrow> (Inl err, w')
      | (Inr subscriptionID, w') \<Rightarrow>
          ensure_loop cd tr c ts (if subscriptionID \<noteq> [] then AList.update topic subscriptionID created else created) w')"

definition ensureStreamSubscriptions ::
  "codec \<Rightarrow> 'w transport \<Rightarrow> string list \<Rightarrow> http_client \<Rightarrow> 'w \<Rightarrow> (client_error + (string, string) gomap) \<times> 'w" where
  "ensureStreamSubscriptions cd tr topics c w =
     (let uniqueTopics = uniqueStreamTopics topics in
      if uniqueTopics = [] then (Inr [], w) else ensure_loop cd tr c uniqueTopics [] w)"

text \<open>Opening a stream; a negative buffer size makes \<open>make\<close> panic.\<close>

datatype stream_open = StreamFailed client_error | StreamPanic | StreamOpened stream_client

definition ClientStream ::
  "codec \<Rightarrow> 'w transport \<Rightarrow> stream_config \<Rightarrow> http_client \<Rightarrow> 'w \<Rightarrow> stream_open \<times> stream_config \<times> 'w" where
  "ClientStream cd tr config c w =
     (if hc_token c = [] then (StreamFailed NotAuthenticated, config, w)
      else
        let config = StreamSetDefaults config in
        case ensureStreamSubscriptions cd tr (sg_Topics config) c w of
          (Inl err, w') \<Rightarrow> (StreamFailed err, config, w')
        | (Inr created, w') \<Rightarrow>
            (if sg_BufferSize config < 0 then StreamPanic
             else StreamOpened \<lparr>sc_events = make_chan (nat (sg_BufferSize config)), sc_received = [],
                    sc_errors = make_chan 10, sc_seen = [], sc_done = False, temporarySubscriptions = created,
                    resumeNodeID = [], resumeOffsets = []\<rparr>, config, w'))"

fun delete_loop :: "'w transport \<Rightarrow> http_client \<Rightarrow> (string, string) gomap \<Rightarrow> 'w \<Rightarrow> client_error list \<times> 'w" where
  "delete_loop tr c [] w = ([], w)"
| "delete_loop tr c ((topic, subscriptionID) # m) w =
     (case ClientDeleteSubscription tr subscriptionID c w of (err, w') \<Rightarrow>
        (case delete_loop tr c m w' of (errs, w'') \<Rightarrow> (case err of None \<Rightarrow> errs | Some e \<Rightarrow> e # errs, w'')))"

text \<open>\<open>Close\<close>, after the loop has ended: the errors of the removals.\<close>

definition StreamClose ::
  "'w transport \<Rightarrow> http_client \<Rightarrow> stream_client \<Rightarrow> 'w \<Rightarrow> client_error list \<times> stream_client \<times> 'w" where
  "StreamClose tr c sc w =
     (if temporarySubscriptions sc = [] then ([], sc, w)
      else case delete_loop tr c (temporarySubscriptions sc) w of
        (errs, w') \<Rightarrow> (errs, sc\<lparr>temporarySubscriptions := []\<rparr>, w'))"

subsection \<open>The resume cursor\<close>

definition resumeCursorHeader :: "stream_client \<Rightarrow> string" where
  "resumeCursorHeader sc =
     (if resumeOffsets sc = [] then []
      else encodeSSEMultiTopicCursor (resumeNodeID sc) (gm_copy_into [] (resumeOffsets sc)))"

definition recordResumeEventID :: "string \<Rightarrow> stream_client \<Rightarrow> stream_client" where
  "recordResumeEventID eventID sc =
     (if eventID = [] then sc
      else case decodeSSEEventCursor eventID of
        Inl err \<Rightarrow> sc
      | Inr cursor \<Rightarrow>
          let sc = (if resumeNodeID sc = [] then sc\<lparr>resumeNodeID := ec_NodeID cursor\<rparr> else sc);
              sc = (if resumeNodeID sc \<noteq> ec_NodeID cursor
                    then sc\<lparr>resumeNodeID := ec_NodeID cursor, resumeOffsets := []\<rparr> else sc)
          in if (case map_of (resumeOffsets sc) (ec_Topic cursor) of None \<Rightarrow> True | Some current \<Rightarrow> ec_Offset cursor > current)
             then sc\<lparr>resumeOffsets := AList.update (ec_Topic cursor) (ec_Offset cursor) (resumeOffsets sc)\<rparr>
             else sc)"

subsection \<open>Reading server-sent events\<close>

text \<open>
  The lines of \<open>bufio.Scanner\<close>, without a carriage return at their end. A line that does not fit into the largest buffer,
  64 KB with its line break, ends the scan with an error.
\<close>

definition maxScanTokenSize :: nat where
  "maxScanTokenSize = 65536"

definition drop_cr :: "string \<Rightarrow> string" where
  "drop_cr l = (if l \<noteq> [] \<and> last l = CHR 0x0D then butlast l else l)"

function scan_lines :: "string \<Rightarrow> string list \<times> bool" where
  "scan_lines s =
     (if s = [] then ([], False)
      else
        let l = takeWhile (\<lambda>c. c \<noteq> newline) s in
        if length l \<ge> maxScanTokenSize then ([], True)
        else case scan_lines (drop (Suc (length l)) s) of (ls, long) \<Rightarrow> (drop_cr l # ls, long))"
  by pat_completeness auto
termination
  by (relation "measure length") (auto simp: neq_Nil_conv)

declare scan_lines.simps [simp del]

definition parseSSEField :: "string \<Rightarrow> string \<Rightarrow> string option" where
  "parseSSEField line field =
     (let pre = field @ '':'' in
      if \<not> HasPrefix line pre then None else Some (TrimPrefix (TrimPrefix line pre) '' ''))"

fun any_topic :: "string \<Rightarrow> string list \<Rightarrow> bool" where
  "any_topic topic [] = False"
| "any_topic topic (p # ps) = (if matchesStreamTopic p topic then True else any_topic topic ps)"

definition matchesAnyStreamTopic :: "string list \<Rightarrow> string \<Rightarrow> bool" where
  "matchesAnyStreamTopic patterns topic = any_topic topic (uniqueStreamTopics patterns)"

text \<open>A \<open>select\<close> that sends to a channel, watches the context and may have a default.\<close>

record select_env =
  sl_events :: nat
  sl_errors :: nat
  sl_done :: bool
  sl_pick :: nat

datatype select_case = CaseSend | CaseDone

definition select_send :: "bool \<Rightarrow> select_env \<Rightarrow> select_case option" where
  "select_send room se = select_of (sl_pick se) ((if room then [CaseSend] else []) @ (if sl_done se then [CaseDone] else []))"

definition room :: "'m chan \<Rightarrow> bool" where
  "room c \<longleftrightarrow> length (ch_items c) < ch_cap c"

text \<open>The program takes what it takes.\<close>

definition consume :: "select_env \<Rightarrow> stream_client \<Rightarrow> stream_client" where
  "consume se sc =
     sc\<lparr>sc_received := sc_received sc @ take (sl_events se) (ch_items (sc_events sc)),
        sc_events := (sc_events sc)\<lparr>ch_items := drop (sl_events se) (ch_items (sc_events sc))\<rparr>,
        sc_seen := sc_seen sc @ take (sl_errors se) (ch_items (sc_errors sc)),
        sc_errors := (sc_errors sc)\<lparr>ch_items := drop (sl_errors se) (ch_items (sc_errors sc))\<rparr>\<rparr>"

text \<open>Sending an error or an event, with a default: the answer is whether the context was done.\<close>

definition send_report :: "stream_report \<Rightarrow> select_env \<Rightarrow> stream_client \<Rightarrow> select_case option \<times> stream_client" where
  "send_report err se sc =
     (let sc = consume se sc; pick = select_send (room (sc_errors sc)) se in
      (pick, if pick = Some CaseSend then sc\<lparr>sc_errors := (sc_errors sc)\<lparr>ch_items := ch_items (sc_errors sc) @ [err]\<rparr>\<rparr> else sc))"

definition send_event :: "stream_message \<Rightarrow> select_env \<Rightarrow> stream_client \<Rightarrow> select_case option \<times> stream_client" where
  "send_event e se sc =
     (let sc = consume se sc; pick = select_send (room (sc_events sc)) se in
      (pick, if pick = Some CaseSend then sc\<lparr>sc_events := (sc_events sc)\<lparr>ch_items := ch_items (sc_events sc) @ [e]\<rparr>\<rparr> else sc))"

text \<open>
  For each line, whether the context is done when the line is read and what the \<open>select\<close> of the line finds. The answer is whether
  the context ended the stream.
\<close>

record line_env =
  le_done :: bool
  le_select :: select_env

fun process_lines ::
  "codec \<Rightarrow> stream_config \<Rightarrow> (nat \<Rightarrow> line_env) \<Rightarrow> string list \<Rightarrow> string \<Rightarrow> stream_client \<Rightarrow> bool \<times> stream_client" where
  "process_lines cd config env [] currentEventID sc = (False, sc)"
| "process_lines cd config env (line # ls) currentEventID sc =
     (let env' = (\<lambda>k. env (Suc k)) in
      if le_done (env 0) then (True, sc)
      else case parseSSEField line ''id'' of
        Some v \<Rightarrow> process_lines cd config env' ls (TrimSpace v) sc
      | None \<Rightarrow>
         (case parseSSEField line ''data'' of
            None \<Rightarrow> process_lines cd config env' ls currentEventID sc
          | Some jsonData \<Rightarrow>
             (case Option.bind (parse_json jsonData) (into_message cd) of
                None \<Rightarrow>
                 (case send_report ParseReport (le_select (env 0)) sc of (pick, sc) \<Rightarrow>
                    if pick = Some CaseDone then (True, sc) else process_lines cd config env' ls currentEventID sc)
              | Some event \<Rightarrow>
                  let event = (if sm_EventID event = [] then event\<lparr>sm_EventID := currentEventID\<rparr> else event);
                      sc = recordResumeEventID (sm_EventID event) sc
                  in if sg_Topics config \<noteq> [] \<and> \<not> matchesAnyStreamTopic (sg_Topics config) (sm_Topic event)
                     then process_lines cd config env' ls [] sc
                     else case send_event event (le_select (env 0)) sc of (pick, sc) \<Rightarrow>
                       if pick = Some CaseDone then (True, sc) else process_lines cd config env' ls [] sc)))"

text \<open>The text of a body and whether reading it ended with an error, after which the scanner still hands out the last line.\<close>

definition processSSEStream ::
  "codec \<Rightarrow> (nat \<Rightarrow> line_env) \<Rightarrow> string \<times> bool \<Rightarrow> stream_config \<Rightarrow> stream_client \<Rightarrow> stream_error option \<times> stream_client" where
  "processSSEStream cd env body config sc =
     (case scan_lines (fst body) of (ls, long) \<Rightarrow>
        (case process_lines cd config env ls [] sc of
           (True, sc) \<Rightarrow> (Some ContextDone, sc)
         | (False, sc) \<Rightarrow> (if long \<or> snd body then Some ScanError else None, sc)))"

subsection \<open>Connections\<close>

datatype stream_answer = OpenFailed | Opened nat string bool

type_synonym 'w opener = "out_request \<Rightarrow> 'w \<Rightarrow> stream_answer \<times> 'w"

definition stream_request_of :: "http_client \<Rightarrow> stream_client \<Rightarrow> out_request" where
  "stream_request_of c sc =
     (let hs = [(''Accept'', ''text/event-stream''), (''Cache-Control'', ''no-cache''), (''Authorization'', ''Bearer '' @ hc_token c)];
          resumeCursor = resumeCursorHeader sc
      in \<lparr>or_Method = ''GET'', or_Path = ''/api/v1/events/stream'', or_Query = [],
          or_Header = (if resumeCursor \<noteq> [] then hs @ [(''Last-Event-ID'', resumeCursor)] else hs), or_Body = []\<rparr>)"

definition connectAndStream ::
  "codec \<Rightarrow> 'w opener \<Rightarrow> (nat \<Rightarrow> line_env) \<Rightarrow> stream_config \<Rightarrow> http_client \<Rightarrow> stream_client \<Rightarrow> 'w \<Rightarrow>
   stream_error option \<times> stream_client \<times> 'w" where
  "connectAndStream cd op env config c sc w =
     (case op (stream_request_of c sc) w of
        (OpenFailed, w') \<Rightarrow> (Some ConnectError, sc, w')
      | (Opened status text failed, w') \<Rightarrow>
          if status \<noteq> 200 then (Some (BadStatus status text), sc, w')
          else case processSSEStream cd env (text, failed) config sc of (err, sc') \<Rightarrow> (err, sc', w'))"

text \<open>
  What one round of the reconnect loop finds: the context at its start, the lines of its stream, the two \<open>select\<close>s that report an
  error, the last one, and whether the context is done before the delay has passed.
\<close>

record round_env =
  re_done :: bool
  re_subscribe :: select_env
  re_lines :: "nat \<Rightarrow> line_env"
  re_report :: select_env
  re_last :: select_env
  re_wait_done :: bool

text \<open>The loop ends, or blocks in its last \<open>select\<close>, which has no default.\<close>

datatype run_end = Stopped | Blocked

definition ensure_round ::
  "codec \<Rightarrow> 'w transport \<Rightarrow> http_client \<Rightarrow> stream_config \<Rightarrow> select_env \<Rightarrow> stream_client \<Rightarrow> 'w \<Rightarrow> bool \<times> stream_client \<times> 'w" where
  "ensure_round cd tr c config se sc w =
     (case ensureStreamSubscriptions cd tr (sg_Topics config) c w of
        (Inl err, w') \<Rightarrow> (case send_report (SubscriptionReport err) se sc of (pick, sc) \<Rightarrow> (pick = Some CaseDone, sc, w'))
      | (Inr created, w') \<Rightarrow> (False, sc\<lparr>temporarySubscriptions := gm_copy_into (temporarySubscriptions sc) created\<rparr>, w'))"

definition connect_round ::
  "codec \<Rightarrow> 'w opener \<Rightarrow> http_client \<Rightarrow> stream_config \<Rightarrow> round_env \<Rightarrow> stream_client \<Rightarrow> 'w \<Rightarrow> bool \<times> stream_client \<times> 'w" where
  "connect_round cd op c config re sc w =
     (case connectAndStream cd op (re_lines re) config c sc w of
        (None, sc, w') \<Rightarrow> (False, sc, w')
      | (Some err, sc, w') \<Rightarrow>
         (case send_report (StreamingReport err) (re_report re) sc of (pick, sc) \<Rightarrow> (pick = Some CaseDone, sc, w')))"

fun stream_rounds ::
  "nat \<Rightarrow> codec \<Rightarrow> 'w transport \<Rightarrow> 'w opener \<Rightarrow> http_client \<Rightarrow> stream_config \<Rightarrow> (nat \<Rightarrow> round_env) \<Rightarrow> int \<Rightarrow> stream_client \<Rightarrow> 'w \<Rightarrow>
   (run_end \<times> stream_client \<times> 'w) option" where
  "stream_rounds 0 cd tr op c config env attempts sc w = None"
| "stream_rounds (Suc fuel) cd tr op c config env attempts sc w =
     (let re = env 0 in
      if re_done re then Some (Stopped, sc, w)
      else case ensure_round cd tr c config (re_subscribe re) sc w of
        (True, sc, w) \<Rightarrow> Some (Stopped, sc, w)
      | (False, sc, w) \<Rightarrow>
         (case connect_round cd op c config re sc w of
            (True, sc, w) \<Rightarrow> Some (Stopped, sc, w)
          | (False, sc, w) \<Rightarrow>
              if sg_MaxReconnectAttempts config > 0 \<and> attempts \<ge> sg_MaxReconnectAttempts config
              then case send_report MaxAttemptsReport (re_last re) sc of
                     (pick, sc) \<Rightarrow> Some (if pick = None then Blocked else Stopped, sc, w)
              else if re_wait_done re then Some (Stopped, sc, w)
              else stream_rounds fuel cd tr op c config (\<lambda>k. env (Suc k)) (attempts + 1) sc w))"

definition startStreaming ::
  "nat \<Rightarrow> codec \<Rightarrow> 'w transport \<Rightarrow> 'w opener \<Rightarrow> http_client \<Rightarrow> stream_config \<Rightarrow> (nat \<Rightarrow> round_env) \<Rightarrow> stream_client \<Rightarrow> 'w \<Rightarrow>
   (run_end \<times> stream_client \<times> 'w) option" where
  "startStreaming fuel cd tr op c config env sc w =
     (case stream_rounds fuel cd tr op c config env 0 sc w of
        None \<Rightarrow> None
      | Some (Blocked, sc, w) \<Rightarrow> Some (Blocked, sc, w)
      | Some (Stopped, sc, w) \<Rightarrow>
          Some (Stopped, sc\<lparr>sc_errors := (sc_errors sc)\<lparr>ch_closed := True\<rparr>, sc_events := (sc_events sc)\<lparr>ch_closed := True\<rparr>,
            sc_done := True\<rparr>, w))"

end
