(* ===== verification/Client_Reader.thy ===== *)
theory Client_Reader
  imports Client_Stream Http_Replay
begin

text \<open>
  The reader of the streaming client on the text that the server's event stream writes: every event arrives as the message
  that was sent, and the resume cursor follows.
\<close>

subsection \<open>Lines\<close>

lemma scan_line:
  assumes "newline \<notin> set l" "length l < maxScanTokenSize"
  shows "scan_lines (l @ newline # s) = (case scan_lines s of (ls, long) \<Rightarrow> (drop_cr l # ls, long))"
proof -
  have "takeWhile (\<lambda>c. c \<noteq> newline) (l @ newline # s) = l"
    using assms(1) by (induction l) auto
  then show ?thesis
    using assms(2) by (subst scan_lines.simps) (simp add: Let_def)
qed

lemma scan_empty [simp]: "scan_lines [] = ([], False)"
  by (subst scan_lines.simps) simp

text \<open>Text without control characters is one line.\<close>

lemma clean_line: "no_ctl l \<Longrightarrow> newline \<notin> set l \<and> drop_cr l = l"
proof -
  assume "no_ctl l"
  then have "32 \<le> byte_of c" if "c \<in> set l" for c
    using that by (simp add: no_ctl_def list_all_iff)
  from this [of newline] this [of "CHR 0x0D"] show ?thesis
    using last_in_set [of l] by (fastforce simp: newline_def drop_cr_def)
qed

lemma graphic_ctl: "list_all graphic s \<Longrightarrow> no_ctl s"
  by (auto simp: no_ctl_def list_all_iff graphic_def)

lemma field_line:
  assumes "field = ''id'' \<or> field = ''data''"
  shows "parseSSEField (field @ '': '' @ v) field = Some v" "field = ''data'' \<Longrightarrow> parseSSEField (field @ '': '' @ v) ''id'' = None"
proof -
  have "field @ '': '' @ v = (field @ '':'') @ '' '' @ v" by simp
  then show "parseSSEField (field @ '': '' @ v) field = Some v"
    using HasPrefix_append [of "field @ '':''" "'' '' @ v"] TrimPrefix_append [of "field @ '':''" "'' '' @ v"]
      TrimPrefix_append [of "'' ''" v] by (simp add: parseSSEField_def Let_def)
  show "field = ''data'' \<Longrightarrow> parseSSEField (field @ '': '' @ v) ''id'' = None"
    by (simp add: parseSSEField_def HasPrefix_def)
qed

lemma empty_line [simp]: "parseSSEField [] ''id'' = None" "parseSSEField [] ''data'' = None"
  by (simp_all add: parseSSEField_def HasPrefix_def)

lemma comment_line [simp]: "parseSSEField (CHR '':'' # s) ''id'' = None" "parseSSEField (CHR '':'' # s) ''data'' = None"
  by (simp_all add: parseSSEField_def HasPrefix_def)

subsection \<open>Messages\<close>

text \<open>An event whose message survives the way: its names and its payload can be written as JSON, its lines fit the reader's buffer.\<close>

definition sendable :: "codec \<Rightarrow> string \<Rightarrow> event \<Rightarrow> bool" where
  "sendable cd nodeID e \<longleftrightarrow>
     name_ok nodeID \<and> name_ok (ev_topic e) \<and> offset_ok (ev_offset e)
     \<and> json_ok 9999 (message_payload cd e) \<and> into_any cd (message_payload cd e) = Some (message_payload cd e)
     \<and> utf8_valid (cd_time cd (ev_timestamp e)) \<and> cd_parse_time cd (cd_time cd (ev_timestamp e)) = Some (ev_timestamp e)
     \<and> length (encodeSSEEventCursor nodeID (ev_topic e) (ev_offset e)) + 4 < maxScanTokenSize
     \<and> length (print_json (message_json cd (eventToSSEMessage cd nodeID e))) + 6 < maxScanTokenSize"

lemma cursor_graphic: "list_all graphic (encodeSSEEventCursor n t i)"
  by (simp add: encodeSSEEventCursor_def encodeSSECursor_def encoded_graphic)

lemma graphic_utf8: "list_all graphic s \<Longrightarrow> utf8_valid s"
  by (rule utf8_all_ascii) (auto simp: list_all_iff graphic_def)

lemma message_fields:
  "sm_EventID (eventToSSEMessage cd n e) = encodeSSEEventCursor n (ev_topic e) (ev_offset e)"
  "sm_Topic (eventToSSEMessage cd n e) = ev_topic e" "sm_Offset (eventToSSEMessage cd n e) = ev_offset e"
  by (simp_all add: eventToSSEMessage_def)

lemma message_ok: "sendable cd n e \<Longrightarrow> json_ok 10000 (message_json cd (eventToSSEMessage cd n e))"
  using graphic_utf8 [OF cursor_graphic]
  by (simp add: sendable_def message_json_def eventToSSEMessage_def name_ok_def show_int_ok utf8_ascii)

lemma message_read:
  assumes "sendable cd n e"
  shows "Option.bind (parse_json (print_json (message_json cd (eventToSSEMessage cd n e)))) (into_message cd) =
    Some (eventToSSEMessage cd n e)"
proof -
  have "parse_int64 (show_int (ev_offset e)) = Some (ev_offset e)"
    using assms by (intro parse_int64_show offset_int64) (simp add: sendable_def)
  then show ?thesis
    using assms parse_print [OF message_ok [OF assms]]
    by (simp add: into_message_def message_json_def eventToSSEMessage_def struct_field_def set_stream_message_def sendable_def)
qed

lemma message_lines:
  assumes "sendable cd n e" "scan_lines s = (ls, long)"
  shows "scan_lines (sse_text cd (eventToSSEMessage cd n e) @ s) =
    ((''id'' @ '': '' @ encodeSSEEventCursor n (ev_topic e) (ev_offset e))
      # (''data'' @ '': '' @ print_json (message_json cd (eventToSSEMessage cd n e))) # [] # ls, long)"
proof -
  let ?i = "''id: '' @ encodeSSEEventCursor n (ev_topic e) (ev_offset e)"
  let ?d = "''data: '' @ print_json (message_json cd (eventToSSEMessage cd n e))"
  have i: "no_ctl ?i" "length ?i < maxScanTokenSize"
    using graphic_ctl [OF cursor_graphic] assms(1) by (simp_all add: sendable_def no_ctl_def)
  have d: "no_ctl ?d" "length ?d < maxScanTokenSize"
    using print_ctl [OF message_ok [OF assms(1)]] assms(1) by (simp_all add: sendable_def no_ctl_def)
  have split: "sse_text cd (eventToSSEMessage cd n e) @ s = ?i @ newline # ?d @ newline # [] @ newline # s"
    by (simp add: sse_text_def message_fields)
  show ?thesis
    unfolding split using scan_line [of ?i] scan_line [of ?d] scan_line [of "[]" s] clean_line [OF i(1)] clean_line [OF d(1)] i(2) d(2) assms(2)
    by (simp add: drop_cr_def maxScanTokenSize_def)
qed

subsection \<open>The resume cursor\<close>

definition bump :: "event \<Rightarrow> (string, int) gomap \<Rightarrow> (string, int) gomap" where
  "bump e m =
     (if (case map_of m (ev_topic e) of None \<Rightarrow> True | Some current \<Rightarrow> ev_offset e > current)
      then AList.update (ev_topic e) (ev_offset e) m else m)"

lemma record_event:
  assumes "sendable cd n e" "resumeNodeID sc = n"
  shows "recordResumeEventID (encodeSSEEventCursor n (ev_topic e) (ev_offset e)) sc = sc\<lparr>resumeOffsets := bump e (resumeOffsets sc)\<rparr>"
proof -
  have "decodeSSEEventCursor (encodeSSEEventCursor n (ev_topic e) (ev_offset e)) =
      Inr \<lparr>ec_Version = 1, ec_NodeID = n, ec_Topic = ev_topic e, ec_Offset = ev_offset e\<rparr>"
    using assms(1) by (intro decode_event_cursor) (simp_all add: sendable_def)
  then show ?thesis
    using assms event_cursor_nonempty by (simp add: recordResumeEventID_def bump_def sendable_def name_ok_def Let_def split: option.splits)
qed

text \<open>The cursor holds for each topic the highest offset seen.\<close>

definition highest :: "int option \<Rightarrow> int list \<Rightarrow> int option" where
  "highest old os = (case old of None \<Rightarrow> if os = [] then None else Some (Max (set os)) | Some i \<Rightarrow> Some (Max (insert i (set os))))"

lemma highest_Cons: "highest (Some (max i o')) os = highest (Some i) (o' # os)" "highest (Some i) os = highest None (i # os)"
  by (cases "os = []"; simp add: highest_def insert_commute max.assoc)+

lemma fold_bump:
  "map_of (fold bump es m) t = highest (map_of m t) (map ev_offset (filter (\<lambda>e. ev_topic e = t) es))"
proof (induction es arbitrary: m)
  case Nil
  show ?case by (simp add: highest_def split: option.splits)
next
  case (Cons e es)
  have "map_of (bump e m) t = (if ev_topic e = t then Some (case map_of m t of None \<Rightarrow> ev_offset e | Some i \<Rightarrow> max i (ev_offset e)) else map_of m t)"
    by (auto simp: bump_def update_conv' split: option.splits)
  with Cons.IH [of "bump e m"] show ?case
    by (cases "map_of m t") (simp_all add: highest_Cons(1), simp add: highest_Cons(2))
qed

lemma bump_wf [simp]: "gm_wf m \<Longrightarrow> gm_wf (bump e m)"
  by (simp add: bump_def)

lemma fold_bump_wf: "gm_wf m \<Longrightarrow> gm_wf (fold bump es m)"
  by (induction es arbitrary: m) simp_all

subsection \<open>Reading a stream\<close>

text \<open>A program that does not cancel the context while it reads.\<close>

definition calm_lines :: "(nat \<Rightarrow> line_env) \<Rightarrow> bool" where
  "calm_lines env \<longleftrightarrow> (\<forall>k. \<not> le_done (env k) \<and> \<not> sl_done (le_select (env k)))"

lemma calm_shift [simp]: "calm_lines env \<Longrightarrow> calm_lines (\<lambda>k. env (Suc k))"
  by (simp add: calm_lines_def)

lemma calm_at: "calm_lines env \<Longrightarrow> \<not> le_done (env k) \<and> \<not> sl_done (le_select (env k))"
  by (simp add: calm_lines_def)

text \<open>All events the client has passed on, and all errors.\<close>

definition delivered :: "stream_client \<Rightarrow> stream_message list" where
  "delivered sc = sc_received sc @ ch_items (sc_events sc)"

definition reported :: "stream_client \<Rightarrow> stream_report list" where
  "reported sc = sc_seen sc @ ch_items (sc_errors sc)"

lemma send_event_room:
  assumes "room (sc_events sc)" "\<not> sl_done se" "send_event e se sc = (pick, sc')"
  shows "pick = Some CaseSend" "delivered sc' = delivered sc @ [e]" "reported sc' = reported sc"
    "resumeNodeID sc' = resumeNodeID sc" "resumeOffsets sc' = resumeOffsets sc" "ch_cap (sc_events sc') = ch_cap (sc_events sc)"
    "temporarySubscriptions sc' = temporarySubscriptions sc" "length (ch_items (sc_events sc')) \<le> Suc (length (ch_items (sc_events sc)))"
  using assms
  by (auto simp: send_event_def consume_def Let_def select_send_def room_def delivered_def reported_def split: if_splits)

lemma process_event:
  assumes "calm_lines env" "sendable cd n e" "resumeNodeID sc = n" "room (sc_events sc)"
    and "sg_Topics config \<noteq> [] \<Longrightarrow> matchesAnyStreamTopic (sg_Topics config) (ev_topic e)"
  obtains sc' env' where "calm_lines env'" "resumeNodeID sc' = n" "resumeOffsets sc' = bump e (resumeOffsets sc)"
    "delivered sc' = delivered sc @ [eventToSSEMessage cd n e]" "reported sc' = reported sc" "ch_cap (sc_events sc') = ch_cap (sc_events sc)"
    "temporarySubscriptions sc' = temporarySubscriptions sc" "length (ch_items (sc_events sc')) \<le> Suc (length (ch_items (sc_events sc)))"
    "process_lines cd config env ((''id'' @ '': '' @ encodeSSEEventCursor n (ev_topic e) (ev_offset e))
      # (''data'' @ '': '' @ print_json (message_json cd (eventToSSEMessage cd n e))) # [] # ls) cur sc = process_lines cd config env' ls [] sc'"
proof -
  let ?sc = "sc\<lparr>resumeOffsets := bump e (resumeOffsets sc)\<rparr>"
  obtain pick sc' where sent: "send_event (eventToSSEMessage cd n e) (le_select (env 1)) ?sc = (pick, sc')"
    by (cases "send_event (eventToSSEMessage cd n e) (le_select (env 1)) ?sc")
  have "room (sc_events ?sc)" using assms(4) by simp
  note s = send_event_room [OF this _ sent]
  have "process_lines cd config env ((''id'' @ '': '' @ encodeSSEEventCursor n (ev_topic e) (ev_offset e))
      # (''data'' @ '': '' @ print_json (message_json cd (eventToSSEMessage cd n e))) # [] # ls) cur sc =
      process_lines cd config (\<lambda>k. env (Suc (Suc (Suc k)))) ls [] sc'"
    using calm_at [OF assms(1), of 0] calm_at [OF assms(1), of 1] calm_at [OF assms(1), of 2] field_line [of "''id''"] field_line [of "''data''"]
      message_read [OF assms(2)] record_event [OF assms(2,3)] event_cursor_nonempty [of n "ev_topic e" "ev_offset e"] sent s(1) assms(5)
    by (auto simp add: message_fields Let_def numeral_2_eq_2)
  moreover have "calm_lines (\<lambda>k. env (Suc (Suc (Suc k))))"
    using assms(1) by (simp add: calm_lines_def)
  ultimately show ?thesis
    using that s calm_at [OF assms(1), of 1] assms(3) by (auto simp: delivered_def reported_def)
qed

lemma process_events:
  assumes "calm_lines env" "list_all (sendable cd n) es" "resumeNodeID sc = n"
    and "length (ch_items (sc_events sc)) + length es \<le> ch_cap (sc_events sc)"
    and "\<And>e. e \<in> set es \<Longrightarrow> sg_Topics config \<noteq> [] \<Longrightarrow> matchesAnyStreamTopic (sg_Topics config) (ev_topic e)"
  shows "\<exists>sc' ls. scan_lines (concat (map (\<lambda>e. sse_text cd (eventToSSEMessage cd n e)) es)) = (ls, False)
    \<and> process_lines cd config env ls cur sc = (False, sc')
    \<and> delivered sc' = delivered sc @ map (eventToSSEMessage cd n) es \<and> reported sc' = reported sc \<and> resumeNodeID sc' = n
    \<and> resumeOffsets sc' = fold bump es (resumeOffsets sc) \<and> temporarySubscriptions sc' = temporarySubscriptions sc"
  using assms
proof (induction es arbitrary: env sc cur)
  case (Cons e es)
  have e: "sendable cd n e" and es: "list_all (sendable cd n) es" using Cons.prems(2) by simp_all
  have room: "room (sc_events sc)" using Cons.prems(4) by (simp add: room_def)
  have topic: "sg_Topics config \<noteq> [] \<Longrightarrow> matchesAnyStreamTopic (sg_Topics config) (ev_topic e)" using Cons.prems(5) by simp
  let ?t = "concat (map (\<lambda>e. sse_text cd (eventToSSEMessage cd n e)) es)"
  obtain ls long where scan: "scan_lines ?t = (ls, long)" by (cases "scan_lines ?t")
  obtain sc1 env1 where s: "calm_lines env1" "resumeNodeID sc1 = n" "resumeOffsets sc1 = bump e (resumeOffsets sc)"
    "delivered sc1 = delivered sc @ [eventToSSEMessage cd n e]" "reported sc1 = reported sc" "ch_cap (sc_events sc1) = ch_cap (sc_events sc)"
    "temporarySubscriptions sc1 = temporarySubscriptions sc" "length (ch_items (sc_events sc1)) \<le> Suc (length (ch_items (sc_events sc)))"
    "process_lines cd config env ((''id'' @ '': '' @ encodeSSEEventCursor n (ev_topic e) (ev_offset e))
      # (''data'' @ '': '' @ print_json (message_json cd (eventToSSEMessage cd n e))) # [] # ls) cur sc = process_lines cd config env1 ls [] sc1"
    using process_event [OF Cons.prems(1) e Cons.prems(3) room topic, where ls = ls and cur = cur] by blast
  have "length (ch_items (sc_events sc1)) + length es \<le> ch_cap (sc_events sc1)"
    using s(6,8) Cons.prems(4) by simp
  from Cons.IH [OF s(1) es s(2) this, where cur = "[]"] Cons.prems(5) scan obtain sc' where
    "long = False" "process_lines cd config env1 ls [] sc1 = (False, sc')"
    "delivered sc' = delivered sc1 @ map (eventToSSEMessage cd n) es" "reported sc' = reported sc1" "resumeNodeID sc' = n"
    "resumeOffsets sc' = fold bump es (resumeOffsets sc1)" "temporarySubscriptions sc' = temporarySubscriptions sc1"
    by auto
  with s message_lines [OF e scan] show ?case by simp
qed simp

end
