(* ===== verification/Client_Server.thy ===== *)
theory Client_Server
  imports Client_Reader
begin

text \<open>
  The client library against the server: the server's handler as the client's transport, and what the two do together. Requests run
  one after another and are not cancelled.
\<close>

subsection \<open>The server as a transport\<close>

definition to_request :: "out_request \<Rightarrow> request" where
  "to_request q =
     \<lparr>rq_Method = or_Method q, rq_Path = or_Path q, rq_Header = or_Header q, rq_Query = or_Query q, rq_Body = or_Body q,
      rq_ctx = (\<lambda>k. None), rq_clientID = None, rq_isAdmin = None, rq_claims = None, rq_subscriptionID = None, rq_topic = None\<rparr>"

text \<open>
  The text of a response. A slice without elements may be nil, which is printed as null. \<open>other\<close> is the text of the bodies
  that no property looks at.
\<close>

definition slice_json :: "json list \<Rightarrow> json" where
  "slice_json vs = (if vs = [] then JNull else JArr vs)"

definition subscription_json :: "codec \<Rightarrow> subscription_response \<Rightarrow> json" where
  "subscription_json cd s =
     JObj [(''id'', JStr (sr_ID s)), (''topic'', JStr (sr_Topic s)), (''clientId'', JStr (sr_ClientID s)),
           (''createdAt'', JStr (cd_time cd (sr_CreatedAt s)))]"

definition raw_subscription_json :: "codec \<Rightarrow> client_subscription \<Rightarrow> json" where
  "raw_subscription_json cd s =
     JObj [(''ID'', JStr (cs_ID s)), (''Topic'', JStr (cs_Topic s)), (''ClientID'', JStr (cs_ClientID s)),
           (''CreatedAt'', JStr (cd_time cd (cs_CreatedAt s)))]"

fun body_json :: "codec \<Rightarrow> chunk \<Rightarrow> json option" where
  "body_json cd (ErrorBody e) =
     Some (JObj [(''error'', JStr (er_Error e)), (''message'', JStr (er_Message e)), (''code'', JNum (show_int (int (er_Code e))))])"
| "body_json cd (AuthBody r) =
     Some (JObj [(''token'', JStr (ar_Token r)), (''clientId'', JStr (ar_ClientID r)), (''expiresAt'', JStr (cd_time cd (ar_ExpiresAt r)))])"
| "body_json cd (PublishBody r) =
     Some (JObj [(''eventId'', JStr (pr_EventID r)), (''offset'', JNum (show_int (pr_Offset r))),
                 (''timestamp'', JStr (cd_time cd (pr_Timestamp r)))])"
| "body_json cd (ReadBody r) =
     Some (JObj [(''events'', slice_json (map (message_json cd) (rr_Events r))), (''topic'', JStr (rr_Topic r)),
                 (''startOffset'', JNum (show_int (rr_StartOffset r))), (''count'', JNum (show_int (int (rr_Count r))))])"
| "body_json cd (RawSubscriptions ss) = Some (slice_json (map (raw_subscription_json cd) ss))"
| "body_json cd (SubscriptionBody s) = Some (subscription_json cd s)"
| "body_json cd (SubscriptionsBody ss) = Some (JObj [(''subscriptions'', slice_json (map (subscription_json cd) ss))])"
| "body_json cd (AdminSubscriptionsBody ss) = Some (JObj [(''subscriptions'', slice_json (map (subscription_json cd) ss))])"
| "body_json cd _ = None"

fun chunk_text :: "(chunk \<Rightarrow> string) \<Rightarrow> codec \<Rightarrow> chunk \<Rightarrow> string" where
  "chunk_text other cd (TextBody s) = s"
| "chunk_text other cd b = (case body_json cd b of Some v \<Rightarrow> print_json v @ [newline] | None \<Rightarrow> other b)"

definition response_text :: "(chunk \<Rightarrow> string) \<Rightarrow> codec \<Rightarrow> writer \<Rightarrow> string" where
  "response_text other cd w = concat (map (chunk_text other cd) (wr_Chunks w))"

definition response_status :: "writer \<Rightarrow> nat" where
  "response_status w = (case wr_Status w of None \<Rightarrow> 200 | Some s \<Rightarrow> s)"

definition serve :: "(chunk \<Rightarrow> string) \<Rightarrow> 'l server_env \<Rightarrow> 'l api transport" where
  "serve other env q a =
     (case ServeHTTP env (to_request q) (new_writer None) a of
        None \<Rightarrow> (DoFailed, a)
      | Some (_, w, a') \<Rightarrow> (Answer (response_status w) (response_text other (se_codec env) w), a'))"

definition serve_stream :: "(chunk \<Rightarrow> string) \<Rightarrow> 'l server_env \<Rightarrow> 'l api opener" where
  "serve_stream other env q a =
     (case ServeHTTP env (to_request q) (new_writer None) a of
        None \<Rightarrow> (OpenFailed, a)
      | Some (_, w, a') \<Rightarrow> (Opened (response_status w) (response_text other (se_codec env) w) False, a'))"

subsection \<open>Resuming\<close>

lemma established_lines: "scan_lines s = (ls, long) \<Longrightarrow>
  scan_lines (chunk_text other cd established @ s) = ('': SSE connection established for all topics'' # [] # ls, long)"
proof -
  assume s: "scan_lines s = (ls, long)"
  let ?l = "'': SSE connection established for all topics''"
  have "no_ctl ?l" "length ?l < maxScanTokenSize" by (simp_all add: no_ctl_def maxScanTokenSize_def)
  with s show ?thesis
    using scan_line [of ?l "newline # s"] scan_line [of "[]" s] clean_line [of ?l]
    by (simp add: established_def drop_cr_def maxScanTokenSize_def)
qed

lemma stream_read:
  assumes "calm_lines env" "list_all (sendable cd n) es" "resumeNodeID sc = n"
    and "length (ch_items (sc_events sc)) + length es \<le> ch_cap (sc_events sc)"
    and "\<And>e. e \<in> set es \<Longrightarrow> sg_Topics config \<noteq> [] \<Longrightarrow> matchesAnyStreamTopic (sg_Topics config) (ev_topic e)"
  shows "\<exists>sc'. processSSEStream cd env (concat (map (chunk_text other cd) (established # map (sse_chunk cd n) es)), False) config sc = (None, sc')
    \<and> delivered sc' = delivered sc @ map (eventToSSEMessage cd n) es \<and> reported sc' = reported sc \<and> resumeNodeID sc' = n
    \<and> resumeOffsets sc' = fold bump es (resumeOffsets sc) \<and> temporarySubscriptions sc' = temporarySubscriptions sc"
proof -
  let ?t = "concat (map (\<lambda>e. sse_text cd (eventToSSEMessage cd n e)) es)"
  have body: "concat (map (chunk_text other cd) (established # map (sse_chunk cd n) es)) = chunk_text other cd established @ ?t"
    by (simp add: sse_chunk_def comp_def)
  have "calm_lines (\<lambda>k. env (Suc (Suc k)))" using assms(1) by (simp add: calm_lines_def)
  from process_events [OF this assms(2-5), where cur = "[]"]
  obtain sc' ls where p: "scan_lines ?t = (ls, False)" "process_lines cd config (\<lambda>k. env (Suc (Suc k))) ls [] sc = (False, sc')"
    "delivered sc' = delivered sc @ map (eventToSSEMessage cd n) es" "reported sc' = reported sc" "resumeNodeID sc' = n"
    "resumeOffsets sc' = fold bump es (resumeOffsets sc)" "temporarySubscriptions sc' = temporarySubscriptions sc"
    by blast
  have "process_lines cd config env ('': SSE connection established for all topics'' # [] # ls) [] sc = (False, sc')"
    using p(2) calm_at [OF assms(1), of 0] calm_at [OF assms(1), of 1] by (simp add: Let_def)
  then show ?thesis
    using p established_lines [OF p(1)] unfolding body processSSEStream_def fst_conv by simp
qed

text \<open>After a replay the cursor is at the end of every topic it covers.\<close>

lemma replayed_other:
  assumes "\<And>x e. x \<in> set m \<Longrightarrow> e \<in> set (f x) \<Longrightarrow> ev_topic e = fst x" "map_of m t = None"
  shows "filter (\<lambda>e. ev_topic e = t) (concat (map f m)) = []"
proof -
  have "ev_topic e \<noteq> t" if e: "e \<in> set (concat (map f m))" for e
  proof -
    obtain x where x: "x \<in> set m" "e \<in> set (f x)" using e by auto
    with assms(1) have "ev_topic e = fst x" by blast
    with x(1) assms(2) show ?thesis by (auto simp: map_of_eq_None_iff)
  qed
  then show ?thesis unfolding filter_empty_conv by blast
qed

lemma replayed_topic:
  assumes "gm_wf m" "\<And>x e. x \<in> set m \<Longrightarrow> e \<in> set (f x) \<Longrightarrow> ev_topic e = fst x" "map_of m t = Some i"
  shows "filter (\<lambda>e. ev_topic e = t) (concat (map f m)) = f (t, i)"
  using assms
proof (induction m)
  case (Cons x m)
  have x: "\<And>e. e \<in> set (f x) \<Longrightarrow> ev_topic e = fst x" using Cons.prems(2) by simp
  have wf: "gm_wf m" "fst x \<notin> fst ` set m" using Cons.prems(1) by (simp_all add: gm_wf_def)
  show ?case
  proof (cases "fst x = t")
    case True
    with Cons.prems(3) have "x = (t, i)" by (cases x) auto
    moreover have "filter (\<lambda>e. ev_topic e = t) (f x) = f x" using x True by simp
    moreover have "filter (\<lambda>e. ev_topic e = t) (concat (map f m)) = []"
      using Cons.prems(2) wf(2) True by (intro replayed_other) (auto simp: map_of_eq_None_iff)
    ultimately show ?thesis by simp
  next
    case False
    then have "filter (\<lambda>e. ev_topic e = t) (f x) = []" using x by (auto simp: filter_empty_conv)
    with False Cons wf show ?thesis by (cases x) simp
  qed
qed simp

lemma nothing_left:
  assumes "mem_inv log" "t \<noteq> []" "0 \<le> i"
    and "highest (Some i) (map ev_offset (to_replay mem_topic ts log (t, i))) = Some i'"
  shows "to_replay mem_topic ts log (t, i') = []"
proof (cases "topicCoveredBySubscriptions t ts")
  case True
  let ?E = "mem_topic log t"
  let ?R = "drop (nat (i + 1)) ?E"
  have i': "i' = Max (insert i (ev_offset ` set ?R))"
    using assms(4) True by (simp add: highest_def to_replay_def)
  then have ge: "i \<le> i'" by simp
  show ?thesis
  proof (cases "?R = []")
    case False
    then have "ev_offset (last ?R) = int (nat (i + 1)) + int (length ?R) - 1"
      using mem.last_offset [OF assms(1,2), of ?R "length ?R" "nat (i + 1)"] by simp
    moreover have "ev_offset (last ?R) \<le> i'"
      unfolding i' using last_in_set [OF False] by (intro Max_ge) blast+
    ultimately have "int (length ?E) \<le> i' + 1"
      using False by (simp add: of_nat_diff)
    then show ?thesis by (simp add: to_replay_def)
  qed (use ge assms(3) in \<open>simp add: to_replay_def\<close>)
qed (simp add: to_replay_def)

lemma cursor_after_replay:
  fixes log ts
  defines "missed \<equiv> to_replay mem_topic ts log"
  assumes "mem_inv log" "gm_wf m" "mset m' = mset m" "list_all (\<lambda>(t, i). t \<noteq> [] \<and> 0 \<le> i) m"
    and "\<And>x e. e \<in> set (missed x) \<Longrightarrow> ev_topic e = fst x"
  shows "dom (map_of (fold bump (concat (map missed m')) m)) = dom (map_of m)"
    and "map_of (fold bump (concat (map missed m')) m) t = Some i \<Longrightarrow> missed (t, i) = []"
proof -
  have wf: "gm_wf m'" "map_of m' = map_of m"
    using assms(3) mset_map_of [OF assms(3,4)] mset_eq_setD [OF assms(4)] mset_eq_imp_distinct_iff [OF assms(4)]
    by (simp_all add: gm_wf_def distinct_map)
  have at: "map_of (fold bump (concat (map missed m')) m) t = (case map_of m t of None \<Rightarrow> None
      | Some i \<Rightarrow> highest (Some i) (map ev_offset (missed (t, i))))" for t
    using replayed_topic [OF wf(1), of missed t] replayed_other [of m' missed t] assms(6) wf(2)
    by (auto simp: fold_bump highest_def split: option.splits)
  show "dom (map_of (fold bump (concat (map missed m')) m)) = dom (map_of m)"
    by (auto simp: at dom_def highest_def split: option.splits)
  show "missed (t, i) = []" if last: "map_of (fold bump (concat (map missed m')) m) t = Some i"
  proof -
    obtain j where j: "map_of m t = Some j" "highest (Some j) (map ev_offset (missed (t, j))) = Some i"
      using last by (auto simp: at split: option.splits)
    then have "t \<noteq> []" "0 \<le> j" using assms(5) by (auto simp: list_all_iff dest: map_of_SomeD)
    from nothing_left [OF assms(2) this j(2) [unfolded missed_def]] show ?thesis by (simp add: missed_def)
  qed
qed

subsection \<open>Reconnecting\<close>

lemma stream_request_fields:
  assumes "resumeOffsets sc = m" "gm_wf m" "m \<noteq> []" "resumeNodeID sc = n" "n \<noteq> []"
  shows "hdr (to_request (stream_request_of c sc)) ''Accept'' = ''text/event-stream''" "query (to_request (stream_request_of c sc)) k = []"
    "rq_Path (to_request (stream_request_of c sc)) = ''/api/v1/events/stream''" "never (rq_ctx (to_request (stream_request_of c sc)))"
    "hdr (to_request (stream_request_of c sc)) ''Last-Event-ID'' = encodeSSEMultiTopicCursor n m"
  using assms by (simp_all add: to_request_def stream_request_of_def Let_def hdr_def query_def gm_get_def never_def resumeCursorHeader_def gm_copy)

text \<open>
  A client that has seen the events up to its cursor connects again to a server that keeps the conditions below: its node and log are in
  order and the token, if one is needed, is good.
\<close>

definition reconnecting :: "mem_log server_env \<Rightarrow> http_client \<Rightarrow> stream_client \<Rightarrow> mem_log api \<Rightarrow> claims \<Rightarrow> bool" where
  "reconnecting env cl sc a c \<longleftrightarrow>
     rt_inv (routingTable (ap_node a)) \<and> \<not> rt_closed (routingTable (ap_node a)) \<and> meta_inv (ap_node a)
     \<and> se_ops env = mem_ops \<and> mem_inv (eventLog (ap_node a)) \<and> \<not> ml_closed (eventLog (ap_node a))
     \<and> (\<forall>t. int (length (mem_topic (eventLog (ap_node a)) t)) + 10000 \<le> max_int64
          \<and> list_all (\<lambda>e. ev_topic e = t \<and> sendable (se_codec env) (GetNodeID (ap_node a)) e) (mem_topic (eventLog (ap_node a)) t))
     \<and> (if ap_noAuth a then c = dev_claims
        else ValidateToken (se_jwt env) (ap_secretKey a) (se_now env) (hc_token cl) = Inr c)
     \<and> se_choices env = [] \<and> 11 \<le> se_fuel env
     \<and> resumeNodeID sc = GetNodeID (ap_node a) \<and> name_ok (GetNodeID (ap_node a)) \<and> gm_wf (resumeOffsets sc) \<and> resumeOffsets sc \<noteq> []
     \<and> list_all (\<lambda>(t, i). name_ok t \<and> 0 \<le> i \<and> i + 1001 \<le> max_int64) (resumeOffsets sc)"

lemma reconnecting_resumes:
  assumes "reconnecting env cl sc a c"
  shows "resuming env (to_request (stream_request_of cl sc)) a c (resumeOffsets sc)"
proof -
  note r = assms [unfolded reconnecting_def]
  have "GetNodeID (ap_node a) \<noteq> []" using r by (simp add: name_ok_def)
  moreover have "extractToken (to_request (stream_request_of cl sc)) = hc_token cl"
    using HasPrefix_append [of "''Bearer ''" "hc_token cl"] TrimPrefix_append [of "''Bearer ''" "hc_token cl"]
    by (simp add: extractToken_def to_request_def stream_request_of_def Let_def hdr_def gm_get_def)
  moreover have "rq_Method (to_request (stream_request_of cl sc)) = ''GET''"
    by (simp add: to_request_def stream_request_of_def Let_def)
  ultimately show ?thesis
    using r stream_request_fields [of sc "resumeOffsets sc" "GetNodeID (ap_node a)" cl]
    by (simp add: resuming_def allowed_def)
qed

text \<open>
  C12. A streaming client that reconnects on a quiet server gets what it missed. The conditions: the server's node uses the in-memory
  log, and nothing is published and nothing else happens on it while the stream is served; the client's token is valid; its topics
  admit whatever its subscriptions cover; every stored event survives the wire (its JSON and its time are read back as they were written,
  and its lines are under 64 KB, the limit of the client's scanner); the program is not cancelled; and the program's channel has room for all that is missed (its default is 100 slots; without room the
  client drops events whose cursor it has already passed). Then, within the server's limits, the client passes on, after what it
  had passed on before, exactly the messages of the stored events after its cursor on the topics that its subscriptions cover, topic by
  topic and in order, each once, and reports no error; its cursor then names the same topics, and nothing stored is after it. Beyond
  the limits the connection fails with status 413 and the client is as it was: its next attempt sends the same cursor again. With
  publishes during the catch-up the server may send an event twice, which its design document allows; that case is not covered.
\<close>

theorem client_resumes:
  assumes "reconnecting env cl sc a c" "calm_lines lines"
    and "\<And>t. topicCoveredBySubscriptions t (map cs_Topic (GetClientSubscriptions (cl_ClientID c) (ap_node a))) \<Longrightarrow>
      sg_Topics config = [] \<or> matchesAnyStreamTopic (sg_Topics config) t"
    and "length (ch_items (sc_events sc)) + length (concat (map (to_replay mem_topic (map cs_Topic (GetClientSubscriptions (cl_ClientID c) (ap_node a)))
        (eventLog (ap_node a))) (resumeOffsets sc))) \<le> ch_cap (sc_events sc)"
  shows "let missed = to_replay mem_topic (map cs_Topic (GetClientSubscriptions (cl_ClientID c) (ap_node a))) (eventLog (ap_node a));
             m = resumeOffsets sc in
    \<exists>err sc' a'. connectAndStream (se_codec env) (serve_stream other env) lines config cl sc a = (err, sc', a')
      \<and> eventLog (ap_node a') = eventLog (ap_node a)
      \<and> (if length m \<le> 64 \<and> length (concat (map missed m)) \<le> 10000
         then err = None \<and> reported sc' = reported sc
           \<and> (\<exists>m'. mset m' = mset m
                \<and> delivered sc' = delivered sc @ map (eventToSSEMessage (se_codec env) (GetNodeID (ap_node a))) (concat (map missed m')))
           \<and> dom (map_of (resumeOffsets sc')) = dom (map_of m)
           \<and> (\<forall>t i. map_of (resumeOffsets sc') t = Some i \<longrightarrow> missed (t, i) = [])
         else (\<exists>body. err = Some (BadStatus 413 body)) \<and> sc' = sc)"
proof -
  note r = assms(1) [unfolded reconnecting_def]
  define m where "m = resumeOffsets sc"
  define missed where "missed = to_replay mem_topic (map cs_Topic (GetClientSubscriptions (cl_ClientID c) (ap_node a))) (eventLog (ap_node a))"
  let ?cd = "se_codec env" and ?n = "GetNodeID (ap_node a)"
  obtain w a' m' where s: "ServeHTTP env (to_request (stream_request_of cl sc)) (new_writer None) a = Some (False, w, a')"
    "eventLog (ap_node a') = eventLog (ap_node a)" "mset m' = mset m"
    and ans: "if length m \<le> 64 \<and> length (concat (map missed m)) \<le> 10000
       then wr_Status w = Some 200 \<and> wr_Chunks w = established # map (sse_chunk ?cd ?n) (concat (map missed m')) else wr_Status w = Some 413"
    using resume_answer [OF reconnecting_resumes [OF assms(1)]] unfolding m_def [symmetric] missed_def [symmetric] Let_def
    by (auto split: if_splits)
  show ?thesis
  proof (cases "length m \<le> 64 \<and> length (concat (map missed m)) \<le> 10000")
    case False
    with ans s(1) have "connectAndStream ?cd (serve_stream other env) lines config cl sc a = (Some (BadStatus 413 (response_text other ?cd w)), sc, a')"
      by (auto simp: connectAndStream_def serve_stream_def response_status_def split: if_splits)
    with s(2) show ?thesis
      unfolding m_def [symmetric] missed_def [symmetric] Let_def if_not_P [OF False] by blast
  next
    case True
    let ?es = "concat (map missed m')"
    have topics: "ev_topic e = fst x" "sendable ?cd ?n e" "sg_Topics config = [] \<or> matchesAnyStreamTopic (sg_Topics config) (ev_topic e)"
      if "e \<in> set (missed x)" for e x
      using that r assms(3) [of "fst x"] by (auto simp: missed_def to_replay_def list_all_iff split: prod.splits if_splits dest!: in_set_dropD)
    have ev: "list_all (sendable ?cd ?n) ?es" "\<And>e. e \<in> set ?es \<Longrightarrow> sg_Topics config \<noteq> [] \<Longrightarrow> matchesAnyStreamTopic (sg_Topics config) (ev_topic e)"
      using topics by (auto simp: list_all_iff)
    have "length (ch_items (sc_events sc)) + length ?es \<le> ch_cap (sc_events sc)"
      using length_concat_mset [OF s(3), of missed] assms(4) unfolding m_def [symmetric] missed_def [symmetric] by linarith
    then obtain sc' where sc': "processSSEStream ?cd lines (response_text other ?cd w, False) config sc = (None, sc')"
      "delivered sc' = delivered sc @ map (eventToSSEMessage ?cd ?n) ?es" "reported sc' = reported sc" "resumeOffsets sc' = fold bump ?es m"
      using stream_read [OF assms(2) ev(1), of sc config other] ev(2) r ans True by (auto simp: response_text_def m_def)
    have names: "list_all (\<lambda>(t, i). t \<noteq> [] \<and> 0 \<le> i) m" "gm_wf m" "mem_inv (eventLog (ap_node a))"
      using r by (auto simp: m_def list_all_iff name_ok_def)
    have after: "dom (map_of (fold bump ?es m)) = dom (map_of m)" "\<And>t i. map_of (fold bump ?es m) t = Some i \<Longrightarrow> missed (t, i) = []"
      using cursor_after_replay [OF names(3,2) s(3) names(1)] topics(1) unfolding missed_def by blast+
    have "connectAndStream ?cd (serve_stream other env) lines config cl sc a = (None, sc', a')"
      using s(1) sc'(1) ans True by (simp add: connectAndStream_def serve_stream_def response_status_def)
    then show ?thesis
      using s(2,3) sc'(2-4) after unfolding m_def [symmetric] missed_def [symmetric] Let_def if_P [OF True]
      by (intro exI [of _ None] exI [of _ sc'] exI [of _ a'] conjI exI [of _ m'] allI impI) simp_all
  qed
qed

text \<open>Bounds on the length of a printed message, for the witness.\<close>

lemma length_b64: "length (b64_encode ns) \<le> 2 * length ns"
  by (induction ns rule: b64_encode.induct) auto

lemma length_escape: "length (escape_ascii c) \<le> 6"
  by (simp add: escape_ascii_def u_escape_def)

lemma length_json_quote: "length (json_quote s) \<le> 6 * length s"
proof (induction s rule: json_quote.induct)
  case (1 s)
  show ?case
  proof (cases "s = []")
    case False
    then obtain c t where s: "s = c # t" by (cases s) auto
    have n: "rune_len s \<le> length s" by (rule rune_len_le)
    show ?thesis
    proof (cases "byte_of c < 128")
      case True
      with 1(1) [OF False] s length_escape [of c] show ?thesis by (simp add: json_quote.simps [of "c # t"])
    next
      case high: False
      have tail: "length (json_quote (tl s)) \<le> 6 * length (tl s)" if "rune_len s = 0"
        using 1(2) [OF False] high s that by simp
      have rest: "length (json_quote (drop (rune_len s) s)) \<le> 6 * (length s - rune_len s)" if "rune_len s \<noteq> 0"
        using 1(3-5) [OF False] high s that by (cases "take 3 s = line_sep 0"; cases "take 3 s = line_sep 1") auto
      show ?thesis
        using tail rest high False n s by (subst json_quote.simps) (auto simp: u_escape_def)
    qed
  qed (simp add: json_quote.simps)
qed

lemma length_print_str: "length (print_str s) \<le> 6 * length s + 2"
  using length_json_quote [of s] by (simp add: print_str_def)

lemma length_cursor: "length (encodeSSEEventCursor n t i) \<le> 12 * length n + 12 * length t + 2 * length (show_int i) + 280"
proof -
  have one: "length (show_int 1) = 1" by (simp add: show_int_def nat_digits.simps)
  have "length (print_json (event_cursor_json \<lparr>ec_Version = 1, ec_NodeID = n, ec_Topic = t, ec_Offset = i\<rparr>)) \<le> 6 * length n + 6 * length t + length (show_int i) + 140"
    using length_print_str [of n] length_print_str [of t] length_print_str [of "''v''"] length_print_str [of "''nodeId''"]
      length_print_str [of "''topic''"] length_print_str [of "''offset''"] one
    by (simp add: event_cursor_json_def)
  then show ?thesis
    using length_b64 [of "map byte_of (print_json (event_cursor_json \<lparr>ec_Version = 1, ec_NodeID = n, ec_Topic = t, ec_Offset = i\<rparr>))"]
    by (simp add: encodeSSEEventCursor_def encodeSSECursor_def EncodeToString_def sseCursorVersion_def)
qed

lemma length_message:
  "length (print_json (message_json cd m)) \<le> 6 * length (sm_EventID m) + 6 * length (sm_Topic m) + length (print_json (sm_Payload m))
     + 6 * length (cd_time cd (sm_Timestamp m)) + length (show_int (sm_Offset m)) + 300"
  using length_print_str [of "sm_EventID m"] length_print_str [of "sm_Topic m"] length_print_str [of "cd_time cd (sm_Timestamp m)"]
    length_print_str [of "''eventId''"] length_print_str [of "''topic''"] length_print_str [of "''payload''"]
    length_print_str [of "''timestamp''"] length_print_str [of "''offset''"]
  by (simp add: message_json_def)

definition demo_stream :: stream_client where
  "demo_stream = \<lparr>sc_events = make_chan 100, sc_received = [], sc_errors = make_chan 10, sc_seen = [], sc_done = False,
     temporarySubscriptions = [], resumeNodeID = ''n1'', resumeOffsets = [(''orders'', 0)]\<rparr>"

definition demo_http_client :: http_client where
  "demo_http_client = \<lparr>hc_config = \<lparr>cc_ServerURL = ''http://h'', cc_ClientID = ''dev-client'', cc_SecretKey = [], cc_Timeout = 1, cc_MaxRetries = 1\<rparr>,
     hc_token = ''t''\<rparr>"

definition demo_lines :: "nat \<Rightarrow> line_env" where
  "demo_lines k = \<lparr>le_done = False, le_select = \<lparr>sl_events = k, sl_errors = 0, sl_done = False, sl_pick = 0\<rparr>\<rparr>"

definition demo_stream_config :: stream_config where
  "demo_stream_config = \<lparr>sg_Topics = [], sg_BufferSize = 100, sg_ReconnectDelay = 1, sg_MaxReconnectAttempts = 0\<rparr>"

lemma demo_node_id: "GetNodeID (ap_node demo_resume) = ''n1''"
  by (simp add: GetNodeID_def demo_resume_fields demo_mesh_config_def NewConfig_def)

lemma demo_digits: "show_int 0 = ''0''" "show_int 1 = ''1''" "show_int 5 = ''5''" "show_int 6 = ''6''"
  by code_simp+

lemma demo_sendable: "list_all (\<lambda>e. ev_topic e = ''orders'' \<and> sendable demo_codec ''n1'' e) demo_orders"
proof -
  have parse: "parse_int64 ''5'' = Some 5" "parse_int64 ''6'' = Some 6"
    by code_simp+
  have e: "ev_topic e = ''orders'' \<and> sendable demo_codec ''n1'' e"
    if e: "ev_topic e = ''orders''" "ev_payload e = Some []" "ev_offset e = 0 \<or> ev_offset e = 1" "ev_timestamp e = 5 \<or> ev_timestamp e = 6" for e
  proof -
    have p: "message_payload demo_codec e = JStr []"
      using e(2) by (simp add: message_payload_def parse_json_def decode_json_def skip_ws_def bytes_str_def)
    have l: "length (show_int (ev_offset e)) = 1" "length (show_int (ev_timestamp e)) = 1"
      using e(3,4) demo_digits by auto
    have c: "length (encodeSSEEventCursor ''n1'' ''orders'' (ev_offset e)) \<le> 400"
      using length_cursor [of "''n1''" "''orders''" "ev_offset e"] l by simp
    show ?thesis
      using e p l c parse demo_digits length_message [of demo_codec "eventToSSEMessage demo_codec ''n1'' e"]
      by (auto simp: sendable_def name_ok_def offset_ok_def utf8_ascii demo_codec_def max_int64_def maxScanTokenSize_def message_fields
          eventToSSEMessage_def print_str_def json_quote.simps)
  qed
  show ?thesis
    by (simp add: demo_orders_def WithOffset_def NewEvent_def e)
qed

theorem client_resumes_witness:
  "\<exists>sc' a'. connectAndStream demo_codec (serve_stream (\<lambda>b. []) (demo_env 11 [])) demo_lines demo_stream_config demo_http_client demo_stream demo_resume
      = (None, sc', a')
    \<and> delivered sc' = [eventToSSEMessage demo_codec ''n1'' (WithOffset (NewEvent 6 ''orders'' (Some [])) 1)]"
proof -
  have rec: "reconnecting (demo_env 11 []) demo_http_client demo_stream demo_resume dev_claims"
    using demo_sendable
    by (simp add: reconnecting_def demo_resume_fields demo_node_id demo_stream_def NewInMemoryRoutingTable_def rt_inv_def gm_wf_def
        max_int64_def name_ok_def utf8_ascii demo_orders_def) (simp add: demo_resume_def)
  have miss: "to_replay mem_topic [''orders''] (eventLog (ap_node demo_resume)) (''orders'', 0) =
      [WithOffset (NewEvent 6 ''orders'' (Some [])) 1]"
    by (simp add: matchesTopicPattern_def to_replay_def demo_resume_fields demo_orders_def)
  have lines: "calm_lines demo_lines" by (simp add: calm_lines_def demo_lines_def)
  have fields: "resumeOffsets demo_stream = [(''orders'', 0)]" "ch_items (sc_events demo_stream) = []" "ch_cap (sc_events demo_stream) = 100"
    "delivered demo_stream = []" "sg_Topics demo_stream_config = []" "cl_ClientID dev_claims = ''dev-client''"
    by (simp_all add: demo_stream_def delivered_def demo_stream_config_def dev_claims_def)
  show ?thesis
    using client_resumes [OF rec lines, of demo_stream_config "\<lambda>b. []"] miss
    by (simp add: fields demo_resume_fields(3) demo_node_id Let_def) metis
qed

end
