(* ===== verification/Client_Events.thy ===== *)
theory Client_Events
  imports Client_Server
begin

text \<open>Publishing and reading through the client library, against the server.\<close>

subsection \<open>Requests and answers\<close>

text \<open>The server admits the client: its token is good, or authentication is switched off.\<close>

definition admitted :: "'l server_env \<Rightarrow> http_client \<Rightarrow> 'l api \<Rightarrow> claims \<Rightarrow> bool" where
  "admitted env cl a c \<longleftrightarrow>
     (if ap_noAuth a then c = dev_claims else ValidateToken (se_jwt env) (ap_secretKey a) (se_now env) (hc_token cl) = Inr c)"

lemma admitted_allowed:
  assumes "admitted env cl a c" "map_of (or_Header q) ''Authorization'' = Some (''Bearer '' @ hc_token cl)" "or_Method q \<noteq> ''OPTIONS''"
  shows "allowed env (to_request q) a c"
proof -
  have "extractToken (to_request q) = hc_token cl"
    using assms(2) HasPrefix_append [of "''Bearer ''" "hc_token cl"] TrimPrefix_append [of "''Bearer ''" "hc_token cl"]
    by (simp add: extractToken_def to_request_def hdr_def gm_get_def)
  with assms(1,3) show ?thesis
    by (simp add: admitted_def allowed_def to_request_def)
qed

lemma parse_line: "json_ok 10000 v \<Longrightarrow> parse_json (print_json v @ [newline]) = Some v"
proof -
  assume v: "json_ok 10000 v"
  have "num_end [newline]" by (simp add: num_end_def newline_def is_digit_def between_def)
  then have "decode_json (print_json v @ [newline]) = Some (v, [newline])"
    using parse_print_value [OF v, of "2 * length (print_json v @ [newline]) + 2" "[newline]"] json_size_length [OF v]
    by (simp add: decode_json_def)
  then show ?thesis
    by (simp add: parse_json_def skip_ws_def newline_def json_space_def)
qed

lemma topic_unescaped: "validateTopic t = None \<Longrightarrow> PathEscape t = t"
proof -
  assume "validateTopic t = None"
  then have "list_all path_safe t"
    by (auto simp: validateTopic_def list_all_iff topic_char_def path_safe_def split: if_splits)
  then show ?thesis
    by (induction t) (simp_all add: PathEscape_def)
qed

lemma serve_value:
  "ServeHTTP env (to_request q) (new_writer None) a = Some (x, w, a') \<Longrightarrow>
   serve other env q a = (Answer (response_status w) (response_text other (se_codec env) w), a')"
  by (simp add: serve_def)

lemma publish_answer_read:
  assumes "in_int64 k" "utf8_valid t" "utf8_valid (cd_time cd now)" "cd_parse_time cd (cd_time cd now) = Some now"
  shows "unmarshal [''eventId'', ''offset'', ''timestamp''] (set_publish_response cd) \<lparr>pr_EventID = [], pr_Offset = 0, pr_Timestamp = zero_time\<rparr>
    (chunk_text other cd (PublishBody \<lparr>pr_EventID = t, pr_Offset = k, pr_Timestamp = now\<rparr>)) =
    Some \<lparr>pr_EventID = t, pr_Offset = k, pr_Timestamp = now\<rparr>"
proof -
  let ?v = "JObj [(''eventId'', JStr t), (''offset'', JNum (show_int k)), (''timestamp'', JStr (cd_time cd now))]"
  have "json_ok 10000 ?v" using assms by (simp add: utf8_ascii show_int_ok)
  from parse_line [OF this] show ?thesis
    using assms parse_int64_show [OF assms(1)] by (simp add: unmarshal_def struct_field_def set_publish_response_def)
qed

lemma read_answer_read:
  assumes "in_int64 k" "utf8_valid t" "utf8_valid i" "utf8_valid (cd_time cd now)" "cd_parse_time cd (cd_time cd now) = Some now"
    and "json_ok 9997 p" "into_any cd p = Some p"
  shows "unmarshal [''events'', ''topic'', ''startOffset'', ''count''] (set_read_response cd)
      \<lparr>cr_Events = [], cr_Topic = [], cr_StartOffset = 0, cr_Count = 0\<rparr>
    (chunk_text other cd (ReadBody \<lparr>rr_Events = [\<lparr>sm_EventID = i, sm_Topic = t, sm_Payload = p, sm_Timestamp = now, sm_Offset = k\<rparr>],
        rr_Topic = t, rr_StartOffset = k, rr_Count = 1\<rparr>)) =
    Some \<lparr>cr_Events = [\<lparr>sm_EventID = i, sm_Topic = t, sm_Payload = p, sm_Timestamp = now, sm_Offset = k\<rparr>], cr_Topic = t,
      cr_StartOffset = k, cr_Count = 1\<rparr>"
proof -
  let ?m = "\<lparr>sm_EventID = i, sm_Topic = t, sm_Payload = p, sm_Timestamp = now, sm_Offset = k\<rparr>"
  let ?v = "JObj [(''events'', JArr [message_json cd ?m]), (''topic'', JStr t), (''startOffset'', JNum (show_int k)), (''count'', JNum (show_int 1))]"
  have "json_ok 10000 ?v" using assms by (simp add: utf8_ascii show_int_ok message_json_def)
  moreover have "into_message cd (message_json cd ?m) = Some ?m"
    using assms(5,7) parse_int64_show [OF assms(1)] by (simp add: into_message_def message_json_def struct_field_def set_stream_message_def)
  moreover have "parse_int64 (show_int 1) = Some 1"
    by (rule parse_int64_show) (simp add: in_int64_def max_int64_def)
  ultimately show ?thesis
    using parse_line [of ?v] parse_int64_show [OF assms(1)]
    by (simp add: unmarshal_def struct_field_def set_read_response_def slice_json_def)
qed

subsection \<open>Publishing, then reading\<close>

lemma client_publish_request:
  assumes "hc_token cl \<noteq> []" "admitted env cl a c" "canonical (se_codec env) p" "validateTopic t = None" "t \<noteq> ''..''"
    and "ClientPublishEvent cd tr t p cl w = res"
  obtains q where "publish_request_ok env (to_request q) a c t p" "rq_ctx (to_request q) 0 = None"
    "res = (case tr q w of
        (DoFailed, w') \<Rightarrow> (Inl RequestFailed, w')
      | (ReadFailed, w') \<Rightarrow> (Inl ReadBodyFailed, w')
      | (Answer status body, w') \<Rightarrow>
          (if status \<ge> 400
           then case unmarshal [''error'', ''message'', ''code''] set_error_response \<lparr>cf_Error = [], cf_Message = [], cf_Code = 0\<rparr> body of
                  None \<Rightarrow> Inl (APIErrorText status body)
                | Some errResp \<Rightarrow> Inl (APIError status (cf_Error errResp))
           else case unmarshal [''eventId'', ''offset'', ''timestamp''] (set_publish_response cd)
                  \<lparr>pr_EventID = [], pr_Offset = 0, pr_Timestamp = zero_time\<rparr> body of
                  None \<Rightarrow> Inl ResponseInvalid | Some resp \<Rightarrow> Inr resp, w'))"
proof -
  let ?q = "\<lparr>or_Method = ''POST'', or_Path = ''/api/v1/events'', or_Query = [],
    or_Header = [(''Content-Type'', ''application/json''), (''Authorization'', ''Bearer '' @ hc_token cl)],
    or_Body = print_json (JObj [(''topic'', JStr t), (''payload'', p)])\<rparr>"
  have "allowed env (to_request ?q) a c"
    by (rule admitted_allowed [OF assms(2)]) simp_all
  then have "publish_request_ok env (to_request ?q) a c t p"
    using assms(3-5) by (simp add: publish_request_ok_def to_request_def validateJSON_def hdr_def gm_get_def)
  then show ?thesis
    using assms(1,6) by (intro that [of ?q]) (simp_all add: to_request_def ClientPublishEvent_def doRequest_def doRequestWithQuery_def Let_def)
qed

lemma publish_status:
  assumes "publish_request_ok env r a c t p"
  shows "\<exists>w a'. ServeHTTP env r (new_writer None) a = Some (False, w, a') \<and> (wr_Status w = Some 201 \<or> wr_Status w = Some 500)"
proof -
  have "allowed env r a c" "rq_Path r = ''/api/v1/events''" "rq_Method r = ''POST''" "validateJSON r" "validateTopic t = None"
    "canonical (se_codec env) p" "rq_Body r = print_json (JObj [(''topic'', JStr t), (''payload'', p)])"
    using assms by (simp_all add: publish_request_ok_def)
  from api_publish [OF this, of "new_writer None"] obtain res :: "mesh_error + event" and n' where
    "ServeHTTP env r (new_writer None) a = Some (False,
        (case res of
           Inl err \<Rightarrow> writeError ''Failed to publish event: '' 500 (common_headers (new_writer None))
         | Inr e \<Rightarrow> writeJSON (PublishBody \<lparr>pr_EventID = event_id e, pr_Offset = ev_offset e, pr_Timestamp = ev_timestamp e\<rparr>) 201
             (common_headers (new_writer None))), a\<lparr>ap_node := n'\<rparr>)"
    by blast
  then show ?thesis
    by (cases res) auto
qed

lemma event_id_utf8: "validateTopic t = None \<Longrightarrow> 0 \<le> k \<Longrightarrow> utf8_valid (t @ ''-'' @ show_int k)"
proof (rule utf8_all_ascii)
  assume t: "validateTopic t = None" and k: "0 \<le> k"
  have "byte_of c < 128" if "c \<in> set t" for c
    using t that topic_char_ascii by (auto simp: validateTopic_def list_all_iff split: if_splits)
  moreover have "byte_of c < 128" if "c \<in> set (nat_digits n)" for c n
    using nat_digits_all [of n] that by (auto simp: list_all_iff is_digit_def between_def)
  ultimately show "list_all (\<lambda>c. byte_of c < 128) (t @ ''-'' @ show_int k)"
    using k by (auto simp: list_all_iff show_int_def)
qed

text \<open>
  A program that publishes through the client library can read the event back: the response names the next offset of the topic and
  the server's time, and \<open>ReadEvents\<close> for one event from that offset returns the event with the payload as it was given.
\<close>

lemma client_publish_read:
  assumes client: "hc_token cl \<noteq> []" "admitted env cl a c" "admitted env1 cl a1 c1"
    and event: "canonical (se_codec env) p" "json_ok 9997 p" "validateTopic t = None" "t \<noteq> ''..''"
    and log: "se_ops env = mem_ops" "mem_inv (eventLog (ap_node a))" "k = int (length (mem_topic (eventLog (ap_node a)) t))" "k < max_int64 - 1"
      "se_ops env1 = mem_ops" "se_codec env1 = se_codec env" "\<not> ml_closed (eventLog (ap_node a1))"
    and clock: "utf8_valid (cd_time (se_codec env) (se_now env))" "cd_parse_time (se_codec env) (cd_time (se_codec env) (se_now env)) = Some (se_now env)"
    and publish: "ClientPublishEvent (se_codec env) (serve other env) t p cl a = (Inr resp, a1)"
  shows "resp = \<lparr>pr_EventID = t @ ''-'' @ show_int k, pr_Offset = k, pr_Timestamp = se_now env\<rparr>
    \<and> ClientReadEvents (se_codec env) (serve other env1) t (pr_Offset resp) 1 cl a1 =
        (Inr \<lparr>cr_Events = [\<lparr>sm_EventID = t @ ''-'' @ show_int k, sm_Topic = t, sm_Payload = p, sm_Timestamp = se_now env, sm_Offset = k\<rparr>],
           cr_Topic = t, cr_StartOffset = k, cr_Count = 1\<rparr>, a1)"
proof -
  let ?cd = "se_codec env"
  obtain q where q: "publish_request_ok env (to_request q) a c t p" "rq_ctx (to_request q) 0 = None"
    "(Inr resp, a1) = (case serve other env q a of
        (DoFailed, w') \<Rightarrow> (Inl RequestFailed, w')
      | (ReadFailed, w') \<Rightarrow> (Inl ReadBodyFailed, w')
      | (Answer status body, w') \<Rightarrow>
          (if status \<ge> 400
           then case unmarshal [''error'', ''message'', ''code''] set_error_response \<lparr>cf_Error = [], cf_Message = [], cf_Code = 0\<rparr> body of
                  None \<Rightarrow> Inl (APIErrorText status body)
                | Some errResp \<Rightarrow> Inl (APIError status (cf_Error errResp))
           else case unmarshal [''eventId'', ''offset'', ''timestamp''] (set_publish_response ?cd)
                  \<lparr>pr_EventID = [], pr_Offset = 0, pr_Timestamp = zero_time\<rparr> body of
                  None \<Rightarrow> Inl ResponseInvalid | Some resp \<Rightarrow> Inr resp, w'))"
    using client_publish_request [OF client(1,2) event(1,3,4) publish] .
  obtain w where w: "ServeHTTP env (to_request q) (new_writer None) a = Some (False, w, a1)" "wr_Status w = Some 201"
    "Inr resp = (case unmarshal [''eventId'', ''offset'', ''timestamp''] (set_publish_response ?cd)
        \<lparr>pr_EventID = [], pr_Offset = 0, pr_Timestamp = zero_time\<rparr> (response_text other ?cd w) of None \<Rightarrow> Inl ResponseInvalid | Some resp \<Rightarrow> Inr resp)"
    using publish_status [OF q(1)] q(3) by (auto simp: serve_def response_status_def split: if_splits option.splits)
  let ?r = "\<lparr>or_Method = ''GET'', or_Path = ''/api/v1/topics/'' @ t @ ''/events'', or_Query = [(''offset'', show_int k), (''limit'', show_int 1)],
    or_Header = [(''Authorization'', ''Bearer '' @ hc_token cl)], or_Body = []\<rparr>"
  have one: "show_int 1 = ''1''" by code_simp
  have k: "in_int64 k" "0 \<le> k" using log(3,4) by (auto simp: in_int64_def max_int64_def)
  have t: "utf8_valid t" "utf8_valid (t @ ''-'' @ show_int k)"
    using topic_ascii [OF event(3)] event_id_utf8 [OF event(3) k(2)] by simp_all
  have "read_request_ok env1 (to_request ?r) a1 c1 t k"
    using admitted_allowed [OF client(3), of ?r] one by (simp add: read_request_ok_def to_request_def query_def gm_get_def)
  from publish_read_answer [OF q(1) this log(1-4) w(1,2) log(5-7)]
  obtain w1 where w1: "wr_Chunks w = [PublishBody \<lparr>pr_EventID = t @ ''-'' @ show_int k, pr_Offset = k, pr_Timestamp = se_now env\<rparr>]"
    "ServeHTTP env1 (to_request ?r) (new_writer None) a1 = Some (False, w1, a1)" "wr_Status w1 = Some 200"
    "wr_Chunks w1 = [ReadBody \<lparr>rr_Events = [\<lparr>sm_EventID = t @ ''-'' @ show_int k, sm_Topic = t, sm_Payload = p,
            sm_Timestamp = se_now env, sm_Offset = k\<rparr>], rr_Topic = t, rr_StartOffset = k, rr_Count = 1\<rparr>]"
    by blast
  have resp: "resp = \<lparr>pr_EventID = t @ ''-'' @ show_int k, pr_Offset = k, pr_Timestamp = se_now env\<rparr>"
    using w(3) publish_answer_read [OF k(1) t(2) clock, of other] by (simp add: response_text_def w1(1) del: chunk_text.simps)
  have "ClientReadEvents ?cd (serve other env1) t k 1 cl a1 =
      (Inr \<lparr>cr_Events = [\<lparr>sm_EventID = t @ ''-'' @ show_int k, sm_Topic = t, sm_Payload = p, sm_Timestamp = se_now env, sm_Offset = k\<rparr>],
           cr_Topic = t, cr_StartOffset = k, cr_Count = 1\<rparr>, a1)"
    using client(1) k(2) serve_value [OF w1(2), of other] read_answer_read [OF k(1) t clock event(2), of other] event(1) log(6)
    by (simp add: ClientReadEvents_def doRequestWithQuery_def Let_def topic_unescaped [OF event(3)] response_text_def w1(4) response_status_def w1(3)
        canonical_def del: chunk_text.simps)
  with resp show ?thesis by simp
qed

lemma demo_client_publish:
  assumes "PublishEventWithResult mem_ops 5 None (Some (HTTPClient ''dev-client'' 0))
      (Some (NewEvent 5 ''orders'' (Some (str_bytes (print_json (JStr ''x'')))))) (demo_started\<lparr>clientHeap := [new_client_obj 5]\<rparr>)
    = (Inr (NewEvent 5 ''orders'' (Some (str_bytes (print_json (JStr ''x''))))), n')"
    and "hc_token cl \<noteq> []"
  shows "ClientPublishEvent demo_codec (serve (\<lambda>b. []) (demo_env 0 [])) ''orders'' (JStr ''x'') cl demo_api
    = (Inr \<lparr>pr_EventID = ''orders-0'', pr_Offset = 0, pr_Timestamp = 5\<rparr>, demo_api\<lparr>ap_node := n'\<rparr>)"
proof -
  let ?env = "demo_env 0 [] :: mem_log server_env"
  have adm: "admitted ?env cl demo_api dev_claims"
    by (simp add: admitted_def)
  have ev: "canonical (se_codec ?env) (JStr ''x'')" "validateTopic ''orders'' = None" "''orders'' \<noteq> ''..''"
    by (simp_all add: canonical_def utf8_ascii validateTopic_def topic_char_def between_def)
  have clock: "utf8_valid (cd_time demo_codec 5)" "cd_parse_time demo_codec (cd_time demo_codec 5) = Some 5"
    using parse_int64_show [of 5] demo_digits(3) by (simp_all add: demo_codec_def utf8_ascii in_int64_def max_int64_def)
  obtain q where q: "publish_request_ok ?env (to_request q) demo_api dev_claims ''orders'' (JStr ''x'')" "rq_ctx (to_request q) 0 = None"
    "ClientPublishEvent demo_codec (serve (\<lambda>b. []) ?env) ''orders'' (JStr ''x'') cl demo_api =
      (case serve (\<lambda>b. []) ?env q demo_api of
        (DoFailed, w') \<Rightarrow> (Inl RequestFailed, w')
      | (ReadFailed, w') \<Rightarrow> (Inl ReadBodyFailed, w')
      | (Answer status body, w') \<Rightarrow>
          (if status \<ge> 400
           then case unmarshal [''error'', ''message'', ''code''] set_error_response \<lparr>cf_Error = [], cf_Message = [], cf_Code = 0\<rparr> body of
                  None \<Rightarrow> Inl (APIErrorText status body)
                | Some errResp \<Rightarrow> Inl (APIError status (cf_Error errResp))
           else case unmarshal [''eventId'', ''offset'', ''timestamp''] (set_publish_response demo_codec)
                  \<lparr>pr_EventID = [], pr_Offset = 0, pr_Timestamp = zero_time\<rparr> body of
                  None \<Rightarrow> Inl ResponseInvalid | Some resp \<Rightarrow> Inr resp, w'))"
    using client_publish_request [OF assms(2) adm ev refl] .
  obtain w where w: "ServeHTTP ?env (to_request q) (new_writer None) demo_api = Some (False, w, demo_api\<lparr>ap_node := n'\<rparr>)"
    "wr_Status w = Some 201" "wr_Chunks w = [PublishBody \<lparr>pr_EventID = ''orders-0'', pr_Offset = 0, pr_Timestamp = 5\<rparr>]"
    using q(1,2) assms(1) api_publish [of ?env "to_request q" demo_api dev_claims "''orders''" "JStr ''x''" "new_writer None"]
    by (auto simp: publish_request_ok_def NewHTTPClient_def demo_started_fields dev_claims_def NewEvent_def event_id_def demo_digits(1)
        writeJSON_def Write_live WriteHeader_status)
  show ?thesis
    using q(3) serve_value [OF w(1), of "\<lambda>b. []"] clock
      publish_answer_read [of 0 "''orders-0''" demo_codec 5 "\<lambda>b. []"]
    by (simp add: response_text_def response_status_def w(2,3) in_int64_def max_int64_def utf8_ascii del: chunk_text.simps)
qed

end
