(* ===== verification/Client_Loop.thy ===== *)
theory Client_Loop
  imports Client_Stream
begin

text \<open>The reconnect loop of the streaming client: how often it connects, and how it ends.\<close>

subsection \<open>What a round does to the other side\<close>

lemma answer_state:
  "snd (case x of (DoFailed, w') \<Rightarrow> (A, w') | (ReadFailed, w') \<Rightarrow> (B, w') | (Answer s b, w') \<Rightarrow> (f s b, w')) = snd x"
  by (cases x; cases "fst x") auto

lemma doRequest_asks: "\<exists>q. snd (doRequestWithQuery tr c v p qs b d r w) = snd (tr q w)"
  unfolding doRequestWithQuery_def Let_def by (rule exI, rule answer_state)

lemma doRequest_state: "(\<And>q w. P (snd (tr q w)) = P w) \<Longrightarrow> P (snd (doRequestWithQuery tr c v p qs b d r w)) = P w"
  using doRequest_asks [of tr c v p qs b d r w] by metis

lemma ensure_loop_state:
  assumes "\<And>q w. P (snd (tr q w)) = P w"
  shows "P (snd (ensure_loop cd tr c ts created w)) = P w"
proof (induction ts arbitrary: created w)
  case (Cons t ts)
  have list: "P (snd (ClientListSubscriptions cd tr c w)) = P w" for w
    by (simp add: ClientListSubscriptions_def doRequest_def doRequest_state [of P tr, OF assms])
  have create: "P (snd (ClientCreateSubscription cd tr t c w)) = P w" for w
    by (simp add: ClientCreateSubscription_def doRequest_def doRequest_state [of P tr, OF assms])
  have "P (snd (ensureStreamSubscription cd tr t c w)) = P w" for w
    using list [of w] create [of "snd (ClientListSubscriptions cd tr c w)"]
    by (auto simp: ensureStreamSubscription_def split: prod.splits sum.splits)
  then have "P w' = P w" if "ensureStreamSubscription cd tr t c w = (r, w')" for r w'
    using that by (metis snd_conv)
  then show ?case
    using Cons.IH by (auto split: prod.splits sum.splits)
qed simp

lemma ensure_round_state:
  assumes "\<And>q w. P (snd (tr q w)) = P w" "ensure_round cd tr c config se sc w = (stop, sc', w')"
  shows "P w' = P w"
  using assms(2) ensure_loop_state [of P tr cd c "uniqueStreamTopics (sg_Topics config)" "[]" w] assms(1)
  by (auto simp: ensure_round_def ensureStreamSubscriptions_def Let_def split: prod.splits sum.splits if_splits)

lemma connect_round_state:
  assumes "\<And>q w. cnt (snd (op q w)) = Suc (cnt w)" "connect_round cd op c config re sc w = (stop, sc', w')"
  shows "cnt w' = Suc (cnt w)"
proof -
  have "cnt (snd (snd (connectAndStream cd op env config c sc w))) = Suc (cnt w)" for env
    using assms(1) [of "stream_request_of c sc" w] by (auto simp: connectAndStream_def split: prod.splits stream_answer.splits)
  then show ?thesis
    using assms(2) by (auto simp: connect_round_def split: prod.splits option.splits) (metis snd_conv)+
qed

text \<open>An environment in which the context is never done.\<close>

definition calm_rounds :: "(nat \<Rightarrow> round_env) \<Rightarrow> bool" where
  "calm_rounds env \<longleftrightarrow> (\<forall>k. \<not> re_done (env k) \<and> \<not> sl_done (re_subscribe (env k)) \<and> \<not> sl_done (re_report (env k))
     \<and> \<not> sl_done (re_last (env k)) \<and> \<not> re_wait_done (env k))"

lemma send_report_calm: "\<not> sl_done se \<Longrightarrow> fst (send_report err se sc) \<noteq> Some CaseDone"
  by (simp add: send_report_def Let_def select_send_def select_of_def)

lemma calm_round:
  assumes "\<not> sl_done (re_report re)" "\<not> sl_done se"
  shows "\<not> fst (ensure_round cd tr c config se sc w)" "\<not> fst (connect_round cd op c config re sc w)"
  using send_report_calm [OF assms(1)] send_report_calm [OF assms(2)]
  by (auto simp: ensure_round_def connect_round_def split: prod.splits sum.splits option.splits) (metis fst_conv)+

lemma send_report_blocked:
  "send_report err se sc = (None, sc') \<Longrightarrow> ch_cap (sc_errors sc') \<le> length (ch_items (sc_errors sc'))"
  by (auto simp: send_report_def Let_def select_send_def select_of_def room_def split: if_splits)

subsection \<open>The bound\<close>

lemma rounds_end:
  assumes max: "sg_MaxReconnectAttempts config = int k" "0 < k"
    and op: "\<And>q w. cnt (snd (op q w)) = Suc (cnt w)" and tr: "\<And>q w. cnt (snd (tr q w)) = cnt w" and "j \<le> k"
  shows "\<exists>fin sc' w'. stream_rounds (Suc (k - j)) cd tr op c config env (int j) sc w = Some (fin, sc', w')
    \<and> cnt w' \<le> cnt w + Suc (k - j) \<and> (calm_rounds env \<longrightarrow> cnt w' = cnt w + Suc (k - j))
    \<and> (fin = Blocked \<longrightarrow> ch_cap (sc_errors sc') \<le> length (ch_items (sc_errors sc')))"
  using assms(5)
proof (induction "k - j" arbitrary: j env sc w)
  case 0
  then have j: "j = k" by simp
  obtain e sc1 w1 where e: "ensure_round cd tr c config (re_subscribe (env 0)) sc w = (e, sc1, w1)" by (metis prod_cases3)
  obtain d sc2 w2 where d: "connect_round cd op c config (env 0) sc1 w1 = (d, sc2, w2)" by (metis prod_cases3)
  obtain p sc3 where p: "send_report MaxAttemptsReport (re_last (env 0)) sc2 = (p, sc3)" by fastforce
  have cnt: "cnt w1 = cnt w" "cnt w2 = Suc (cnt w)"
    using ensure_round_state [of cnt tr, OF tr e] connect_round_state [of cnt op, OF op d] by simp_all
  have calm: "calm_rounds env \<Longrightarrow> \<not> re_done (env 0) \<and> \<not> e \<and> \<not> d"
    using calm_round [of "env 0" "re_subscribe (env 0)"] e d unfolding calm_rounds_def by (metis fst_conv)
  show ?case
    using e d p cnt calm max j send_report_blocked [of MaxAttemptsReport "re_last (env 0)" sc2 sc3]
    by (cases "re_done (env 0)"; cases e; cases d) (auto simp: Let_def)
next
  case (Suc x)
  then have j: "j < k" "x = k - Suc j" by simp_all
  obtain e sc1 w1 where e: "ensure_round cd tr c config (re_subscribe (env 0)) sc w = (e, sc1, w1)" by (metis prod_cases3)
  obtain d sc2 w2 where d: "connect_round cd op c config (env 0) sc1 w1 = (d, sc2, w2)" by (metis prod_cases3)
  have cnt: "cnt w1 = cnt w" "cnt w2 = Suc (cnt w)"
    using ensure_round_state [of cnt tr, OF tr e] connect_round_state [of cnt op, OF op d] by simp_all
  have calm: "calm_rounds env \<Longrightarrow> \<not> re_done (env 0) \<and> \<not> e \<and> \<not> d \<and> \<not> re_wait_done (env 0) \<and> calm_rounds (\<lambda>k. env (Suc k))"
    using calm_round [of "env 0" "re_subscribe (env 0)"] e d unfolding calm_rounds_def by (metis fst_conv)
  obtain fin sc' w' where IH: "stream_rounds (Suc (k - Suc j)) cd tr op c config (\<lambda>k. env (Suc k)) (int (Suc j)) sc2 w2 = Some (fin, sc', w')"
    "cnt w' \<le> cnt w2 + Suc (k - Suc j)" "calm_rounds (\<lambda>k. env (Suc k)) \<Longrightarrow> cnt w' = cnt w2 + Suc (k - Suc j)"
    "fin = Blocked \<Longrightarrow> ch_cap (sc_errors sc') \<le> length (ch_items (sc_errors sc'))"
    using Suc.hyps(1) [OF j(2), of "\<lambda>k. env (Suc k)" sc2 w2] j(1) by auto
  have fuel: "Suc (k - j) = Suc (Suc (k - Suc j))" using j(1) by simp
  show ?case
    unfolding fuel using e d cnt calm IH j(1) max
    by (cases "re_done (env 0)"; cases e; cases d; cases "re_wait_done (env 0)") (auto simp: Let_def add.commute)
qed

text \<open>
  C38. The reconnect loop ends. With a limit of \<open>k\<close> reconnect attempts the loop is over after at most \<open>k + 1\<close> rounds, whatever the
  server answers and however the program reads its channels: it has connected at most \<open>k + 1\<close> times, and exactly so often when the
  context is never done, successful connections included. It then has closed both channels, unless the error channel is full when it
  wants to report the end: there it waits for the program to read or to cancel.
\<close>

theorem reconnect_bounded:
  assumes "sg_MaxReconnectAttempts config = int k" "0 < k"
    and "\<And>q w. cnt (snd (op q w)) = Suc (cnt w)" and "\<And>q w. cnt (snd (tr q w)) = cnt w"
  shows "\<exists>fin sc' w'. startStreaming (Suc k) cd tr op c config env sc w = Some (fin, sc', w')
    \<and> cnt w' \<le> cnt w + Suc k \<and> (calm_rounds env \<longrightarrow> cnt w' = cnt w + Suc k)
    \<and> (case fin of
         Stopped \<Rightarrow> sc_done sc' \<and> ch_closed (sc_events sc') \<and> ch_closed (sc_errors sc')
       | Blocked \<Rightarrow> ch_cap (sc_errors sc') \<le> length (ch_items (sc_errors sc')))"
proof -
  obtain fin sc' w' where run: "stream_rounds (Suc k) cd tr op c config env 0 sc w = Some (fin, sc', w')"
    "cnt w' \<le> cnt w + Suc k" "calm_rounds env \<Longrightarrow> cnt w' = cnt w + Suc k"
    "fin = Blocked \<Longrightarrow> ch_cap (sc_errors sc') \<le> length (ch_items (sc_errors sc'))"
    using rounds_end [of config k cnt op tr 0 cd c env sc w, OF assms] by auto
  then show ?thesis
    by (cases fin) (simp_all add: startStreaming_def)
qed

definition demo_rounds :: "nat \<Rightarrow> round_env" where
  "demo_rounds k = \<lparr>re_done = False, re_subscribe = \<lparr>sl_events = 0, sl_errors = 0, sl_done = False, sl_pick = 0\<rparr>,
     re_lines = (\<lambda>k. \<lparr>le_done = False, le_select = \<lparr>sl_events = 0, sl_errors = 0, sl_done = False, sl_pick = 0\<rparr>\<rparr>),
     re_report = \<lparr>sl_events = 0, sl_errors = 1, sl_done = False, sl_pick = 0\<rparr>,
     re_last = \<lparr>sl_events = 0, sl_errors = 0, sl_done = False, sl_pick = 0\<rparr>, re_wait_done = False\<rparr>"

definition demo_opener :: "nat opener" where
  "demo_opener q w = (OpenFailed, Suc w)"

definition demo_transport :: "nat transport" where
  "demo_transport q w = (DoFailed, w)"

theorem reconnect_bounded_witness:
  "\<exists>fin sc'. startStreaming 3 \<lparr>cd_float = Some, cd_time = show_int, cd_parse_time = parse_int64\<rparr> demo_transport demo_opener
      \<lparr>hc_config = \<lparr>cc_ServerURL = ''http://h'', cc_ClientID = ''c1'', cc_SecretKey = [], cc_Timeout = 1, cc_MaxRetries = 1\<rparr>, hc_token = ''t''\<rparr>
      \<lparr>sg_Topics = [], sg_BufferSize = 1, sg_ReconnectDelay = 1, sg_MaxReconnectAttempts = 2\<rparr> demo_rounds
      \<lparr>sc_events = make_chan 1, sc_received = [], sc_errors = make_chan 10, sc_seen = [], sc_done = False, temporarySubscriptions = [],
       resumeNodeID = [], resumeOffsets = []\<rparr> 0 = Some (fin, sc', 3)"
proof -
  have calm: "calm_rounds demo_rounds" by (simp add: calm_rounds_def demo_rounds_def)
  show ?thesis
    using reconnect_bounded [where k = 2 and cnt = "\<lambda>w. w" and op = demo_opener and tr = demo_transport and env = demo_rounds
        and config = "\<lparr>sg_Topics = [], sg_BufferSize = 1, sg_ReconnectDelay = 1, sg_MaxReconnectAttempts = 2\<rparr>" and w = 0] calm
    by (fastforce simp: demo_opener_def demo_transport_def numeral_3_eq_3 numeral_2_eq_2)
qed

end
