(* ===== verification/Cli_Commands.thy ===== *)
theory Cli_Commands
  imports Client_Events Client_Loop
begin

text \<open>
  The command-line client, \<open>cmd/eventmesh-cli\<close>: its commands over the client library. A command answers with an error or with the
  data it prints; the wording is left out. Parsing the command line is left to the flag library.
\<close>

subsection \<open>The client of a run\<close>

record cli_flags =
  cf_serverURL :: string
  cf_clientID :: string
  cf_token :: string
  cf_timeout :: int
  cf_noAuth :: bool

datatype cli_command =
    HelpCommand
  | AuthCommand
  | PublishCommand string string
  | SubscribeCommand string
  | SubscriptionsListCommand
  | SubscriptionsDeleteCommand string
  | StreamCommand "string list" int int
  | ReplayCommand string int int
  | TopicsInfoCommand string
  | AdminClientsCommand
  | AdminSubscriptionsCommand
  | AdminStatsCommand
  | HealthCommand

datatype cli_error =
    MissingClientID | ClientNotCreated client_error | ClientNotInitialized | NotLoggedIn | InvalidPayload | Failed client_error | CliPanic

record topic_info =
  ti_first :: stream_message
  ti_last :: stream_message
  ti_sample :: nat
  ti_more :: bool
  ti_recent :: int

datatype shown =
    ShownHelp
  | ShownToken string
  | ShownPublished publish_response
  | ShownSubscription subscription_response
  | ShownSubscriptions "subscription_response list"
  | ShownDeleted
  | ShownStream "stream_message list" "client_error list"
  | ShownEvents client_read
  | ShownEmptyTopic
  | ShownTopic topic_info
  | ShownClients "client_info list"
  | ShownStats client_stats
  | ShownHealth client_health

definition initializeClient :: "(string \<Rightarrow> bool) \<Rightarrow> cli_flags \<Rightarrow> cli_command \<Rightarrow> cli_error + http_client option" where
  "initializeClient url_ok fl cmd =
     (if cmd = HelpCommand then Inr None
      else if \<not> cf_noAuth fl \<and> cf_clientID fl = [] then Inl MissingClientID
      else
        let effectiveClientID = (if cf_noAuth fl \<and> cf_clientID fl = [] then ''dev-client'' else cf_clientID fl);
            config = \<lparr>cc_ServerURL = cf_serverURL fl, cc_ClientID = effectiveClientID, cc_SecretKey = [], cc_Timeout = cf_timeout fl,
                      cc_MaxRetries = 0\<rparr>
        in case NewClient url_ok config of
             Inl err \<Rightarrow> Inl (ClientNotCreated err)
           | Inr client \<Rightarrow>
               Inr (Some (if cf_token fl \<noteq> [] then SetToken (cf_token fl) client
                          else if cf_noAuth fl then SetToken ''no-auth-mode'' client
                          else client)))"

definition requireAuthentication :: "cli_flags \<Rightarrow> http_client option \<Rightarrow> cli_error + http_client" where
  "requireAuthentication fl client =
     (case client of
        None \<Rightarrow> Inl ClientNotInitialized
      | Some c \<Rightarrow> if cf_noAuth fl \<or> ClientIsAuthenticated c then Inr c else Inl NotLoggedIn)"

subsection \<open>Commands\<close>

text \<open>A command that checks the authentication first, then makes one call and shows its answer.\<close>

definition with_client ::
  "cli_flags \<Rightarrow> http_client option \<Rightarrow> (http_client \<Rightarrow> 'w \<Rightarrow> (client_error + 'r) \<times> 'w) \<Rightarrow> ('r \<Rightarrow> shown) \<Rightarrow> 'w \<Rightarrow> (cli_error + shown) \<times> 'w" where
  "with_client fl client call present w =
     (case requireAuthentication fl client of
        Inl err \<Rightarrow> (Inl err, w)
      | Inr c \<Rightarrow> (case call c w of (Inl err, w') \<Rightarrow> (Inl (Failed err), w') | (Inr r, w') \<Rightarrow> (Inr (present r), w')))"

definition runAuth :: "codec \<Rightarrow> 'w transport \<Rightarrow> http_client option \<Rightarrow> 'w \<Rightarrow> (cli_error + shown) \<times> 'w" where
  "runAuth cd tr client w =
     (case client of
        None \<Rightarrow> (Inl CliPanic, w)
      | Some c \<Rightarrow>
         (case Authenticate cd tr c w of
            (Some err, _, w') \<Rightarrow> (Inl (Failed err), w')
          | (None, c', w') \<Rightarrow> (Inr (ShownToken (GetToken c')), w')))"

definition runHealth :: "'w transport \<Rightarrow> http_client option \<Rightarrow> 'w \<Rightarrow> (cli_error + shown) \<times> 'w" where
  "runHealth tr client w =
     (case client of
        None \<Rightarrow> (Inl CliPanic, w)
      | Some c \<Rightarrow> (case ClientGetHealth tr c w of (Inl err, w') \<Rightarrow> (Inl (Failed err), w') | (Inr h, w') \<Rightarrow> (Inr (ShownHealth h), w')))"

definition payload_of :: "codec \<Rightarrow> string \<Rightarrow> json option" where
  "payload_of cd payloadStr = (if payloadStr = [] then Some JNull else Option.bind (parse_json payloadStr) (into_any cd))"

definition runPublish :: "codec \<Rightarrow> 'w transport \<Rightarrow> cli_flags \<Rightarrow> http_client option \<Rightarrow> string \<Rightarrow> string \<Rightarrow> 'w \<Rightarrow> (cli_error + shown) \<times> 'w" where
  "runPublish cd tr fl client topic payloadStr w =
     (case requireAuthentication fl client of
        Inl err \<Rightarrow> (Inl err, w)
      | Inr c \<Rightarrow>
         (case payload_of cd payloadStr of
            None \<Rightarrow> (Inl InvalidPayload, w)
          | Some payload \<Rightarrow>
             (case ClientPublishEvent cd tr topic payload c w of
                (Inl err, w') \<Rightarrow> (Inl (Failed err), w')
              | (Inr r, w') \<Rightarrow> (Inr (ShownPublished r), w'))))"

definition runSubscribe :: "codec \<Rightarrow> 'w transport \<Rightarrow> cli_flags \<Rightarrow> http_client option \<Rightarrow> string \<Rightarrow> 'w \<Rightarrow> (cli_error + shown) \<times> 'w" where
  "runSubscribe cd tr fl client topic = with_client fl client (ClientCreateSubscription cd tr topic) ShownSubscription"

definition runSubscriptionsList :: "codec \<Rightarrow> 'w transport \<Rightarrow> cli_flags \<Rightarrow> http_client option \<Rightarrow> 'w \<Rightarrow> (cli_error + shown) \<times> 'w" where
  "runSubscriptionsList cd tr fl client = with_client fl client (ClientListSubscriptions cd tr) ShownSubscriptions"

definition runSubscriptionsDelete :: "'w transport \<Rightarrow> cli_flags \<Rightarrow> http_client option \<Rightarrow> string \<Rightarrow> 'w \<Rightarrow> (cli_error + shown) \<times> 'w" where
  "runSubscriptionsDelete tr fl client subscriptionID =
     with_client fl client
       (\<lambda>c w. case ClientDeleteSubscription tr subscriptionID c w of (Some err, w') \<Rightarrow> (Inl err, w') | (None, w') \<Rightarrow> (Inr (), w'))
       (\<lambda>_. ShownDeleted)"

definition runReplay :: "codec \<Rightarrow> 'w transport \<Rightarrow> cli_flags \<Rightarrow> http_client option \<Rightarrow> string \<Rightarrow> int \<Rightarrow> int \<Rightarrow> 'w \<Rightarrow> (cli_error + shown) \<times> 'w" where
  "runReplay cd tr fl client topic offset limit = with_client fl client (ClientReadEvents cd tr topic offset limit) ShownEvents"

definition maxInt64 :: "int \<Rightarrow> int \<Rightarrow> int" where
  "maxInt64 a b = (if a > b then a else b)"

definition topic_info_of :: "stream_message list \<Rightarrow> shown" where
  "topic_info_of events =
     (case events of
        [] \<Rightarrow> ShownEmptyTopic
      | firstEvent # _ \<Rightarrow>
          let lastEvent = last events in
          ShownTopic \<lparr>ti_first = firstEvent, ti_last = lastEvent, ti_sample = length events, ti_more = (length events = 100),
            ti_recent = maxInt64 0 (wrap64 (sm_Offset lastEvent - 9))\<rparr>)"

definition runTopicsInfo :: "codec \<Rightarrow> 'w transport \<Rightarrow> cli_flags \<Rightarrow> http_client option \<Rightarrow> string \<Rightarrow> 'w \<Rightarrow> (cli_error + shown) \<times> 'w" where
  "runTopicsInfo cd tr fl client topic = with_client fl client (ClientReadEvents cd tr topic 0 100) (topic_info_of \<circ> cr_Events)"

definition runAdminClients :: "codec \<Rightarrow> 'w transport \<Rightarrow> cli_flags \<Rightarrow> http_client option \<Rightarrow> 'w \<Rightarrow> (cli_error + shown) \<times> 'w" where
  "runAdminClients cd tr fl client = with_client fl client (ClientAdminListClients cd tr) ShownClients"

definition runAdminSubscriptions :: "codec \<Rightarrow> 'w transport \<Rightarrow> cli_flags \<Rightarrow> http_client option \<Rightarrow> 'w \<Rightarrow> (cli_error + shown) \<times> 'w" where
  "runAdminSubscriptions cd tr fl client = with_client fl client (ClientAdminListSubscriptions cd tr) ShownSubscriptions"

definition runAdminStats :: "'w transport \<Rightarrow> cli_flags \<Rightarrow> http_client option \<Rightarrow> 'w \<Rightarrow> (cli_error + shown) \<times> 'w" where
  "runAdminStats tr fl client = with_client fl client (ClientAdminGetStats tr) ShownStats"

subsection \<open>Streams\<close>

definition streamTopics :: "string list \<Rightarrow> string list" where
  "streamTopics topics = unique_loop [] [] topics"

text \<open>
  The stream command runs until it is interrupted or the stream ends; \<open>env\<close> says when, and which events it has taken, and printed, by
  then. The offset is announced and not used. Afterwards the stream is closed, which removes the temporary subscriptions.
\<close>

definition runStream ::
  "nat \<Rightarrow> codec \<Rightarrow> 'w transport \<Rightarrow> 'w opener \<Rightarrow> (nat \<Rightarrow> round_env) \<Rightarrow> cli_flags \<Rightarrow> http_client option \<Rightarrow> string list \<Rightarrow> int \<Rightarrow> int \<Rightarrow> 'w \<Rightarrow>
   ((cli_error + shown) \<times> 'w) option" where
  "runStream fuel cd tr op env fl client topics offset bufferSize w =
     (case requireAuthentication fl client of
        Inl err \<Rightarrow> Some (Inl err, w)
      | Inr c \<Rightarrow>
          let config = \<lparr>sg_Topics = streamTopics topics, sg_BufferSize = bufferSize, sg_ReconnectDelay = 0, sg_MaxReconnectAttempts = 0\<rparr>
          in case ClientStream cd tr config c w of
               (StreamFailed err, _, w') \<Rightarrow> Some (Inl (Failed err), w')
             | (StreamPanic, _, w') \<Rightarrow> Some (Inl CliPanic, w')
             | (StreamOpened sc, config, w') \<Rightarrow>
                (case startStreaming fuel cd tr op c config env sc w' of
                   None \<Rightarrow> None
                 | Some (Blocked, _, _) \<Rightarrow> None
                 | Some (Stopped, sc, w') \<Rightarrow>
                     (case StreamClose tr c sc w' of (errs, _, w') \<Rightarrow> Some (Inr (ShownStream (sc_received sc) errs), w'))))"

subsection \<open>A run\<close>

fun run_command ::
  "nat \<Rightarrow> codec \<Rightarrow> 'w transport \<Rightarrow> 'w opener \<Rightarrow> (nat \<Rightarrow> round_env) \<Rightarrow> cli_flags \<Rightarrow> http_client option \<Rightarrow> cli_command \<Rightarrow> 'w \<Rightarrow>
   ((cli_error + shown) \<times> 'w) option" where
  "run_command fuel cd tr op env fl c HelpCommand w = Some (Inr ShownHelp, w)"
| "run_command fuel cd tr op env fl c AuthCommand w = Some (runAuth cd tr c w)"
| "run_command fuel cd tr op env fl c (PublishCommand t p) w = Some (runPublish cd tr fl c t p w)"
| "run_command fuel cd tr op env fl c (SubscribeCommand t) w = Some (runSubscribe cd tr fl c t w)"
| "run_command fuel cd tr op env fl c SubscriptionsListCommand w = Some (runSubscriptionsList cd tr fl c w)"
| "run_command fuel cd tr op env fl c (SubscriptionsDeleteCommand i) w = Some (runSubscriptionsDelete tr fl c i w)"
| "run_command fuel cd tr op env fl c (StreamCommand ts k b) w = runStream fuel cd tr op env fl c ts k b w"
| "run_command fuel cd tr op env fl c (ReplayCommand t k l) w = Some (runReplay cd tr fl c t k l w)"
| "run_command fuel cd tr op env fl c (TopicsInfoCommand t) w = Some (runTopicsInfo cd tr fl c t w)"
| "run_command fuel cd tr op env fl c AdminClientsCommand w = Some (runAdminClients cd tr fl c w)"
| "run_command fuel cd tr op env fl c AdminSubscriptionsCommand w = Some (runAdminSubscriptions cd tr fl c w)"
| "run_command fuel cd tr op env fl c AdminStatsCommand w = Some (runAdminStats tr fl c w)"
| "run_command fuel cd tr op env fl c HealthCommand w = Some (runHealth tr c w)"

definition cli_main ::
  "(string \<Rightarrow> bool) \<Rightarrow> nat \<Rightarrow> codec \<Rightarrow> 'w transport \<Rightarrow> 'w opener \<Rightarrow> (nat \<Rightarrow> round_env) \<Rightarrow> cli_flags \<Rightarrow> cli_command \<Rightarrow> 'w \<Rightarrow>
   ((cli_error + shown) \<times> 'w) option" where
  "cli_main url_ok fuel cd tr op env fl cmd w =
     (case initializeClient url_ok fl cmd of
        Inl err \<Rightarrow> Some (Inl err, w)
      | Inr client \<Rightarrow> run_command fuel cd tr op env fl client cmd w)"

subsection \<open>A client that is logged in\<close>

definition cli_client :: "cli_flags \<Rightarrow> http_client" where
  "cli_client fl =
     \<lparr>hc_config = ClientSetDefaults \<lparr>cc_ServerURL = cf_serverURL fl, cc_ClientID = cf_clientID fl, cc_SecretKey = [],
        cc_Timeout = cf_timeout fl, cc_MaxRetries = 0\<rparr>, hc_token = cf_token fl\<rparr>"

definition cli_flags_ok :: "(string \<Rightarrow> bool) \<Rightarrow> cli_flags \<Rightarrow> bool" where
  "cli_flags_ok url_ok fl \<longleftrightarrow> cf_serverURL fl \<noteq> [] \<and> url_ok (cf_serverURL fl) \<and> cf_clientID fl \<noteq> [] \<and> cf_token fl \<noteq> []"

lemma initializeClient_ok:
  "cli_flags_ok url_ok fl \<Longrightarrow> cmd \<noteq> HelpCommand \<Longrightarrow> initializeClient url_ok fl cmd = Inr (Some (cli_client fl))"
  by (simp add: cli_flags_ok_def initializeClient_def NewClient_def ClientSetDefaults_def SetToken_def cli_client_def)

lemma requireAuthentication_ok: "cli_flags_ok url_ok fl \<Longrightarrow> requireAuthentication fl (Some (cli_client fl)) = Inr (cli_client fl)"
  by (simp add: cli_flags_ok_def requireAuthentication_def ClientIsAuthenticated_def cli_client_def)

end
