(* ===== verification/Peer_Compose.thy ===== *)
theory Peer_Compose
  imports Peer_Props
begin

text \<open>
  \<open>internal/meshnode/peerlink_components.go\<close>: a peer link put together from three references, one per role. The links are
  objects in a heap, a reference is an index, and every method is passed on to the object of its role. A node builds the
  composition from three references to one link (\<open>completePeerLink\<close>); then it behaves as that link.
\<close>

subsection \<open>The composition\<close>

record composedPeerLink =
  cp_dataPlane :: nat
  cp_control :: nat
  cp_connections :: nat

definition delegate :: "nat \<Rightarrow> (peer_link \<Rightarrow> 'a \<times> peer_link) \<Rightarrow> peer_link list \<Rightarrow> 'a \<times> peer_link list" where
  "delegate r call H = (case call (H ! r) of (x, g) \<Rightarrow> (x, H[r := g]))"

definition composed_SendEvent ::
  "int \<Rightarrow> bool \<Rightarrow> composedPeerLink \<Rightarrow> string \<Rightarrow> event option \<Rightarrow> peer_link list \<Rightarrow> pl_error option \<times> peer_link list" where
  "composed_SendEvent now gave_up c peerID event = delegate (cp_dataPlane c) (SendEvent now gave_up peerID event)"

definition composed_ReceiveEvents :: "composedPeerLink \<Rightarrow> peer_link list \<Rightarrow> (pl_error + nat) \<times> peer_link list" where
  "composed_ReceiveEvents c = delegate (cp_dataPlane c) ReceiveEvents"

definition composed_SendInterestUpdate ::
  "int \<Rightarrow> bool \<Rightarrow> composedPeerLink \<Rightarrow> string \<Rightarrow> interest_update option \<Rightarrow> peer_link list \<Rightarrow> pl_error option \<times> peer_link list" where
  "composed_SendInterestUpdate now gave_up c peerID update = delegate (cp_control c) (SendInterestUpdate now gave_up peerID update)"

definition composed_SendInterestSnapshot ::
  "int \<Rightarrow> bool \<Rightarrow> composedPeerLink \<Rightarrow> string \<Rightarrow> interest_snapshot option \<Rightarrow> peer_link list \<Rightarrow> pl_error option \<times> peer_link list" where
  "composed_SendInterestSnapshot now gave_up c peerID snapshot = delegate (cp_control c) (SendInterestSnapshot now gave_up peerID snapshot)"

definition composed_ReceiveInterestMessages :: "composedPeerLink \<Rightarrow> peer_link list \<Rightarrow> (pl_error + nat) \<times> peer_link list" where
  "composed_ReceiveInterestMessages c = delegate (cp_control c) ReceiveInterestMessages"

definition composed_SendHeartbeat ::
  "int \<Rightarrow> bool \<Rightarrow> composedPeerLink \<Rightarrow> string \<Rightarrow> peer_link list \<Rightarrow> pl_error option \<times> peer_link list" where
  "composed_SendHeartbeat now gave_up c peerID = delegate (cp_control c) (SendHeartbeat now gave_up peerID)"

definition composed_GetPeerHealth :: "composedPeerLink \<Rightarrow> string \<Rightarrow> peer_link list \<Rightarrow> health \<times> pl_error option" where
  "composed_GetPeerHealth c peerID H = GetPeerHealth peerID (H ! cp_control c)"

definition composed_StartHeartbeats :: "bool \<Rightarrow> composedPeerLink \<Rightarrow> peer_link list \<Rightarrow> pl_error option \<times> peer_link list" where
  "composed_StartHeartbeats nil_ctx c = delegate (cp_control c) (StartHeartbeats nil_ctx)"

definition composed_StopHeartbeats :: "composedPeerLink \<Rightarrow> peer_link list \<Rightarrow> pl_error option \<times> peer_link list" where
  "composed_StopHeartbeats c = delegate (cp_control c) StopHeartbeats"

definition composed_Connect ::
  "int \<Rightarrow> string option \<Rightarrow> composedPeerLink \<Rightarrow> peer_node \<Rightarrow> peer_link list \<Rightarrow> pl_error option \<times> peer_link list" where
  "composed_Connect now dial c peer = delegate (cp_connections c) (Connect now dial peer)"

definition composed_Disconnect :: "composedPeerLink \<Rightarrow> string \<Rightarrow> peer_link list \<Rightarrow> pl_error option \<times> peer_link list" where
  "composed_Disconnect c peerID = delegate (cp_connections c) (Disconnect peerID)"

definition composed_GetConnectedPeers :: "composedPeerLink \<Rightarrow> peer_link list \<Rightarrow> pl_error + peer_node list" where
  "composed_GetConnectedPeers c H = GetConnectedPeers (H ! cp_connections c)"

definition composed_Close :: "composedPeerLink \<Rightarrow> peer_link list \<Rightarrow> pl_error option \<times> peer_link list" where
  "composed_Close c = delegate (cp_connections c) ClosePeerLink"

text \<open>The type assertions of the last two methods succeed: the objects of the heap are gRPC links, which have both methods.\<close>

definition composed_GetListeningAddress :: "composedPeerLink \<Rightarrow> peer_link list \<Rightarrow> string" where
  "composed_GetListeningAddress c H = GetListeningAddress (H ! cp_connections c)"

definition composed_GetDropsCount :: "composedPeerLink \<Rightarrow> string \<Rightarrow> peer_link list \<Rightarrow> nat" where
  "composed_GetDropsCount c peerID H = GetDropsCount peerID (H ! cp_dataPlane c)"

subsection \<open>The composition of one link\<close>

inductive composed_step :: "composedPeerLink \<Rightarrow> peer_link list \<Rightarrow> peer_link list \<Rightarrow> bool" for c where
  cstep_SendEvent: "composed_step c H (snd (composed_SendEvent now gave_up c p e H))"
| cstep_ReceiveEvents: "composed_step c H (snd (composed_ReceiveEvents c H))"
| cstep_SendUpdate: "composed_step c H (snd (composed_SendInterestUpdate now gave_up c p u H))"
| cstep_SendSnapshot: "composed_step c H (snd (composed_SendInterestSnapshot now gave_up c p s H))"
| cstep_ReceiveInterest: "composed_step c H (snd (composed_ReceiveInterestMessages c H))"
| cstep_SendHeartbeat: "composed_step c H (snd (composed_SendHeartbeat now gave_up c p H))"
| cstep_StartHeartbeats: "composed_step c H (snd (composed_StartHeartbeats b c H))"
| cstep_StopHeartbeats: "composed_step c H (snd (composed_StopHeartbeats c H))"
| cstep_Connect: "composed_step c H (snd (composed_Connect now dial c peer H))"
| cstep_Disconnect: "composed_step c H (snd (composed_Disconnect c p H))"
| cstep_Close: "composed_step c H (snd (composed_Close c H))"

lemma delegate_eq: "fst (delegate r call H) = fst (call (H ! r))" "snd (delegate r call H) = H[r := snd (call (H ! r))]"
  by (simp_all add: delegate_def split: prod.splits)

lemmas composed_defs = composed_SendEvent_def composed_ReceiveEvents_def composed_SendInterestUpdate_def
  composed_SendInterestSnapshot_def composed_ReceiveInterestMessages_def composed_SendHeartbeat_def composed_StartHeartbeats_def
  composed_StopHeartbeats_def composed_Connect_def composed_Disconnect_def composed_Close_def

lemma composed_step_link:
  assumes "composed_step c H H'" "c = \<lparr>cp_dataPlane = r, cp_control = r, cp_connections = r\<rparr>" "r < length H"
  shows "pl_step (H ! r) (H' ! r) \<and> length H' = length H \<and> (\<forall>q. q \<noteq> r \<longrightarrow> H' ! q = H ! q)"
  using assms by (induction rule: composed_step.induct) (auto simp: composed_defs delegate_eq intro: pl_step.intros)

text \<open>Whatever sequence of calls goes through the composition, the link is in a state it can reach by itself, and no other link is touched.\<close>

lemma composed_refines_link:
  assumes "(composed_step c)\<^sup>*\<^sup>* H H'" "c = \<lparr>cp_dataPlane = r, cp_control = r, cp_connections = r\<rparr>" "r < length H"
  shows "pl_step\<^sup>*\<^sup>* (H ! r) (H' ! r) \<and> length H' = length H \<and> (\<forall>q. q \<noteq> r \<longrightarrow> H' ! q = H ! q)"
  using assms
proof (induction rule: rtranclp_induct)
  case (step H1 H2)
  then have "pl_step\<^sup>*\<^sup>* (H ! r) (H1 ! r)" "pl_step (H1 ! r) (H2 ! r)" "length H2 = length H" "\<forall>q. q \<noteq> r \<longrightarrow> H2 ! q = H ! q"
    using composed_step_link [OF step.hyps(2) assms(2)] by auto
  then show ?case by (auto intro: rtranclp.rtrancl_into_rtrancl)
qed simp

end
