(* ===== verification/Server_Command.thy ===== *)
theory Server_Command
  imports Mesh_Safety Pebble_Store Http_Core Peer_Compose
begin

text \<open>
  The server command, \<open>cmd/eventmesh/main.go\<close>: the flags, the choice of the event log, the peers to connect to, and the
  order in which \<open>main\<close> builds, starts and stops the node and the HTTP server. What the program prints is left out.
\<close>

subsection \<open>Text\<close>

text \<open>
  \<open>strings.ToLower\<close>, as far as a comparison with an ASCII word can tell. Two letters outside ASCII have a lower case letter in
  it, U+0130 and U+212A; the other runes are left alone.
\<close>

function ToLower :: "string \<Rightarrow> string" where
  "ToLower s =
     (case s of
        [] \<Rightarrow> []
      | c # r \<Rightarrow>
          if between 65 90 c then char_of (byte_of c + 32) # ToLower r
          else if take 2 (map byte_of s) = [196, 176] then CHR ''i'' # ToLower (drop 2 s)
          else if take 3 (map byte_of s) = [226, 132, 170] then CHR ''k'' # ToLower (drop 3 s)
          else c # ToLower r)"
  by pat_completeness auto
termination
  by (relation "measure length") auto

declare ToLower.simps [simp del]

subsection \<open>Logging\<close>

datatype log_level = LevelDebug | LevelInfo | LevelWarn | LevelError

text \<open>The level, and whether a warning is printed.\<close>

definition setupLogging :: "string \<Rightarrow> log_level \<times> bool" where
  "setupLogging levelStr =
     (let l = ToLower levelStr in
      if l = ''debug'' then (LevelDebug, False)
      else if l = ''info'' then (LevelInfo, False)
      else if l = ''warn'' \<or> l = ''warning'' then (LevelWarn, False)
      else if l = ''error'' then (LevelError, False)
      else (LevelInfo, True))"

definition getDefaultNodeID :: "string option \<Rightarrow> string" where
  "getDefaultNodeID hostname = (case hostname of None \<Rightarrow> ''eventmesh-node-1'' | Some h \<Rightarrow> ''eventmesh-'' @ h)"

subsection \<open>The event log behind the interface\<close>

text \<open>An \<open>EventLog\<close> of the command is one of two implementations; its methods are those of the implementation.\<close>

datatype 'd any_log = InMemoryLog mem_log | PebbleLog "'d pebble_log"

definition any_ops :: "'d db_ops \<Rightarrow> proto_ops \<Rightarrow> 'd any_log log_ops" where
  "any_ops db pm =
     \<lparr>op_AppendEvent = (\<lambda>c t e l. case l of
          InMemoryLog m \<Rightarrow> map_prod id InMemoryLog (op_AppendEvent mem_ops c t e m)
        | PebbleLog p \<Rightarrow> map_prod id PebbleLog (op_AppendEvent (pebble_ops db pm) c t e p)),
      op_ReadEvents = (\<lambda>c t k j l. case l of
          InMemoryLog m \<Rightarrow> op_ReadEvents mem_ops c t k j m | PebbleLog p \<Rightarrow> op_ReadEvents (pebble_ops db pm) c t k j p),
      op_GetTopicEndOffset = (\<lambda>c t l. case l of
          InMemoryLog m \<Rightarrow> op_GetTopicEndOffset mem_ops c t m | PebbleLog p \<Rightarrow> op_GetTopicEndOffset (pebble_ops db pm) c t p),
      op_ReplayEvents = (\<lambda>c t k l. case l of
          InMemoryLog m \<Rightarrow> op_ReplayEvents mem_ops c t k m | PebbleLog p \<Rightarrow> op_ReplayEvents (pebble_ops db pm) c t k p),
      op_Compact = (\<lambda>c l. case l of InMemoryLog m \<Rightarrow> op_Compact mem_ops c m | PebbleLog p \<Rightarrow> op_Compact (pebble_ops db pm) c p),
      op_GetStatistics = (\<lambda>c l. case l of
          InMemoryLog m \<Rightarrow> op_GetStatistics mem_ops c m | PebbleLog p \<Rightarrow> op_GetStatistics (pebble_ops db pm) c p),
      op_Close = (\<lambda>l. case l of
          InMemoryLog m \<Rightarrow> map_prod id InMemoryLog (op_Close mem_ops m)
        | PebbleLog p \<Rightarrow> map_prod id PebbleLog (op_Close (pebble_ops db pm) p))\<rparr>"

datatype backend_error = PathRequired | UnknownBackend string

text \<open>The path of the Pebble log that \<open>applyEventLogConfig\<close> puts into the configuration, if any.\<close>

definition applyEventLogConfig :: "string \<Rightarrow> string \<Rightarrow> backend_error + string option" where
  "applyEventLogConfig backend path =
     (let b = ToLower (TrimSpace backend) in
      if b \<in> {[], ''memory'', ''inmemory'', ''in-memory''} then Inr None
      else if b = ''pebble'' then (if TrimSpace path = [] then Inl PathRequired else Inr (Some path))
      else Inl (UnknownBackend backend))"

subsection \<open>Peers\<close>

datatype peers_error = BadPeer string | NoPeers

fun peers_loop :: "peer_node list \<Rightarrow> string list \<Rightarrow> peers_error + peer_node list" where
  "peers_loop peers [] = Inr peers"
| "peers_loop peers (part # parts) =
     (let part = TrimSpace part in
      if part = [] then peers_loop peers parts
      else let (i, address) = (if CHR ''='' \<in> set part
                               then (TrimSpace (takeWhile (\<lambda>c. c \<noteq> CHR ''='') part), TrimSpace (tl (dropWhile (\<lambda>c. c \<noteq> CHR ''='') part)))
                               else (part, part))
           in if i = [] \<or> address = [] then Inl (BadPeer part)
              else peers_loop (peers @ [\<lparr>pn_ID = i, pn_Address = address, pn_IsHealthy = True\<rparr>]) parts)"

definition parseConnectPeers :: "string \<Rightarrow> peers_error + peer_node list" where
  "parseConnectPeers raw =
     (case peers_loop [] (split_on CHR '','' raw) of
        Inl err \<Rightarrow> Inl err
      | Inr peers \<Rightarrow> if peers = [] then Inl NoPeers else Inr peers)"

subsection \<open>The program\<close>

record server_flags =
  fl_nodeID :: string
  fl_listenAddr :: string
  fl_peerAddr :: string
  fl_connectPeer :: string
  fl_enableHTTP :: bool
  fl_noAuth :: bool
  fl_showVersion :: bool
  fl_showHealth :: bool
  fl_seedNodes :: string
  fl_logLevel :: string
  fl_eventLogBackend :: string
  fl_eventLogPath :: string

text \<open>
  What the program finds: the disk, the secret of its environment, the time, the answers of \<open>net.Listen\<close> and of each dial, the
  context of the health check, and what clients and peers of the node do before each \<open>Connect\<close> and during the shutdown.
\<close>

record 'd server_world =
  sw_disk :: 'd
  sw_secret :: string
  sw_now :: int
  sw_listen :: "string + string"
  sw_dial :: "string \<Rightarrow> string option"
  sw_ctx :: ctx
  sw_meanwhile :: "nat \<Rightarrow> 'd any_log mesh_node \<Rightarrow> 'd any_log mesh_node"

datatype fatal =
    InvalidEventLog backend_error | InvalidConfig mesh_error | NotCreated mesh_error | NotStarted mesh_error
  | InvalidPeers peers_error | PeerFailed peer_node pl_error

datatype 'd run_result =
    VersionShown
  | Fatal fatal
  | HealthShown health_status nat
  | Serving "'d any_log mesh_node" "'d any_log api option"

definition seed_list :: "string \<Rightarrow> string list option" where
  "seed_list seedNodes =
     (if seedNodes = [] then None else Some (map TrimSpace (split_on CHR '','' (TrimSpace seedNodes))))"

definition server_config :: "server_flags \<Rightarrow> mesh_config" where
  "server_config fl =
     WithBootstrapConfig (seed_list (fl_seedNodes fl))
       (WithPeerLinkConfig (Some (SetDefaults
            \<lparr>cfg_NodeID = fl_nodeID fl, cfg_ListenAddress = fl_peerAddr fl, cfg_SendQueueSize = 0, cfg_SendTimeout = 0,
             cfg_MaxSendAttempts = 0, cfg_HeartbeatInterval = 0, cfg_MissedHeartbeatLimit = 0, cfg_MaxMessageSize = 0\<rparr>))
         (NewConfig (fl_nodeID fl) (fl_listenAddr fl)))"

definition pebble_factory :: "'d db_ops \<Rightarrow> 'd \<Rightarrow> string \<Rightarrow> string + 'd any_log option" where
  "pebble_factory db disk path =
     (case NewPebbleEventLog db path disk of
        Inl err \<Rightarrow> Inl (case err of ErrStorage s \<Rightarrow> s | _ \<Rightarrow> [])
      | Inr l \<Rightarrow> Inr (Some (PebbleLog l)))"

fun connect_peers ::
  "int \<Rightarrow> (string \<Rightarrow> string option) \<Rightarrow> (nat \<Rightarrow> 'l mesh_node \<Rightarrow> 'l mesh_node) \<Rightarrow> peer_node list \<Rightarrow> 'l mesh_node \<Rightarrow>
   (peer_node \<times> pl_error) option \<times> 'l mesh_node" where
  "connect_peers now dial meanwhile [] n = (None, n)"
| "connect_peers now dial meanwhile (peer # ps) n =
     (let n = meanwhile 0 n in
      case Connect now (dial (pn_Address peer)) peer (peerLink n) of
        (Some err, g) \<Rightarrow> (Some (peer, err), n\<lparr>peerLink := g\<rparr>)
      | (None, g) \<Rightarrow> connect_peers now dial (\<lambda>k. meanwhile (Suc k)) ps (n\<lparr>peerLink := g\<rparr>))"

definition jwt_secret :: "string \<Rightarrow> string" where
  "jwt_secret env = (if env = [] then ''eventmesh-mvp-secret-key-change-in-production'' else env)"

text \<open>From \<open>node.Start\<close> to the point where the program waits for a signal. The HTTP server shares the node.\<close>

definition start_server ::
  "server_flags \<Rightarrow> 'd server_world \<Rightarrow> 'd any_log api option \<Rightarrow> 'd any_log mesh_node \<Rightarrow> 'd run_result" where
  "start_server fl sw http node =
     (case NodeStart (sw_now sw) (sw_listen sw) (sw_dial sw) node of
        (Some err, _) \<Rightarrow> Fatal (NotStarted err)
      | (None, n) \<Rightarrow>
          if fl_connectPeer fl = [] then Serving n (map_option (\<lambda>a. a\<lparr>ap_node := n\<rparr>) http)
          else case parseConnectPeers (fl_connectPeer fl) of
            Inl err \<Rightarrow> Fatal (InvalidPeers err)
          | Inr peers \<Rightarrow>
             (case connect_peers (sw_now sw) (sw_dial sw) (sw_meanwhile sw) peers n of
                (Some (peer, err), _) \<Rightarrow> Fatal (PeerFailed peer err)
              | (None, n) \<Rightarrow> Serving n (map_option (\<lambda>a. a\<lparr>ap_node := n\<rparr>) http)))"

text \<open>The health check prints the state and gives the exit code.\<close>

definition showHealthStatus :: "'d db_ops \<Rightarrow> proto_ops \<Rightarrow> ctx \<Rightarrow> 'd any_log mesh_node \<Rightarrow> 'd run_result" where
  "showHealthStatus db pm ctx node =
     (let health = GetHealth (any_ops db pm) ctx node in HealthShown health (if hs_Healthy health then 0 else 1))"

definition main_run :: "'d db_ops \<Rightarrow> proto_ops \<Rightarrow> server_flags \<Rightarrow> 'd server_world \<Rightarrow> 'd run_result" where
  "main_run db pm fl sw =
     (if fl_showVersion fl then VersionShown
      else let config = server_config fl in
        case applyEventLogConfig (fl_eventLogBackend fl) (fl_eventLogPath fl) of
          Inl err \<Rightarrow> Fatal (InvalidEventLog err)
        | Inr path \<Rightarrow>
           (case ValidateConfig config of
              Some err \<Rightarrow> Fatal (InvalidConfig err)
            | None \<Rightarrow>
               (case NewGRPCMeshNode (InMemoryLog NewInMemoryEventLog) (map_option (pebble_factory db (sw_disk sw)) path) (Some config) of
                  Inl err \<Rightarrow> Fatal (NotCreated err)
                | Inr node \<Rightarrow>
                    let http = (if fl_enableHTTP fl then Some (NewServer node (jwt_secret (sw_secret sw)) (fl_noAuth fl)) else None)
                    in if fl_showHealth fl
                       then showHealthStatus db pm (sw_ctx sw) node
                       else start_server fl sw http node)))"

text \<open>
  After a signal the HTTP server and then the node are stopped, errors being logged, and \<open>main\<close> returns, which closes the node.
  \<open>late\<close> is what the requests still in flight do between the two.
\<close>

definition shutdown ::
  "'l log_ops \<Rightarrow> ('l mesh_node \<Rightarrow> 'l mesh_node) \<Rightarrow> 'l mesh_node \<Rightarrow> mesh_error option \<times> 'l mesh_node" where
  "shutdown ops late node = NodeClose ops (late (snd (NodeStop node)))"

subsection \<open>The start-up summary\<close>

definition formatAddress :: "string \<Rightarrow> string" where
  "formatAddress addr =
     (if addr = [] then []
      else if HasPrefix addr ''[::]:'' then ''localhost:'' @ TrimPrefix addr ''[::]:''
      else addr)"

text \<open>
  The listening side of the HTTP server: \<open>listen\<close> is the answer of \<open>net.Listen\<close>, \<open>served\<close> the error with which \<open>Serve\<close>
  ends. \<open>main\<close> runs \<open>Start\<close> in a goroutine.
\<close>

record http_server =
  hsv_Addr :: string
  hsv_listener :: "string option"

definition new_http_server :: "string \<Rightarrow> http_server" where
  "new_http_server port = \<lparr>hsv_Addr = '':'' @ port, hsv_listener = None\<rparr>"

definition HTTPStart :: "(string \<Rightarrow> string + string) \<Rightarrow> string \<Rightarrow> http_server \<Rightarrow> string \<times> http_server" where
  "HTTPStart listen served s =
     (case listen (hsv_Addr s) of
        Inl err \<Rightarrow> (err, s)
      | Inr addr \<Rightarrow> (served, s\<lparr>hsv_listener := Some addr\<rparr>))"

definition HTTPGetListeningAddress :: "http_server \<Rightarrow> string" where
  "HTTPGetListeningAddress s = (case hsv_listener s of Some addr \<Rightarrow> addr | None \<Rightarrow> [])"

record ready_summary =
  rs_PeerListen :: string
  rs_HTTPAddress :: string
  rs_ConnectedPeers :: "string list"
  rs_AuthMode :: string
  rs_SeedNodes :: nat

text \<open>
  \<open>GetPeerLink\<close> wraps the link of the node, the only object of the heap \<open>[peerLink n]\<close>, in a \<open>composedPeerLink\<close> whose three
  references are to it; the type assertion in \<open>logNodeReady\<close> asks for the link itself.
\<close>

datatype complete_link = Composed composedPeerLink "peer_link list" | Direct peer_link

definition completePeerLink :: "'l mesh_node \<Rightarrow> complete_link" where
  "completePeerLink n = Composed \<lparr>cp_dataPlane = 0, cp_control = 0, cp_connections = 0\<rparr> [peerLink n]"

definition logNodeReady :: "'l mesh_node \<Rightarrow> http_server option \<Rightarrow> bool \<Rightarrow> nat \<Rightarrow> ready_summary" where
  "logNodeReady node httpServer noAuth seedNodes =
     (let (peerListenAddress, connectedPeers) =
            (case completePeerLink node of
               Composed _ _ \<Rightarrow> ([], [])
             | Direct g \<Rightarrow> (GetListeningAddress g, case GetConnectedPeerSummary g of Inr ps \<Rightarrow> ps | Inl _ \<Rightarrow> []))
      in \<lparr>rs_PeerListen = formatAddress peerListenAddress,
          rs_HTTPAddress = (case httpServer of None \<Rightarrow> [] | Some s \<Rightarrow> formatAddress (HTTPGetListeningAddress s)),
          rs_ConnectedPeers = connectedPeers,
          rs_AuthMode = (if noAuth then ''disabled'' else ''enabled''),
          rs_SeedNodes = seedNodes\<rparr>)"

text \<open>So the summary never shows the address of the peer listener or a connected peer.\<close>

lemma ready_summary_blind:
  "rs_PeerListen (logNodeReady node httpServer noAuth seedNodes) = []" "rs_ConnectedPeers (logNodeReady node httpServer noAuth seedNodes) = []"
  by (simp_all add: logNodeReady_def completePeerLink_def formatAddress_def)

text \<open>
  Nothing makes \<open>main\<close> wait for the goroutine: before it has listened the summary has no address of the HTTP server, and afterwards it
  has.
\<close>

lemma ready_summary_races:
  "rs_HTTPAddress (logNodeReady node (Some (new_http_server port)) noAuth seedNodes) = []"
  "listen ('':'' @ port) = Inr addr \<Longrightarrow>
   rs_HTTPAddress (logNodeReady node (Some (snd (HTTPStart listen served (new_http_server port)))) noAuth seedNodes) = formatAddress addr"
  by (simp_all add: logNodeReady_def completePeerLink_def new_http_server_def HTTPStart_def HTTPGetListeningAddress_def formatAddress_def)

subsection \<open>Parsing the peers\<close>

definition peer_text :: "string \<times> string \<Rightarrow> string" where
  "peer_text = (\<lambda>(i, a). i @ ''='' @ a)"

definition peer_ok :: "string \<times> string \<Rightarrow> bool" where
  "peer_ok = (\<lambda>(i, a). i \<noteq> [] \<and> a \<noteq> [] \<and> list_all graphic (i @ a) \<and> CHR ''='' \<notin> set i \<and> CHR '','' \<notin> set (i @ a))"

definition cliPeerNode :: "string \<times> string \<Rightarrow> peer_node" where
  "cliPeerNode = (\<lambda>(i, a). \<lparr>pn_ID = i, pn_Address = a, pn_IsHealthy = True\<rparr>)"

lemma peer_text_trim:
  assumes "peer_ok p"
  shows "TrimSpace (peer_text p) = peer_text p" "CHR '','' \<notin> set (peer_text p)"
proof -
  have "list_all graphic (peer_text p)"
    using assms by (auto simp: peer_ok_def peer_text_def list_all_iff graphic_def split: prod.splits)
  then show "TrimSpace (peer_text p) = peer_text p" by (rule TrimSpace_graphic)
qed (use assms in \<open>auto simp: peer_ok_def peer_text_def split: prod.splits\<close>)

lemma peers_loop_ok:
  "list_all peer_ok ps \<Longrightarrow> peers_loop acc (map peer_text ps) = Inr (acc @ map cliPeerNode ps)"
proof (induction ps arbitrary: acc)
  case (Cons p ps)
  obtain i a where p: "p = (i, a)" by (cases p)
  have ok: "i \<noteq> []" "a \<noteq> []" "list_all graphic i" "list_all graphic a" "CHR ''='' \<notin> set i"
    using Cons.prems by (auto simp: peer_ok_def p)
  have id: "takeWhile (\<lambda>c. c \<noteq> CHR ''='') (peer_text p) = i" "tl (dropWhile (\<lambda>c. c \<noteq> CHR ''='') (peer_text p)) = a"
    using ok(5) by (auto simp: peer_text_def p takeWhile_append dropWhile_append)
  have ne: "peer_text p \<noteq> []" "CHR ''='' \<in> set (peer_text p)"
    by (simp_all add: peer_text_def p)
  show ?case
    using Cons.IH [of "acc @ [cliPeerNode p]"] Cons.prems ok id ne peer_text_trim(1) [of p]
    by (simp add: TrimSpace_graphic Let_def cliPeerNode_def p)
qed simp

lemma parseConnectPeers_ok:
  assumes "ps \<noteq> []" "list_all peer_ok ps"
  shows "parseConnectPeers (join_with CHR '','' (map peer_text ps)) = Inr (map cliPeerNode ps)"
proof -
  have "list_all (\<lambda>s. CHR '','' \<notin> set s) (map peer_text ps)"
    using assms(2) peer_text_trim(2) by (auto simp: list_all_iff)
  then show ?thesis
    using assms split_join [of "map peer_text ps"] peers_loop_ok [of ps "[]"]
    by (simp add: parseConnectPeers_def)
qed

subsection \<open>Starting\<close>

definition steady :: "'l log_ops \<Rightarrow> ('l mesh_node \<Rightarrow> 'l mesh_node) \<Rightarrow> bool" where
  "steady ops f \<longleftrightarrow> (\<forall>n. (mesh_step ops)\<^sup>*\<^sup>* n (f n) \<and> mn_started (f n) = mn_started n \<and> mn_closed (f n) = mn_closed n
     \<and> mn_config (f n) = mn_config n \<and> fst ` set (connections (peerLink n)) \<subseteq> fst ` set (connections (peerLink (f n))))"

lemma Connect_value:
  assumes "\<not> pl_closed g"
  shows "fst (Connect now None p g) = None" "\<not> pl_closed (snd (Connect now None p g))"
    "insert (pn_ID p) (fst ` set (connections g)) \<subseteq> fst ` set (connections (snd (Connect now None p g)))"
proof -
  let ?c = "AList.update (pn_ID p) \<lparr>ci_node = p, ci_stream = None\<rparr> (connections g)"
  have reg: "connections (registerPeer now (pn_ID p) (g\<lparr>connections := ?c\<rparr>)) = ?c"
    "pl_closed (registerPeer now (pn_ID p) (g\<lparr>connections := ?c\<rparr>)) = pl_closed g"
    by (simp_all add: registerPeer_def ensure_send_queue_def ensure_control_queue_def ensure_metrics_def new_queue_def Let_def)
  have "pn_ID p \<in> fst ` set (connections g)" if "map_of (connections g) (pn_ID p) \<noteq> None"
    using that by (simp add: map_of_eq_None_iff)
  then show "fst (Connect now None p g) = None" "\<not> pl_closed (snd (Connect now None p g))"
    "insert (pn_ID p) (fst ` set (connections g)) \<subseteq> fst ` set (connections (snd (Connect now None p g)))"
    using assms reg by (auto simp: Connect_def Let_def dom_update)
qed

lemma connect_peers_value:
  assumes "reachable ops n" "\<not> mn_closed n" "list_all (\<lambda>p. dial (pn_Address p) = None) ps" "\<forall>k. steady ops (meanwhile k)"
  shows "\<exists>n'. connect_peers now dial meanwhile ps n = (None, n') \<and> reachable ops n' \<and> mn_started n' = mn_started n \<and> \<not> mn_closed n'
    \<and> mn_config n' = mn_config n \<and> pn_ID ` set ps \<union> fst ` set (connections (peerLink n)) \<subseteq> fst ` set (connections (peerLink n'))"
  using assms
proof (induction ps arbitrary: n meanwhile)
  case (Cons p ps)
  let ?n = "meanwhile 0 n"
  have s: "(mesh_step ops)\<^sup>*\<^sup>* n ?n" "mn_started ?n = mn_started n" "\<not> mn_closed ?n" "mn_config ?n = mn_config n"
    "fst ` set (connections (peerLink n)) \<subseteq> fst ` set (connections (peerLink ?n))"
    using Cons.prems(2,4) by (auto simp: steady_def)
  have grow: "A \<union> G \<subseteq> N \<Longrightarrow> insert x M \<subseteq> G \<Longrightarrow> L \<subseteq> M \<Longrightarrow> insert x A \<union> L \<subseteq> N" for A G N M L :: "string set" and x
    by auto
  have r: "reachable ops ?n"
    using reachable_steps [OF Cons.prems(1) s(1)] .
  then have "\<not> pl_closed (peerLink ?n)"
    using reachable_inv s(3) by (fastforce simp: node_inv_def node_open_def)
  with Connect_value [OF this, where now = now and p = p] obtain g where g: "Connect now None p (peerLink ?n) = (None, g)" "\<not> pl_closed g"
    "insert (pn_ID p) (fst ` set (connections (peerLink ?n))) \<subseteq> fst ` set (connections g)"
    by (cases "Connect now None p (peerLink ?n)") auto
  have "mesh_step ops ?n (?n\<lparr>peerLink := g\<rparr>)"
    using step_Connect [of "peerLink ?n" now None p] g \<open>\<not> pl_closed (peerLink ?n)\<close> by (intro mesh_step.step_link) simp_all
  then have r': "reachable ops (?n\<lparr>peerLink := g\<rparr>)"
    using reachable_steps [OF r] by blast
  have "\<exists>n'. connect_peers now dial (\<lambda>k. meanwhile (Suc k)) ps (?n\<lparr>peerLink := g\<rparr>) = (None, n') \<and> reachable ops n'
      \<and> mn_started n' = mn_started n \<and> \<not> mn_closed n' \<and> mn_config n' = mn_config n
      \<and> pn_ID ` set ps \<union> fst ` set (connections g) \<subseteq> fst ` set (connections (peerLink n'))"
    using Cons.IH [OF r', of "\<lambda>k. meanwhile (Suc k)"] Cons.prems(3,4) s(2-4) by simp
  then obtain n' where n': "connect_peers now dial (\<lambda>k. meanwhile (Suc k)) ps (?n\<lparr>peerLink := g\<rparr>) = (None, n')" "reachable ops n'"
      "mn_started n' = mn_started n" "\<not> mn_closed n'" "mn_config n' = mn_config n"
      "pn_ID ` set ps \<union> fst ` set (connections g) \<subseteq> fst ` set (connections (peerLink n'))"
    by blast
  moreover have "pn_ID ` set (p # ps) \<union> fst ` set (connections (peerLink n)) \<subseteq> fst ` set (connections (peerLink n'))"
    using grow [OF n'(6) g(3) s(5)] by simp
  moreover have "connect_peers now dial meanwhile (p # ps) n = (None, n')"
    using n'(1) g(1) Cons.prems(3) by (simp add: Let_def)
  ultimately show ?case by blast
qed auto

definition flags_ok :: "server_flags \<Rightarrow> bool" where
  "flags_ok fl \<longleftrightarrow> \<not> fl_showVersion fl \<and> \<not> fl_showHealth fl \<and> fl_nodeID fl \<noteq> [] \<and> fl_listenAddr fl \<noteq> [] \<and> fl_peerAddr fl \<noteq> []"

lemma server_config_ok:
  assumes "flags_ok fl"
  shows "ValidateConfig (server_config fl) = None" "mc_NodeID (server_config fl) = fl_nodeID fl"
  using assms
  by (simp_all add: flags_ok_def server_config_def WithBootstrapConfig_def WithPeerLinkConfig_def NewConfig_def ValidateConfig_def
      Validate_def SetDefaults_def)

lemma server_node:
  assumes "flags_ok fl" "f = None \<or> f = Some (Inr (Some l'))"
  obtains n where "NewGRPCMeshNode l f (Some (server_config fl)) = Inr n" "\<not> mn_closed n" "\<not> mn_started n" "\<not> pl_closed (peerLink n)"
    "GetNodeID n = fl_nodeID fl" "eventLog n = (if f = None then l else l')"
  using assms server_config_ok [OF assms(1)]
  by (auto simp: flags_ok_def NewGRPCMeshNode_def NewGRPCPeerLink_def server_config_def WithBootstrapConfig_def WithPeerLinkConfig_def
      NewConfig_def Validate_def SetDefaults_def Let_def GetNodeID_def)

lemma NodeStart_value:
  assumes "\<not> mn_closed n" "\<not> mn_started n" "\<not> pl_closed (peerLink n)"
  shows "\<exists>n'. NodeStart now (Inr addr) dial n = (None, n') \<and> mn_started n' \<and> \<not> mn_closed n' \<and> mn_config n' = mn_config n"
proof -
  have "pl_closed (connect_loop now dial ps g) = pl_closed g" for ps g
    using connect_loop_keeps [of g now dial ps] by (simp add: link_keeps_def)
  with assms show ?thesis
    by (auto simp: NodeStart_def Start_def StartHeartbeats_def runDiscovery_def Let_def split: option.splits)
qed

lemma start_server_value:
  assumes node: "NewGRPCMeshNode l f (Some c) = Inr n0" "\<not> mn_closed n0" "\<not> mn_started n0" "\<not> pl_closed (peerLink n0)"
    and listen: "sw_listen sw = Inr addr"
    and peers: "fl_connectPeer fl = join_with CHR '','' (map peer_text ps)" "list_all peer_ok ps" "list_all (\<lambda>(i, a). sw_dial sw a = None) ps"
    and rest: "\<forall>k. steady ops (sw_meanwhile sw k)"
  shows "\<exists>n. start_server fl sw http n0 = Serving n (map_option (\<lambda>a. a\<lparr>ap_node := n\<rparr>) http) \<and> reachable ops n
    \<and> mn_started n \<and> \<not> mn_closed n \<and> mn_config n = mn_config n0 \<and> fst ` set ps \<subseteq> fst ` set (connections (peerLink n))"
proof -
  obtain n where n: "NodeStart (sw_now sw) (Inr addr) (sw_dial sw) n0 = (None, n)" "mn_started n" "\<not> mn_closed n" "mn_config n = mn_config n0"
    using NodeStart_value [OF node(2-4)] by blast
  have "mesh_step ops n0 n"
    using step_start [of ops n0 "sw_now sw" "Inr addr" "sw_dial sw"] n(1) by simp
  then have r: "reachable ops n"
    using node(1) unfolding reachable_def by blast
  have ids: "pn_ID ` set (map cliPeerNode ps) = fst ` set ps" "list_all (\<lambda>p. sw_dial sw (pn_Address p) = None) (map cliPeerNode ps)"
    using peers(3) by (auto simp: cliPeerNode_def list_all_iff image_image split_beta)
  show ?thesis
  proof (cases "ps = []")
    case True
    with peers(1) n r listen show ?thesis by (simp add: start_server_def)
  next
    case False
    then have "fl_connectPeer fl \<noteq> []"
      using peers(1) by (cases ps; cases "tl ps") (auto simp: peer_text_def split: prod.splits)
    moreover obtain n' where "connect_peers (sw_now sw) (sw_dial sw) (sw_meanwhile sw) (map cliPeerNode ps) n = (None, n')" "reachable ops n'"
      "mn_started n' = mn_started n" "\<not> mn_closed n'" "mn_config n' = mn_config n"
      "pn_ID ` set (map cliPeerNode ps) \<union> fst ` set (connections (peerLink n)) \<subseteq> fst ` set (connections (peerLink n'))"
      using connect_peers_value [OF r n(3) ids(2) rest] by blast
    ultimately show ?thesis
      using n listen ids(1) parseConnectPeers_ok [OF False peers(2)] peers(1) by (auto simp: start_server_def)
  qed
qed

subsection \<open>Stopping\<close>

lemma shutdown_value:
  assumes "reachable ops n" "\<not> mn_closed n" "steady ops late"
  shows "reachable ops (snd (shutdown ops late n))
    \<and> (fst (op_Close ops (eventLog (late (snd (NodeStop n))))) = None \<longrightarrow>
         (\<exists>n'. shutdown ops late n = (None, n') \<and> mn_closed n' \<and> \<not> mn_started n' \<and> rt_closed (routingTable n') \<and> pl_closed (peerLink n')))"
proof -
  let ?n = "late (snd (NodeStop n))"
  have steps: "(mesh_step ops)\<^sup>*\<^sup>* n ?n"
    using assms(3) step_stop [of ops n] by (auto simp: steady_def intro: converse_rtranclp_into_rtranclp)
  have "\<not> mn_closed (snd (NodeStop n))"
    using assms(2) by (auto simp: NodeStop_def StopHeartbeats_def Stop_def Let_def split: option.splits prod.splits if_splits)
  then have opn: "\<not> mn_closed ?n"
    using assms(3) by (simp add: steady_def)
  have "reachable ops (snd (shutdown ops late n))"
    unfolding shutdown_def
    by (rule reachable_steps [OF reachable_steps [OF assms(1) steps]]) (blast intro: step_close)
  moreover obtain e l where l: "op_Close ops (eventLog ?n) = (e, l)" by (cases "op_Close ops (eventLog ?n)")
  moreover obtain g where "ClosePeerLink (peerLink ?n) = (None, g)" "pl_closed g"
    by (cases "pl_closed (peerLink ?n)") (auto simp: ClosePeerLink_def Let_def)
  moreover obtain rt where "CloseTable (routingTable ?n) = (None, rt)" "rt_closed rt"
    by (auto simp: CloseTable_def)
  ultimately show ?thesis
    using opn by (auto simp: shutdown_def NodeClose_def Let_def)
qed

end
