(* ===== verification/Http_Testing.thy ===== *)
theory Http_Testing
  imports Http_Gate Server_Command
begin

text \<open>
  The helpers of the HTTP tests (\<open>internal/httpapi/testutils.go\<close>): a started node with a server on it, tokens for it, and a recorder
  that copies what a stream writes into a channel. What the tests rely on: the node is in a state it can reach, and a token the
  helper makes is accepted by the server it was made for. \<open>t.Fatalf\<close> is \<open>None\<close>.
\<close>

subsection \<open>The server under test\<close>

record TestServerSetup =
  ts_Node :: "mem_log mesh_node"
  ts_Server :: "mem_log api"
  ts_Auth :: string

definition NewTestServerSetup :: "int \<Rightarrow> string + string \<Rightarrow> (string \<Rightarrow> string option) \<Rightarrow> TestServerSetup option" where
  "NewTestServerSetup now listen dial =
     (case NewGRPCMeshNode NewInMemoryEventLog None (Some (NewConfig ''test-node'' ''localhost:0'')) of
        Inl err \<Rightarrow> None
      | Inr node \<Rightarrow>
         (case NodeStart now listen dial node of
            (Some err, _) \<Rightarrow> None
          | (None, node) \<Rightarrow>
              let server = NewServer node ''test-secret-key'' False
              in Some \<lparr>ts_Node = node, ts_Server = server, ts_Auth = ap_secretKey server\<rparr>))"

definition CloseTestSetup :: "TestServerSetup \<Rightarrow> TestServerSetup" where
  "CloseTestSetup ts = ts\<lparr>ts_Node := snd (NodeClose mem_ops (ts_Node ts))\<rparr>"

definition GenerateTestToken :: "jwt_ops \<Rightarrow> int \<Rightarrow> TestServerSetup \<Rightarrow> string \<Rightarrow> bool \<Rightarrow> string option" where
  "GenerateTestToken jw now ts clientID isAdmin =
     (case GenerateToken jw (ts_Auth ts) now clientID isAdmin of Inl err \<Rightarrow> None | Inr (token, _) \<Rightarrow> Some token)"

lemma test_server_ready:
  "\<exists>s. NewTestServerSetup now (Inr addr) dial = Some s \<and> reachable mem_ops (ts_Node s) \<and> mn_started (ts_Node s)
     \<and> \<not> mn_closed (ts_Node s) \<and> ap_node (ts_Server s) = ts_Node s \<and> mn_closed (ts_Node (CloseTestSetup s))"
proof -
  obtain n where n: "NewGRPCMeshNode NewInMemoryEventLog None (Some (NewConfig ''test-node'' ''localhost:0'')) = Inr n"
    "\<not> mn_closed n" "\<not> mn_started n" "\<not> pl_closed (peerLink n)"
    by (simp add: NewGRPCMeshNode_def NewConfig_def ValidateConfig_def NewGRPCPeerLink_def Validate_def default_link_config_def SetDefaults_def)
  obtain n' where n': "NodeStart now (Inr addr) dial n = (None, n')" "mn_started n'" "\<not> mn_closed n'"
    using NodeStart_value [OF n(2-4)] by blast
  have "mesh_step mem_ops n n'"
    using step_start [of mem_ops n now "Inr addr" dial] n'(1) by simp
  then have "reachable mem_ops n'"
    using n(1) unfolding reachable_def by blast
  moreover have "mn_closed (snd (NodeClose mem_ops n'))"
    by (simp add: NodeClose_def Close_def CloseTable_def ClosePeerLink_def Let_def split: prod.splits option.splits if_splits)
  ultimately show ?thesis
    using n(1) n' by (simp add: NewTestServerSetup_def NewServer_def CloseTestSetup_def Let_def)
qed

lemma test_token_accepted:
  assumes lib: "jwt_library jw signed_with" and ts: "NewTestServerSetup start listen dial = Some s"
    and token: "GenerateTestToken jw now s c adm = Some token" "now \<le> now'" "now' + 1000000000 \<le> now + token_lifetime"
  shows "\<exists>claims. ValidateToken jw (ap_secretKey (ts_Server s)) now' token = Inr claims \<and> cl_ClientID claims = c \<and> cl_IsAdmin claims = adm"
proof -
  have "ts_Auth s = ap_secretKey (ts_Server s)"
    using ts by (auto simp: NewTestServerSetup_def Let_def split: sum.splits prod.splits option.splits)
  moreover obtain e where "GenerateToken jw (ts_Auth s) now c adm = Inr (token, e)"
    using token(1) by (auto simp: GenerateTestToken_def split: sum.splits)
  ultimately show ?thesis
    using jwt_library.generated_token_accepted(1) [OF lib _ token(2,3)] by simp
qed

subsection \<open>The streaming recorder\<close>

record streaming_recorder =
  sr_Data :: "string chan"
  sr_Done :: bool
  sr_Body :: string

definition NewStreamingRecorder :: streaming_recorder where
  "NewStreamingRecorder = \<lparr>sr_Data = make_chan 100, sr_Done = False, sr_Body = []\<rparr>"

definition RecorderWrite :: "string \<Rightarrow> streaming_recorder \<Rightarrow> streaming_recorder" where
  "RecorderWrite data r =
     (let r = (if length (ch_items (sr_Data r)) < ch_cap (sr_Data r)
               then r\<lparr>sr_Data := (sr_Data r)\<lparr>ch_items := ch_items (sr_Data r) @ [data]\<rparr>\<rparr> else r)
      in r\<lparr>sr_Body := sr_Body r @ data\<rparr>)"

text \<open>Closing the channel a second time panics.\<close>

definition RecorderClose :: "streaming_recorder \<Rightarrow> streaming_recorder option" where
  "RecorderClose r = (if sr_Done r then None else Some (r\<lparr>sr_Done := True\<rparr>))"

lemma recorder_writes:
  "sr_Body (fold RecorderWrite ws r) = sr_Body r @ concat ws"
  "ch_items (sr_Data (fold RecorderWrite ws r)) = ch_items (sr_Data r) @ take (ch_cap (sr_Data r) - length (ch_items (sr_Data r))) ws"
proof -
  show "sr_Body (fold RecorderWrite ws r) = sr_Body r @ concat ws"
    by (induction ws arbitrary: r) (simp_all add: RecorderWrite_def Let_def)
  show "ch_items (sr_Data (fold RecorderWrite ws r)) = ch_items (sr_Data r) @ take (ch_cap (sr_Data r) - length (ch_items (sr_Data r))) ws"
  proof (induction ws arbitrary: r)
    case (Cons w ws)
    show ?case
    proof (cases "length (ch_items (sr_Data r)) < ch_cap (sr_Data r)")
      case True
      then have "ch_cap (sr_Data r) - length (ch_items (sr_Data r)) = Suc (ch_cap (sr_Data r) - Suc (length (ch_items (sr_Data r))))"
        by simp
      with True Cons.IH [of "RecorderWrite w r"] show ?thesis by (simp add: RecorderWrite_def Let_def)
    next
      case False
      with Cons.IH [of "RecorderWrite w r"] show ?thesis by (simp add: RecorderWrite_def Let_def)
    qed
  qed simp
qed

end
